(* ===== verification/Prelude.thy ===== *)
theory Prelude
  imports Complex_Main "HOL-Library.AList" "HOL-Library.Multiset"
begin

text \<open>
  Shared vocabulary of the development: time stamps, JavaScript dates, the string helpers of the
  language that the gateway uses (\<open>split\<close>, \<open>join\<close>, \<open>startsWith\<close>, \<open>includes\<close>, decimal printing),
  the theorem collections, and the generic contract \<open>invariant_system\<close> of a component whose
  operations all preserve an invariant.

  Strings are \<^typ>\<open>string\<close> values: the bytes of the UTF-8 encoding. A time stamp is a number of
  milliseconds since the epoch. A \<open>Date\<close> object that may be invalid is a \<open>jsdate\<close>, with
  \<open>None\<close> for \<open>Invalid Date\<close> (whose time value is \<open>NaN\<close>).
\<close>

section \<open>Collections\<close>

named_theorems inv_intros \<open>preservation of component invariants\<close>
named_theorems op_simps \<open>observable effect of operations\<close>

section \<open>Time\<close>

type_synonym ms = int
type_synonym jsdate = "int option"

text \<open>Comparisons of a time value with a number: every comparison with \<open>NaN\<close> is false.\<close>

definition date_le :: "jsdate \<Rightarrow> ms \<Rightarrow> bool" where
  "date_le d n = (case d of None \<Rightarrow> False | Some t \<Rightarrow> t \<le> n)"

definition date_gt :: "jsdate \<Rightarrow> ms \<Rightarrow> bool" where
  "date_gt d n = (case d of None \<Rightarrow> False | Some t \<Rightarrow> t > n)"

lemma date_le_simps [simp]:
  "date_le None n = False" "date_le (Some t) n = (t \<le> n)"
  "date_gt None n = False" "date_gt (Some t) n = (n < t)"
  by (simp_all add: date_le_def date_gt_def)

lemma date_le_mono: "date_le d n \<Longrightarrow> n \<le> n' \<Longrightarrow> date_le d n'"
  by (cases d) auto

section \<open>Strings of the language\<close>

fun starts_with :: "string \<Rightarrow> string \<Rightarrow> bool" where
  "starts_with s [] = True"
| "starts_with [] (p # ps) = False"
| "starts_with (c # cs) (p # ps) = (c = p \<and> starts_with cs ps)"

fun str_includes :: "string \<Rightarrow> string \<Rightarrow> bool" where
  "str_includes [] p = (p = [])"
| "str_includes (c # cs) p = (starts_with (c # cs) p \<or> str_includes cs p)"

text \<open>\<open>s.split(sep)\<close> for a one-character separator: never the empty list.\<close>

fun str_split :: "char \<Rightarrow> string \<Rightarrow> string list" where
  "str_split sep [] = [[]]"
| "str_split sep (c # cs) =
     (if c = sep then [] # str_split sep cs
      else (case str_split sep cs of [] \<Rightarrow> [[c]] | w # ws \<Rightarrow> (c # w) # ws))"

fun str_join :: "string \<Rightarrow> string list \<Rightarrow> string" where
  "str_join sep [] = []"
| "str_join sep [w] = w"
| "str_join sep (w # v # ws) = w @ sep @ str_join sep (v # ws)"

lemma starts_with_append: "starts_with s p \<longleftrightarrow> (\<exists>r. s = p @ r)"
  by (induction s p rule: starts_with.induct) auto

lemma str_includes_append: "str_includes s p \<longleftrightarrow> (\<exists>l r. s = l @ p @ r)"
proof (induction s)
  case Nil
  show ?case by auto
next
  case (Cons c cs)
  show ?case
  proof
    assume "str_includes (c # cs) p"
    then consider "starts_with (c # cs) p" | "str_includes cs p" by auto
    then show "\<exists>l r. c # cs = l @ p @ r"
    proof cases
      case 1
      then show ?thesis by (metis append_Nil starts_with_append)
    next
      case 2
      with Cons.IH obtain l r where "cs = l @ p @ r" by blast
      then have "c # cs = (c # l) @ p @ r" by simp
      then show ?thesis by blast
    qed
  next
    assume "\<exists>l r. c # cs = l @ p @ r"
    then obtain l r where lr: "c # cs = l @ p @ r" by blast
    show "str_includes (c # cs) p"
    proof (cases l)
      case Nil
      with lr have "starts_with (c # cs) p" by (auto simp: starts_with_append)
      then show ?thesis by simp
    next
      case (Cons d l')
      with lr have "cs = l' @ p @ r" by simp
      with Cons.IH have "str_includes cs p" by blast
      then show ?thesis by simp
    qed
  qed
qed

lemma str_split_not_Nil [simp]: "str_split sep s \<noteq> []"
  by (induction s) (auto split: list.splits)

lemma str_split_nonempty [simp]: "0 < length (str_split sep s)"
  by (simp add: length_greater_0_conv)

lemma str_split_no_sep: "w \<in> set (str_split sep s) \<Longrightarrow> sep \<notin> set w"
  by (induction s arbitrary: w) (auto split: list.splits if_splits)

lemma str_split_Nil_iff: "sep \<notin> set s \<Longrightarrow> str_split sep s = [s]"
  by (induction s) auto

lemma str_split_append:
  "sep \<notin> set w \<Longrightarrow> str_split sep (w @ sep # s) = w # str_split sep s"
  by (induction w) auto

lemma str_join_split: "str_join [sep] (str_split sep s) = s"
proof (induction s)
  case Nil
  show ?case by simp
next
  case (Cons c cs)
  obtain w ws where split: "str_split sep cs = w # ws"
    by (cases "str_split sep cs") auto
  with Cons.IH show ?case by (cases ws) auto
qed

text \<open>Decimal printing of integers, as template literals and \<open>String(n)\<close> do it.\<close>

definition digit_char :: "nat \<Rightarrow> char" where
  "digit_char d = char_of (48 + d)"

fun nat_to_dec :: "nat \<Rightarrow> string" where
  "nat_to_dec n =
     (if n < 10 then [digit_char n] else nat_to_dec (n div 10) @ [digit_char (n mod 10)])"

declare nat_to_dec.simps [simp del]

definition int_to_dec :: "int \<Rightarrow> string" where
  "int_to_dec i = (if i < 0 then CHR ''-'' # nat_to_dec (nat (- i)) else nat_to_dec (nat i))"

section \<open>Lists\<close>

text \<open>The first element that satisfies a predicate (\<open>Array.prototype.find\<close>) is \<^const>\<open>List.find\<close>.\<close>

text \<open>Removing duplicates as \<open>[...new Set(xs)]\<close> does: the first occurrence stays.\<close>

definition js_unique :: "'a list \<Rightarrow> 'a list" where
  "js_unique xs = fold (\<lambda>x acc. if x \<in> set acc then acc else acc @ [x]) xs []"

lemma js_unique_aux:
  assumes "distinct acc"
  shows "set (fold (\<lambda>x acc. if x \<in> set acc then acc else acc @ [x]) xs acc) = set acc \<union> set xs
    \<and> distinct (fold (\<lambda>x acc. if x \<in> set acc then acc else acc @ [x]) xs acc)"
  using assms
proof (induction xs arbitrary: acc)
  case Nil
  then show ?case by simp
next
  case (Cons x xs)
  show ?case
  proof (cases "x \<in> set acc")
    case True
    with Cons show ?thesis by auto
  next
    case False
    with Cons.prems have "distinct (acc @ [x])" by simp
    from Cons.IH [OF this] False show ?thesis by auto
  qed
qed

lemma set_js_unique [simp]: "set (js_unique xs) = set xs"
  using js_unique_aux [of "[]" xs] by (simp add: js_unique_def)

lemma distinct_js_unique [simp]: "distinct (js_unique xs)"
  using js_unique_aux [of "[]" xs] by (simp add: js_unique_def)

section \<open>Components with an invariant\<close>

text \<open>
  The contract of a stateful component: every operation of it keeps its invariant. What a client
  gets from it is the invariant after any sequence of operations.
\<close>

locale invariant_system =
  fixes step :: "'s \<Rightarrow> 'op \<Rightarrow> 's"
    and good :: "'s \<Rightarrow> bool"
  assumes step_good: "good s \<Longrightarrow> good (step s x)"
begin

lemma run_good: "good s \<Longrightarrow> good (foldl step s xs)"
  by (induction xs arbitrary: s) (auto intro: step_good)

end

text \<open>
  A second contract: a property that, once true, no operation outside a forbidden set can undo.
\<close>

locale stable_property =
  fixes step :: "'s \<Rightarrow> 'op \<Rightarrow> 's"
    and keeps :: "'s \<Rightarrow> bool"
    and allowed :: "'op \<Rightarrow> bool"
  assumes step_stable: "keeps s \<Longrightarrow> allowed x \<Longrightarrow> keeps (step s x)"
begin

lemma run_stable: "keeps s \<Longrightarrow> list_all allowed xs \<Longrightarrow> keeps (foldl step s xs)"
  by (induction xs arbitrary: s) (auto intro: step_stable)

end

text \<open>
  The same for a component given by a step relation, whose steps are labelled with the event that
  takes place: \<open>runs\<close> is its reachability relation, and \<open>step_invariant\<close> the contract that every
  allowed event keeps a property.
\<close>

inductive runs :: "('s \<Rightarrow> 'e \<Rightarrow> 's \<Rightarrow> bool) \<Rightarrow> 's \<Rightarrow> 'e list \<Rightarrow> 's \<Rightarrow> bool" for step where
  runs_Nil: "runs step s [] s"
| runs_Cons: "step s e t \<Longrightarrow> runs step t es u \<Longrightarrow> runs step s (e # es) u"

inductive_cases runs_NilE: "runs step s [] t"
inductive_cases runs_ConsE: "runs step s (e # es) t"

inductive_simps runs_simps [simp]: "runs step s [] t" "runs step s (e # es) t"

lemma runs_append: "runs step s (xs @ ys) u \<longleftrightarrow> (\<exists>t. runs step s xs t \<and> runs step t ys u)"
  by (induction xs arbitrary: s) auto

locale step_invariant =
  fixes step :: "'s \<Rightarrow> 'e \<Rightarrow> 's \<Rightarrow> bool"
    and good :: "'s \<Rightarrow> bool"
    and allowed :: "'e \<Rightarrow> bool"
  assumes step_good: "good s \<Longrightarrow> allowed e \<Longrightarrow> step s e t \<Longrightarrow> good t"
begin

lemma run_good: "runs step s es t \<Longrightarrow> good s \<Longrightarrow> list_all allowed es \<Longrightarrow> good t"
  by (induction rule: runs.induct) (auto intro: step_good)

end

end
