(* ===== verification/JsMap.thy ===== *)
theory JsMap
  imports Prelude
begin

text \<open>
  The \<open>Map\<close> of the language, which every store of the gateway is built on: an association list
  with distinct keys in insertion order. Setting an existing key keeps its position, a new key goes
  to the end, iteration follows the list. The operations are those of \<open>HOL-Library.AList\<close>,
  so that its lemmas apply.

  \<open>keyed_store\<close> is the interface the components rely on (what a lookup returns after a
  \<open>set\<close> or a \<open>delete\<close>), with the lemmas on bulk deletion proved once inside it.
\<close>

type_synonym ('k, 'v) jsmap = "('k \<times> 'v) list"

abbreviation jm_get :: "('k, 'v) jsmap \<Rightarrow> 'k \<Rightarrow> 'v option" where
  "jm_get m k \<equiv> map_of m k"

abbreviation jm_set :: "('k, 'v) jsmap \<Rightarrow> 'k \<Rightarrow> 'v \<Rightarrow> ('k, 'v) jsmap" where
  "jm_set m k v \<equiv> AList.update k v m"

abbreviation jm_delete :: "('k, 'v) jsmap \<Rightarrow> 'k \<Rightarrow> ('k, 'v) jsmap" where
  "jm_delete m k \<equiv> AList.delete k m"

abbreviation jm_size :: "('k, 'v) jsmap \<Rightarrow> nat" where
  "jm_size m \<equiv> length m"

abbreviation jm_values :: "('k, 'v) jsmap \<Rightarrow> 'v list" where
  "jm_values m \<equiv> map snd m"

abbreviation jm_keys :: "('k, 'v) jsmap \<Rightarrow> 'k list" where
  "jm_keys m \<equiv> map fst m"

abbreviation jm_has :: "('k, 'v) jsmap \<Rightarrow> 'k \<Rightarrow> bool" where
  "jm_has m k \<equiv> map_of m k \<noteq> None"

abbreviation jm_wf :: "('k, 'v) jsmap \<Rightarrow> bool" where
  "jm_wf m \<equiv> distinct (map fst m)"

section \<open>The interface of a keyed store\<close>

locale keyed_store =
  fixes get :: "'m \<Rightarrow> 'k \<Rightarrow> 'v option"
    and put :: "'m \<Rightarrow> 'k \<Rightarrow> 'v \<Rightarrow> 'm"
    and del :: "'m \<Rightarrow> 'k \<Rightarrow> 'm"
    and wf :: "'m \<Rightarrow> bool"
  assumes get_put: "get (put m k v) k' = (if k' = k then Some v else get m k')"
    and get_del: "get (del m k) k' = (if k' = k then None else get m k')"
    and wf_put: "wf m \<Longrightarrow> wf (put m k v)"
    and wf_del: "wf m \<Longrightarrow> wf (del m k)"
begin

lemma get_del_all: "get (foldl del m ks) k = (if k \<in> set ks then None else get m k)"
  by (induction ks arbitrary: m) (auto simp: get_del)

lemma wf_del_all: "wf m \<Longrightarrow> wf (foldl del m ks)"
  by (induction ks arbitrary: m) (auto simp: wf_del)

lemma get_put_all:
  "get (foldl (\<lambda>m kv. put m (fst kv) (snd kv)) m kvs) k =
     (case map_of (rev kvs) k of Some v \<Rightarrow> Some v | None \<Rightarrow> get m k)"
proof (induction kvs rule: rev_induct)
  case Nil
  show ?case by simp
next
  case (snoc kv kvs)
  then show ?case by (cases kv) (simp add: get_put)
qed

lemma wf_put_all: "wf m \<Longrightarrow> wf (foldl (\<lambda>m kv. put m (fst kv) (snd kv)) m kvs)"
  by (induction kvs arbitrary: m) (auto simp: wf_put)

end

interpretation jm: keyed_store jm_get jm_set jm_delete jm_wf
proof unfold_locales
  fix m :: "('k, 'v) jsmap" and k k' v
  show "jm_get (jm_set m k v) k' = (if k' = k then Some v else jm_get m k')"
    by (simp add: update_conv')
  show "jm_get (jm_delete m k) k' = (if k' = k then None else jm_get m k')"
    by (simp add: delete_conv')
  show "jm_wf m \<Longrightarrow> jm_wf (jm_set m k v)"
    by (rule distinct_update)
  show "jm_wf m \<Longrightarrow> jm_wf (jm_delete m k)"
    by (rule distinct_delete)
qed

lemmas jm_rules = jm.get_put jm.get_del

section \<open>Size and iteration\<close>

lemma jm_size_set:
  "jm_size (jm_set m k v) = (if jm_has m k then jm_size m else Suc (jm_size m))"
  by (induction m) auto

lemma jm_size_set_le: "jm_size (jm_set m k v) \<le> Suc (jm_size m)"
  by (simp add: jm_size_set)

lemma jm_size_delete_le: "jm_size (jm_delete m k) \<le> jm_size m"
  by (simp add: AList.delete_eq)

lemma jm_size_delete_less: "jm_has m k \<Longrightarrow> jm_size (jm_delete m k) < jm_size m"
proof (induction m)
  case Nil
  then show ?case by simp
next
  case (Cons kv m)
  show ?case
  proof (cases "fst kv = k")
    case True
    have "jm_size (jm_delete m k) \<le> jm_size m" by (rule jm_size_delete_le)
    with True show ?thesis by (cases kv) (simp add: AList.delete_eq less_Suc_eq_le)
  next
    case False
    with Cons show ?thesis by (cases kv) (auto simp: AList.delete_eq split: if_splits)
  qed
qed

lemma jm_has_delete: "jm_has (jm_delete m k) k' \<longleftrightarrow> k' \<noteq> k \<and> jm_has m k'"
  by (simp add: jm.get_del)

lemma jm_delete_absent: "\<not> jm_has m k \<Longrightarrow> jm_delete m k = m"
  by (induction m) (auto simp: AList.delete_eq split: if_splits)

lemma jm_size_delete: "jm_wf m \<Longrightarrow> jm_has m k \<Longrightarrow> Suc (jm_size (jm_delete m k)) = jm_size m"
proof (induction m)
  case Nil
  then show ?case by simp
next
  case (Cons kv m)
  obtain a b where kv: "kv = (a, b)" by (cases kv)
  show ?case
  proof (cases "a = k")
    case True
    with Cons.prems kv have "\<not> jm_has m k" by (simp add: map_of_eq_None_iff)
    then have "jm_delete m k = m" by (rule jm_delete_absent)
    with True kv show ?thesis by simp
  next
    case False
    with Cons kv show ?thesis by (simp add: AList.delete_eq)
  qed
qed

lemma jm_size_delete_all:
  assumes "jm_wf m" and "distinct ks" and "set ks \<subseteq> set (jm_keys m)"
  shows "jm_size (foldl jm_delete m ks) + length ks = jm_size m"
  using assms
proof (induction ks arbitrary: m)
  case Nil
  then show ?case by simp
next
  case (Cons k ks)
  have wf: "jm_wf (jm_delete m k)" using Cons.prems by (simp add: jm.wf_del)
  have sub: "set ks \<subseteq> set (jm_keys (jm_delete m k))"
    using Cons.prems by (auto simp: AList.delete_keys)
  have "jm_has m k"
    using Cons.prems by (simp add: map_of_eq_None_iff)
  with Cons.prems have "Suc (jm_size (jm_delete m k)) = jm_size m"
    by (simp add: jm_size_delete)
  with Cons.IH [OF wf _ sub] Cons.prems show ?case by simp
qed

lemma jm_size_delete_all_le: "jm_size (foldl jm_delete m ks) \<le> jm_size m"
proof (induction ks arbitrary: m)
  case Nil
  show ?case by simp
next
  case (Cons k ks)
  have "jm_size (foldl jm_delete (jm_delete m k) ks) \<le> jm_size (jm_delete m k)"
    by (rule Cons.IH)
  also have "\<dots> \<le> jm_size m" by (rule jm_size_delete_le)
  finally show ?case by simp
qed

lemma jm_delete_all_filter: "foldl jm_delete m ks = filter (\<lambda>kv. fst kv \<notin> set ks) m"
proof (induction ks arbitrary: m)
  case Nil
  show ?case by simp
next
  case (Cons k ks)
  have "foldl jm_delete m (k # ks) = filter (\<lambda>kv. fst kv \<notin> set ks) (jm_delete m k)"
    by (simp add: Cons.IH)
  also have "\<dots> = filter (\<lambda>kv. fst kv \<notin> set (k # ks)) m"
    by (auto simp: AList.delete_eq case_prod_unfold filter_filter intro!: filter_cong)
  finally show ?case .
qed

text \<open>Deleting, while iterating, the entries that satisfy a test is filtering them out.\<close>

lemma jm_delete_matching:
  assumes "jm_wf m"
  shows "foldl jm_delete m (map fst (filter P m)) = filter (\<lambda>kv. \<not> P kv) m"
proof -
  have "\<And>kv. kv \<in> set m \<Longrightarrow> fst kv \<notin> fst ` set (filter P m) \<longleftrightarrow> \<not> P kv"
    using assms by (auto simp: distinct_map inj_on_def)
  then show ?thesis
    by (auto simp: jm_delete_all_filter intro!: filter_cong)
qed

lemma jm_get_filter:
  assumes "jm_wf m"
  shows "jm_get (filter (\<lambda>kv. P (snd kv)) m) k =
    (case jm_get m k of None \<Rightarrow> None | Some v \<Rightarrow> if P v then Some v else None)"
  using assms
proof (induction m)
  case Nil
  show ?case by simp
next
  case (Cons kv m)
  obtain a b where kv: "kv = (a, b)" by (cases kv)
  have "jm_get m a = None" if "a \<notin> fst ` set m"
    using that by (simp add: map_of_eq_None_iff)
  with Cons kv show ?case by (auto split: option.splits)
qed

lemma jm_wf_filter: "jm_wf m \<Longrightarrow> jm_wf (filter P m)"
  by (simp add: distinct_map_filter)

lemma jm_in_set_iff: "jm_wf m \<Longrightarrow> (k, v) \<in> set m \<longleftrightarrow> jm_get m k = Some v"
  by (simp add: map_of_eq_Some_iff)

lemma jm_value_iff: "jm_wf m \<Longrightarrow> v \<in> set (jm_values m) \<longleftrightarrow> (\<exists>k. jm_get m k = Some v)"
  by (force simp: jm_in_set_iff [symmetric])

lemma jm_set_in: "kv \<in> set (jm_set m k v) \<Longrightarrow> kv = (k, v) \<or> kv \<in> set m"
  by (induction m) (auto split: if_splits)

lemma jm_delete_in: "kv \<in> set (jm_delete m k) \<longleftrightarrow> kv \<in> set m \<and> fst kv \<noteq> k"
  by (auto simp: AList.delete_eq)

lemma jm_set_new: "\<not> jm_has m k \<Longrightarrow> jm_set m k v = m @ [(k, v)]"
  by (induction m) (auto split: if_splits)

end
