(* ===== verification/JsValue.thy ===== *)
theory JsValue
  imports JsMap
begin

text \<open>
  The dynamic values of the language that reach the gateway's code typed as \<open>unknown\<close> or \<open>any\<close>
  (decoded JSON, evaluation contexts, unvalidated policies), and the operators the code applies to
  them: truthiness, \<open>===\<close>, property reads, and the relational operators with their coercions.

  Numbers are exact rationals (the decimal literals of the source and of JSON); \<open>NaN\<close> and the
  infinities exist as results of coercions only. Strings compare by bytes. Members that an object
  inherits from its prototype (\<open>constructor\<close>, \<open>toString\<close>) are not part of the model: reading
  one gives \<open>undefined\<close>.
\<close>

section \<open>Values\<close>

datatype jsval =
    JUndef
  | JNull
  | JBool bool
  | JNum rat
  | JStr string
  | JDate jsdate
  | JArr "jsval list"
  | JObj "(string \<times> jsval) list"

fun truthy :: "jsval \<Rightarrow> bool" where
  "truthy JUndef = False"
| "truthy JNull = False"
| "truthy (JBool b) = b"
| "truthy (JNum n) = (n \<noteq> 0)"
| "truthy (JStr s) = (s \<noteq> [])"
| "truthy (JDate d) = True"
| "truthy (JArr vs) = True"
| "truthy (JObj ms) = True"

fun is_object_type :: "jsval \<Rightarrow> bool" where \<comment> \<open>\<open>typeof v === 'object'\<close>\<close>
  "is_object_type JNull = True"
| "is_object_type (JDate d) = True"
| "is_object_type (JArr vs) = True"
| "is_object_type (JObj ms) = True"
| "is_object_type v = False"

fun is_string :: "jsval \<Rightarrow> bool" where
  "is_string (JStr s) = True"
| "is_string v = False"

fun is_number :: "jsval \<Rightarrow> bool" where
  "is_number (JNum n) = True"
| "is_number v = False"

fun is_array :: "jsval \<Rightarrow> bool" where
  "is_array (JArr vs) = True"
| "is_array v = False"

text \<open>
  \<open>===\<close> between values of different origin: primitives by value, objects by identity, hence
  never equal.
\<close>

fun strict_eq :: "jsval \<Rightarrow> jsval \<Rightarrow> bool" where
  "strict_eq JUndef JUndef = True"
| "strict_eq JNull JNull = True"
| "strict_eq (JBool a) (JBool b) = (a = b)"
| "strict_eq (JNum a) (JNum b) = (a = b)"
| "strict_eq (JStr a) (JStr b) = (a = b)"
| "strict_eq v w = False"

lemma strict_eq_imp_eq: "strict_eq v w \<Longrightarrow> v = w"
  by (induction v w rule: strict_eq.induct) auto

definition arr_includes :: "jsval list \<Rightarrow> jsval \<Rightarrow> bool" where
  "arr_includes vs v = list_ex (\<lambda>w. strict_eq w v) vs"

section \<open>Property reads\<close>

text \<open>An array index in canonical decimal form.\<close>

definition is_digit :: "char \<Rightarrow> bool" where
  "is_digit c = (let n = of_char c :: nat in 48 \<le> n \<and> n \<le> 57)"

definition digit_val :: "char \<Rightarrow> nat" where
  "digit_val c = of_char c - 48"

definition dec_value :: "string \<Rightarrow> nat" where
  "dec_value s = foldl (\<lambda>n c. 10 * n + digit_val c) 0 s"

definition array_index :: "string \<Rightarrow> nat option" where
  "array_index s =
     (if s \<noteq> [] \<and> list_all is_digit s \<and> (s = ''0'' \<or> hd s \<noteq> CHR ''0'') then Some (dec_value s)
      else None)"

fun get_prop :: "jsval \<Rightarrow> string \<Rightarrow> jsval" where
  "get_prop (JObj ms) k = (case map_of ms k of None \<Rightarrow> JUndef | Some v \<Rightarrow> v)"
| "get_prop (JArr vs) k =
     (if k = ''length'' then JNum (of_nat (length vs))
      else case array_index k of
        None \<Rightarrow> JUndef
      | Some i \<Rightarrow> if i < length vs then vs ! i else JUndef)"
| "get_prop v k = JUndef"

section \<open>Numbers and strings\<close>

datatype jsnum = NotANumber | NegInf | Fin rat | PosInf

definition rat_is_int :: "rat \<Rightarrow> bool" where
  "rat_is_int r = (snd (quotient_of r) = 1)"

definition rat_floor :: "rat \<Rightarrow> int" where
  "rat_floor r = fst (quotient_of r) div snd (quotient_of r)"

text \<open>The digits of a fraction below one, by long division; at most 20 of them.\<close>

fun frac_digits :: "nat \<Rightarrow> int \<Rightarrow> int \<Rightarrow> string" where
  "frac_digits 0 num den = []"
| "frac_digits (Suc n) num den =
     (if num = 0 then []
      else digit_char (nat (10 * num div den)) # frac_digits n (10 * num mod den) den)"

definition num_to_string :: "rat \<Rightarrow> string" where
  "num_to_string r =
     (let (a, b) = quotient_of \<bar>r\<bar>;
          body = nat_to_dec (nat (a div b)) @
                 (if b = 1 then [] else CHR ''.'' # frac_digits 20 (a mod b) b)
      in if r < 0 then CHR ''-'' # body else body)"

lemma rat_is_int_of_int [simp]: "rat_is_int (of_int i)"
  by (simp add: rat_is_int_def quotient_of_int)

definition span_digits :: "string \<Rightarrow> string \<times> string" where
  "span_digits s = (takeWhile is_digit s, dropWhile is_digit s)"

definition is_ws :: "char \<Rightarrow> bool" where
  "is_ws c = (c \<in> {CHR 0x20, CHR 0x09, CHR 0x0A, CHR 0x0D})"

text \<open>White space that \<open>trim\<close> and \<open>Number\<close> ignore; the ones outside ASCII are not modelled.\<close>

definition is_space :: "char \<Rightarrow> bool" where
  "is_space c = (c \<in> {CHR 0x20, CHR 0x09, CHR 0x0A, CHR 0x0B, CHR 0x0C, CHR 0x0D})"

definition trim :: "string \<Rightarrow> string" where
  "trim s = rev (dropWhile is_space (rev (dropWhile is_space s)))"

text \<open>The exponent part of a numeral: its value and the rest; a malformed one is not consumed.\<close>

definition exp_part :: "string \<Rightarrow> (int \<times> string) option" where
  "exp_part s =
     (case s of
        [] \<Rightarrow> Some (0, [])
      | c # cs \<Rightarrow>
          if c = CHR ''e'' \<or> c = CHR ''E'' then
            (let (neg, ds) = (case cs of [] \<Rightarrow> (False, cs)
                 | d # es \<Rightarrow> if d = CHR ''-'' then (True, es)
                             else if d = CHR ''+'' then (False, es) else (False, cs));
                 (n, r) = span_digits ds
             in if n = [] then None
                else Some (if neg then - int (dec_value n) else int (dec_value n), r))
          else Some (0, s))"

definition scale10 :: "rat \<Rightarrow> int \<Rightarrow> rat" where
  "scale10 r e = (if 0 \<le> e then r * 10 ^ nat e else r / 10 ^ nat (- e))"

definition decimal :: "string \<Rightarrow> string \<Rightarrow> int \<Rightarrow> rat" where
  "decimal ip fp e = scale10 (of_nat (dec_value (ip @ fp))) (e - int (length fp))"

text \<open>\<open>Number(s)\<close> for decimal numerals and \<open>Infinity\<close>; every other text is \<open>NaN\<close>.\<close>

definition unsigned_to_number :: "string \<Rightarrow> jsnum" where
  "unsigned_to_number s =
     (if s = ''Infinity'' then PosInf
      else
        (let (ip, r) = span_digits s;
             (fp, r') = (case r of [] \<Rightarrow> ([], r)
               | c # cs \<Rightarrow> if c = CHR ''.'' then span_digits cs else ([], r))
         in if ip = [] \<and> fp = [] then NotANumber
            else case exp_part r' of
                Some (e, []) \<Rightarrow> Fin (decimal ip fp e)
              | _ \<Rightarrow> NotANumber))"

fun neg_num :: "jsnum \<Rightarrow> jsnum" where
  "neg_num (Fin r) = Fin (- r)"
| "neg_num PosInf = NegInf"
| "neg_num NegInf = PosInf"
| "neg_num NotANumber = NotANumber"

definition string_to_number :: "string \<Rightarrow> jsnum" where
  "string_to_number s =
     (case trim s of
        [] \<Rightarrow> Fin 0
      | c # cs \<Rightarrow>
          if c = CHR ''-'' then neg_num (unsigned_to_number cs)
          else if c = CHR ''+'' then unsigned_to_number cs
          else unsigned_to_number (c # cs))"

fun js_to_string :: "jsval \<Rightarrow> string" where
  "js_to_string JUndef = ''undefined''"
| "js_to_string JNull = ''null''"
| "js_to_string (JBool b) = (if b then ''true'' else ''false'')"
| "js_to_string (JNum n) = num_to_string n"
| "js_to_string (JStr s) = s"
| "js_to_string (JDate d) = ''[object Date]''"
| "js_to_string (JObj ms) = ''[object Object]''"
| "js_to_string (JArr vs) =
     str_join '','' (map (\<lambda>v. if v = JUndef \<or> v = JNull then [] else js_to_string v) vs)"

text \<open>\<open>ToPrimitive\<close> with hint number: dates give their time value, arrays and objects a string.\<close>

datatype jsprim = PNum jsnum | PText string

fun to_primitive :: "jsval \<Rightarrow> jsprim" where
  "to_primitive JUndef = PNum NotANumber"
| "to_primitive JNull = PNum (Fin 0)"
| "to_primitive (JBool b) = PNum (Fin (if b then 1 else 0))"
| "to_primitive (JNum n) = PNum (Fin n)"
| "to_primitive (JStr s) = PText s"
| "to_primitive (JDate d) =
     PNum (case d of None \<Rightarrow> NotANumber | Some t \<Rightarrow> Fin (of_int t))"
| "to_primitive (JArr vs) = PText (js_to_string (JArr vs))"
| "to_primitive (JObj ms) = PText (js_to_string (JObj ms))"

fun prim_to_number :: "jsprim \<Rightarrow> jsnum" where
  "prim_to_number (PNum n) = n"
| "prim_to_number (PText s) = string_to_number s"

fun num_lt :: "jsnum \<Rightarrow> jsnum \<Rightarrow> bool option" where
  "num_lt NotANumber m = None"
| "num_lt n NotANumber = None"
| "num_lt NegInf m = Some (m \<noteq> NegInf)"
| "num_lt n NegInf = Some False"
| "num_lt PosInf m = Some False"
| "num_lt n PosInf = Some True"
| "num_lt (Fin a) (Fin b) = Some (a < b)"

fun str_lt :: "string \<Rightarrow> string \<Rightarrow> bool" where
  "str_lt s [] = False"
| "str_lt [] (d # ds) = True"
| "str_lt (c # cs) (d # ds) =
     ((of_char c :: nat) < of_char d \<or> c = d \<and> str_lt cs ds)"

text \<open>\<open>IsLessThan\<close>: \<open>None\<close> when an operand is \<open>NaN\<close>. \<open>a > b\<close> is \<open>b < a\<close>; \<open>a <= b\<close> is
  the answer false (not undefined) to \<open>b < a\<close>.\<close>

definition js_less_than :: "jsval \<Rightarrow> jsval \<Rightarrow> bool option" where
  "js_less_than x y =
     (case (to_primitive x, to_primitive y) of
        (PText a, PText b) \<Rightarrow> Some (str_lt a b)
      | (p, q) \<Rightarrow> num_lt (prim_to_number p) (prim_to_number q))"

definition js_lt :: "jsval \<Rightarrow> jsval \<Rightarrow> bool" where
  "js_lt x y = (js_less_than x y = Some True)"

definition js_gt :: "jsval \<Rightarrow> jsval \<Rightarrow> bool" where
  "js_gt x y = (js_less_than y x = Some True)"

definition js_le :: "jsval \<Rightarrow> jsval \<Rightarrow> bool" where
  "js_le x y = (js_less_than y x = Some False)"

definition js_ge :: "jsval \<Rightarrow> jsval \<Rightarrow> bool" where
  "js_ge x y = (js_less_than x y = Some False)"

lemma js_compare_numbers [simp]:
  "js_lt (JNum a) (JNum b) = (a < b)" "js_gt (JNum a) (JNum b) = (b < a)"
  "js_le (JNum a) (JNum b) = (a \<le> b)" "js_ge (JNum a) (JNum b) = (b \<le> a)"
  by (auto simp: js_lt_def js_gt_def js_le_def js_ge_def js_less_than_def)

end
