(* ===== verification/IsoTime.thy ===== *)
theory IsoTime
  imports Prelude
begin

text \<open>
  The two conversions of the language's \<open>Date\<close> that the gateway uses wherever it stores or sends
  a time: \<open>toISOString\<close> and \<open>new Date(string)\<close> on the strings that \<open>toISOString\<close> makes. Year,
  month and day follow the ECMAScript definitions (\<open>DayFromYear\<close>, \<open>YearFromTime\<close>,
  \<open>MonthFromTime\<close>). A string in another format is read as an invalid date: the other formats
  an engine accepts are implementation-defined and the gateway writes none of them.
\<close>

section \<open>Calendar\<close>

definition msPerDay :: int where
  "msPerDay = 86400000"

definition dayFromYear :: "int \<Rightarrow> int" where
  "dayFromYear y =
     365 * (y - 1970) + (y - 1969) div 4 - (y - 1901) div 100 + (y - 1601) div 400"

lemma div_step: "(0::int) < k \<Longrightarrow> a div k \<le> (a + 1) div k \<and> (a + 1) div k \<le> a div k + 1"
proof -
  assume k: "0 < k"
  have "(a + 1) div k \<le> (a + k) div k" using k by (intro zdiv_mono1) simp_all
  also have "\<dots> = a div k + 1" using k by simp
  finally show ?thesis using k by (simp add: zdiv_mono1)
qed

lemma dayFromYear_step:
  "dayFromYear y + 364 \<le> dayFromYear (y + 1) \<and> dayFromYear (y + 1) \<le> dayFromYear y + 367"
  using div_step [of 4 "y - 1969"] div_step [of 100 "y - 1901"] div_step [of 400 "y - 1601"]
  by (simp add: dayFromYear_def algebra_simps)

lemma dayFromYear_less: "dayFromYear y < dayFromYear (y + 1)"
  using dayFromYear_step [of y] by linarith

text \<open>The largest year, from a given one on, that starts on or before the day.\<close>

function year_search :: "int \<Rightarrow> int \<Rightarrow> int" where
  "year_search y d = (if dayFromYear (y + 1) \<le> d then year_search (y + 1) d else y)"
  by pat_completeness auto
termination
proof (relation "measure (\<lambda>(y, d). nat (d - dayFromYear y))")
  fix y d assume "dayFromYear (y + 1) \<le> d"
  with dayFromYear_less [of y] show "((y + 1, d), (y, d)) \<in> measure (\<lambda>(y, d). nat (d - dayFromYear y))"
    by simp
qed simp

declare year_search.simps [simp del]

definition yearFromDay :: "int \<Rightarrow> int" where
  "yearFromDay d = year_search (1970 + (if d < 0 then d div 364 else d div 367)) d"

lemma year_search_bounds:
  "dayFromYear y \<le> d \<Longrightarrow>
   dayFromYear (year_search y d) \<le> d \<and> d < dayFromYear (year_search y d + 1)"
proof (induction y d rule: year_search.induct)
  case (1 y d)
  then show ?case
    by (cases "dayFromYear (y + 1) \<le> d") (auto simp: year_search.simps [of y d])
qed

lemma dayFromYear_upper: "dayFromYear (1970 + int k) \<le> 367 * int k"
proof (induction k)
  case 0
  show ?case by (simp add: dayFromYear_def)
next
  case (Suc k)
  then show ?case using dayFromYear_step [of "1970 + int k"] by (simp add: algebra_simps)
qed

lemma dayFromYear_lower: "dayFromYear (1970 - int k) \<le> - (364 * int k)"
proof (induction k)
  case 0
  show ?case by (simp add: dayFromYear_def)
next
  case (Suc k)
  then show ?case
    using dayFromYear_step [of "1970 - int (Suc k)"] by (simp add: algebra_simps)
qed

lemma yearFromDay_bounds:
  "dayFromYear (yearFromDay d) \<le> d \<and> d < dayFromYear (yearFromDay d + 1)"
proof -
  have "dayFromYear (1970 + (if d < 0 then d div 364 else d div 367)) \<le> d"
  proof (cases "d < 0")
    case True
    then have "d div 364 < 0" by (simp add: neg_imp_zdiv_neg_iff)
    then have k: "1970 + d div 364 = 1970 - int (nat (- (d div 364)))" by simp
    have "dayFromYear (1970 + d div 364) \<le> - (364 * int (nat (- (d div 364))))"
      unfolding k by (rule dayFromYear_lower)
    also have "\<dots> = 364 * (d div 364)" using \<open>d div 364 < 0\<close> by simp
    also have "\<dots> \<le> d" using div_mult_mod_eq [of d 364] pos_mod_sign [of 364 d] by linarith
    finally show ?thesis using True by simp
  next
    case False
    then have "0 \<le> d div 367" by (simp add: pos_imp_zdiv_nonneg_iff)
    then have k: "1970 + d div 367 = 1970 + int (nat (d div 367))" by simp
    have "dayFromYear (1970 + d div 367) \<le> 367 * int (nat (d div 367))"
      unfolding k by (rule dayFromYear_upper)
    also have "\<dots> = 367 * (d div 367)" using \<open>0 \<le> d div 367\<close> by simp
    also have "\<dots> \<le> d" using div_mult_mod_eq [of d 367] pos_mod_sign [of 367 d] by linarith
    finally show ?thesis using False by simp
  qed
  then show ?thesis unfolding yearFromDay_def by (rule year_search_bounds)
qed

definition leap_days :: "int \<Rightarrow> int" where
  "leap_days y = dayFromYear (y + 1) - dayFromYear y - 365"

text \<open>The first day of each month, counted from the start of the year; \<open>l\<close> is 1 in leap years.\<close>

definition month_starts :: "int \<Rightarrow> int list" where
  "month_starts l =
     [0, 31, 59 + l, 90 + l, 120 + l, 151 + l, 181 + l, 212 + l, 243 + l, 273 + l, 304 + l, 334 + l]"

definition monthFromDay :: "int \<Rightarrow> int \<Rightarrow> nat" where
  "monthFromDay l dy =
     (if dy < 31 then 0 else if dy < 59 + l then 1 else if dy < 90 + l then 2
      else if dy < 120 + l then 3 else if dy < 151 + l then 4 else if dy < 181 + l then 5
      else if dy < 212 + l then 6 else if dy < 243 + l then 7 else if dy < 273 + l then 8
      else if dy < 304 + l then 9 else if dy < 334 + l then 10 else 11)"

definition monthStart :: "int \<Rightarrow> nat \<Rightarrow> int" where
  "monthStart l m = month_starts l ! m"

record dateFields =
  df_year :: int
  df_month :: int
  df_day :: int
  df_hour :: int
  df_min :: int
  df_sec :: int
  df_ms :: int

definition fields_of_time :: "ms \<Rightarrow> dateFields" where
  "fields_of_time t =
     (let d = t div msPerDay; r = t mod msPerDay;
          y = yearFromDay d; dy = d - dayFromYear y; m = monthFromDay (leap_days y) dy
      in \<lparr>df_year = y, df_month = int m + 1, df_day = dy - monthStart (leap_days y) m + 1,
          df_hour = r div 3600000, df_min = (r div 60000) mod 60,
          df_sec = (r div 1000) mod 60, df_ms = r mod 1000\<rparr>)"

definition time_of_fields :: "dateFields \<Rightarrow> ms" where
  "time_of_fields f =
     (dayFromYear (df_year f) + monthStart (leap_days (df_year f)) (nat (df_month f - 1))
        + df_day f - 1) * msPerDay
     + df_hour f * 3600000 + df_min f * 60000 + df_sec f * 1000 + df_ms f"

lemma month_lt: "monthFromDay l dy < 12"
  by (simp add: monthFromDay_def)

lemma time_split:
  "(r::int) = r div 3600000 * 3600000 + (r div 60000) mod 60 * 60000
     + (r div 1000) mod 60 * 1000 + r mod 1000"
proof -
  have "r div (60000 * 60) = r div 60000 div 60" "r div (1000 * 60) = r div 1000 div 60"
    by (rule zdiv_zmult2_eq; simp)+
  then have h: "r div 3600000 = r div 60000 div 60" "r div 60000 = r div 1000 div 60"
    by simp_all
  have a: "r = r div 1000 * 1000 + r mod 1000" by simp
  have b: "r div 1000 = r div 60000 * 60 + (r div 1000) mod 60" unfolding h(2) by simp
  have c: "r div 60000 = r div 3600000 * 60 + (r div 60000) mod 60" unfolding h(1) by simp
  from a b c show ?thesis by linarith
qed

lemma time_of_fields_of_time: "time_of_fields (fields_of_time t) = t"
proof -
  define d y l m r where "d = t div msPerDay" and "y = yearFromDay d" and "l = leap_days y"
    and "m = monthFromDay l (d - dayFromYear y)" and "r = t mod msPerDay"
  have f: "fields_of_time t =
      \<lparr>df_year = y, df_month = int m + 1, df_day = d - dayFromYear y - monthStart l m + 1,
       df_hour = r div 3600000, df_min = (r div 60000) mod 60,
       df_sec = (r div 1000) mod 60, df_ms = r mod 1000\<rparr>"
    by (simp only: fields_of_time_def Let_def d_def y_def l_def m_def r_def)
  have "nat (int m + 1 - 1) = m" by simp
  then have "time_of_fields (fields_of_time t) =
      (dayFromYear y + monthStart l m + (d - dayFromYear y - monthStart l m + 1) - 1) * msPerDay
      + r div 3600000 * 3600000 + (r div 60000) mod 60 * 60000
      + (r div 1000) mod 60 * 1000 + r mod 1000"
    unfolding f by (simp only: time_of_fields_def dateFields.select_convs l_def)
  also have "\<dots> = d * msPerDay + r" using time_split [of r] by (simp only: add.assoc) simp
  also have "\<dots> = t" by (simp only: d_def r_def div_mult_mod_eq)
  finally show ?thesis .
qed

lemma div_step_dvd:
  assumes k: "1 < (k::int)"
  shows "(a + 1) div k = a div k + (if k dvd a + 1 then 1 else 0)"
proof -
  define q r where "q = a div k" and "r = a mod k"
  have a: "a + 1 = (r + 1) + q * k" by (simp add: q_def r_def)
  have r: "0 \<le> r" "r < k" using k by (simp_all add: r_def)
  show ?thesis
  proof (cases "r + 1 = k")
    case True
    with a have "a + 1 = (q + 1) * k" by (simp add: algebra_simps)
    with k show ?thesis by (simp flip: q_def)
  next
    case False
    with r have small: "0 \<le> r + 1" "r + 1 < k" by linarith+
    have "(a + 1) div k = q"
      unfolding a using k div_pos_pos_trivial [OF small] by simp
    moreover have "\<not> k dvd a + 1"
      unfolding a using r small zdvd_not_zless [of "r + 1" k] by simp
    ultimately show ?thesis by (simp flip: q_def)
  qed
qed

lemma leap_days_eq:
  "leap_days y = (if 4 dvd y then 1 else 0) - (if 100 dvd y then 1 else 0)
     + (if 400 dvd y then 1 else 0)"
proof -
  have d: "(4::int) dvd y - 1968 \<longleftrightarrow> 4 dvd y" "(100::int) dvd y - 1900 \<longleftrightarrow> 100 dvd y"
    "(400::int) dvd y - 1600 \<longleftrightarrow> 400 dvd y"
    by (rule dvd_diff_left_iff, simp)+
  have s: "y - 1969 + 1 = y - 1968" "y - 1901 + 1 = y - 1900" "y - 1601 + 1 = y - 1600" by simp_all
  note steps = div_step_dvd [of 4 "y - 1969", unfolded s d]
    div_step_dvd [of 100 "y - 1901", unfolded s d] div_step_dvd [of 400 "y - 1601", unfolded s d]
  have e: "y + 1 - 1969 = y - 1968" "y + 1 - 1901 = y - 1900" "y + 1 - 1601 = y - 1600" by simp_all
  show ?thesis unfolding leap_days_def dayFromYear_def e using steps by simp
qed

lemma leap_days_range: "leap_days y = 0 \<or> leap_days y = 1"
proof -
  have "(100::int) dvd 400" "(4::int) dvd 100" by simp_all
  then have "400 dvd y \<Longrightarrow> 100 dvd y" "100 dvd y \<Longrightarrow> 4 dvd y" by (meson dvd_trans)+
  then show ?thesis by (simp add: leap_days_eq)
qed

lemma day_of_month_range:
  assumes "l = 0 \<or> l = 1" and "0 \<le> dy" and "dy < 365 + l"
  shows "1 \<le> dy - monthStart l (monthFromDay l dy) + 1 \<and>
    dy - monthStart l (monthFromDay l dy) + 1 \<le> 31"
  using assms
  by (auto simp: monthFromDay_def monthStart_def month_starts_def)

lemma fields_ranges:
  fixes t :: ms
  defines "f \<equiv> fields_of_time t"
  shows "1 \<le> df_month f" "df_month f \<le> 12" "1 \<le> df_day f" "df_day f \<le> 31"
    "0 \<le> df_hour f" "df_hour f \<le> 23" "0 \<le> df_min f" "df_min f < 60"
    "0 \<le> df_sec f" "df_sec f < 60" "0 \<le> df_ms f" "df_ms f < 1000"
proof -
  let ?d = "t div msPerDay" and ?r = "t mod msPerDay"
  let ?y = "yearFromDay ?d"
  let ?dy = "?d - dayFromYear ?y"
  have r: "0 \<le> ?r" "?r < 86400000" by (simp_all add: msPerDay_def)
  have "0 \<le> ?dy" "?dy < 365 + leap_days ?y"
    using yearFromDay_bounds [of ?d] by (simp_all add: leap_days_def)
  from day_of_month_range [OF leap_days_range this]
  show "1 \<le> df_day f" "df_day f \<le> 31" by (simp_all add: f_def fields_of_time_def Let_def)
  show "1 \<le> df_month f" "df_month f \<le> 12"
    using month_lt [of "leap_days ?y" ?dy] by (simp_all add: f_def fields_of_time_def Let_def)
  have "?r div 3600000 \<le> 86399999 div 3600000" using r by (intro zdiv_mono1) simp_all
  then show "df_hour f \<le> 23" by (simp add: f_def fields_of_time_def Let_def)
  show "0 \<le> df_hour f"
    using r by (simp add: f_def fields_of_time_def Let_def pos_imp_zdiv_nonneg_iff)
qed (simp_all add: f_def fields_of_time_def Let_def)


section \<open>Printing and reading\<close>

definition dig :: "int \<Rightarrow> char" where
  "dig d = char_of (48 + nat d)"

definition pad2 :: "int \<Rightarrow> string" where
  "pad2 n = [dig (n div 10), dig (n mod 10)]"

definition pad3 :: "int \<Rightarrow> string" where
  "pad3 n = dig (n div 100) # pad2 (n mod 100)"

definition pad4 :: "int \<Rightarrow> string" where
  "pad4 n = pad2 (n div 100) @ pad2 (n mod 100)"

definition pad_year :: "int \<Rightarrow> string" where
  "pad_year y =
     (if 0 \<le> y \<and> y \<le> 9999 then pad4 y
      else (if y < 0 then CHR ''-'' else CHR ''+'') # pad2 (\<bar>y\<bar> div 10000) @ pad4 (\<bar>y\<bar> mod 10000))"

text \<open>\<open>toISOString\<close> of a valid date.\<close>

definition toISOString :: "ms \<Rightarrow> string" where
  "toISOString t =
     (let f = fields_of_time t in
      pad_year (df_year f) @ ''-'' @ pad2 (df_month f) @ ''-'' @ pad2 (df_day f) @ ''T''
      @ pad2 (df_hour f) @ '':'' @ pad2 (df_min f) @ '':'' @ pad2 (df_sec f) @ ''.''
      @ pad3 (df_ms f) @ ''Z'')"

definition undig :: "char \<Rightarrow> int option" where
  "undig c = (let n = of_char c :: nat in
     if 48 \<le> n \<and> n \<le> 57 then Some (int n - 48) else None)"

fun undigits :: "int \<Rightarrow> string \<Rightarrow> int option" where
  "undigits acc [] = Some acc"
| "undigits acc (c # cs) =
     (case undig c of None \<Rightarrow> None | Some d \<Rightarrow> undigits (10 * acc + d) cs)"

definition fields_valid :: "dateFields \<Rightarrow> bool" where
  "fields_valid f \<longleftrightarrow>
     1 \<le> df_month f \<and> df_month f \<le> 12 \<and> 1 \<le> df_day f \<and> df_day f \<le> 31
     \<and> df_min f < 60 \<and> df_sec f < 60
     \<and> (df_hour f \<le> 23 \<or> df_hour f = 24 \<and> df_min f = 0 \<and> df_sec f = 0 \<and> df_ms f = 0)"

text \<open>
  \<open>new Date(s)\<close> on \<open>YYYY-MM-DDTHH:mm:ss.sssZ\<close>: an out-of-range field makes the date invalid.
\<close>

definition slice :: "nat \<Rightarrow> nat \<Rightarrow> string \<Rightarrow> string" where
  "slice i j s = take (j - i) (drop i s)"

definition parseISO :: "string \<Rightarrow> jsdate" where
  "parseISO s =
     (if length s \<noteq> 24
         \<or> [s ! 4, s ! 7, s ! 10, s ! 13, s ! 16, s ! 19, s ! 23] \<noteq> ''--T::.Z'' then None
      else
        (case (undigits 0 (slice 0 4 s), undigits 0 (slice 5 7 s), undigits 0 (slice 8 10 s),
               undigits 0 (slice 11 13 s), undigits 0 (slice 14 16 s), undigits 0 (slice 17 19 s),
               undigits 0 (slice 20 23 s)) of
           (Some y, Some m, Some d, Some h, Some n, Some sec, Some u) \<Rightarrow>
             (let f = \<lparr>df_year = y, df_month = m, df_day = d, df_hour = h, df_min = n,
                       df_sec = sec, df_ms = u\<rparr>
              in if fields_valid f then Some (time_of_fields f) else None)
         | _ \<Rightarrow> None))"

lemma undig_dig: "0 \<le> d \<Longrightarrow> d < 10 \<Longrightarrow> undig (dig d) = Some d"
  by (simp add: undig_def dig_def Let_def take_bit_eq_mod of_char_of)

lemma undigits_pad2: "0 \<le> n \<Longrightarrow> n < 100 \<Longrightarrow> undigits acc (pad2 n @ r) = undigits (100 * acc + n) r"
proof -
  assume n: "0 \<le> n" "n < 100"
  have "n div 10 \<le> 99 div 10" using n by (intro zdiv_mono1) simp_all
  then have "undig (dig (n div 10)) = Some (n div 10)"
    using n by (intro undig_dig) (simp_all add: pos_imp_zdiv_nonneg_iff)
  moreover have "undig (dig (n mod 10)) = Some (n mod 10)" by (rule undig_dig) simp_all
  moreover have "10 * (10 * acc + n div 10) + n mod 10 = 100 * acc + n" by simp
  ultimately show ?thesis by (simp add: pad2_def add.commute)
qed

lemma undigits_pad3: "0 \<le> n \<Longrightarrow> n < 1000 \<Longrightarrow> undigits 0 (pad3 n) = Some n"
proof -
  assume n: "0 \<le> n" "n < 1000"
  have "n div 100 \<le> 999 div 100" using n by (intro zdiv_mono1) simp_all
  then have "undig (dig (n div 100)) = Some (n div 100)"
    using n by (intro undig_dig) (simp_all add: pos_imp_zdiv_nonneg_iff)
  with undigits_pad2 [of "n mod 100" "n div 100" "[]"] show ?thesis
    by (simp add: pad3_def)
qed

lemma undigits_pad4: "0 \<le> n \<Longrightarrow> n < 10000 \<Longrightarrow> undigits 0 (pad4 n) = Some n"
proof -
  assume n: "0 \<le> n" "n < 10000"
  have "n div 100 \<le> 9999 div 100" using n by (intro zdiv_mono1) simp_all
  then have "0 \<le> n div 100" "n div 100 < 100" using n by (simp_all add: pos_imp_zdiv_nonneg_iff)
  with undigits_pad2 [of "n div 100" 0 "pad2 (n mod 100)"]
    undigits_pad2 [of "n mod 100" "n div 100" "[]"]
  show ?thesis by (simp add: pad4_def)
qed

lemma pads_as_lists:
  "pad2 n = [dig (n div 10), dig (n mod 10)]"
  "pad3 n = [dig (n div 100), dig (n mod 100 div 10), dig (n mod 100 mod 10)]"
  "pad4 n = [dig (n div 100 div 10), dig (n div 100 mod 10), dig (n mod 100 div 10),
     dig (n mod 100 mod 10)]"
  by (simp_all add: pad2_def pad3_def pad4_def)

lemma parseISO_print:
  assumes "0 \<le> df_year f" "df_year f \<le> 9999" "0 \<le> df_month f" "df_month f < 100"
    "0 \<le> df_day f" "df_day f < 100" "0 \<le> df_hour f" "df_hour f < 100" "0 \<le> df_min f"
    "df_min f < 100" "0 \<le> df_sec f" "df_sec f < 100" "0 \<le> df_ms f" "df_ms f < 1000"
    and "fields_valid f"
  shows "parseISO (pad_year (df_year f) @ ''-'' @ pad2 (df_month f) @ ''-'' @ pad2 (df_day f)
      @ ''T'' @ pad2 (df_hour f) @ '':'' @ pad2 (df_min f) @ '':'' @ pad2 (df_sec f) @ ''.''
      @ pad3 (df_ms f) @ ''Z'') = Some (time_of_fields f)"
proof -
  note two = undigits_pad2 [of _ 0 "[]", simplified]
  have year: "undigits 0 (pad4 (df_year f)) = Some (df_year f)"
    using assms(1,2) by (intro undigits_pad4) simp_all
  have ms: "undigits 0 (pad3 (df_ms f)) = Some (df_ms f)"
    using assms(13,14) by (rule undigits_pad3)
  have rest: "undigits 0 (pad2 (df_month f)) = Some (df_month f)"
    "undigits 0 (pad2 (df_day f)) = Some (df_day f)"
    "undigits 0 (pad2 (df_hour f)) = Some (df_hour f)"
    "undigits 0 (pad2 (df_min f)) = Some (df_min f)"
    "undigits 0 (pad2 (df_sec f)) = Some (df_sec f)"
    using assms by (simp_all only: two)
  note digits = year [unfolded pads_as_lists] ms [unfolded pads_as_lists]
    rest [unfolded pads_as_lists]
  have eta: "\<lparr>df_year = df_year f, df_month = df_month f, df_day = df_day f,
      df_hour = df_hour f, df_min = df_min f, df_sec = df_sec f, df_ms = df_ms f\<rparr> = f"
    by simp
  have "pad_year (df_year f) = pad4 (df_year f)"
    using assms(1,2) by (simp add: pad_year_def)
  then show ?thesis
    unfolding pads_as_lists
    using assms(15) by (simp add: parseISO_def slice_def digits Let_def eta del: undigits.simps)
qed

text \<open>Reading back a printed time gives the time, for the years that print with four digits.\<close>

lemma parseISO_toISOString:
  assumes "0 \<le> df_year (fields_of_time t)" and "df_year (fields_of_time t) \<le> 9999"
  shows "parseISO (toISOString t) = Some t"
proof -
  note r = fields_ranges [of t]
  have "fields_valid (fields_of_time t)" using r by (simp add: fields_valid_def)
  with assms r have "parseISO (toISOString t) = Some (time_of_fields (fields_of_time t))"
    unfolding toISOString_def Let_def by (intro parseISO_print) simp_all
  then show ?thesis by (simp only: time_of_fields_of_time)
qed

text \<open>The times of the years 0 to 9999 are an interval; those since the epoch start at 0.\<close>

lemma dayFromYear_mono: "y \<le> y' \<Longrightarrow> dayFromYear y \<le> dayFromYear y'"
proof (induction y' rule: int_ge_induct)
  case base
  show ?case by simp
next
  case (step i)
  with dayFromYear_less [of i] show ?case by simp
qed

lemma year_range:
  assumes "0 \<le> t" and "t < 253402300800000"
  shows "1970 \<le> df_year (fields_of_time t) \<and> df_year (fields_of_time t) \<le> 9999"
proof -
  let ?d = "t div msPerDay"
  have "0 \<le> ?d" using assms(1) by (simp add: msPerDay_def pos_imp_zdiv_nonneg_iff)
  have "t div msPerDay \<le> 253402300799999 div msPerDay"
    using assms(2) by (intro zdiv_mono1) (simp_all add: msPerDay_def)
  then have "?d < 2932897" by (simp add: msPerDay_def)
  have y: "df_year (fields_of_time t) = yearFromDay ?d" by (simp add: fields_of_time_def Let_def)
  have "\<not> yearFromDay ?d < 1970"
  proof
    assume "yearFromDay ?d < 1970"
    then have "dayFromYear (yearFromDay ?d + 1) \<le> dayFromYear 1970" by (intro dayFromYear_mono) simp
    with yearFromDay_bounds [of ?d] \<open>0 \<le> ?d\<close> show False by (simp add: dayFromYear_def)
  qed
  moreover have "\<not> 9999 < yearFromDay ?d"
  proof
    assume "9999 < yearFromDay ?d"
    then have "dayFromYear 10000 \<le> dayFromYear (yearFromDay ?d)" by (intro dayFromYear_mono) simp
    with yearFromDay_bounds [of ?d] \<open>?d < 2932897\<close> show False by (simp add: dayFromYear_def)
  qed
  ultimately show ?thesis by (simp add: y)
qed

lemma iso_roundtrip:
  "0 \<le> t \<Longrightarrow> t < 253402300800000 \<Longrightarrow> parseISO (toISOString t) = Some t"
  using year_range [of t] by (intro parseISO_toISOString) auto

lemma iso_epoch: "toISOString 0 = ''1970-01-01T00:00:00.000Z''"
  by code_simp

end
