(* ===== verification/Config.thy ===== *)
theory Config
  imports JsValue IsoTime
begin

text \<open>
  \<open>config.ts\<close>, \<open>routes/admin-auth.ts\<close>, \<open>routes/health.ts\<close>, and the replies of the HTTP handlers. The
  environment is a function from variable names; a number that \<open>parseInt\<close> reads is \<open>None\<close> when it is
  \<open>NaN\<close>. A reply is its status and its body; \<open>HandlerError\<close> is an exception that leaves a handler,
  which the framework turns into a 500 reply of its own. The Buffer of a string is its bytes.
\<close>

section \<open>Configuration\<close>

record config =
  cf_port :: "int option"
  cf_host :: string
  cf_turnUrl :: string
  cf_turnSecret :: string
  cf_stunUrl :: string
  cf_sessionTtlSeconds :: "int option"
  cf_maxControlRateHz :: "int option"
  cf_maxVideoBitrateKbps :: "int option"
  cf_adminApiKey :: string
  cf_maxRevocationCacheSize :: "int option"
  cf_revocationStorePath :: string

text \<open>\<open>parseInt(s, 10)\<close>: blanks, a sign, then the longest run of digits.\<close>

definition parse_int10 :: "string \<Rightarrow> int option" where
  "parse_int10 s =
     (let s1 = dropWhile is_space s;
          (neg, s2) = (case s1 of [] \<Rightarrow> (False, [])
             | c # cs \<Rightarrow> if c = CHR ''-'' then (True, cs)
                         else if c = CHR ''+'' then (False, cs) else (False, s1));
          ds = takeWhile is_digit s2
      in if ds = [] then None
         else Some (if neg then - int (dec_value ds) else int (dec_value ds)))"

definition env_or :: "(string \<Rightarrow> string option) \<Rightarrow> string \<Rightarrow> string \<Rightarrow> string" where
  "env_or env name dflt = (case env name of None \<Rightarrow> dflt | Some v \<Rightarrow> v)"

definition loadConfig :: "(string \<Rightarrow> string option) \<Rightarrow> config" where
  "loadConfig env =
     \<lparr>cf_port = parse_int10 (env_or env ''PORT'' ''4000''),
      cf_host = env_or env ''HOST'' ''0.0.0.0'',
      cf_turnUrl = env_or env ''TURN_URL'' ''turn:localhost:3478'',
      cf_turnSecret = env_or env ''TURN_SECRET'' ''chainkvm-dev-secret-change-in-prod'',
      cf_stunUrl = env_or env ''STUN_URL'' ''stun:stun.l.google.com:19302'',
      cf_sessionTtlSeconds = parse_int10 (env_or env ''SESSION_TTL_SECONDS'' ''3600''),
      cf_maxControlRateHz = parse_int10 (env_or env ''MAX_CONTROL_RATE_HZ'' ''20''),
      cf_maxVideoBitrateKbps = parse_int10 (env_or env ''MAX_VIDEO_BITRATE_KBPS'' ''4000''),
      cf_adminApiKey = env_or env ''ADMIN_API_KEY'' ''chainkvm-admin-dev-key-change-in-prod'',
      cf_maxRevocationCacheSize = parse_int10 (env_or env ''MAX_REVOCATION_CACHE_SIZE'' ''100000''),
      cf_revocationStorePath = env_or env ''REVOCATION_STORE_PATH'' ''data/revocations.json''\<rparr>"

section \<open>Replies\<close>

datatype httpReply = Reply nat jsval | HandlerError

definition error_body :: "string \<Rightarrow> string \<Rightarrow> jsval" where
  "error_body code message = JObj [(''error'', JStr code), (''message'', JStr message)]"

definition json_num :: "int option \<Rightarrow> jsval" where
  "json_num n = (case n of None \<Rightarrow> JNull | Some i \<Rightarrow> JNum (of_int i))"

section \<open>Administrator authentication\<close>

text \<open>A header is absent, a string, or a list of strings.\<close>

definition extractAdminKey :: "(string \<Rightarrow> jsval) \<Rightarrow> string option" where
  "extractAdminKey headers =
     (case headers ''x-admin-api-key'' of JStr key \<Rightarrow> Some key | _ \<Rightarrow> None)"

definition validateAdminKey :: "string option \<Rightarrow> config \<Rightarrow> bool" where
  "validateAdminKey key config =
     (case key of
        None \<Rightarrow> False
      | Some k \<Rightarrow>
          if k = [] then False
          else if length k \<noteq> length (cf_adminApiKey config) then False
          else list_all2 (=) k (cf_adminApiKey config))"

definition requireAdminAuth :: "(string \<Rightarrow> jsval) \<Rightarrow> config \<Rightarrow> httpReply option" where
  "requireAdminAuth headers config =
     (let key = extractAdminKey headers in
      if key = None \<or> key = Some []
      then Some (Reply 401 (error_body ''missing_admin_key'' ''X-Admin-API-Key header is required''))
      else if \<not> validateAdminKey key config
      then Some (Reply 403 (error_body ''invalid_admin_key'' ''Invalid admin API key''))
      else None)"

section \<open>Health\<close>

definition get_health :: "ms \<Rightarrow> httpReply" where
  "get_health now =
     Reply 200 (JObj [(''status'', JStr ''ok''), (''timestamp'', JStr (toISOString now))])"

definition get_ready :: httpReply where
  "get_ready = Reply 200 (JObj [(''ready'', JBool True),
     (''checks'', JObj [(''fabric'', JStr ''stub''), (''turn'', JStr ''stub'')])])"

section \<open>Properties\<close>

text \<open>
  The administrator check lets a request through exactly when its header is the configured key
  and the key is not empty; a missing, empty or repeated header is answered 401 and any other value
  403, so an empty configured key locks the endpoint instead of opening it.
\<close>

theorem admin_auth_exact:
  "(requireAdminAuth headers config = None \<longleftrightarrow>
     headers ''x-admin-api-key'' = JStr (cf_adminApiKey config) \<and> cf_adminApiKey config \<noteq> [])
   \<and> (\<forall>status body. requireAdminAuth headers config = Some (Reply status body) \<longrightarrow>
     status = (if \<exists>k. headers ''x-admin-api-key'' = JStr k \<and> k \<noteq> [] then 403 else 401))"
  by (auto simp: requireAdminAuth_def extractAdminKey_def validateAdminKey_def Let_def
      list.rel_eq split: jsval.splits)

theorem admin_auth_exact_witness:
  "requireAdminAuth (\<lambda>h. JStr ''secret'') (loadConfig (\<lambda>v. Some ''secret'')) = None"
  using admin_auth_exact [of "\<lambda>h. JStr ''secret''" "loadConfig (\<lambda>v. Some ''secret'')"]
  by (simp add: loadConfig_def env_or_def)

end
