(* ===== verification/TtlCache.thy ===== *)
theory TtlCache
  imports JsMap
begin

text \<open>
  \<open>identity/cache.ts\<close>: a cache with a time to live and a maximum size. The closure's map and its
  array of keys in insertion order are the fields of \<open>ttlCache\<close>; each operation reads the clock at
  \<open>now\<close>. As in the code, a key that is the empty string is taken off the order without deleting its
  entry (an empty string is falsy), so the size bound is stated for non-empty keys.

  \<open>memo_cache\<close> is what a client that memoises a function relies on.
\<close>

section \<open>State and operations\<close>

record 'v cacheEntry =
  ce_value :: 'v
  ce_expiresAt :: ms

record 'v ttlCache =
  tc_ttlMs :: ms
  tc_maxSize :: int
  tc_entries :: "(string, 'v cacheEntry) jsmap"
  tc_insertionOrder :: "string list"

definition createCache :: "ms \<Rightarrow> int \<Rightarrow> 'v ttlCache" where
  "createCache ttlMs maxSize =
     \<lparr>tc_ttlMs = ttlMs, tc_maxSize = maxSize, tc_entries = [], tc_insertionOrder = []\<rparr>"

text \<open>Deleting a key from the map and its first occurrence from the order.\<close>

definition drop_key :: "'v ttlCache \<Rightarrow> string \<Rightarrow> 'v ttlCache" where
  "drop_key c key = c\<lparr>tc_entries := jm_delete (tc_entries c) key,
                      tc_insertionOrder := remove1 key (tc_insertionOrder c)\<rparr>"

definition removeExpired :: "'v ttlCache \<Rightarrow> ms \<Rightarrow> 'v ttlCache" where
  "removeExpired c now =
     (let keysToRemove = map fst (filter (\<lambda>(key, entry). ce_expiresAt entry \<le> now) (tc_entries c))
      in foldl drop_key c keysToRemove)"

fun evict_loop ::
    "int \<Rightarrow> (string, 'v cacheEntry) jsmap \<Rightarrow> string list
      \<Rightarrow> (string, 'v cacheEntry) jsmap \<times> string list" where
  "evict_loop maxSize entries [] = (entries, [])"
| "evict_loop maxSize entries (oldest # order) =
     (if int (jm_size entries) \<ge> maxSize
      then evict_loop maxSize (if oldest \<noteq> [] then jm_delete entries oldest else entries) order
      else (entries, oldest # order))"

definition evictOldest :: "'v ttlCache \<Rightarrow> 'v ttlCache" where
  "evictOldest c =
     (let (entries, order) = evict_loop (tc_maxSize c) (tc_entries c) (tc_insertionOrder c)
      in c\<lparr>tc_entries := entries, tc_insertionOrder := order\<rparr>)"

definition ttl_get :: "'v ttlCache \<Rightarrow> string \<Rightarrow> ms \<Rightarrow> 'v option \<times> 'v ttlCache" where
  "ttl_get c key now =
     (case jm_get (tc_entries c) key of
        None \<Rightarrow> (None, c)
      | Some entry \<Rightarrow>
          if ce_expiresAt entry \<le> now then (None, drop_key c key) else (Some (ce_value entry), c))"

definition ttl_set :: "'v ttlCache \<Rightarrow> string \<Rightarrow> 'v \<Rightarrow> ms \<Rightarrow> 'v ttlCache" where
  "ttl_set c key value now =
     (let c1 = removeExpired c now;
          c2 = (if key \<in> set (tc_insertionOrder c1)
                then c1\<lparr>tc_insertionOrder := remove1 key (tc_insertionOrder c1)\<rparr>
                else evictOldest c1)
      in c2\<lparr>tc_entries := jm_set (tc_entries c2) key
              \<lparr>ce_value = value, ce_expiresAt = now + tc_ttlMs c2\<rparr>,
            tc_insertionOrder := tc_insertionOrder c2 @ [key]\<rparr>)"

definition ttl_clear :: "'v ttlCache \<Rightarrow> 'v ttlCache" where
  "ttl_clear c = c\<lparr>tc_entries := [], tc_insertionOrder := []\<rparr>"

section \<open>What each operation leaves in the map\<close>

lemma drop_keys_get:
  "jm_get (tc_entries (foldl drop_key c ks)) j =
     (if j \<in> set ks then None else jm_get (tc_entries c) j)"
  by (induction ks arbitrary: c) (auto simp: drop_key_def jm.get_del)

lemma drop_keys_config [simp]:
  "tc_ttlMs (foldl drop_key c ks) = tc_ttlMs c" "tc_maxSize (foldl drop_key c ks) = tc_maxSize c"
  by (induction ks arbitrary: c) (simp_all add: drop_key_def)

lemma evict_loop_get:
  "jm_get (fst (evict_loop m es order)) j = Some e \<Longrightarrow> jm_get es j = Some e"
  by (induction m es order rule: evict_loop.induct) (auto simp: jm.get_del split: if_splits)

lemma evictOldest_get: "jm_get (tc_entries (evictOldest c)) j = Some e \<Longrightarrow> jm_get (tc_entries c) j = Some e"
  by (auto simp: evictOldest_def case_prod_unfold Let_def dest: evict_loop_get)

lemma evictOldest_config [simp]:
  "tc_ttlMs (evictOldest c) = tc_ttlMs c" "tc_maxSize (evictOldest c) = tc_maxSize c"
  by (simp_all add: evictOldest_def case_prod_unfold Let_def)

lemma ttl_set_get:
  assumes "jm_get (tc_entries (ttl_set c key v now)) j = Some e"
  shows "(j = key \<and> e = \<lparr>ce_value = v, ce_expiresAt = now + tc_ttlMs c\<rparr>) \<or>
    (j \<noteq> key \<and> jm_get (tc_entries c) j = Some e)"
  using assms
  by (auto simp: ttl_set_def Let_def jm.get_put removeExpired_def drop_keys_get
      split: if_splits dest!: evictOldest_get)

lemma ttl_set_same:
  "jm_get (tc_entries (ttl_set c key v now)) key =
     Some \<lparr>ce_value = v, ce_expiresAt = now + tc_ttlMs c\<rparr>"
  by (simp add: ttl_set_def Let_def jm.get_put removeExpired_def)

lemma ttl_set_config [simp]:
  "tc_ttlMs (ttl_set c key v now) = tc_ttlMs c" "tc_maxSize (ttl_set c key v now) = tc_maxSize c"
  by (simp_all add: ttl_set_def Let_def removeExpired_def)

lemma ttl_get_get:
  "jm_get (tc_entries (snd (ttl_get c key now))) j = Some e \<Longrightarrow> jm_get (tc_entries c) j = Some e"
  by (auto simp: ttl_get_def drop_key_def jm.get_del split: option.splits if_splits)

lemma ttl_get_config [simp]:
  "tc_ttlMs (snd (ttl_get c key now)) = tc_ttlMs c" "tc_maxSize (snd (ttl_get c key now)) = tc_maxSize c"
  by (simp_all add: ttl_get_def drop_key_def split: option.splits)

section \<open>The contract of a memoising cache\<close>

locale memo_cache =
  fixes find :: "'c \<Rightarrow> 'k \<Rightarrow> ms \<Rightarrow> 'v option \<times> 'c"
    and store :: "'c \<Rightarrow> 'k \<Rightarrow> 'v \<Rightarrow> ms \<Rightarrow> 'c"
    and reset :: "'c \<Rightarrow> 'c"
    and holds :: "('k \<Rightarrow> 'v \<Rightarrow> bool) \<Rightarrow> 'c \<Rightarrow> bool"
  assumes find_holds: "holds P c \<Longrightarrow> fst (find c k now) = Some v \<Longrightarrow> P k v"
    and find_keeps: "holds P c \<Longrightarrow> holds P (snd (find c k now))"
    and store_keeps: "holds P c \<Longrightarrow> P k v \<Longrightarrow> holds P (store c k v now)"
    and reset_holds: "holds P (reset c)"
begin

text \<open>
  A lookup that falls back on a computation, marks what comes from the cache, and stores what it
  computes when \<open>keep\<close> says so.
\<close>

definition memo :: "('v \<Rightarrow> 'v) \<Rightarrow> ('k \<Rightarrow> 'v) \<Rightarrow> ('v \<Rightarrow> bool) \<Rightarrow> 'c \<Rightarrow> 'k \<Rightarrow> ms \<Rightarrow> 'v \<times> 'c" where
  "memo mark f keep c k now =
     (case find c k now of
        (Some v, c') \<Rightarrow> (mark v, c')
      | (None, c') \<Rightarrow> (f k, if keep (f k) then store c' k (f k) now else c'))"

lemma memo_keeps:
  assumes "holds P c" and "keep (f k) \<Longrightarrow> P k (f k)"
  shows "holds P (snd (memo mark f keep c k now))"
  using find_keeps [OF assms(1), of k now] assms(2)
  by (auto simp: memo_def store_keeps split: prod.splits option.splits)

lemma memo_answer:
  assumes "holds P c"
  shows "(\<exists>v. P k v \<and> fst (memo mark f keep c k now) = mark v) \<or>
    fst (memo mark f keep c k now) = f k"
  using find_holds [OF assms, of k now]
  by (auto simp: memo_def split: prod.splits option.splits)

end

definition cache_holds :: "(string \<Rightarrow> 'v \<Rightarrow> bool) \<Rightarrow> 'v ttlCache \<Rightarrow> bool" where
  "cache_holds P c \<longleftrightarrow> (\<forall>k e. jm_get (tc_entries c) k = Some e \<longrightarrow> P k (ce_value e))"

interpretation ttl: memo_cache ttl_get ttl_set ttl_clear cache_holds
proof unfold_locales
  fix P :: "string \<Rightarrow> 'v \<Rightarrow> bool" and c k now v
  show "cache_holds P c \<Longrightarrow> fst (ttl_get c k now) = Some v \<Longrightarrow> P k v"
    by (auto simp: cache_holds_def ttl_get_def split: option.splits if_splits)
  show "cache_holds P c \<Longrightarrow> cache_holds P (snd (ttl_get c k now))"
    unfolding cache_holds_def using ttl_get_get by blast
  show "cache_holds P c \<Longrightarrow> P k v \<Longrightarrow> cache_holds P (ttl_set c k v now)"
    unfolding cache_holds_def using ttl_set_get by fastforce
  show "cache_holds P (ttl_clear c)"
    by (simp add: cache_holds_def ttl_clear_def)
qed

section \<open>Bounded size\<close>

definition order_ok :: "(string, 'v cacheEntry) jsmap \<Rightarrow> string list \<Rightarrow> bool" where
  "order_ok es order \<longleftrightarrow> jm_wf es \<and> distinct order \<and> set order = set (jm_keys es) \<and> [] \<notin> set order"

definition ttl_ok :: "'v ttlCache \<Rightarrow> bool" where
  "ttl_ok c \<longleftrightarrow> order_ok (tc_entries c) (tc_insertionOrder c) \<and>
     int (jm_size (tc_entries c)) \<le> max 1 (tc_maxSize c)"

lemma order_ok_drop:
  "order_ok es order \<Longrightarrow> order_ok (jm_delete es k) (remove1 k order)"
  by (auto simp: order_ok_def AList.delete_keys distinct_removeAll set_remove1_eq)

lemma order_ok_drops:
  "order_ok (tc_entries c) (tc_insertionOrder c) \<Longrightarrow>
   order_ok (tc_entries (foldl drop_key c ks)) (tc_insertionOrder (foldl drop_key c ks)) \<and>
   jm_size (tc_entries (foldl drop_key c ks)) \<le> jm_size (tc_entries c)"
proof (induction ks arbitrary: c)
  case Nil
  then show ?case by simp
next
  case (Cons k ks)
  have "order_ok (tc_entries (drop_key c k)) (tc_insertionOrder (drop_key c k))"
    using order_ok_drop [OF Cons.prems] by (simp add: drop_key_def)
  from Cons.IH [OF this] show ?case
    using jm_size_delete_le [of k "tc_entries c"] by (auto simp: drop_key_def)
qed

lemma order_ok_evict:
  assumes "order_ok es order"
  shows "order_ok (fst (evict_loop m es order)) (snd (evict_loop m es order)) \<and>
    (int (jm_size (fst (evict_loop m es order))) < max 1 m) \<and>
    set (snd (evict_loop m es order)) \<subseteq> set order"
  using assms
proof (induction m es order rule: evict_loop.induct)
  case (1 m es)
  then show ?case by (auto simp: order_ok_def)
next
  case (2 m es k order)
  have "order_ok (jm_delete es k) order" and "k \<noteq> []"
    using order_ok_drop [OF 2(2), of k] 2(2) by (auto simp: order_ok_def)
  with 2 show ?case by auto
qed

lemma order_ok_put:
  assumes "order_ok es order" and "k \<notin> set order" and "k \<noteq> []"
  shows "order_ok (jm_set es k e) (order @ [k])"
  using assms by (auto simp: order_ok_def jm.wf_put update_keys)

datatype 'v ttl_op = TtlGet string ms | TtlSet string 'v ms | TtlClear

fun ttl_step :: "'v ttlCache \<Rightarrow> 'v ttl_op \<Rightarrow> 'v ttlCache" where
  "ttl_step c (TtlGet key now) = snd (ttl_get c key now)"
| "ttl_step c (TtlSet key v now) = ttl_set c key v now"
| "ttl_step c TtlClear = ttl_clear c"

fun real_key :: "'v ttl_op \<Rightarrow> bool" where
  "real_key (TtlSet key v now) = (key \<noteq> [])"
| "real_key x = True"

lemma ttl_get_ok:
  assumes "ttl_ok c"
  shows "ttl_ok (ttl_step c (TtlGet key now))"
proof -
  have "jm_size (jm_delete (tc_entries c) key) \<le> jm_size (tc_entries c)"
    by (rule jm_size_delete_le)
  with assms order_ok_drop [of "tc_entries c" "tc_insertionOrder c" key] show ?thesis
    by (auto simp: ttl_ok_def ttl_get_def drop_key_def split: option.splits)
qed

lemma ttl_set_ok:
  assumes "ttl_ok c" and "key \<noteq> []"
  shows "ttl_ok (ttl_step c (TtlSet key v now))"
proof -
  define c1 where "c1 = removeExpired c now"
  have c1: "order_ok (tc_entries c1) (tc_insertionOrder c1)"
    "jm_size (tc_entries c1) \<le> jm_size (tc_entries c)" "tc_maxSize c1 = tc_maxSize c"
    using order_ok_drops [of c] assms(1) by (simp_all add: c1_def removeExpired_def ttl_ok_def)
  show ?thesis
  proof (cases "key \<in> set (tc_insertionOrder c1)")
    case True
    then have "jm_has (tc_entries c1) key" using c1(1) by (auto simp: order_ok_def map_of_eq_None_iff)
    moreover have "order_ok (jm_set (tc_entries c1) key e) (remove1 key (tc_insertionOrder c1) @ [key])" for e
      using c1(1) True by (auto simp: order_ok_def jm.wf_put update_keys set_remove1_eq)
    ultimately show ?thesis
      using True c1 assms(1)
      by (auto simp: ttl_set_def c1_def [symmetric] Let_def ttl_ok_def jm_size_set)
  next
    case False
    obtain es order where ev: "evict_loop (tc_maxSize c1) (tc_entries c1) (tc_insertionOrder c1) = (es, order)"
      by fastforce
    from order_ok_evict [OF c1(1), of "tc_maxSize c1"] ev
    have "order_ok es order" "int (jm_size es) < max 1 (tc_maxSize c)" "key \<notin> set order"
      using False c1(3) by auto
    then show ?thesis
      using False ev c1(3) order_ok_put [of es order key] assms(2)
        jm_size_set_le [of key _ es]
      by (auto simp: ttl_set_def c1_def [symmetric] Let_def ttl_ok_def evictOldest_def jm_size_set)
  qed
qed

lemma ttl_clear_ok: "ttl_ok c \<Longrightarrow> ttl_ok (ttl_step c TtlClear)"
  by (simp add: ttl_clear_def ttl_ok_def order_ok_def)

lemma ttl_step_ok: "ttl_ok c \<Longrightarrow> real_key x \<Longrightarrow> ttl_ok (ttl_step c x)"
  by (cases x) (auto intro: ttl_get_ok ttl_set_ok ttl_clear_ok simp del: ttl_step.simps)

interpretation ttl_bound: stable_property ttl_step ttl_ok real_key
  by unfold_locales (rule ttl_step_ok)

lemma ttl_step_config [simp]: "tc_maxSize (ttl_step c x) = tc_maxSize c" "tc_ttlMs (ttl_step c x) = tc_ttlMs c"
  by (cases x; simp add: ttl_clear_def)+

lemma ttl_run_config [simp]:
  "tc_maxSize (foldl ttl_step c xs) = tc_maxSize c" "tc_ttlMs (foldl ttl_step c xs) = tc_ttlMs c"
  by (induction xs arbitrary: c) simp_all

section \<open>Properties\<close>

text \<open>
  The cache stays within its maximum size (one entry when the maximum is not positive) in any
  history of reads, writes of non-empty keys and clears, and its eviction order always lists exactly
  the keys it holds, each once.
\<close>

theorem ttl_cache_bounded:
  fixes ops :: "'v ttl_op list"
  assumes "list_all real_key ops"
  shows "int (jm_size (tc_entries (foldl ttl_step (createCache ttlMs maxSize) ops))) \<le> max 1 maxSize
    \<and> distinct (tc_insertionOrder (foldl ttl_step (createCache ttlMs maxSize) ops))
    \<and> set (tc_insertionOrder (foldl ttl_step (createCache ttlMs maxSize) ops)) =
      set (jm_keys (tc_entries (foldl ttl_step (createCache ttlMs maxSize) ops)))"
proof -
  have "ttl_ok (createCache ttlMs maxSize :: 'v ttlCache)"
    by (simp add: ttl_ok_def order_ok_def createCache_def)
  from ttl_bound.run_stable [OF this assms]
  show ?thesis by (simp add: ttl_ok_def order_ok_def) (simp add: createCache_def)
qed

theorem ttl_cache_bounded_witness:
  "int (jm_size (tc_entries (foldl ttl_step (createCache 10 1)
     [TtlSet ''a'' True 1, TtlSet ''b'' False 2]))) \<le> 1"
  using ttl_cache_bounded [of "[TtlSet ''a'' True 1, TtlSet ''b'' False 2]" 10 1] by simp

text \<open>
  A read right after a write returns the written value until the time to live is over and
  nothing from then on, and the write disturbs another key only by dropping it: a value read for
  another key afterwards is the one that was stored for it before.
\<close>

theorem ttl_set_then_get:
  "fst (ttl_get (ttl_set c key v now) key t) = (if t < now + tc_ttlMs c then Some v else None)
   \<and> (j \<noteq> key \<longrightarrow> (\<forall>w. fst (ttl_get (ttl_set c key v now) j t) = Some w \<longrightarrow>
        fst (ttl_get c j t) = Some w))"
proof (intro conjI impI allI)
  show "fst (ttl_get (ttl_set c key v now) key t) = (if t < now + tc_ttlMs c then Some v else None)"
    by (simp add: ttl_get_def ttl_set_same)
  fix w assume "j \<noteq> key" and "fst (ttl_get (ttl_set c key v now) j t) = Some w"
  then show "fst (ttl_get c j t) = Some w"
    using ttl_set_get [of c key v now j]
    by (auto simp: ttl_get_def split: option.splits if_splits)
qed

theorem ttl_set_then_get_witness:
  "fst (ttl_get (ttl_set (ttl_set (createCache 10 5) ''a'' True 0) ''b'' False 1) ''b'' 10) = Some False"
  using ttl_set_then_get [of "ttl_set (createCache 10 5) ''a'' True 0" "''b''" False 1 10]
  by (simp add: createCache_def)

text \<open>
  The eviction is first-in first-out, not least-recently-used as the comment on
  \<open>createCache\<close> says: reading an entry does not save it from being the next one evicted.
\<close>

theorem eviction_is_fifo:
  "let c0 = ttl_set (ttl_set (createCache 100 2) ''a'' (1::nat) 0) ''b'' 2 1;
       c1 = snd (ttl_get c0 ''a'' 2);
       c2 = ttl_set c1 ''c'' 3 3
   in fst (ttl_get c0 ''a'' 2) = Some 1 \<and> fst (ttl_get c2 ''a'' 4) = None \<and>
      fst (ttl_get c2 ''b'' 4) = Some 2"
  by (simp add: Let_def createCache_def ttl_set_def ttl_get_def removeExpired_def evictOldest_def
      AList.delete_eq)

end
