(* ===== verification/DidKey.thy ===== *)
theory DidKey
  imports TtlCache
begin

text \<open>
  \<open>identity/did-key-resolver.ts\<close>, \<open>identity/did-document.ts\<close>, \<open>identity/errors.ts\<close>,
  \<open>identity/multicodec.ts\<close> and \<open>identity/types.ts\<close>: parsing a \<open>did:key\<close> identifier, building its
  document, and the cached resolver. \<open>base58btc.decode\<close> and \<open>varint.decode\<close> of the multiformats
  package are the parameters \<open>base58\<close> and \<open>varint\<close>, with \<open>None\<close> for an exception; what is used of
  them is stated as hypotheses. Times that \<open>performance.now()\<close> measures are arguments.
\<close>

section \<open>Constants and types\<close>

definition ED25519_CODEC :: nat where "ED25519_CODEC = 237"
definition ED25519_KEY_LENGTH :: nat where "ED25519_KEY_LENGTH = 32"
definition BASE58BTC_PREFIX :: string where "BASE58BTC_PREFIX = ''z''"
definition DID_KEY_METHOD :: string where "DID_KEY_METHOD = ''key''"
definition DID_SCHEME :: string where "DID_SCHEME = ''did''"
definition ED25519_VERIFICATION_TYPE :: string where
  "ED25519_VERIFICATION_TYPE = ''Ed25519VerificationKey2020''"
definition DID_CONTEXTS :: "string list" where
  "DID_CONTEXTS = [''https://www.w3.org/ns/did/v1'',
     ''https://w3id.org/security/suites/ed25519-2020/v1'']"

type_synonym bytes = "nat list"

datatype didResolutionErrorCode =
    INVALID_DID | UNSUPPORTED_METHOD | INVALID_PUBLIC_KEY | UNSUPPORTED_KEY_TYPE | INVALID_MULTIBASE

text \<open>An exception: a \<open>DIDResolutionError\<close> (code, message, did) or any other one.\<close>

datatype didError = DIDResolutionError didResolutionErrorCode string string | OtherException

definition error_code_text :: "didResolutionErrorCode \<Rightarrow> string" where
  "error_code_text c =
     (case c of INVALID_DID \<Rightarrow> ''invalidDid'' | UNSUPPORTED_METHOD \<Rightarrow> ''methodNotSupported''
      | INVALID_PUBLIC_KEY \<Rightarrow> ''invalidPublicKey''
      | UNSUPPORTED_KEY_TYPE \<Rightarrow> ''unsupportedPublicKeyType''
      | INVALID_MULTIBASE \<Rightarrow> ''invalidMultibase'')"

definition invalidDid :: "string \<Rightarrow> string \<Rightarrow> didError" where
  "invalidDid did reason = DIDResolutionError INVALID_DID (''Invalid DID format: '' @ reason) did"

definition unsupportedMethod :: "string \<Rightarrow> string \<Rightarrow> didError" where
  "unsupportedMethod did m = DIDResolutionError UNSUPPORTED_METHOD
     (''Unsupported DID method: '' @ m @ ''. Only '' @ [CHR 0x27] @ ''key'' @ [CHR 0x27] @
      '' is supported.'') did"

definition hex_char :: "nat \<Rightarrow> char" where
  "hex_char d = (if d < 10 then char_of (48 + d) else char_of (87 + d))"

fun nat_to_hex :: "nat \<Rightarrow> string" where
  "nat_to_hex n = (if n < 16 then [hex_char n] else nat_to_hex (n div 16) @ [hex_char (n mod 16)])"

declare nat_to_hex.simps [simp del]

definition unsupportedKeyType :: "string \<Rightarrow> nat \<Rightarrow> didError" where
  "unsupportedKeyType did codecPrefix = DIDResolutionError UNSUPPORTED_KEY_TYPE
     (''Unsupported key type with codec prefix 0x'' @ nat_to_hex codecPrefix @
      ''. Only Ed25519 (0xed) is supported.'') did"

definition invalidPublicKey :: "string \<Rightarrow> nat \<Rightarrow> nat \<Rightarrow> didError" where
  "invalidPublicKey did expected actual = DIDResolutionError INVALID_PUBLIC_KEY
     (''Invalid public key length: expected '' @ nat_to_dec expected @ '' bytes, got '' @
      nat_to_dec actual) did"

definition invalidMultibase :: "string \<Rightarrow> string \<Rightarrow> didError" where
  "invalidMultibase did reason =
     DIDResolutionError INVALID_MULTIBASE (''Invalid multibase encoding: '' @ reason) did"

record parsedDIDKey =
  pk_did :: string
  pk_method :: string
  pk_identifier :: string
  pk_codecPrefix :: nat
  pk_publicKey :: bytes

record verificationMethod =
  vm_id :: string
  vm_type :: string
  vm_controller :: string
  vm_publicKeyMultibase :: string

record didDocument =
  dd_context :: "string list"
  dd_id :: string
  dd_verificationMethod :: "verificationMethod list"
  dd_authentication :: "string list"
  dd_assertionMethod :: "string list"

record didResolutionMetadata =
  md_contentType :: "string option"
  md_duration :: rat
  md_error :: "string option"
  md_cached :: bool

record didResolutionResult =
  dr_metadata :: didResolutionMetadata
  dr_document :: "didDocument option"

section \<open>Parsing\<close>

definition validateDIDStructure :: "string \<Rightarrow> didError + string \<times> string \<times> string" where
  "validateDIDStructure did =
     (if did = [] then Inl (invalidDid did ''DID must be a non-empty string'')
      else
        (let parts = str_split CHR '':'' did in
         if length parts < 3
         then Inl (invalidDid did ''DID must have format did:method:identifier'')
         else
           (let scheme = parts ! 0; meth = parts ! 1; identifier = str_join '':'' (drop 2 parts) in
            if scheme \<noteq> DID_SCHEME
            then Inl (invalidDid did (''Must start with '' @ [CHR 0x27] @ DID_SCHEME @ '':'' @ [CHR 0x27]))
            else if meth = [] then Inl (invalidDid did ''Missing method'')
            else if meth \<noteq> DID_KEY_METHOD then Inl (unsupportedMethod did meth)
            else if identifier = [] then Inl (invalidDid did ''Missing identifier'')
            else Inr (scheme, meth, identifier))))"

definition decodeMultibaseKey ::
    "(string \<Rightarrow> bytes option) \<Rightarrow> (bytes \<Rightarrow> (nat \<times> nat) option) \<Rightarrow> string \<Rightarrow> string
      \<Rightarrow> didError + nat \<times> bytes" where
  "decodeMultibaseKey base58 varint did identifier =
     (if \<not> starts_with identifier BASE58BTC_PREFIX
      then Inl (invalidMultibase did (''Must start with '' @ [CHR 0x27] @ BASE58BTC_PREFIX @ [CHR 0x27]))
      else
        (case base58 identifier of
           None \<Rightarrow> Inl (invalidMultibase did ''Invalid base58btc encoding'')
         | Some decoded \<Rightarrow>
             if length decoded < 2 then Inl (invalidDid did ''Decoded key data too short'')
             else
               (case varint decoded of
                  None \<Rightarrow> Inl OtherException
                | Some (codecPrefix, bytesRead) \<Rightarrow>
                    if codecPrefix \<noteq> ED25519_CODEC then Inl (unsupportedKeyType did codecPrefix)
                    else
                      (let publicKey = drop bytesRead decoded in
                       if length publicKey \<noteq> ED25519_KEY_LENGTH
                       then Inl (invalidPublicKey did ED25519_KEY_LENGTH (length publicKey))
                       else Inr (codecPrefix, publicKey)))))"

definition parseDIDKey ::
    "(string \<Rightarrow> bytes option) \<Rightarrow> (bytes \<Rightarrow> (nat \<times> nat) option) \<Rightarrow> string \<Rightarrow> didError + parsedDIDKey" where
  "parseDIDKey base58 varint did =
     (case validateDIDStructure did of
        Inl e \<Rightarrow> Inl e
      | Inr (scheme, meth, identifier) \<Rightarrow>
          (case decodeMultibaseKey base58 varint did identifier of
             Inl e \<Rightarrow> Inl e
           | Inr (codecPrefix, publicKey) \<Rightarrow>
               Inr \<lparr>pk_did = did, pk_method = ''key'', pk_identifier = identifier,
                    pk_codecPrefix = codecPrefix, pk_publicKey = publicKey\<rparr>))"

section \<open>Documents and resolution\<close>

definition buildVerificationMethod :: "parsedDIDKey \<Rightarrow> verificationMethod" where
  "buildVerificationMethod parsed =
     \<lparr>vm_id = pk_did parsed @ ''#'' @ pk_identifier parsed, vm_type = ED25519_VERIFICATION_TYPE,
      vm_controller = pk_did parsed, vm_publicKeyMultibase = pk_identifier parsed\<rparr>"

definition buildDIDDocument :: "parsedDIDKey \<Rightarrow> didDocument" where
  "buildDIDDocument parsed =
     (let vm = buildVerificationMethod parsed
      in \<lparr>dd_context = DID_CONTEXTS, dd_id = pk_did parsed, dd_verificationMethod = [vm],
          dd_authentication = [vm_id vm], dd_assertionMethod = [vm_id vm]\<rparr>)"

definition buildErrorResult :: "didError \<Rightarrow> rat \<Rightarrow> didResolutionResult" where
  "buildErrorResult e duration =
     \<lparr>dr_metadata = \<lparr>md_contentType = None, md_duration = duration,
        md_error = Some (case e of DIDResolutionError c m d \<Rightarrow> error_code_text c
                         | OtherException \<Rightarrow> ''internalError''),
        md_cached = False\<rparr>,
      dr_document = None\<rparr>"

definition resolveDIDKey ::
    "(string \<Rightarrow> bytes option) \<Rightarrow> (bytes \<Rightarrow> (nat \<times> nat) option) \<Rightarrow> rat \<Rightarrow> string \<Rightarrow> didResolutionResult" where
  "resolveDIDKey base58 varint duration did =
     (case parseDIDKey base58 varint did of
        Inr parsed \<Rightarrow>
          \<lparr>dr_metadata = \<lparr>md_contentType = Some ''application/did+ld+json'', md_duration = duration,
             md_error = None, md_cached = False\<rparr>,
           dr_document = Some (buildDIDDocument parsed)\<rparr>
      | Inl e \<Rightarrow> buildErrorResult e duration)"

type_synonym didKeyResolver = "didResolutionResult ttlCache"

definition createDIDKeyResolver :: "ms \<Rightarrow> int \<Rightarrow> didKeyResolver" where
  "createDIDKeyResolver ttlMs maxSize = createCache ttlMs maxSize"

definition resolver_resolve ::
    "(string \<Rightarrow> bytes option) \<Rightarrow> (bytes \<Rightarrow> (nat \<times> nat) option) \<Rightarrow> rat
      \<Rightarrow> didKeyResolver \<Rightarrow> string \<Rightarrow> ms \<Rightarrow> didResolutionResult \<times> didKeyResolver" where
  "resolver_resolve base58 varint duration cache did now =
     (case ttl_get cache did now of
        (Some cached, cache') \<Rightarrow>
          (cached\<lparr>dr_metadata := (dr_metadata cached)\<lparr>md_cached := True\<rparr>\<rparr>, cache')
      | (None, cache') \<Rightarrow>
          (let result = resolveDIDKey base58 varint duration did
           in (result, if dr_document result \<noteq> None then ttl_set cache' did result now else cache')))"

definition clearCache :: "didKeyResolver \<Rightarrow> didKeyResolver" where
  "clearCache cache = ttl_clear cache"

section \<open>Facts\<close>

lemma validateDIDStructure_Inr:
  assumes "validateDIDStructure did = Inr (s, m, i)"
  shows "did = ''did:key:'' @ i \<and> i \<noteq> [] \<and> m = ''key''"
proof -
  let ?parts = "str_split CHR '':'' did"
  have len: "3 \<le> length ?parts" and p: "?parts ! 0 = ''did''" "?parts ! 1 = ''key''" "m = ''key''"
    and i: "i = str_join '':'' (drop 2 ?parts)" "i \<noteq> []"
    using assms by (auto simp: validateDIDStructure_def Let_def DID_SCHEME_def DID_KEY_METHOD_def
        split: if_splits)
  obtain a b c rest where abc: "?parts = a # b # c # rest"
    using len by (auto simp: numeral_3_eq_3 Suc_le_length_iff)
  have "did = str_join '':'' ?parts" using str_join_split [of "CHR '':''" did] by simp
  also have "\<dots> = ''did:key:'' @ i" using abc p(1,2) i(1) by simp
  finally show ?thesis using i(2) p(3) by simp
qed

lemma validateDIDStructure_key:
  assumes "i \<noteq> []"
  shows "validateDIDStructure (''did:key:'' @ i) = Inr (''did'', ''key'', i)"
proof -
  have "str_split CHR '':'' (''did:key:'' @ i) = ''did'' # ''key'' # str_split CHR '':'' i"
    using str_split_append [of "CHR '':''" "''did''" "''key:'' @ i"]
      str_split_append [of "CHR '':''" "''key''" i] by simp
  moreover obtain c rest where "str_split CHR '':'' i = c # rest"
    by (cases "str_split CHR '':'' i") auto
  moreover have "str_join '':'' (str_split CHR '':'' i) = i"
    by (rule str_join_split)
  ultimately show ?thesis
    using assms by (simp add: validateDIDStructure_def DID_SCHEME_def DID_KEY_METHOD_def)
qed

lemma parseDIDKey_Inr:
  assumes "parseDIDKey base58 varint did = Inr p"
  shows "did = ''did:key:'' @ pk_identifier p" and "pk_did p = did" and "pk_method p = ''key''"
    and "pk_codecPrefix p = ED25519_CODEC" and "length (pk_publicKey p) = ED25519_KEY_LENGTH"
    and "starts_with (pk_identifier p) ''z''"
    and "\<exists>decoded n. base58 (pk_identifier p) = Some decoded \<and>
      varint decoded = Some (ED25519_CODEC, n) \<and> pk_publicKey p = drop n decoded"
  using assms
  by (auto simp: parseDIDKey_def decodeMultibaseKey_def BASE58BTC_PREFIX_def Let_def
      dest!: validateDIDStructure_Inr split: sum.splits prod.splits if_splits option.splits)

text \<open>What the resolver stores for a DID: a successful resolution of it, apart from the duration.\<close>

definition resolved_as ::
    "(string \<Rightarrow> bytes option) \<Rightarrow> (bytes \<Rightarrow> (nat \<times> nat) option) \<Rightarrow> string \<Rightarrow> didResolutionResult \<Rightarrow> bool" where
  "resolved_as base58 varint did r \<longleftrightarrow>
     (\<exists>d. r = resolveDIDKey base58 varint d did) \<and> dr_document r \<noteq> None"

lemma resolver_is_memo:
  "resolver_resolve base58 varint d cache did now =
     ttl.memo (\<lambda>r. r\<lparr>dr_metadata := (dr_metadata r)\<lparr>md_cached := True\<rparr>\<rparr>)
       (resolveDIDKey base58 varint d) (\<lambda>r. dr_document r \<noteq> None) cache did now"
  unfolding resolver_resolve_def ttl.memo_def Let_def ..

lemma resolve_document:
  "dr_document (resolveDIDKey base58 varint d did) = dr_document (resolveDIDKey base58 varint d' did)"
  by (simp add: resolveDIDKey_def buildErrorResult_def split: sum.splits)

datatype resolver_op = Resolve string ms rat | ClearCache

fun resolver_step ::
    "(string \<Rightarrow> bytes option) \<Rightarrow> (bytes \<Rightarrow> (nat \<times> nat) option) \<Rightarrow> didKeyResolver \<Rightarrow> resolver_op
      \<Rightarrow> didKeyResolver" where
  "resolver_step base58 varint c (Resolve did now d) = snd (resolver_resolve base58 varint d c did now)"
| "resolver_step base58 varint c ClearCache = clearCache c"

lemma resolver_step_holds:
  "cache_holds (resolved_as base58 varint) c \<Longrightarrow>
   cache_holds (resolved_as base58 varint) (resolver_step base58 varint c x)"
  by (cases x) (auto simp: resolver_is_memo clearCache_def ttl.reset_holds resolved_as_def
      intro!: ttl.memo_keeps)

interpretation resolver: invariant_system "resolver_step base58 varint"
  "cache_holds (resolved_as base58 varint)" for base58 varint
  by unfold_locales (rule resolver_step_holds)

section \<open>Properties\<close>

lemma parse_did_key_eq:
  "parseDIDKey base58 varint did = Inr p \<longleftrightarrow>
     (\<exists>i decoded n. did = ''did:key:'' @ i \<and> starts_with i ''z'' \<and> base58 i = Some decoded \<and>
        2 \<le> length decoded \<and> varint decoded = Some (237, n) \<and> length (drop n decoded) = 32 \<and>
        p = \<lparr>pk_did = did, pk_method = ''key'', pk_identifier = i, pk_codecPrefix = 237,
             pk_publicKey = drop n decoded\<rparr>)"
proof
  assume "parseDIDKey base58 varint did = Inr p"
  then show "\<exists>i decoded n. did = ''did:key:'' @ i \<and> starts_with i ''z'' \<and> base58 i = Some decoded \<and>
        2 \<le> length decoded \<and> varint decoded = Some (237, n) \<and> length (drop n decoded) = 32 \<and>
        p = \<lparr>pk_did = did, pk_method = ''key'', pk_identifier = i, pk_codecPrefix = 237,
             pk_publicKey = drop n decoded\<rparr>"
    by (auto simp: parseDIDKey_def decodeMultibaseKey_def BASE58BTC_PREFIX_def Let_def
        ED25519_CODEC_def ED25519_KEY_LENGTH_def not_less
        dest!: validateDIDStructure_Inr split: sum.splits prod.splits if_splits option.splits)
next
  assume "\<exists>i decoded n. did = ''did:key:'' @ i \<and> starts_with i ''z'' \<and> base58 i = Some decoded \<and>
        2 \<le> length decoded \<and> varint decoded = Some (237, n) \<and> length (drop n decoded) = 32 \<and>
        p = \<lparr>pk_did = did, pk_method = ''key'', pk_identifier = i, pk_codecPrefix = 237,
             pk_publicKey = drop n decoded\<rparr>"
  then obtain i decoded n where *: "did = ''did:key:'' @ i" "starts_with i ''z''"
    "base58 i = Some decoded" "2 \<le> length decoded" "varint decoded = Some (237, n)"
    "length (drop n decoded) = 32"
    "p = \<lparr>pk_did = did, pk_method = ''key'', pk_identifier = i, pk_codecPrefix = 237,
             pk_publicKey = drop n decoded\<rparr>" by blast
  have "i \<noteq> []" using *(2) by auto
  then show "parseDIDKey base58 varint did = Inr p"
    using * validateDIDStructure_key [of i]
    by (simp add: parseDIDKey_def decodeMultibaseKey_def BASE58BTC_PREFIX_def ED25519_CODEC_def
        ED25519_KEY_LENGTH_def Let_def not_less)
qed

text \<open>
  \<open>parseDIDKey\<close> accepts exactly the identifiers \<open>did:key:z...\<close> whose base58 payload starts with
  the Ed25519 codec followed by a 32-byte key, and returns that key; there is no other way to
  succeed, whatever the decoders do.
\<close>

theorem parse_did_key_exact:
  "parseDIDKey base58 varint did = Inr p \<longleftrightarrow>
     (\<exists>i decoded n. did = ''did:key:'' @ i \<and> starts_with i ''z'' \<and> base58 i = Some decoded \<and>
        2 \<le> length decoded \<and> varint decoded = Some (237, n) \<and> length (drop n decoded) = 32 \<and>
        p = \<lparr>pk_did = did, pk_method = ''key'', pk_identifier = i, pk_codecPrefix = 237,
             pk_publicKey = drop n decoded\<rparr>)"
  by (rule parse_did_key_eq)

text \<open>
  (C33) Caching is transparent: after any history of resolutions and cache clears on a new resolver, at any
  times, resolving a DID returns exactly what resolving it without a cache does (document, content type
  and error code), apart from the flag and the duration of an answer from the cache, which is a success.
\<close>

theorem cached_resolution_transparent:
  assumes "cache = foldl (resolver_step base58 varint) (createDIDKeyResolver ttlMs maxSize) ops"
    and "r = resolveDIDKey base58 varint d did"
  shows "\<exists>b d'. fst (resolver_resolve base58 varint d cache did now) =
      r\<lparr>dr_metadata := (dr_metadata r)\<lparr>md_cached := b, md_duration := d'\<rparr>\<rparr> \<and>
    (b \<longrightarrow> dr_document r \<noteq> None) \<and> (\<not> b \<longrightarrow> d' = d)"
proof -
  have "cache_holds (resolved_as base58 varint) (createDIDKeyResolver ttlMs maxSize)"
    by (simp add: cache_holds_def createDIDKeyResolver_def createCache_def)
  then have holds: "cache_holds (resolved_as base58 varint) cache"
    unfolding assms(1) by (rule resolver.run_good)
  have fresh: "resolveDIDKey base58 varint d' did =
      r\<lparr>dr_metadata := (dr_metadata r)\<lparr>md_cached := False, md_duration := d'\<rparr>\<rparr>" for d'
    by (simp add: assms(2) resolveDIDKey_def buildErrorResult_def split: sum.splits)
  from ttl.memo_answer [OF holds] consider
      (hit) q where "resolved_as base58 varint did q"
        "fst (resolver_resolve base58 varint d cache did now) =
           q\<lparr>dr_metadata := (dr_metadata q)\<lparr>md_cached := True\<rparr>\<rparr>"
    | (miss) "fst (resolver_resolve base58 varint d cache did now) = resolveDIDKey base58 varint d did"
    unfolding resolver_is_memo by blast
  then show ?thesis
  proof cases
    case hit
    then obtain d' where q: "q = resolveDIDKey base58 varint d' did" "dr_document q \<noteq> None"
      by (auto simp: resolved_as_def)
    show ?thesis
      by (intro exI [of _ True] exI [of _ d']) (use hit(2) q fresh [of d'] in simp)
  next
    case miss
    show ?thesis by (intro exI [of _ False] exI [of _ d]) (use miss fresh [of d] in simp)
  qed
qed

definition stub_base58 :: "string \<Rightarrow> bytes option" where
  "stub_base58 s = (if s = ''zA'' then Some (237 # 1 # replicate 32 7) else None)"

definition stub_varint :: "bytes \<Rightarrow> (nat \<times> nat) option" where
  "stub_varint bs = (case bs of b # c # r \<Rightarrow> if c = 1 then Some (b, 2) else None | _ \<Rightarrow> None)"

theorem cached_resolution_transparent_witness:
  "dr_document (fst (resolver_resolve stub_base58 stub_varint 0
      (foldl (resolver_step stub_base58 stub_varint) (createDIDKeyResolver 1000 2)
         [Resolve ''did:key:zA'' 5 1]) ''did:key:zA'' 6)) =
    dr_document (resolveDIDKey stub_base58 stub_varint 0 ''did:key:zA'')"
  using cached_resolution_transparent [OF refl refl, where ?base58.0 = stub_base58 and varint = stub_varint
      and ttlMs = 1000 and maxSize = 2 and ops = "[Resolve ''did:key:zA'' 5 1]" and d = 0
      and did = "''did:key:zA''" and now = 6]
  by auto

text \<open>
  A resolved document speaks about the DID that was asked for and carries its key: the document
  id and the controller are the DID, both relationships refer to its only verification method, and
  decoding that method's multibase value gives back the parsed public key.
\<close>

theorem resolved_document_binds_key:
  assumes "dr_document (resolveDIDKey base58 varint d did) = Some doc"
  shows "\<exists>p vm decoded n. parseDIDKey base58 varint did = Inr p \<and>
    dd_id doc = did \<and> dd_verificationMethod doc = [vm] \<and> vm_controller vm = did \<and>
    vm_id vm = did @ ''#'' @ vm_publicKeyMultibase vm \<and>
    dd_authentication doc = [vm_id vm] \<and> dd_assertionMethod doc = [vm_id vm] \<and>
    base58 (vm_publicKeyMultibase vm) = Some decoded \<and> varint decoded = Some (237, n) \<and>
    pk_publicKey p = drop n decoded \<and> length (pk_publicKey p) = 32"
proof -
  obtain p where p: "parseDIDKey base58 varint did = Inr p" "doc = buildDIDDocument p"
    using assms by (auto simp: resolveDIDKey_def buildErrorResult_def split: sum.splits)
  from p(1) [unfolded parse_did_key_eq] show ?thesis
    using p by (auto simp: buildDIDDocument_def buildVerificationMethod_def Let_def)
qed

theorem resolved_document_binds_key_witness:
  "\<exists>p. parseDIDKey stub_base58 stub_varint ''did:key:zA'' = Inr p \<and> length (pk_publicKey p) = 32"
proof -
  have parse: "parseDIDKey stub_base58 stub_varint ''did:key:zA'' =
      Inr \<lparr>pk_did = ''did:key:zA'', pk_method = ''key'', pk_identifier = ''zA'', pk_codecPrefix = 237,
           pk_publicKey = replicate 32 7\<rparr>"
    unfolding parse_did_key_eq
    by (intro exI [of _ "''zA''"] exI [of _ "237 # 1 # replicate 32 7"] exI [of _ 2])
       (simp add: stub_base58_def stub_varint_def)
  then have "dr_document (resolveDIDKey stub_base58 stub_varint 0 ''did:key:zA'') =
      Some (buildDIDDocument \<lparr>pk_did = ''did:key:zA'', pk_method = ''key'', pk_identifier = ''zA'',
        pk_codecPrefix = 237, pk_publicKey = replicate 32 7\<rparr>)"
    by (simp add: resolveDIDKey_def)
  from resolved_document_binds_key [OF this] show ?thesis by blast
qed

end
