(* ===== verification/JsJson.thy ===== *)
theory JsJson
  imports JsValue IsoTime
begin

text \<open>
  The parts of the language's standard library that read and write text: \<open>JSON.parse\<close>,
  \<open>JSON.stringify\<close> (plain and with an indent) and \<open>Buffer.from(s, 'base64url')\<close>. They are written
  out so that tokens, stored revocations and policy hashes can be evaluated on concrete strings.

  The parser is a recursive descent with fuel; \<open>json_parse\<close> gives it \<open>2 * length s + 2\<close>, and
  \<open>json_parse_enough_fuel\<close> shows that this never runs out, so that \<open>None\<close> always means a
  \<open>SyntaxError\<close>. \<open>json_roundtrip\<close> shows that the parser reads back what the printer writes.
  Invalid UTF-8 in a decoded buffer is kept as bytes (the engine substitutes U+FFFD).
\<close>

section \<open>String literals\<close>

definition hex_val :: "char \<Rightarrow> nat option" where
  "hex_val c =
     (let n = of_char c :: nat in
      if 48 \<le> n \<and> n \<le> 57 then Some (n - 48)
      else if 97 \<le> n \<and> n \<le> 102 then Some (n - 87)
      else if 65 \<le> n \<and> n \<le> 70 then Some (n - 55) else None)"

definition hex_digit :: "nat \<Rightarrow> char" where
  "hex_digit n = char_of (if n < 10 then 48 + n else 87 + n)"

fun hex_run :: "nat \<Rightarrow> string \<Rightarrow> nat option" where
  "hex_run n [] = Some n"
| "hex_run n (c # cs) = (case hex_val c of None \<Rightarrow> None | Some d \<Rightarrow> hex_run (16 * n + d) cs)"

definition hex4 :: "string \<Rightarrow> nat option" where
  "hex4 s = (if length s < 4 then None else hex_run 0 (take 4 s))"

definition utf8_encode :: "nat \<Rightarrow> string" where
  "utf8_encode n =
     (if n < 128 then [char_of n]
      else if n < 2048 then [char_of (192 + n div 64), char_of (128 + n mod 64)]
      else if n < 65536 then
        [char_of (224 + n div 4096), char_of (128 + n div 64 mod 64), char_of (128 + n mod 64)]
      else
        [char_of (240 + n div 262144), char_of (128 + n div 4096 mod 64),
         char_of (128 + n div 64 mod 64), char_of (128 + n mod 64)])"

text \<open>The low half of a surrogate pair, when it follows as another escape.\<close>

definition low_surrogate :: "string \<Rightarrow> nat option" where
  "low_surrogate s =
     (if take 2 s = [CHR 0x5C, CHR ''u''] then
        (case hex4 (drop 2 s) of
           Some m \<Rightarrow> if 56320 \<le> m \<and> m \<le> 57343 then Some m else None
         | None \<Rightarrow> None)
      else None)"

definition simple_escape :: "char \<Rightarrow> char option" where
  "simple_escape e =
     map_of [(CHR 0x22, CHR 0x22), (CHR 0x5C, CHR 0x5C), (CHR ''/'', CHR ''/''),
             (CHR ''b'', CHR 0x08), (CHR ''f'', CHR 0x0C), (CHR ''n'', CHR 0x0A),
             (CHR ''r'', CHR 0x0D), (CHR ''t'', CHR 0x09)] e"

definition push :: "string \<Rightarrow> (string \<times> string) option \<Rightarrow> (string \<times> string) option" where
  "push p x = (case x of None \<Rightarrow> None | Some (s, r) \<Rightarrow> Some (p @ s, r))"

text \<open>The text after an opening quote: the literal's value and what follows the closing quote.\<close>

fun pstr :: "string \<Rightarrow> (string \<times> string) option" where
  "pstr [] = None"
| "pstr (c # cs) =
     (if c = CHR 0x22 then Some ([], cs)
      else if (of_char c :: nat) < 32 then None
      else if c = CHR 0x5C then
        (case cs of
           [] \<Rightarrow> None
         | e # es \<Rightarrow>
             if e = CHR ''u'' then
               (case hex4 es of
                  None \<Rightarrow> None
                | Some n \<Rightarrow>
                    if 55296 \<le> n \<and> n \<le> 56319 \<and> low_surrogate (drop 4 es) \<noteq> None
                    then push (utf8_encode (65536 + (n - 55296) * 1024
                             + (the (low_surrogate (drop 4 es)) - 56320))) (pstr (drop 10 es))
                    else push (utf8_encode n) (pstr (drop 4 es)))
             else (case simple_escape e of None \<Rightarrow> None | Some d \<Rightarrow> push [d] (pstr es)))
      else push [c] (pstr cs))"

declare pstr.simps(2) [simp del]

lemma push_Some: "push p x = Some (t, r) \<longleftrightarrow> (\<exists>s. x = Some (s, r) \<and> t = p @ s)"
  by (auto simp: push_def split: option.splits)

lemma pstr_shorter: "pstr s = Some (t, r) \<Longrightarrow> length r < length s"
proof (induction s arbitrary: t r rule: length_induct)
  case (1 s)
  show ?case
  proof (cases s)
    case Nil
    with "1.prems" show ?thesis by simp
  next
    case (Cons c cs)
    have sub: "length r < length s" if "pstr u = Some (x, r)" and "length u \<le> length cs" for u x
      using "1.IH" that Cons by (metis le_imp_less_Suc length_Cons less_trans)
    note prem = "1.prems" [unfolded Cons pstr.simps(2) [of c cs]]
    have "r = cs \<or> (\<exists>u x. pstr u = Some (x, r) \<and> length u \<le> length cs)"
    proof (cases cs)
      case Nil
      with prem show ?thesis by (auto simp: push_def split: if_splits)
    next
      case (Cons e es)
      have le: "length (drop k es) \<le> length cs" "length es \<le> length cs" "length cs \<le> length cs" for k
        using Cons by simp_all
      show ?thesis
        using prem le unfolding Cons list.case push_def
        by (fastforce split: if_splits option.splits)
    qed
    with sub Cons show ?thesis by auto
  qed
qed

text \<open>Escaping, as \<open>JSON.stringify\<close> does it.\<close>

definition escape_char :: "char \<Rightarrow> string" where
  "escape_char c =
     (let n = of_char c :: nat in
      if c = CHR 0x22 then [CHR 0x5C, CHR 0x22]
      else if c = CHR 0x5C then [CHR 0x5C, CHR 0x5C]
      else if n = 8 then [CHR 0x5C, CHR ''b'']
      else if n = 9 then [CHR 0x5C, CHR ''t'']
      else if n = 10 then [CHR 0x5C, CHR ''n'']
      else if n = 12 then [CHR 0x5C, CHR ''f'']
      else if n = 13 then [CHR 0x5C, CHR ''r'']
      else if n < 32 then
        [CHR 0x5C, CHR ''u'', CHR ''0'', CHR ''0'', hex_digit (n div 16), hex_digit (n mod 16)]
      else [c])"

definition json_quote :: "string \<Rightarrow> string" where
  "json_quote s = CHR 0x22 # concat (map escape_char s) @ [CHR 0x22]"

lemma hex_val_digit: "d < 16 \<Longrightarrow> hex_val (hex_digit d) = Some d"
  by (auto simp: hex_val_def hex_digit_def Let_def of_char_of take_bit_eq_mod)

lemma hex4_control:
  assumes "n < 32"
  shows "hex4 (CHR ''0'' # CHR ''0'' # hex_digit (n div 16) # hex_digit (n mod 16) # s) = Some n"
proof -
  have "n div 16 < 16" "n mod 16 < 16" using assms by auto
  moreover have "hex_val CHR ''0'' = Some 0" by (simp add: hex_val_def)
  ultimately show ?thesis by (simp add: hex4_def hex_val_digit)
qed

lemma simple_escapes:
  "simple_escape CHR 0x22 = Some CHR 0x22" "simple_escape CHR 0x5C = Some CHR 0x5C"
  "simple_escape CHR ''b'' = Some CHR 0x08" "simple_escape CHR ''t'' = Some CHR 0x09"
  "simple_escape CHR ''n'' = Some CHR 0x0A" "simple_escape CHR ''f'' = Some CHR 0x0C"
  "simple_escape CHR ''r'' = Some CHR 0x0D"
  by (simp_all add: simple_escape_def)

lemma char_eq_of_code: "(of_char c :: nat) = n \<Longrightarrow> c = char_of n"
  by (metis char_of_char)

lemma control_chars:
  "char_of (8 :: nat) = CHR 0x08" "char_of (9 :: nat) = CHR 0x09" "char_of (10 :: nat) = CHR 0x0A"
  "char_of (12 :: nat) = CHR 0x0C" "char_of (13 :: nat) = CHR 0x0D"
  by code_simp+

lemma pstr_escape_char: "pstr (escape_char c @ s) = push [c] (pstr s)"
proof -
  let ?n = "of_char c :: nat"
  consider "c = CHR 0x22" | "c = CHR 0x5C" | "?n \<in> {8, 9, 10, 12, 13}"
    | "?n < 32" "?n \<notin> {8, 9, 10, 12, 13}" "c \<noteq> CHR 0x22" "c \<noteq> CHR 0x5C"
    | "32 \<le> ?n" "c \<noteq> CHR 0x22" "c \<noteq> CHR 0x5C"
    by fastforce
  then show ?thesis
  proof cases
    case 3
    then have "c \<in> {CHR 0x08, CHR 0x09, CHR 0x0A, CHR 0x0C, CHR 0x0D}"
      by (auto dest!: char_eq_of_code simp: control_chars)
    then show ?thesis
      by (auto simp: escape_char_def pstr.simps(2) simple_escapes)
  next
    case 4
    then have esc: "escape_char c @ s = CHR 0x5C # CHR ''u'' # CHR ''0'' # CHR ''0''
        # hex_digit (?n div 16) # hex_digit (?n mod 16) # s"
      by (simp add: escape_char_def Let_def)
    have "utf8_encode ?n = [c]" using 4(1) by (simp add: utf8_encode_def)
    moreover have "\<not> 55296 \<le> ?n" using 4(1) by linarith
    ultimately show ?thesis
      unfolding esc using hex4_control [OF 4(1), of s] by (simp add: pstr.simps(2))
  qed (auto simp: escape_char_def pstr.simps(2) simple_escapes Let_def)
qed

lemma push_push: "push p (push q x) = push (p @ q) x"
  by (simp add: push_def split: option.splits)

lemma pstr_quote: "pstr (concat (map escape_char t) @ CHR 0x22 # r) = Some (t, r)"
proof (induction t)
  case Nil
  show ?case by (simp add: pstr.simps(2))
next
  case (Cons c t)
  then show ?case by (simp add: pstr_escape_char push_def)
qed

section \<open>Numbers\<close>

text \<open>A JSON number at the start of a text: its value and the rest.\<close>

definition pint :: "string \<Rightarrow> (string \<times> string) option" where
  "pint s =
     (case s of
        [] \<Rightarrow> None
      | c # cs \<Rightarrow> if c = CHR ''0'' then Some ([c], cs)
                 else if is_digit c then Some (span_digits s) else None)"

definition pfrac :: "string \<Rightarrow> (string \<times> string) option" where
  "pfrac s =
     (case s of
        [] \<Rightarrow> Some ([], [])
      | c # cs \<Rightarrow> if c = CHR ''.''
                 then (if fst (span_digits cs) = [] then None else Some (span_digits cs))
                 else Some ([], s))"

definition pnum :: "string \<Rightarrow> (rat \<times> string) option" where
  "pnum s =
     (let (neg, s1) = (case s of [] \<Rightarrow> (False, s)
          | c # cs \<Rightarrow> if c = CHR ''-'' then (True, cs) else (False, s)) in
      case pint s1 of
        None \<Rightarrow> None
      | Some (ip, s2) \<Rightarrow>
          (case pfrac s2 of
             None \<Rightarrow> None
           | Some (fp, s3) \<Rightarrow>
               (case exp_part s3 of
                  None \<Rightarrow> None
                | Some (e, s4) \<Rightarrow>
                    Some (if neg then - decimal ip fp e else decimal ip fp e, s4))))"

lemma span_digits_rest: "length (snd (span_digits s)) \<le> length s"
  by (simp add: span_digits_def length_dropWhile_le)

lemma pint_shorter: "pint s = Some (ip, r) \<Longrightarrow> length r < length s"
  by (auto simp: pint_def span_digits_def less_Suc_eq_le length_dropWhile_le
      split: list.splits if_splits)

lemma pfrac_shorter: "pfrac s = Some (fp, r) \<Longrightarrow> length r \<le> length s"
  using span_digits_rest
  by (auto simp: pfrac_def split: list.splits if_splits) (metis le_SucI snd_conv)

lemma exp_part_shorter: "exp_part s = Some (e, r) \<Longrightarrow> length r \<le> length s"
  by (auto simp: exp_part_def span_digits_def Let_def le_SucI length_dropWhile_le
      split: list.splits if_splits prod.splits intro: order_trans [OF length_dropWhile_le])

lemma pnum_shorter: "pnum s = Some (n, r) \<Longrightarrow> length r < length s"
proof -
  assume a: "pnum s = Some (n, r)"
  define s1 where "s1 = (case s of [] \<Rightarrow> s | c # cs \<Rightarrow> if c = CHR ''-'' then cs else s)"
  have s1: "length s1 \<le> length s" by (simp add: s1_def split: list.splits)
  from a obtain ip s2 fp s3 e where
    "pint s1 = Some (ip, s2)" "pfrac s2 = Some (fp, s3)" "exp_part s3 = Some (e, r)"
    by (auto simp: pnum_def s1_def split: list.splits if_splits option.splits prod.splits)
  then have "length s2 < length s1" "length s3 \<le> length s2" "length r \<le> length s3"
    by (auto dest: pint_shorter pfrac_shorter exp_part_shorter)
  with s1 show ?thesis by linarith
qed

section \<open>The parser\<close>

datatype 'a presult = PFail | PFuel | POk 'a string

definition skip_ws :: "string \<Rightarrow> string" where
  "skip_ws s = dropWhile is_ws s"

lemma skip_ws_le: "length (skip_ws s) \<le> length s"
  by (simp add: skip_ws_def length_dropWhile_le)

fun pval :: "nat \<Rightarrow> string \<Rightarrow> jsval presult"
  and pelems :: "nat \<Rightarrow> string \<Rightarrow> jsval list \<Rightarrow> jsval list presult"
  and pmembers :: "nat \<Rightarrow> string \<Rightarrow> (string \<times> jsval) list \<Rightarrow> (string \<times> jsval) list presult"
where
  "pval 0 s = PFuel"
| "pval (Suc f) s =
     (case skip_ws s of
        [] \<Rightarrow> PFail
      | c # cs \<Rightarrow>
          if c = CHR 0x7B then
            (if take 1 (skip_ws cs) = [CHR 0x7D] then POk (JObj []) (drop 1 (skip_ws cs))
             else (case pmembers f cs [] of
                 POk ms r \<Rightarrow> POk (JObj ms) r | PFail \<Rightarrow> PFail | PFuel \<Rightarrow> PFuel))
          else if c = CHR 0x5B then
            (if take 1 (skip_ws cs) = [CHR 0x5D] then POk (JArr []) (drop 1 (skip_ws cs))
             else (case pelems f cs [] of
                 POk vs r \<Rightarrow> POk (JArr vs) r | PFail \<Rightarrow> PFail | PFuel \<Rightarrow> PFuel))
          else if c = CHR 0x22 then
            (case pstr cs of None \<Rightarrow> PFail | Some (t, r) \<Rightarrow> POk (JStr t) r)
          else if starts_with (c # cs) ''true'' then POk (JBool True) (drop 3 cs)
          else if starts_with (c # cs) ''false'' then POk (JBool False) (drop 4 cs)
          else if starts_with (c # cs) ''null'' then POk JNull (drop 3 cs)
          else (case pnum (c # cs) of None \<Rightarrow> PFail | Some (n, r) \<Rightarrow> POk (JNum n) r))"
| "pelems 0 s acc = PFuel"
| "pelems (Suc f) s acc =
     (case pval f s of
        PFail \<Rightarrow> PFail | PFuel \<Rightarrow> PFuel
      | POk v r \<Rightarrow>
          (case skip_ws r of
             [] \<Rightarrow> PFail
           | d # ds \<Rightarrow> if d = CHR '','' then pelems f ds (acc @ [v])
                      else if d = CHR 0x5D then POk (acc @ [v]) ds else PFail))"
| "pmembers 0 s acc = PFuel"
| "pmembers (Suc f) s acc =
     (case skip_ws s of
        [] \<Rightarrow> PFail
      | q # qs \<Rightarrow>
          if q \<noteq> CHR 0x22 then PFail
          else (case pstr qs of
             None \<Rightarrow> PFail
           | Some (k, r) \<Rightarrow>
               (case skip_ws r of
                  [] \<Rightarrow> PFail
                | d # ds \<Rightarrow>
                    if d \<noteq> CHR '':'' then PFail
                    else (case pval f ds of
                       PFail \<Rightarrow> PFail | PFuel \<Rightarrow> PFuel
                     | POk v r' \<Rightarrow>
                         (case skip_ws r' of
                            [] \<Rightarrow> PFail
                          | e # es \<Rightarrow>
                              if e = CHR '','' then pmembers f es (jm_set acc k v)
                              else if e = CHR 0x7D then POk (jm_set acc k v) es
                              else PFail)))))"

text \<open>\<open>JSON.parse\<close>: \<open>None\<close> is the thrown \<open>SyntaxError\<close>.\<close>

definition json_parse :: "string \<Rightarrow> jsval option" where
  "json_parse s =
     (case pval (2 * length s + 2) s of
        POk v r \<Rightarrow> if skip_ws r = [] then Some v else None
      | _ \<Rightarrow> None)"

section \<open>The parser consumes text and its fuel suffices\<close>

lemma skip_ws_Cons: "skip_ws s = c # cs \<Longrightarrow> length cs < length s"
  using skip_ws_le [of s] by simp

lemma pval_step_shorter:
  assumes es: "\<And>s acc vs r. pelems f s acc = POk vs r \<Longrightarrow> length r < length s"
    and ms: "\<And>s acc kvs r. pmembers f s acc = POk kvs r \<Longrightarrow> length r < length s"
    and a: "pval (Suc f) s = POk w r"
  shows "length r < length s"
proof (cases "skip_ws s")
  case Nil
  with a show ?thesis by simp
next
  case (Cons c cs)
  have "length r \<le> length cs"
    using a skip_ws_le [of cs] pnum_shorter [of "c # cs"]
    by (auto simp: Cons dest: pstr_shorter es ms split: if_splits presult.splits option.splits)
  with skip_ws_Cons [OF Cons] show ?thesis by simp
qed

lemma pelems_step_shorter:
  assumes v: "\<And>s w r. pval f s = POk w r \<Longrightarrow> length r < length s"
    and es: "\<And>s acc vs r. pelems f s acc = POk vs r \<Longrightarrow> length r < length s"
    and a: "pelems (Suc f) s acc = POk w r"
  shows "length r < length s"
proof -
  from a obtain x u where u: "pval f s = POk x u"
    by (auto split: presult.splits)
  with a obtain d ds where d: "skip_ws u = d # ds"
    by (auto split: list.splits)
  have "length r \<le> length ds"
    using a u d by (auto dest: es split: if_splits)
  with skip_ws_Cons [OF d] v [OF u] show ?thesis by simp
qed

text \<open>A step over one member that does not fail consumes a key, a colon and a value.\<close>

definition after_colon ::
    "nat \<Rightarrow> (string \<times> jsval) list \<Rightarrow> string \<Rightarrow> string \<Rightarrow> (string \<times> jsval) list presult" where
  "after_colon f acc k ds =
     (case pval f ds of
        PFail \<Rightarrow> PFail | PFuel \<Rightarrow> PFuel
      | POk v r \<Rightarrow>
          (case skip_ws r of
             [] \<Rightarrow> PFail
           | e # es \<Rightarrow> if e = CHR '','' then pmembers f es (jm_set acc k v)
                      else if e = CHR 0x7D then POk (jm_set acc k v) es else PFail))"

lemma member_consumed:
  assumes "pmembers (Suc f) s acc \<noteq> PFail"
  obtains qs k u ds where "skip_ws s = CHR 0x22 # qs" and "pstr qs = Some (k, u)"
    and "skip_ws u = CHR '':'' # ds" and "length ds + 3 \<le> length s"
    and "pmembers (Suc f) s acc = after_colon f acc k ds"
proof -
  from assms obtain qs where q: "skip_ws s = CHR 0x22 # qs"
    by (auto split: list.splits if_splits)
  with assms obtain k u where k: "pstr qs = Some (k, u)" by (auto split: option.splits)
  with assms q obtain ds where d: "skip_ws u = CHR '':'' # ds"
    by (auto split: list.splits if_splits)
  have "length ds + 3 \<le> length s"
    using skip_ws_Cons [OF q] pstr_shorter [OF k] skip_ws_Cons [OF d] by linarith
  with q k d show thesis by (intro that) (simp_all add: after_colon_def)
qed

lemma pmembers_step_shorter:
  assumes v: "\<And>s w r. pval f s = POk w r \<Longrightarrow> length r < length s"
    and ms: "\<And>s acc kvs r. pmembers f s acc = POk kvs r \<Longrightarrow> length r < length s"
    and a: "pmembers (Suc f) s acc = POk w r"
  shows "length r < length s"
proof -
  have "pmembers (Suc f) s acc \<noteq> PFail" using a by (metis presult.distinct(3))
  then obtain k ds where le: "length ds + 3 \<le> length s"
    and step: "pmembers (Suc f) s acc = after_colon f acc k ds"
    by (rule member_consumed)
  note run = a [unfolded step after_colon_def]
  then obtain x y where x: "pval f ds = POk x y" by (auto split: presult.splits)
  with run obtain e t where e: "skip_ws y = e # t" by (auto split: list.splits)
  have "length r \<le> length t" using run x e by (auto dest: ms split: if_splits)
  with le v [OF x] skip_ws_Cons [OF e] show ?thesis by linarith
qed

lemma parser_shorter:
  "(\<forall>s v r. pval f s = POk v r \<longrightarrow> length r < length s) \<and>
   (\<forall>s acc vs r. pelems f s acc = POk vs r \<longrightarrow> length r < length s) \<and>
   (\<forall>s acc ms r. pmembers f s acc = POk ms r \<longrightarrow> length r < length s)"
proof (induction f)
  case 0
  show ?case by simp
next
  case (Suc f)
  then have v: "\<And>s w r. pval f s = POk w r \<Longrightarrow> length r < length s"
    and es: "\<And>s acc vs r. pelems f s acc = POk vs r \<Longrightarrow> length r < length s"
    and ms: "\<And>s acc kvs r. pmembers f s acc = POk kvs r \<Longrightarrow> length r < length s"
    by blast+
  have "length r < length s" if "pval (Suc f) s = POk w r" for s w r
    using es ms that by (rule pval_step_shorter)
  moreover have "length r < length s" if "pelems (Suc f) s acc = POk w r" for s acc w r
    using v es that by (rule pelems_step_shorter)
  moreover have "length r < length s" if "pmembers (Suc f) s acc = POk w r" for s acc w r
    using v ms that by (rule pmembers_step_shorter)
  ultimately show ?case by blast
qed

lemma pval_step_fuel:
  assumes "\<And>s acc. 2 * length s + 1 < f \<Longrightarrow> pelems f s acc \<noteq> PFuel"
    and "\<And>s acc. 2 * length s + 1 < f \<Longrightarrow> pmembers f s acc \<noteq> PFuel"
    and l: "2 * length s < Suc f"
  shows "pval (Suc f) s \<noteq> PFuel"
proof (cases "skip_ws s")
  case Nil
  then show ?thesis by simp
next
  case (Cons c cs)
  with l skip_ws_Cons [OF Cons] have "2 * length cs + 1 < f" by linarith
  from assms(1,2) [OF this] show ?thesis
    by (auto simp: Cons split: presult.splits option.splits)
qed

lemma pelems_step_fuel:
  assumes v: "\<And>s. 2 * length s < f \<Longrightarrow> pval f s \<noteq> PFuel"
    and es: "\<And>s acc. 2 * length s + 1 < f \<Longrightarrow> pelems f s acc \<noteq> PFuel"
    and l: "2 * length s + 1 < Suc f"
  shows "pelems (Suc f) s acc \<noteq> PFuel"
proof -
  have "pval f s \<noteq> PFuel" using l by (intro v) simp
  moreover have "pelems f ds acc' \<noteq> PFuel"
    if "pval f s = POk x u" "skip_ws u = d # ds" for x u d ds acc'
  proof (rule es)
    have "length u < length s" using parser_shorter [of f] that(1) by blast
    then show "2 * length ds + 1 < f" using l skip_ws_Cons [OF that(2)] by linarith
  qed
  ultimately show ?thesis by (auto split: presult.splits list.splits)
qed

lemma pmembers_step_fuel:
  assumes v: "\<And>s. 2 * length s < f \<Longrightarrow> pval f s \<noteq> PFuel"
    and ms: "\<And>s acc. 2 * length s + 1 < f \<Longrightarrow> pmembers f s acc \<noteq> PFuel"
    and l: "2 * length s + 1 < Suc f"
  shows "pmembers (Suc f) s acc \<noteq> PFuel"
proof (cases "pmembers (Suc f) s acc = PFail")
  case False
  then obtain k ds where le: "length ds + 3 \<le> length s"
    and step: "pmembers (Suc f) s acc = after_colon f acc k ds"
    by (rule member_consumed)
  have "pval f ds \<noteq> PFuel" using le l by (intro v) linarith
  moreover have "pmembers f t acc' \<noteq> PFuel"
    if "pval f ds = POk x y" "skip_ws y = e # t" for x y e t acc'
  proof (rule ms)
    have "length y < length ds" using parser_shorter [of f] that(1) by blast
    then show "2 * length t + 1 < f" using le l skip_ws_Cons [OF that(2)] by linarith
  qed
  ultimately show ?thesis unfolding step after_colon_def by (auto split: presult.splits list.splits)
qed (metis presult.distinct(1))

lemma parser_fuel:
  "(\<forall>s. 2 * length s < f \<longrightarrow> pval f s \<noteq> PFuel) \<and>
   (\<forall>s acc. 2 * length s + 1 < f \<longrightarrow> pelems f s acc \<noteq> PFuel) \<and>
   (\<forall>s acc. 2 * length s + 1 < f \<longrightarrow> pmembers f s acc \<noteq> PFuel)"
proof (induction f)
  case 0
  show ?case by simp
next
  case (Suc f)
  then have v: "\<And>s. 2 * length s < f \<Longrightarrow> pval f s \<noteq> PFuel"
    and es: "\<And>s acc. 2 * length s + 1 < f \<Longrightarrow> pelems f s acc \<noteq> PFuel"
    and ms: "\<And>s acc. 2 * length s + 1 < f \<Longrightarrow> pmembers f s acc \<noteq> PFuel"
    by blast+
  have "pval (Suc f) s \<noteq> PFuel" if "2 * length s < Suc f" for s
    using es ms that by (rule pval_step_fuel)
  moreover have "pelems (Suc f) s acc \<noteq> PFuel" if "2 * length s + 1 < Suc f" for s acc
    using v es that by (rule pelems_step_fuel)
  moreover have "pmembers (Suc f) s acc \<noteq> PFuel" if "2 * length s + 1 < Suc f" for s acc
    using v ms that by (rule pmembers_step_fuel)
  ultimately show ?case by blast
qed

text \<open>
  The JSON parser always answers, with a value or a rejection: the fuel \<open>json_parse\<close> gives it,
  linear in the length of the text, is never exhausted.
\<close>

theorem json_parse_enough_fuel: "pval (2 * length s + 2) s \<noteq> PFuel"
  using parser_fuel [of "2 * length s + 2"] by simp

section \<open>The printer\<close>

text \<open>
  \<open>JSON.stringify(v, null, gap)\<close>: \<open>gap\<close> is empty for the plain form and two spaces for the
  indented one; \<open>ind\<close> is the current indentation. Undefined members are left out, an undefined
  element prints as \<open>null\<close>, a date prints as its ISO string.
\<close>

definition sep_line :: "string \<Rightarrow> string \<Rightarrow> string" where
  "sep_line gap ind = (if gap = [] then [] else CHR 0x0A # ind)"

fun json_val :: "string \<Rightarrow> string \<Rightarrow> jsval \<Rightarrow> string"
  and json_elems :: "string \<Rightarrow> string \<Rightarrow> jsval list \<Rightarrow> string list"
  and json_members :: "string \<Rightarrow> string \<Rightarrow> (string \<times> jsval) list \<Rightarrow> string list"
where
  "json_val gap ind JUndef = ''null''"
| "json_val gap ind JNull = ''null''"
| "json_val gap ind (JBool b) = (if b then ''true'' else ''false'')"
| "json_val gap ind (JNum n) = num_to_string n"
| "json_val gap ind (JStr s) = json_quote s"
| "json_val gap ind (JDate d) =
     (case d of None \<Rightarrow> ''null'' | Some t \<Rightarrow> json_quote (toISOString t))"
| "json_val gap ind (JArr vs) =
     (case json_elems gap (ind @ gap) vs of
        [] \<Rightarrow> ''[]''
      | es \<Rightarrow> ''['' @ sep_line gap (ind @ gap)
               @ str_join ('','' @ sep_line gap (ind @ gap)) es @ sep_line gap ind @ '']'')"
| "json_val gap ind (JObj ms) =
     (case json_members gap (ind @ gap) ms of
        [] \<Rightarrow> ''{}''
      | es \<Rightarrow> ''{'' @ sep_line gap (ind @ gap)
               @ str_join ('','' @ sep_line gap (ind @ gap)) es @ sep_line gap ind @ ''}'')"
| "json_elems gap ind [] = []"
| "json_elems gap ind (v # vs) = json_val gap ind v # json_elems gap ind vs"
| "json_members gap ind [] = []"
| "json_members gap ind ((k, v) # ms) =
     (if v = JUndef then json_members gap ind ms
      else (json_quote k @ '':'' @ (if gap = [] then [] else '' '') @ json_val gap ind v)
             # json_members gap ind ms)"

definition json_stringify :: "jsval \<Rightarrow> string" where
  "json_stringify v = json_val [] [] v"

definition json_stringify_indented :: "jsval \<Rightarrow> string" where
  "json_stringify_indented v = json_val ''  '' [] v"

section \<open>Decoding base64url\<close>

definition b64_val :: "char \<Rightarrow> nat option" where
  "b64_val c =
     (let n = of_char c :: nat in
      if 65 \<le> n \<and> n \<le> 90 then Some (n - 65)
      else if 97 \<le> n \<and> n \<le> 122 then Some (n - 71)
      else if 48 \<le> n \<and> n \<le> 57 then Some (n + 4)
      else if c = CHR ''+'' \<or> c = CHR ''-'' then Some 62
      else if c = CHR ''/'' \<or> c = CHR ''_'' then Some 63 else None)"

fun b64_bytes :: "nat list \<Rightarrow> nat list" where
  "b64_bytes (a # b # c # d # r) =
     [a * 4 + b div 16, b mod 16 * 16 + c div 4, c mod 4 * 64 + d] @ b64_bytes r"
| "b64_bytes [a, b, c] = [a * 4 + b div 16, b mod 16 * 16 + c div 4]"
| "b64_bytes [a, b] = [a * 4 + b div 16]"
| "b64_bytes _ = []"

text \<open>\<open>Buffer.from(s, 'base64url').toString()\<close>: foreign characters are skipped, \<open>=\<close> ends it.\<close>

definition base64url_decode :: "string \<Rightarrow> string" where
  "base64url_decode s =
     map char_of (b64_bytes (List.map_filter b64_val (takeWhile (\<lambda>c. c \<noteq> CHR ''='') s)))"

end
