(* ===== verification/JsJsonRoundtrip.thy ===== *)
theory JsJsonRoundtrip
  imports JsJson
begin

text \<open>
  The parser of \<open>JsJson\<close> reads back what its printer writes: for every value built from null,
  booleans, integers, strings, arrays and objects with distinct member names, in the plain and in the
  indented form. This is what makes the stored revocations survive a restart.
\<close>

fun plain :: "jsval \<Rightarrow> bool" where
  "plain JNull = True"
| "plain (JBool b) = True"
| "plain (JNum n) = rat_is_int n"
| "plain (JStr s) = True"
| "plain (JArr vs) = list_all plain vs"
| "plain (JObj ms) = (distinct (map fst ms) \<and> list_all (\<lambda>kv. plain (snd kv)) ms)"
| "plain v = False"

abbreviation all_ws :: "string \<Rightarrow> bool" where
  "all_ws s \<equiv> list_all is_ws s"

lemma skip_ws_append: "all_ws ws \<Longrightarrow> skip_ws (ws @ s) = skip_ws s"
  by (induction ws) (auto simp: skip_ws_def)

lemma skip_ws_stop: "\<not> is_ws c \<Longrightarrow> skip_ws (c # cs) = c # cs"
  by (simp add: skip_ws_def)

lemmas skip_ws_simps = skip_ws_append skip_ws_stop

lemma not_ws_simps [simp]:
  "\<not> is_ws CHR 0x22" "\<not> is_ws CHR 0x5B" "\<not> is_ws CHR 0x5D" "\<not> is_ws CHR 0x7B" "\<not> is_ws CHR 0x7D"
  "\<not> is_ws CHR '',''" "\<not> is_ws CHR '':''" "\<not> is_ws CHR ''t''" "\<not> is_ws CHR ''f''" "\<not> is_ws CHR ''n''"
  by (simp_all add: is_ws_def)

lemma all_ws_sep_line: "all_ws ind \<Longrightarrow> all_ws (sep_line gap ind)"
  by (simp add: sep_line_def is_ws_def)

lemma json_elems_Nil_iff [simp]: "json_elems gap ind vs = [] \<longleftrightarrow> vs = []"
  by (cases vs) auto

lemma plain_defined: "plain v \<Longrightarrow> v \<noteq> JUndef"
  by auto

lemma json_members_Nil_iff:
  "list_all (\<lambda>kv. plain (snd kv)) ms \<Longrightarrow> json_members gap ind ms = [] \<longleftrightarrow> ms = []"
  by (cases ms) (auto dest: plain_defined)

text \<open>Integers print as their decimal digits, and the digits read back.\<close>

definition num_char :: "char \<Rightarrow> bool" where
  "num_char c \<longleftrightarrow> is_digit c \<or> c = CHR ''.'' \<or> c = CHR ''e'' \<or> c = CHR ''E''"

definition stops :: "string \<Rightarrow> bool" where
  "stops r \<longleftrightarrow> r = [] \<or> \<not> num_char (hd r)"

lemma stops_simps [simp]:
  "stops []" "stops (CHR '','' # r)" "stops (CHR 0x5D # r)" "stops (CHR 0x7D # r)"
  by (simp_all add: stops_def num_char_def is_digit_def)

lemma stops_ws: "all_ws tw \<Longrightarrow> stops r \<Longrightarrow> stops (tw @ r)"
  by (cases tw) (auto simp: stops_def num_char_def is_digit_def is_ws_def)

lemma digit_char_0: "digit_char 0 = CHR ''0''"
  by code_simp

lemma digit_char_digit:
  assumes "d < 10"
  shows "is_digit (digit_char d)" "digit_val (digit_char d) = d" "digit_char d = CHR ''0'' \<longleftrightarrow> d = 0"
proof -
  show "is_digit (digit_char d)" and val: "digit_val (digit_char d) = d"
    using assms by (auto simp: digit_char_def is_digit_def digit_val_def)
  have "digit_val CHR ''0'' = 0" by (simp add: digit_val_def)
  with val digit_char_0 show "digit_char d = CHR ''0'' \<longleftrightarrow> d = 0" by auto
qed

lemma nat_to_dec_digits: "list_all is_digit (nat_to_dec n) \<and> nat_to_dec n \<noteq> []"
  by (induction n rule: nat_to_dec.induct) (subst nat_to_dec.simps, simp add: digit_char_digit)+

lemma dec_value_snoc: "dec_value (s @ [c]) = 10 * dec_value s + digit_val c"
  by (simp add: dec_value_def)

lemma dec_value_nat_to_dec: "dec_value (nat_to_dec n) = n"
proof (induction n rule: nat_to_dec.induct)
  case (1 n)
  then show ?case
    by (subst nat_to_dec.simps) (auto simp: digit_char_digit dec_value_snoc, simp add: dec_value_def digit_char_digit)
qed

lemma nat_to_dec_head: "hd (nat_to_dec n) = CHR ''0'' \<longleftrightarrow> n = 0"
proof (induction n rule: nat_to_dec.induct)
  case (1 n)
  then show ?case
    using nat_to_dec_digits [of "n div 10"]
    by (subst nat_to_dec.simps) (auto simp: digit_char_digit)
qed

lemma span_digits_append:
  "list_all is_digit ds \<Longrightarrow> stops r \<Longrightarrow> span_digits (ds @ r) = (ds, r)"
  by (induction ds) (auto simp: span_digits_def stops_def num_char_def takeWhile_eq_Nil_iff
      dropWhile_eq_self_iff)

lemma pnum_tail: "stops r \<Longrightarrow> pfrac r = Some ([], r) \<and> exp_part r = Some (0, r)"
  by (cases r) (auto simp: stops_def num_char_def pfrac_def exp_part_def)

lemma pint_nat: "stops r \<Longrightarrow> pint (nat_to_dec n @ r) = Some (nat_to_dec n, r)"
proof (cases "n = 0")
  case True
  have "nat_to_dec 0 = ''0''" by (simp add: nat_to_dec.simps digit_char_0)
  with True show ?thesis by (simp add: pint_def)
next
  case False
  assume st: "stops r"
  obtain c cs where d: "nat_to_dec n = c # cs" using nat_to_dec_digits [of n] by (cases "nat_to_dec n") auto
  have "c \<noteq> CHR ''0''" using nat_to_dec_head [of n] False d by simp
  moreover have "is_digit c" using nat_to_dec_digits [of n] d by simp
  moreover have "span_digits (nat_to_dec n @ r) = (nat_to_dec n, r)"
    using span_digits_append nat_to_dec_digits st by blast
  ultimately show ?thesis using d by (simp add: pint_def)
qed

lemma num_to_string_int:
  "num_to_string (of_int i) =
     (if i < 0 then CHR ''-'' # nat_to_dec (nat (- i)) else nat_to_dec (nat i))"
proof -
  have "quotient_of \<bar>of_int i :: rat\<bar> = (\<bar>i\<bar>, 1)"
    unfolding of_int_abs [symmetric] by (simp add: quotient_of_int del: of_int_abs)
  then show ?thesis by (auto simp: num_to_string_def Let_def)
qed

lemma pnum_int: "stops r \<Longrightarrow> pnum (num_to_string (of_int i) @ r) = Some (of_int i, r)"
proof -
  assume st: "stops r"
  have dec: "decimal (nat_to_dec n) [] 0 = of_nat n" for n
    by (simp add: decimal_def scale10_def dec_value_nat_to_dec)
  have pos: "\<exists>c cs. nat_to_dec n = c # cs \<and> c \<noteq> CHR ''-''" for n
    using nat_to_dec_digits [of n] by (cases "nat_to_dec n") (auto simp: is_digit_def)
  show ?thesis
  proof (cases "i < 0")
    case True
    then show ?thesis
      using pnum_tail [OF st] pint_nat [OF st]
      by (simp add: num_to_string_int pnum_def dec)
  next
    case False
    obtain c cs where c: "nat_to_dec (nat i) = c # cs" "c \<noteq> CHR ''-''" using pos by blast
    have "pint (c # cs @ r) = Some (c # cs, r)" using pint_nat [OF st, of "nat i"] c by simp
    moreover have "decimal (c # cs) [] 0 = of_int i" using dec [of "nat i"] c False by simp
    ultimately show ?thesis
      using pnum_tail [OF st] c False by (simp add: num_to_string_int pnum_def)
  qed
qed

lemma num_to_string_head:
  "\<exists>c cs. num_to_string (of_int i) = c # cs \<and> (is_digit c \<or> c = CHR ''-'')"
  using nat_to_dec_digits [of "nat i"]
  by (cases "nat_to_dec (nat i)") (auto simp: num_to_string_int)

lemma rat_is_int_obtain: "rat_is_int n \<Longrightarrow> \<exists>i. n = of_int i"
proof -
  assume "rat_is_int n"
  then have "quotient_of n = (fst (quotient_of n), 1)" by (simp add: rat_is_int_def prod_eq_iff)
  then have "n = of_int (fst (quotient_of n)) / of_int 1" by (rule quotient_of_div)
  then show ?thesis by auto
qed

lemma pval_int:
  assumes "stops r" and "all_ws ws"
  shows "pval (Suc f) (ws @ num_to_string (of_int i) @ r) = POk (JNum (of_int i)) r"
proof -
  obtain c cs where c: "num_to_string (of_int i) = c # cs" "is_digit c \<or> c = CHR ''-''"
    using num_to_string_head by blast
  have "\<not> is_ws c" "c \<noteq> CHR 0x7B" "c \<noteq> CHR 0x5B" "c \<noteq> CHR 0x22"
      "c \<noteq> CHR ''t''" "c \<noteq> CHR ''f''" "c \<noteq> CHR ''n''"
    using c(2) by (auto simp: is_digit_def is_ws_def)
  then show ?thesis
    using pnum_int [OF assms(1), of i] assms(2) c(1) by (simp add: skip_ws_simps)
qed

text \<open>How a printed value starts.\<close>

lemma json_val_head:
  "plain v \<Longrightarrow> \<exists>c cs. json_val gap ind v = c # cs \<and> \<not> is_ws c \<and> c \<noteq> CHR 0x5D \<and> c \<noteq> CHR 0x7D"
proof (cases v)
  case (JNum n)
  assume "plain v"
  then obtain i where "n = of_int i" using JNum rat_is_int_obtain by auto
  with num_to_string_head [of i] JNum show ?thesis
    by (auto simp: is_digit_def is_ws_def)
qed (auto simp: json_quote_def split: list.splits)

lemma json_quote_length: "2 \<le> length (json_quote s)"
  by (simp add: json_quote_def)

lemma pval_quote:
  "all_ws ws \<Longrightarrow> pval (Suc f) (ws @ json_quote s @ r) = POk (JStr s) r"
  by (simp add: skip_ws_simps json_quote_def pstr_quote)

lemma take1_head: "\<not> is_ws c \<Longrightarrow> all_ws ws \<Longrightarrow> take 1 (skip_ws (ws @ c # cs)) = [c]"
  by (simp add: skip_ws_simps)

lemma list_not_Nil_case: "xs \<noteq> [] \<Longrightarrow> (case xs of [] \<Rightarrow> a | y # ys \<Rightarrow> b xs) = b xs"
  by (cases xs) auto

lemma str_join_Cons: "ws \<noteq> [] \<Longrightarrow> str_join sep (w # ws) = w @ sep @ str_join sep ws"
  by (cases ws) auto

lemma json_val_arr:
  "vs \<noteq> [] \<Longrightarrow> json_val gap ind (JArr vs) =
     ''['' @ sep_line gap (ind @ gap)
       @ str_join ('','' @ sep_line gap (ind @ gap)) (json_elems gap (ind @ gap) vs)
       @ sep_line gap ind @ '']''"
  by (cases vs) auto

lemma json_val_obj:
  "json_members gap (ind @ gap) ms \<noteq> [] \<Longrightarrow> json_val gap ind (JObj ms) =
     ''{'' @ sep_line gap (ind @ gap)
       @ str_join ('','' @ sep_line gap (ind @ gap)) (json_members gap (ind @ gap) ms)
       @ sep_line gap ind @ ''}''"
  by (cases "json_members gap (ind @ gap) ms") auto

definition val_reads :: "string \<Rightarrow> jsval \<Rightarrow> bool" where
  "val_reads txt v \<longleftrightarrow>
     (\<forall>f ws r. all_ws ws \<longrightarrow> stops r \<longrightarrow> 2 * length txt \<le> f \<longrightarrow> pval f (ws @ txt @ r) = POk v r)"

lemma val_readsD:
  "val_reads txt v \<Longrightarrow> all_ws ws \<Longrightarrow> stops r \<Longrightarrow> 2 * length txt \<le> f \<Longrightarrow> pval f (ws @ txt @ r) = POk v r"
  by (simp add: val_reads_def)

lemma val_readsI:
  assumes "\<And>f ws r. all_ws ws \<Longrightarrow> stops r \<Longrightarrow> 2 * length txt \<le> Suc f \<Longrightarrow> pval (Suc f) (ws @ txt @ r) = POk v r"
    and "txt \<noteq> []"
  shows "val_reads txt v"
  unfolding val_reads_def
proof (intro allI impI)
  fix f ws r assume ws: "all_ws ws" "stops r" and le: "2 * length txt \<le> f"
  then obtain g where "f = Suc g" using assms(2) by (cases f) auto
  with assms(1) ws le show "pval f (ws @ txt @ r) = POk v r" by simp
qed

text \<open>Reading a non-empty run of elements, and of members, up to the closing bracket.\<close>

lemma elems_read:
  assumes "list_all2 val_reads es vs" and "vs \<noteq> []" and "all_ws ws" and "all_ws sp" and "all_ws tw"
    and "2 * length (str_join (CHR '','' # sp) es) + 1 \<le> f"
  shows "pelems f (ws @ str_join (CHR '','' # sp) es @ tw @ CHR 0x5D # r) acc = POk (acc @ vs) r"
  using assms
proof (induction vs arbitrary: es ws f acc rule: list.induct)
  case Nil
  then show ?case by simp
next
  case (Cons v vs)
  then obtain e es' where es: "es = e # es'" and e: "val_reads e v" and rest: "list_all2 val_reads es' vs"
    by (auto simp: list_all2_Cons2)
  obtain g where f: "f = Suc g" using Cons.prems(6) by (cases f) auto
  show ?case
  proof (cases "vs = []")
    case True
    with rest es have [simp]: "es = [e]" by simp
    have "pval g (ws @ e @ (tw @ CHR 0x5D # r)) = POk v (tw @ CHR 0x5D # r)"
      using Cons.prems f by (intro val_readsD [OF e]) (auto simp: stops_ws)
    with True f show ?thesis
      using Cons.prems by (simp add: skip_ws_simps)
  next
    case False
    with rest have ne: "es' \<noteq> []" by auto
    let ?j = "str_join (CHR '','' # sp) es'"
    have len: "length (str_join (CHR '','' # sp) es) = length e + Suc (length sp) + length ?j"
      using ne es by (simp add: str_join_Cons)
    let ?rest = "CHR '','' # sp @ ?j @ tw @ CHR 0x5D # r"
    have "pval g (ws @ e @ ?rest) = POk v ?rest"
      using Cons.prems f len by (intro val_readsD [OF e]) auto
    moreover have "pelems g (sp @ ?j @ tw @ CHR 0x5D # r) (acc @ [v]) = POk ((acc @ [v]) @ vs) r"
      using Cons.prems f len rest False by (intro Cons.IH) auto
    ultimately show ?thesis
      using f es ne by (simp add: str_join_Cons skip_ws_simps)
  qed
qed

definition member_reads :: "string \<Rightarrow> (string \<times> jsval) \<Rightarrow> bool" where
  "member_reads txt kv \<longleftrightarrow>
     (\<exists>pre txt'. txt = json_quote (fst kv) @ CHR '':'' # pre @ txt' \<and> all_ws pre
        \<and> val_reads txt' (snd kv))"

lemma pmembers_step:
  assumes "member_reads m (k, v)" and "all_ws ws" and "2 * length m \<le> f" and "stops r"
  shows "pmembers (Suc f) (ws @ m @ r) acc =
    (case skip_ws r of [] \<Rightarrow> PFail
     | e # es \<Rightarrow> if e = CHR '','' then pmembers f es (jm_set acc k v)
                else if e = CHR 0x7D then POk (jm_set acc k v) es else PFail)"
proof -
  obtain pre txt' where m: "m = json_quote k @ CHR '':'' # pre @ txt'" "all_ws pre" "val_reads txt' v"
    using assms(1) by (auto simp: member_reads_def)
  have "pval f (pre @ txt' @ r) = POk v r"
    using assms(3,4) m by (intro val_readsD [OF m(3)]) auto
  with m(1,2) assms(2) show ?thesis
    by (simp add: json_quote_def skip_ws_simps pstr_quote)
qed

lemma members_read:
  assumes "list_all2 member_reads es ms" and "ms \<noteq> []" and "all_ws ws" and "all_ws sp" and "all_ws tw"
    and "2 * length (str_join (CHR '','' # sp) es) + 1 \<le> f"
    and "distinct (map fst (acc @ ms))"
  shows "pmembers f (ws @ str_join (CHR '','' # sp) es @ tw @ CHR 0x7D # r) acc = POk (acc @ ms) r"
  using assms
proof (induction ms arbitrary: es ws f acc rule: list.induct)
  case Nil
  then show ?case by simp
next
  case (Cons kv ms)
  obtain k v where kv: "kv = (k, v)" by (cases kv)
  from Cons.prems(1) kv obtain e es' where es: "es = e # es'" and e: "member_reads e (k, v)"
    and rest: "list_all2 member_reads es' ms"
    by (auto simp: list_all2_Cons2)
  obtain g where f: "f = Suc g" using Cons.prems(6) by (cases f) auto
  have "k \<notin> fst ` set acc" using Cons.prems(7) kv by auto
  then have set: "jm_set acc k v = acc @ [(k, v)]"
    by (intro jm_set_new) (simp add: map_of_eq_None_iff)
  show ?case
  proof (cases "ms = []")
    case True
    with rest es have [simp]: "es = [e]" by simp
    have "2 * length e \<le> g" using Cons.prems(6) f by simp
    from pmembers_step [OF e Cons.prems(3) this stops_ws [OF Cons.prems(5) stops_simps(4)], of r] True f kv set
    show ?thesis using Cons.prems(5) by (simp add: skip_ws_simps)
  next
    case False
    with rest have ne: "es' \<noteq> []" by auto
    let ?j = "str_join (CHR '','' # sp) es'"
    have len: "length (str_join (CHR '','' # sp) es) = length e + Suc (length sp) + length ?j"
      using ne es by (simp add: str_join_Cons)
    have "2 * length e \<le> g" using Cons.prems(6) f len by simp
    note step = pmembers_step [OF e Cons.prems(3) this stops_simps(2)]
    have "pmembers g (sp @ ?j @ tw @ CHR 0x7D # r) (acc @ [(k, v)]) = POk ((acc @ [(k, v)]) @ ms) r"
      using Cons.prems f len rest False kv by (intro Cons.IH) auto
    with step set show ?thesis
      using f es ne kv by (simp add: str_join_Cons skip_ws_simps)
  qed
qed

lemma str_join_head: "str_join sep (w # ws) = w @ (if ws = [] then [] else sep @ str_join sep ws)"
  by (cases ws) auto

lemma arr_reads:
  assumes es: "list_all2 val_reads es vs" and ne: "vs \<noteq> []"
    and head: "es = (c # cs) # es'" "\<not> is_ws c" "c \<noteq> CHR 0x5D"
    and ws: "all_ws sp" "all_ws tw"
  shows "val_reads (''['' @ sp @ str_join (CHR '','' # sp) es @ tw @ '']'') (JArr vs)"
proof (rule val_readsI)
  fix f ws r
  let ?j = "str_join (CHR '','' # sp) es"
  assume ws': "all_ws ws" and le: "2 * length (''['' @ sp @ ?j @ tw @ '']'') \<le> Suc f"
  then have f: "2 * length ?j + 1 \<le> f" by simp
  have run: "pelems f (sp @ ?j @ tw @ CHR 0x5D # r) [] = POk vs r"
    using elems_read [OF es ne ws(1) ws(1,2) f, where acc = "[]"] by simp
  have "take 1 (skip_ws (sp @ ?j @ tw @ CHR 0x5D # r)) = [c]"
    using ws(1) head by (simp add: str_join_head skip_ws_simps)
  with run head(3) ws' show "pval (Suc f) (ws @ (''['' @ sp @ ?j @ tw @ '']'') @ r) = POk (JArr vs) r"
    by (simp add: skip_ws_simps)
qed simp

lemma obj_reads:
  assumes es: "list_all2 member_reads es ms" and ne: "ms \<noteq> []" and "distinct (map fst ms)"
    and ws: "all_ws sp" "all_ws tw"
  shows "val_reads (''{'' @ sp @ str_join (CHR '','' # sp) es @ tw @ ''}'') (JObj ms)"
proof (rule val_readsI)
  fix f ws r
  let ?j = "str_join (CHR '','' # sp) es"
  assume ws': "all_ws ws" and le: "2 * length (''{'' @ sp @ ?j @ tw @ ''}'') \<le> Suc f"
  then have f: "2 * length ?j + 1 \<le> f" by simp
  have run: "pmembers f (sp @ ?j @ tw @ CHR 0x7D # r) [] = POk ms r"
    using members_read [OF es ne ws(1) ws(1,2) f, where acc = "[]"] assms(3) by simp
  obtain e es' kv where "es = e # es'" "member_reads e kv"
    using es ne by (cases es; cases ms) auto
  then obtain cs where "es = (CHR 0x22 # cs) # es'"
    by (auto simp: member_reads_def json_quote_def)
  then have "take 1 (skip_ws (sp @ ?j @ tw @ CHR 0x7D # r)) = [CHR 0x22]"
    using ws(1) by (simp add: str_join_head skip_ws_simps)
  with run ws' show "pval (Suc f) (ws @ (''{'' @ sp @ ?j @ tw @ ''}'') @ r) = POk (JObj ms) r"
    by (simp add: skip_ws_simps)
qed simp

lemma arr_val_reads:
  assumes "list_all plain vs" and "all_ws gap" and "all_ws ind"
    and run: "list_all2 val_reads (json_elems gap (ind @ gap) vs) vs"
  shows "val_reads (json_val gap ind (JArr vs)) (JArr vs)"
proof (cases vs)
  case Nil
  then show ?thesis by (auto intro!: val_readsI simp: skip_ws_simps)
next
  case (Cons v vs')
  obtain c cs where "json_val gap (ind @ gap) v = c # cs" "\<not> is_ws c" "c \<noteq> CHR 0x5D"
    using json_val_head [of v gap "ind @ gap"] Cons assms(1) by auto
  with run Cons assms(1-3) show ?thesis
    using arr_reads [of "json_elems gap (ind @ gap) vs" vs c cs "json_elems gap (ind @ gap) vs'"
        "sep_line gap (ind @ gap)" "sep_line gap ind"]
    by (simp add: json_val_arr all_ws_sep_line del: json_val.simps)
qed

lemma obj_val_reads:
  assumes "plain (JObj ms)" and "all_ws gap" and "all_ws ind"
    and run: "list_all2 member_reads (json_members gap (ind @ gap) ms) ms"
  shows "val_reads (json_val gap ind (JObj ms)) (JObj ms)"
proof (cases "ms = []")
  case True
  then show ?thesis by (auto intro!: val_readsI simp: skip_ws_simps)
next
  case False
  have "json_members gap (ind @ gap) ms \<noteq> []"
    using False assms(1) by (simp add: json_members_Nil_iff)
  then show ?thesis
    using obj_reads [OF run False, of "sep_line gap (ind @ gap)" "sep_line gap ind"] assms(1-3)
    by (simp add: json_val_obj all_ws_sep_line del: json_val.simps)
qed

lemma string_val_reads: "val_reads (json_val gap ind (JStr s)) (JStr s)"
proof (rule val_readsI)
  fix f ws r assume "all_ws ws"
  then show "pval (Suc f) (ws @ json_val gap ind (JStr s) @ r) = POk (JStr s) r"
    by (simp only: json_val.simps pval_quote)
qed (simp add: json_quote_def)

lemma printed_reads:
  "plain v \<Longrightarrow> all_ws gap \<Longrightarrow> all_ws ind \<Longrightarrow> val_reads (json_val gap ind v) v"
  "list_all plain vs \<Longrightarrow> all_ws gap \<Longrightarrow> all_ws ind \<Longrightarrow>
     list_all2 val_reads (json_elems gap ind vs) vs"
  "list_all (\<lambda>kv. plain (snd kv)) ms \<Longrightarrow> all_ws gap \<Longrightarrow> all_ws ind \<Longrightarrow>
     list_all2 member_reads (json_members gap ind ms) ms"
proof (induction gap ind v and gap ind vs and gap ind ms
    rule: json_val_json_elems_json_members.induct)
  case (3 gap ind b)
  show ?case by (rule val_readsI) (auto simp: skip_ws_simps)
next
  case (5 gap ind s)
  show ?case by (rule string_val_reads)
next
  case (4 gap ind n)
  then obtain i where "n = of_int i" using rat_is_int_obtain by auto
  then show ?case
    using num_to_string_head [of i] pval_int
    by (auto simp del: pval.simps intro!: val_readsI)
next
  case (7 gap ind vs)
  then show ?case by (intro arr_val_reads) simp_all
next
  case (8 gap ind ms)
  then show ?case by (intro obj_val_reads) simp_all
next
  case (12 gap ind k v ms)
  have nd: "v \<noteq> JUndef" using "12.prems"(1) by auto
  then have "val_reads (json_val gap ind v) v" using 12 by simp
  then have "member_reads (json_quote k @ CHR '':'' # (if gap = [] then [] else '' '')
      @ json_val gap ind v) (k, v)"
    unfolding member_reads_def by (intro exI conjI) (auto simp: is_ws_def)
  with nd show ?case using 12 by simp
qed (auto intro!: val_readsI simp: skip_ws_simps)

lemma json_parse_stringify:
  assumes "plain v" and "all_ws gap"
  shows "json_parse (json_val gap [] v) = Some v"
proof -
  let ?t = "json_val gap [] v"
  have "val_reads ?t v" using assms by (intro printed_reads(1)) simp_all
  from val_readsD [OF this _ stops_simps(1), of "[]" "2 * length ?t + 2"]
  have "pval (2 * length ?t + 2) ?t = POk v []" by simp
  then show ?thesis by (simp add: json_parse_def skip_ws_def)
qed

lemma json_roundtrip_compact: "plain v \<Longrightarrow> json_parse (json_stringify v) = Some v"
  using json_parse_stringify [of v "[]"] by (simp add: json_stringify_def)

text \<open>
  Printing a JSON value and parsing the text gives the value back, with or without indentation,
  for every value without undefined members, dates, duplicate keys or non-integer numbers.
\<close>

theorem json_roundtrip:
  assumes "plain v" and "all_ws gap"
  shows "json_parse (json_val gap [] v) = Some v"
  using assms by (rule json_parse_stringify)

theorem json_roundtrip_witness:
  "json_parse (json_val ''  '' [] (JObj [(''a'', JArr [JNum (-7), JNull]), (''b'', JStr ''x'')])) =
     Some (JObj [(''a'', JArr [JNum (-7), JNull]), (''b'', JStr ''x'')])"
  by (rule json_roundtrip) (simp_all add: is_ws_def rat_is_int_def)

end
