(* ===== verification/Base64.thy ===== *)
theory Base64
  imports JsJsonRoundtrip
begin

text \<open>
  The unpadded base64url encoding, as the compact form of a signed token uses it, and the proof that
  the gateway's decoder (\<open>base64url_decode\<close>) reads it back. \<open>compact_jws\<close> is the compact
  serialisation itself (RFC 7515): three encoded parts joined by dots.
\<close>

definition b64_char :: "nat \<Rightarrow> char" where
  "b64_char n =
     (if n < 26 then char_of (n + 65)
      else if n < 52 then char_of (n + 71)
      else if n < 62 then char_of (n - 4)
      else if n = 62 then CHR ''-'' else CHR ''_'')"

fun b64_sextets :: "nat list \<Rightarrow> nat list" where
  "b64_sextets (x # y # z # r) =
     [x div 4, x mod 4 * 16 + y div 16, y mod 16 * 4 + z div 64, z mod 64] @ b64_sextets r"
| "b64_sextets [x, y] = [x div 4, x mod 4 * 16 + y div 16, y mod 16 * 4]"
| "b64_sextets [x] = [x div 4, x mod 4 * 16]"
| "b64_sextets [] = []"

definition base64url_encode :: "string \<Rightarrow> string" where
  "base64url_encode s = map b64_char (b64_sextets (map of_char s))"

definition compact_jws :: "string \<Rightarrow> string \<Rightarrow> string \<Rightarrow> string" where
  "compact_jws header payload signature =
     str_join ''.'' [base64url_encode header, base64url_encode payload, signature]"

lemma byte_parts:
  fixes x :: nat
  assumes "x < 256"
  shows "x div 4 < 64" "x div 16 < 16" "x div 64 < 4"
    and "x div 16 * 16 + x mod 16 = x" "x div 64 * 64 + x mod 64 = x"
  using assms by (simp_all add: less_mult_imp_div_less)

lemma mod_parts:
  fixes x :: nat
  shows "x mod 4 \<le> 3" "x mod 16 \<le> 15" "x mod 64 < 64"
  using mod_less_divisor [of 4 x] mod_less_divisor [of 16 x] by simp_all

lemma sextets_bytes: "list_all (\<lambda>x. x < 256) bs \<Longrightarrow> b64_bytes (b64_sextets bs) = bs"
proof (induction bs rule: b64_sextets.induct)
  case (1 x y z r)
  then show ?case using byte_parts [of y] byte_parts [of z] by simp
next
  case (2 x y)
  then show ?case using byte_parts [of y] by simp
next
  case (3 x)
  then show ?case by simp
qed simp

lemma sextets_bound: "list_all (\<lambda>x. x < 256) bs \<Longrightarrow> list_all (\<lambda>n. n < 64) (b64_sextets bs)"
proof (induction bs rule: b64_sextets.induct)
  case (1 x y z r)
  then show ?case
    using byte_parts [of x] byte_parts [of y] byte_parts [of z] mod_parts(1) [of x] mod_parts(2) [of y]
      mod_parts(3) [of z]
    by simp
next
  case (2 x y)
  then show ?case
    using byte_parts [of x] byte_parts [of y] mod_parts(1) [of x] mod_parts(2) [of y] by simp
next
  case (3 x)
  then show ?case using byte_parts [of x] mod_parts(1) [of x] by simp
qed simp

lemma b64_char_val:
  assumes "n < 64"
  shows "b64_val (b64_char n) = Some n" and "b64_char n \<noteq> CHR ''=''" and "b64_char n \<noteq> CHR ''.''"
proof -
  have a: "(of_char (b64_char n) :: nat) =
      (if n < 26 then n + 65 else if n < 52 then n + 71 else if n < 62 then n - 4
       else if n = 62 then 45 else 95)"
    using assms by (auto simp: b64_char_def)
  show "b64_char n \<noteq> CHR ''=''" "b64_char n \<noteq> CHR ''.''"
    using a assms by (auto split: if_splits dest!: arg_cong [of _ _ "of_char :: char \<Rightarrow> nat"])
  consider "n < 62" | "n = 62" | "n = 63" using assms by linarith
  then show "b64_val (b64_char n) = Some n"
  proof cases
    case 1
    then show ?thesis using a by (auto simp: b64_val_def Let_def)
  qed (simp_all add: b64_char_def b64_val_def)
qed

lemma base64url_decode_encode: "base64url_decode (base64url_encode s) = s"
proof -
  let ?q = "b64_sextets (map of_char s)"
  have bytes: "list_all (\<lambda>x. x < 256) (map of_char s :: nat list)"
    by (simp add: list_all_iff)
  then have q: "list_all (\<lambda>n. n < 64) ?q" by (rule sextets_bound)
  have tw: "takeWhile (\<lambda>c. c \<noteq> CHR ''='') (map b64_char ?q) = map b64_char ?q"
    using q by (auto simp only: takeWhile_eq_all_conv list_all_iff b64_char_val set_map)
  have "List.map_filter b64_val (map b64_char qs) = qs"
    if "list_all (\<lambda>n. n < 64) qs" for qs
    using that by (induction qs) (simp_all add: b64_char_val map_filter_simps)
  from this [OF q] show ?thesis
    using sextets_bytes [OF bytes]
    by (simp only: base64url_decode_def base64url_encode_def tw) (simp add: comp_def)
qed

text \<open>
  Decoding the base64url encoding of any byte string gives the string back.
\<close>

theorem base64url_roundtrip: "base64url_decode (base64url_encode s) = s"
  by (rule base64url_decode_encode)

lemma base64url_no_dot: "CHR ''.'' \<notin> set (base64url_encode s)"
proof -
  have "list_all (\<lambda>n. n < 64) (b64_sextets (map of_char s))"
    by (rule sextets_bound) (simp add: list_all_iff)
  then show ?thesis unfolding base64url_encode_def list_all_iff using b64_char_val(3) by fastforce
qed

lemma compact_jws_split:
  assumes "CHR ''.'' \<notin> set signature"
  shows "str_split CHR ''.'' (compact_jws header payload signature) =
    [base64url_encode header, base64url_encode payload, signature]"
  using assms base64url_no_dot [of header] base64url_no_dot [of payload]
  by (simp add: compact_jws_def str_split_append str_split_Nil_iff)

end
