(* ===== verification/Credentials.thy ===== *)
theory Credentials
  imports DidKey Base64
begin

text \<open>
  \<open>credentials/credential-extractor.ts\<close>, \<open>credentials/issuer-trust.ts\<close>,
  \<open>credentials/jwt-vc-verifier.ts\<close> and \<open>credentials/errors.ts\<close>: claims of a JWT credential, the list
  of trusted issuers, and the verification of a credential's signature against the issuer's DID.

  The functions of the jose package are parameters: \<open>decodeJwt\<close> and \<open>decodeProtectedHeader\<close> (the
  decoded object, \<open>None\<close> for an exception), \<open>importJWK\<close>, and \<open>jwtVerify\<close> with one \<open>joseOutcome\<close> per
  class of error the code distinguishes. Writing a member named \<open>__proto__\<close> is an ordinary write.
\<close>

section \<open>Extraction\<close>

datatype extractionError = CredentialExtractionError string

fun object_entries :: "jsval \<Rightarrow> (string \<times> jsval) list" where
  "object_entries (JObj ms) = ms"
| "object_entries (JArr vs) = map (\<lambda>(i, v). (nat_to_dec i, v)) (enumerate 0 vs)"
| "object_entries (JStr s) = map (\<lambda>(i, c). (nat_to_dec i, JStr [c])) (enumerate 0 s)"
| "object_entries v = []"

definition buildEvaluationCredential :: "jsval \<Rightarrow> jsval \<Rightarrow> jsval \<Rightarrow> (string \<times> jsval) list" where
  "buildEvaluationCredential issuer subject credentialSubject =
     (let credential = [(''issuer'', issuer), (''subject'', subject)];
          role = get_prop credentialSubject ''role'';
          credential = (if is_string role then jm_set credential ''role'' role else credential)
      in foldl (\<lambda>m (key, v). if key \<noteq> ''id'' \<and> key \<noteq> ''role'' then jm_set m key v else m)
           credential (object_entries credentialSubject))"

definition extractCredentialForPolicy ::
    "(string \<Rightarrow> jsval option) \<Rightarrow> string \<Rightarrow> extractionError + (string \<times> jsval) list" where
  "extractCredentialForPolicy decodeJwt jwtVc =
     (if jwtVc = [] then Inl (CredentialExtractionError ''missing credential'')
      else
        (case decodeJwt jwtVc of
           None \<Rightarrow> Inl (CredentialExtractionError ''failed to decode JWT'')
         | Some payload \<Rightarrow>
             if \<not> truthy (get_prop payload ''iss'')
             then Inl (CredentialExtractionError ''missing issuer (iss) claim'')
             else if \<not> truthy (get_prop payload ''vc'')
             then Inl (CredentialExtractionError ''missing vc claim'')
             else
               (let cs = get_prop (get_prop payload ''vc'') ''credentialSubject'';
                    credentialSubject = (if truthy cs then cs else JObj []);
                    sub = get_prop payload ''sub'';
                    subject = (if truthy sub then sub else get_prop credentialSubject ''id'')
                in if \<not> truthy subject
                   then Inl (CredentialExtractionError
                          ''missing subject (sub or credentialSubject.id)'')
                   else Inr (buildEvaluationCredential (get_prop payload ''iss'') subject
                          credentialSubject))))"

section \<open>Trusted issuers\<close>

definition createIssuerTrustList :: "string list \<Rightarrow> string list" where
  "createIssuerTrustList trustedIssuers = js_unique trustedIssuers"

definition isTrusted :: "string list \<Rightarrow> string \<Rightarrow> bool" where
  "isTrusted issuers issuer = (issuer \<in> set issuers)"

definition trust_add :: "string list \<Rightarrow> string \<Rightarrow> string list" where
  "trust_add issuers issuer = (if issuer \<in> set issuers then issuers else issuers @ [issuer])"

definition trust_remove :: "string list \<Rightarrow> string \<Rightarrow> bool \<times> string list" where
  "trust_remove issuers issuer = (issuer \<in> set issuers, remove1 issuer issuers)"

definition trust_list :: "string list \<Rightarrow> string list" where
  "trust_list issuers = issuers"

section \<open>Verification\<close>

datatype vcVerificationErrorCode =
    INVALID_JWT | INVALID_SIGNATURE | UNTRUSTED_ISSUER | CREDENTIAL_EXPIRED | CREDENTIAL_NOT_YET_VALID
  | ISSUER_RESOLUTION_FAILED | UNSUPPORTED_ALGORITHM | MISSING_VC_CLAIM

datatype vcError = VCVerificationError vcVerificationErrorCode string | VcOtherException

datatype joseOutcome = JwtVerified jsval | JwtExpired | JwtClaimValidationFailed | JwtOtherError

record vcVerificationResult =
  vc_credential :: jsval
  vc_issuer :: jsval
  vc_subject :: jsval
  vc_expiresAt :: "jsdate option"
  vc_issuedAt :: "jsdate option"

definition SUPPORTED_ALGORITHMS :: "string list" where
  "SUPPORTED_ALGORITHMS = [''EdDSA'', ''ES256'']"

definition DEFAULT_CLOCK_SKEW_MS :: int where
  "DEFAULT_CLOCK_SKEW_MS = 60000"

text \<open>
  \<open>new Date(v * 1000)\<close> for a claim in seconds: whole milliseconds, rounded towards zero, at most 100 million
  days from the epoch.
\<close>

definition date_of_seconds :: "jsval \<Rightarrow> jsdate" where
  "date_of_seconds v =
     (case v of
        JNum n \<Rightarrow>
          (let t = (if n < 0 then - rat_floor (- n * 1000) else rat_floor (n * 1000))
           in if abs t \<le> 8640000000000000 then Some t else None)
      | _ \<Rightarrow> None)"

definition extractIssuer :: "(string \<Rightarrow> jsval option) \<Rightarrow> string \<Rightarrow> vcError + jsval" where
  "extractIssuer decodeJwt jwtVc =
     (case decodeJwt jwtVc of
        None \<Rightarrow> Inl (VCVerificationError INVALID_JWT ''Failed to decode JWT'')
      | Some payload \<Rightarrow> Inr (get_prop payload ''iss''))"

definition validateAlgorithm :: "jsval \<Rightarrow> vcError + unit" where
  "validateAlgorithm header =
     (let alg = get_prop header ''alg'' in
      if \<not> arr_includes (map JStr SUPPORTED_ALGORITHMS) alg
      then Inl (VCVerificationError UNSUPPORTED_ALGORITHM
             (''Unsupported JWT algorithm: '' @ js_to_string alg @ ''. Supported: EdDSA, ES256''))
      else Inr ())"

definition validateIssuerTrust :: "jsval \<Rightarrow> string list \<Rightarrow> vcError + unit" where
  "validateIssuerTrust issuer trustedIssuers =
     (if \<not> arr_includes (map JStr trustedIssuers) issuer
      then Inl (VCVerificationError UNTRUSTED_ISSUER
             (''Issuer not in trusted list: '' @ js_to_string issuer))
      else Inr ())"

text \<open>The key in the form \<open>importJWK\<close> takes it.\<close>

definition multibase_jwk :: "bytes \<Rightarrow> string \<Rightarrow> jsval option" where
  "multibase_jwk decoded algorithm =
     (let rawKey = map char_of (drop 2 decoded) in
      if algorithm = ''EdDSA'' then
        Some (JObj [(''kty'', JStr ''OKP''), (''crv'', JStr ''Ed25519''),
                    (''x'', JStr (base64url_encode rawKey))])
      else if algorithm = ''ES256'' then
        Some (JObj [(''kty'', JStr ''EC''), (''crv'', JStr ''P-256''),
                    (''x'', JStr (base64url_encode (take 32 rawKey))),
                    (''y'', JStr (base64url_encode (take 32 (drop 32 rawKey))))])
      else None)"

definition multibaseToKey ::
    "(string \<Rightarrow> bytes option) \<Rightarrow> (jsval \<Rightarrow> string \<Rightarrow> 'key option) \<Rightarrow> string \<Rightarrow> string \<Rightarrow> vcError + 'key" where
  "multibaseToKey base58 importJWK publicKeyMultibase algorithm =
     (case base58 publicKeyMultibase of
        None \<Rightarrow> Inl VcOtherException
      | Some decoded \<Rightarrow>
          (case multibase_jwk decoded algorithm of
             None \<Rightarrow> Inl (VCVerificationError UNSUPPORTED_ALGORITHM
               (''Unsupported JWT algorithm: '' @ algorithm @ ''. Supported: EdDSA, ES256''))
           | Some jwk \<Rightarrow>
               (case importJWK jwk algorithm of None \<Rightarrow> Inl VcOtherException | Some k \<Rightarrow> Inr k)))"

definition resolveVerificationMethod :: "string \<Rightarrow> didResolutionResult \<Rightarrow> vcError + verificationMethod" where
  "resolveVerificationMethod issuer resolution =
     (case dr_document resolution of
        None \<Rightarrow> Inl (VCVerificationError ISSUER_RESOLUTION_FAILED
                 (''Failed to resolve issuer DID: '' @ issuer))
      | Some doc \<Rightarrow>
          (case dd_verificationMethod doc of
             [] \<Rightarrow> Inl (VCVerificationError ISSUER_RESOLUTION_FAILED
                     (''Failed to resolve issuer DID: '' @ issuer))
           | vm # rest \<Rightarrow> Inr vm))"

definition verifyJwtSignature ::
    "(string \<Rightarrow> jsval option) \<Rightarrow> (string \<Rightarrow> 'key \<Rightarrow> string list \<Rightarrow> int \<Rightarrow> joseOutcome)
      \<Rightarrow> string \<Rightarrow> 'key \<Rightarrow> int \<Rightarrow> vcError + jsval" where
  "verifyJwtSignature decodeJwt jwtVerify jwtVc publicKey clockSkewMs =
     (case jwtVerify jwtVc publicKey SUPPORTED_ALGORITHMS (- ((- clockSkewMs) div 1000)) of
        JwtVerified payload \<Rightarrow> Inr payload
      | JwtExpired \<Rightarrow>
          (case decodeJwt jwtVc of
             None \<Rightarrow> Inl VcOtherException
           | Some p \<Rightarrow>
               (case date_of_seconds (get_prop p ''exp'') of
                  None \<Rightarrow> Inl VcOtherException
                | Some d \<Rightarrow> Inl (VCVerificationError CREDENTIAL_EXPIRED
                            (''Credential expired at '' @ toISOString d))))
      | JwtClaimValidationFailed \<Rightarrow>
          (case decodeJwt jwtVc of
             None \<Rightarrow> Inl VcOtherException
           | Some p \<Rightarrow>
               if truthy (get_prop p ''nbf'')
               then (case date_of_seconds (get_prop p ''nbf'') of
                       None \<Rightarrow> Inl VcOtherException
                     | Some d \<Rightarrow> Inl (VCVerificationError CREDENTIAL_NOT_YET_VALID
                                 (''Credential not valid until '' @ toISOString d)))
               else Inl (VCVerificationError INVALID_SIGNATURE ''JWT signature verification failed''))
      | JwtOtherError \<Rightarrow>
          Inl (VCVerificationError INVALID_SIGNATURE ''JWT signature verification failed''))"

definition buildResult :: "jsval \<Rightarrow> vcVerificationResult" where
  "buildResult payload =
     \<lparr>vc_credential = get_prop payload ''vc'', vc_issuer = get_prop payload ''iss'',
      vc_subject = get_prop payload ''sub'',
      vc_expiresAt = (if truthy (get_prop payload ''exp'')
                      then Some (date_of_seconds (get_prop payload ''exp'')) else None),
      vc_issuedAt = (if truthy (get_prop payload ''iat'')
                     then Some (date_of_seconds (get_prop payload ''iat'')) else None)\<rparr>"

text \<open>
  What the verifier is created with: the functions of jose and multiformats, the trusted issuers and
  the clock skew.
\<close>

record 'key vcEnv =
  ve_decodeJwt :: "string \<Rightarrow> jsval option"
  ve_decodeProtectedHeader :: "string \<Rightarrow> jsval option"
  ve_importJWK :: "jsval \<Rightarrow> string \<Rightarrow> 'key option"
  ve_jwtVerify :: "string \<Rightarrow> 'key \<Rightarrow> string list \<Rightarrow> int \<Rightarrow> joseOutcome"
  ve_base58 :: "string \<Rightarrow> bytes option"
  ve_varint :: "bytes \<Rightarrow> (nat \<times> nat) option"
  ve_trustedIssuers :: "string list"
  ve_clockSkewMs :: "int option"

definition vc_clockSkewMs :: "'key vcEnv \<Rightarrow> int" where
  "vc_clockSkewMs env = (case ve_clockSkewMs env of None \<Rightarrow> DEFAULT_CLOCK_SKEW_MS | Some n \<Rightarrow> n)"

text \<open>The part of \<open>verify\<close> after the resolution: header, key, signature, claim.\<close>

definition vc_check :: "'key vcEnv \<Rightarrow> string \<Rightarrow> verificationMethod \<Rightarrow> vcError + vcVerificationResult" where
  "vc_check env jwtVc vm =
     (case ve_decodeProtectedHeader env jwtVc of
        None \<Rightarrow> Inl VcOtherException
      | Some header \<Rightarrow>
          (case validateAlgorithm header of
             Inl e \<Rightarrow> Inl e
           | Inr u \<Rightarrow>
               (case multibaseToKey (ve_base58 env) (ve_importJWK env) (vm_publicKeyMultibase vm)
                       (js_to_string (get_prop header ''alg'')) of
                  Inl e \<Rightarrow> Inl e
                | Inr publicKey \<Rightarrow>
                    (case verifyJwtSignature (ve_decodeJwt env) (ve_jwtVerify env) jwtVc publicKey
                            (vc_clockSkewMs env) of
                       Inl e \<Rightarrow> Inl e
                     | Inr payload \<Rightarrow>
                         if \<not> truthy (get_prop payload ''vc'')
                         then Inl (VCVerificationError MISSING_VC_CLAIM
                           (''JWT payload missing required '' @ [CHR 0x22] @ ''vc'' @ [CHR 0x22] @
                            '' claim''))
                         else Inr (buildResult payload)))))"

text \<open>
  The verification, with the resolver's state, the time and the measured duration. A trusted issuer
  is a string, since it is in the list.
\<close>

definition vc_verify ::
    "'key vcEnv \<Rightarrow> didKeyResolver \<Rightarrow> string \<Rightarrow> ms \<Rightarrow> rat \<Rightarrow> (vcError + vcVerificationResult) \<times> didKeyResolver"
where
  "vc_verify env resolver jwtVc now duration =
     (case extractIssuer (ve_decodeJwt env) jwtVc of
        Inl e \<Rightarrow> (Inl e, resolver)
      | Inr issuer \<Rightarrow>
          (case validateIssuerTrust issuer (ve_trustedIssuers env) of
             Inl e \<Rightarrow> (Inl e, resolver)
           | Inr u \<Rightarrow>
               (let (resolution, resolver') =
                      resolver_resolve (ve_base58 env) (ve_varint env) duration resolver
                        (js_to_string issuer) now
                in (case resolveVerificationMethod (js_to_string issuer) resolution of
                      Inl e \<Rightarrow> (Inl e, resolver')
                    | Inr vm \<Rightarrow> (vc_check env jwtVc vm, resolver')))))"

section \<open>Properties\<close>

lemma arr_includes_strings: "arr_includes (map JStr ss) v \<longleftrightarrow> (\<exists>s \<in> set ss. v = JStr s)"
  by (induction ss) (auto simp: arr_includes_def dest: strict_eq_imp_eq)

lemma copied_claims:
  "k = ''id'' \<or> k = ''role'' \<Longrightarrow>
   jm_get (foldl (\<lambda>m (key, v). if key \<noteq> ''id'' \<and> key \<noteq> ''role'' then jm_set m key v else m) m es) k =
   jm_get m k"
  by (induction es arbitrary: m) (auto simp: jm.get_put)

lemma falsy_props: "\<not> truthy v \<Longrightarrow> get_prop v k = JUndef"
  by (cases v) auto

text \<open>
  Extraction succeeds exactly on a non-empty, decodable token with an issuer, a \<open>vc\<close> claim and a
  subject (its own or the credential subject's id); the role it extracts is the credential
  subject's string role, and there is no role when that claim is missing or not a string.
\<close>

theorem extraction_succeeds_iff:
  "((\<exists>c. extractCredentialForPolicy decodeJwt jwtVc = Inr c) \<longleftrightarrow>
     jwtVc \<noteq> [] \<and> (\<exists>p. decodeJwt jwtVc = Some p \<and> truthy (get_prop p ''iss'') \<and>
       truthy (get_prop p ''vc'') \<and> (truthy (get_prop p ''sub'') \<or>
         truthy (get_prop (get_prop (get_prop p ''vc'') ''credentialSubject'') ''id''))))
   \<and> (\<forall>c. extractCredentialForPolicy decodeJwt jwtVc = Inr c \<longrightarrow>
        (\<exists>p. decodeJwt jwtVc = Some p \<and>
          jm_get c ''role'' =
            (case get_prop (get_prop (get_prop p ''vc'') ''credentialSubject'') ''role'' of
               JStr s \<Rightarrow> Some (JStr s) | _ \<Rightarrow> None) \<and>
          jm_get c ''id'' = None))"
proof (intro conjI allI impI)
  show "(\<exists>c. extractCredentialForPolicy decodeJwt jwtVc = Inr c) \<longleftrightarrow>
     jwtVc \<noteq> [] \<and> (\<exists>p. decodeJwt jwtVc = Some p \<and> truthy (get_prop p ''iss'') \<and>
       truthy (get_prop p ''vc'') \<and> (truthy (get_prop p ''sub'') \<or>
         truthy (get_prop (get_prop (get_prop p ''vc'') ''credentialSubject'') ''id'')))"
    by (auto simp: extractCredentialForPolicy_def Let_def falsy_props split: option.splits)
  fix c assume "extractCredentialForPolicy decodeJwt jwtVc = Inr c"
  then show "\<exists>p. decodeJwt jwtVc = Some p \<and>
      jm_get c ''role'' =
        (case get_prop (get_prop (get_prop p ''vc'') ''credentialSubject'') ''role'' of
           JStr s \<Rightarrow> Some (JStr s) | _ \<Rightarrow> None) \<and>
      jm_get c ''id'' = None"
    by (auto simp: extractCredentialForPolicy_def Let_def buildEvaluationCredential_def copied_claims
        jm.get_put falsy_props split: option.splits if_splits jsval.splits)
qed

definition sample_payload :: jsval where
  "sample_payload = JObj [(''iss'', JStr ''did:key:zA''), (''sub'', JStr ''did:key:m''),
     (''vc'', JObj [(''credentialSubject'', JObj [(''role'', JStr ''operator'')])])]"

theorem extraction_succeeds_iff_witness:
  "extractCredentialForPolicy (\<lambda>t. Some sample_payload) ''jwt'' =
     Inr [(''issuer'', JStr ''did:key:zA''), (''subject'', JStr ''did:key:m''), (''role'', JStr ''operator'')]
   \<and> (\<exists>p. Some sample_payload = Some p \<and> truthy (get_prop p ''iss''))"
proof -
  have ex: "extractCredentialForPolicy (\<lambda>t. Some sample_payload) ''jwt'' =
     Inr [(''issuer'', JStr ''did:key:zA''), (''subject'', JStr ''did:key:m''), (''role'', JStr ''operator'')]"
    by (simp add: extractCredentialForPolicy_def buildEvaluationCredential_def sample_payload_def Let_def)
  with extraction_succeeds_iff [of "\<lambda>t. Some sample_payload" "''jwt''"] show ?thesis by auto
qed

text \<open>
  The credential subject can overwrite the issuer that policies see: a credential of one issuer
  whose subject has a claim named \<open>issuer\<close> is evaluated as if it came from the claimed one.
\<close>

theorem subject_claim_overrides_issuer:
  "extractCredentialForPolicy
     (\<lambda>t. Some (JObj [(''iss'', JStr ''did:key:mallory''), (''sub'', JStr ''did:key:m''),
        (''vc'', JObj [(''credentialSubject'', JObj [(''issuer'', JStr ''did:key:trusted'')])])]))
     ''jwt'' = Inr [(''issuer'', JStr ''did:key:trusted''), (''subject'', JStr ''did:key:m'')]"
  by (simp add: extractCredentialForPolicy_def buildEvaluationCredential_def Let_def)

lemma resolved_method_key:
  assumes "cache_holds (resolved_as base58 varint) resolver"
    and "resolveVerificationMethod iss (fst (resolver_resolve base58 varint d resolver iss now)) = Inr vm"
  obtains pk where "parseDIDKey base58 varint iss = Inr pk" and "vm = buildVerificationMethod pk"
proof -
  have "fst (resolver_resolve base58 varint d resolver iss now) = resolveDIDKey base58 varint d iss \<or>
    (\<exists>r. resolved_as base58 varint iss r \<and>
      fst (resolver_resolve base58 varint d resolver iss now) =
        r\<lparr>dr_metadata := (dr_metadata r)\<lparr>md_cached := True\<rparr>\<rparr>)"
    unfolding resolver_is_memo using ttl.memo_answer [OF assms(1)] by blast
  then show thesis
    using assms(2) that by (auto simp: resolved_as_def resolveVerificationMethod_def resolveDIDKey_def
        buildErrorResult_def buildDIDDocument_def Let_def split: sum.splits)
qed

lemma vc_check_Inr:
  assumes "vc_check env jwtVc vm = Inr res"
  obtains alg decoded jwk key q where "alg \<in> {''EdDSA'', ''ES256''}"
    and "ve_base58 env (vm_publicKeyMultibase vm) = Some decoded" and "multibase_jwk decoded alg = Some jwk"
    and "ve_importJWK env jwk alg = Some key"
    and "ve_jwtVerify env jwtVc key SUPPORTED_ALGORITHMS (- ((- vc_clockSkewMs env) div 1000)) = JwtVerified q"
    and "truthy (get_prop q ''vc'')" and "res = buildResult q"
proof -
  from assms obtain header alg decoded jwk key q where
    "arr_includes (map JStr SUPPORTED_ALGORITHMS) (get_prop header ''alg'')"
    and alg: "alg = js_to_string (get_prop header ''alg'')"
    and k: "ve_base58 env (vm_publicKeyMultibase vm) = Some decoded" "multibase_jwk decoded alg = Some jwk"
      "ve_importJWK env jwk alg = Some key"
    and ver: "verifyJwtSignature (ve_decodeJwt env) (ve_jwtVerify env) jwtVc key (vc_clockSkewMs env)
      = Inr q" "truthy (get_prop q ''vc'')" "res = buildResult q"
    by (auto simp: vc_check_def validateAlgorithm_def multibaseToKey_def Let_def
        split: option.splits sum.splits if_splits)
  then have "\<exists>s \<in> set SUPPORTED_ALGORITHMS. get_prop header ''alg'' = JStr s"
    unfolding arr_includes_strings by blast
  then have "alg \<in> {''EdDSA'', ''ES256''}" using alg by (auto simp: SUPPORTED_ALGORITHMS_def)
  moreover have "ve_jwtVerify env jwtVc key SUPPORTED_ALGORITHMS
      (- ((- vc_clockSkewMs env) div 1000)) = JwtVerified q"
    using ver(1) by (auto simp: verifyJwtSignature_def split: joseOutcome.splits option.splits if_splits)
  ultimately show thesis using that k ver(2,3) by blast
qed

lemma vc_verify_Inr:
  assumes "fst (vc_verify env resolver jwtVc now d) = Inr res"
  obtains payload iss vm where "ve_decodeJwt env jwtVc = Some payload"
    and "get_prop payload ''iss'' = JStr iss" and "iss \<in> set (ve_trustedIssuers env)"
    and "resolveVerificationMethod iss (fst (resolver_resolve (ve_base58 env) (ve_varint env) d
        resolver iss now)) = Inr vm"
    and "vc_check env jwtVc vm = Inr res"
  using assms that
  by (auto simp: vc_verify_def extractIssuer_def validateIssuerTrust_def arr_includes_strings
      case_prod_unfold Let_def split: option.splits sum.splits if_splits)

text \<open>The key of an Ed25519 DID in the form \<open>importJWK\<close> takes it.\<close>

definition ed25519_jwk :: "bytes \<Rightarrow> jsval" where
  "ed25519_jwk key = JObj [(''kty'', JStr ''OKP''), (''crv'', JStr ''Ed25519''),
     (''x'', JStr (base64url_encode (map char_of key)))]"

lemma imported_key:
  assumes "parseDIDKey base58 varint did = Inr pk" and "base58 (pk_identifier pk) = Some decoded"
    and "alg \<in> {''EdDSA'', ''ES256''}" and "multibase_jwk decoded alg = Some jwk" and "importJWK jwk alg = Some key"
    and "\<And>bs c k. varint bs = Some (c, k) \<Longrightarrow> k \<le> 9"
    and okp: "\<And>xs key. importJWK (JObj [(''kty'', JStr ''OKP''), (''crv'', JStr ''Ed25519''),
      (''x'', JStr (base64url_encode xs))]) ''EdDSA'' = Some key \<Longrightarrow> length xs = 32"
    and ec: "\<And>xs ys key. importJWK (JObj [(''kty'', JStr ''EC''), (''crv'', JStr ''P-256''),
      (''x'', JStr (base64url_encode xs)), (''y'', JStr (base64url_encode ys))]) ''ES256'' = Some key \<Longrightarrow>
      length ys = 32"
  shows "alg = ''EdDSA'' \<and> jwk = ed25519_jwk (pk_publicKey pk) \<and> length (pk_publicKey pk) = 32"
proof -
  from assms(1) [unfolded parse_did_key_eq] assms(2) obtain n where d: "varint decoded = Some (237, n)"
    "length (drop n decoded) = 32" "pk_publicKey pk = drop n decoded" by auto
  have short: "length decoded \<le> 41" using assms(6) [OF d(1)] d(2) by simp
  have alg: "alg = ''EdDSA''"
  proof (rule ccontr)
    assume "alg \<noteq> ''EdDSA''"
    then have "alg = ''ES256''" using assms(3) by simp
    with assms(4,5) have "length (take 32 (drop 32 (map char_of (drop 2 decoded)) :: string)) = 32"
      using ec by (simp only: multibase_jwk_def Let_def) fastforce
    then show False using short by simp
  qed
  with assms(4,5) have "length (map char_of (drop 2 decoded) :: string) = 32"
    using okp by (simp only: multibase_jwk_def Let_def) fastforce
  with d(2) have "n = 2" by simp
  with d alg assms(4) show ?thesis by (simp add: multibase_jwk_def ed25519_jwk_def Let_def)
qed

text \<open>
  (C34) What a successful verification means, for any state of the resolver's cache: the issuer is in the
  trusted list, its DID holds a 32-byte Ed25519 key, and jose verified the signature with the key imported
  from exactly these bytes; the payload has a \<open>vc\<close> claim and the result is built from the verified payload
  only, with the trusted issuer as its issuer. The verifier cuts two bytes off the decoded DID, whatever the
  length of its codec; that this is the key of the DID rests on jose accepting an Ed25519 key only of 32 bytes
  (RFC 8037) and a P-256 key only with a \<open>y\<close> of 32 bytes (RFC 7518, so no ES256 signature ever verifies), on a
  varint having at most nine bytes, and on jose returning the payload it decodes.
\<close>

theorem verify_sound:
  assumes "cache_holds (resolved_as (ve_base58 env) (ve_varint env)) resolver"
    and "fst (vc_verify env resolver jwtVc now d) = Inr res"
    and "\<And>t k a n p. ve_jwtVerify env t k a n = JwtVerified p \<Longrightarrow> ve_decodeJwt env t = Some p"
    and "\<And>bs c k. ve_varint env bs = Some (c, k) \<Longrightarrow> k \<le> 9"
    and "\<And>xs key. ve_importJWK env (JObj [(''kty'', JStr ''OKP''), (''crv'', JStr ''Ed25519''),
      (''x'', JStr (base64url_encode xs))]) ''EdDSA'' = Some key \<Longrightarrow> length xs = 32"
    and "\<And>xs ys key. ve_importJWK env (JObj [(''kty'', JStr ''EC''), (''crv'', JStr ''P-256''),
      (''x'', JStr (base64url_encode xs)), (''y'', JStr (base64url_encode ys))]) ''ES256'' = Some key \<Longrightarrow>
      length ys = 32"
  shows "\<exists>iss pk key p. iss \<in> set (ve_trustedIssuers env) \<and>
    parseDIDKey (ve_base58 env) (ve_varint env) iss = Inr pk \<and> length (pk_publicKey pk) = 32 \<and>
    ve_importJWK env (JObj [(''kty'', JStr ''OKP''), (''crv'', JStr ''Ed25519''),
      (''x'', JStr (base64url_encode (map char_of (pk_publicKey pk))))]) ''EdDSA'' = Some key \<and>
    ve_jwtVerify env jwtVc key SUPPORTED_ALGORITHMS (- ((- vc_clockSkewMs env) div 1000)) = JwtVerified p \<and>
    truthy (get_prop p ''vc'') \<and> res = buildResult p \<and> vc_issuer res = JStr iss"
proof -
  obtain payload iss vm where p: "ve_decodeJwt env jwtVc = Some payload"
    "get_prop payload ''iss'' = JStr iss" "iss \<in> set (ve_trustedIssuers env)"
    and vm: "resolveVerificationMethod iss (fst (resolver_resolve (ve_base58 env) (ve_varint env) d
        resolver iss now)) = Inr vm"
    and check: "vc_check env jwtVc vm = Inr res"
    using assms(2) by (rule vc_verify_Inr)
  obtain pk where pk: "parseDIDKey (ve_base58 env) (ve_varint env) iss = Inr pk"
    "vm = buildVerificationMethod pk"
    using assms(1) vm by (rule resolved_method_key)
  obtain alg decoded jwk key q where alg: "alg \<in> {''EdDSA'', ''ES256''}"
    and k: "ve_base58 env (vm_publicKeyMultibase vm) = Some decoded" "multibase_jwk decoded alg = Some jwk"
      "ve_importJWK env jwk alg = Some key"
    and v: "ve_jwtVerify env jwtVc key SUPPORTED_ALGORITHMS
      (- ((- vc_clockSkewMs env) div 1000)) = JwtVerified q"
    and res: "truthy (get_prop q ''vc'')" "res = buildResult q"
    using check by (rule vc_check_Inr)
  have "vc_issuer res = JStr iss"
    using assms(3) [OF v] p(1,2) res(2) by (simp add: buildResult_def)
  moreover have "ve_base58 env (pk_identifier pk) = Some decoded"
    using k(1) pk(2) by (simp add: buildVerificationMethod_def)
  then have "alg = ''EdDSA'' \<and> jwk = ed25519_jwk (pk_publicKey pk) \<and> length (pk_publicKey pk) = 32"
    by (rule imported_key [where importJWK = "ve_importJWK env", OF pk(1) _ alg k(2,3)])
      (erule assms(4,5,6))+
  ultimately show ?thesis using p(3) pk(1) k(3) v res unfolding ed25519_jwk_def by blast
qed

definition sample_env :: "unit vcEnv" where
  "sample_env = \<lparr>ve_decodeJwt = \<lambda>t. Some sample_payload,
     ve_decodeProtectedHeader = \<lambda>t. Some (JObj [(''alg'', JStr ''EdDSA'')]),
     ve_importJWK = \<lambda>j a.
       if get_prop j ''kty'' = JStr ''OKP'' \<and> length (base64url_decode (js_to_string (get_prop j ''x''))) = 32
       then Some () else None,
     ve_jwtVerify = \<lambda>t k a n. JwtVerified sample_payload,
     ve_base58 = stub_base58, ve_varint = stub_varint, ve_trustedIssuers = [''did:key:zA''],
     ve_clockSkewMs = None\<rparr>"

lemma sample_parse:
  "parseDIDKey stub_base58 stub_varint ''did:key:zA'' =
     Inr \<lparr>pk_did = ''did:key:zA'', pk_method = ''key'', pk_identifier = ''zA'', pk_codecPrefix = 237,
          pk_publicKey = replicate 32 7\<rparr>"
  unfolding parse_did_key_eq
  by (intro exI [of _ "''zA''"] exI [of _ "237 # 1 # replicate 32 7"] exI [of _ 2])
     (simp add: stub_base58_def stub_varint_def)

lemma sample_verify:
  "fst (vc_verify sample_env (createDIDKeyResolver 10 2) ''jwt'' 0 0) = Inr (buildResult sample_payload)"
  by (simp add: vc_verify_def sample_env_def extractIssuer_def sample_payload_def
      validateIssuerTrust_def arr_includes_def resolver_resolve_def createDIDKeyResolver_def
      createCache_def ttl_get_def resolveDIDKey_def sample_parse resolveVerificationMethod_def
      buildDIDDocument_def buildVerificationMethod_def vc_check_def validateAlgorithm_def
      SUPPORTED_ALGORITHMS_def multibaseToKey_def stub_base58_def multibase_jwk_def
      verifyJwtSignature_def base64url_decode_encode Let_def)

theorem verify_sound_witness:
  "\<exists>iss pk. iss \<in> set (ve_trustedIssuers sample_env) \<and>
    parseDIDKey stub_base58 stub_varint iss = Inr pk \<and> length (pk_publicKey pk) = 32 \<and>
    vc_issuer (buildResult sample_payload) = JStr iss"
proof -
  have "cache_holds (resolved_as (ve_base58 sample_env) (ve_varint sample_env)) (createDIDKeyResolver 10 2)"
    by (simp add: cache_holds_def createDIDKeyResolver_def createCache_def)
  moreover have "ve_jwtVerify sample_env t k a n = JwtVerified p \<Longrightarrow> ve_decodeJwt sample_env t = Some p"
    for t k a n p by (simp add: sample_env_def)
  moreover have "ve_varint sample_env bs = Some (c, k) \<Longrightarrow> k \<le> 9" for bs c k
    by (auto simp: sample_env_def stub_varint_def split: list.splits if_splits)
  moreover have "ve_importJWK sample_env (JObj [(''kty'', JStr ''OKP''), (''crv'', JStr ''Ed25519''),
      (''x'', JStr (base64url_encode xs))]) ''EdDSA'' = Some key \<Longrightarrow> length xs = 32" for xs key
    by (auto simp: sample_env_def base64url_decode_encode split: if_splits)
  moreover have "ve_importJWK sample_env (JObj [(''kty'', JStr ''EC''), (''crv'', JStr ''P-256''),
      (''x'', JStr (base64url_encode xs)), (''y'', JStr (base64url_encode ys))]) ''ES256'' = Some key \<Longrightarrow>
      length ys = 32" for xs ys key
    by (simp add: sample_env_def)
  ultimately obtain iss pk key p where "iss \<in> set (ve_trustedIssuers sample_env)"
    "parseDIDKey (ve_base58 sample_env) (ve_varint sample_env) iss = Inr pk" "length (pk_publicKey pk) = 32"
    "vc_issuer (buildResult sample_payload) = JStr iss"
    using verify_sound [OF _ sample_verify] by blast
  then show ?thesis by (auto simp: sample_env_def)
qed

text \<open>
  ES256 is advertised but cannot be used with the resolver the verifier is given: for every
  issuer DID that the resolver accepts with a two-byte codec, the imported EC key has an empty \<open>y\<close>
  coordinate, so when the import refuses such a key no ES256 credential gets past this point.
\<close>

theorem es256_key_unusable:
  assumes "parseDIDKey base58 varint did = Inr p" and "\<And>bs k. varint bs = Some (237, k) \<Longrightarrow> k = 2"
    and "\<And>jwk a. get_prop jwk ''y'' = JStr [] \<Longrightarrow> importJWK jwk a = None"
  shows "multibaseToKey base58 importJWK (pk_identifier p) ''ES256'' = Inl VcOtherException"
proof -
  from assms(1) [unfolded parse_did_key_eq] obtain decoded n where d: "base58 (pk_identifier p) = Some decoded"
    "varint decoded = Some (237, n)" "length (drop n decoded) = 32" by auto
  have "n = 2" using d(2) by (rule assms(2))
  with d(3) have "length decoded = 34" by simp
  then have "drop 32 (map char_of (drop 2 decoded)) = ([] :: char list)" by simp
  then obtain jwk where "multibase_jwk decoded ''ES256'' = Some jwk" "get_prop jwk ''y'' = JStr []"
    by (simp add: multibase_jwk_def Let_def base64url_encode_def)
  with d(1) assms(3) show ?thesis by (simp add: multibaseToKey_def)
qed

theorem es256_key_unusable_witness:
  "multibaseToKey stub_base58 (\<lambda>j a. if get_prop j ''y'' = JStr [] then None else Some ()) ''zA'' ''ES256''
     = Inl VcOtherException"
proof -
  let ?import = "\<lambda>j a. if get_prop j ''y'' = JStr [] then None else Some ()"
  have "stub_varint bs = Some (237, k) \<Longrightarrow> k = 2" for bs k
    by (auto simp: stub_varint_def split: list.splits if_splits)
  then show ?thesis using es256_key_unusable [OF sample_parse, of ?import] by simp
qed

end
