(* ===== verification/PolicyEval.thy ===== *)
theory PolicyEval
  imports JsValue
begin

text \<open>
  \<open>policy/types.ts\<close>, \<open>policy/condition-evaluator.ts\<close>, \<open>policy/evaluation-types.ts\<close> and
  \<open>policy/policy-evaluator.ts\<close>: attribute conditions over a dynamic evaluation context, and the
  evaluation of a policy (deny rules first, then the first allow rule in priority order, otherwise
  deny). The context and a condition's comparison value are dynamic values (\<open>jsval\<close>). The clock
  readings (\<open>new Date()\<close>, and the duration that \<open>performance.now()\<close> measures) are arguments.

  \<open>decision_table\<close> states the abstract contract of a prioritised rule table; the evaluator
  provides it.
\<close>

section \<open>Policies\<close>

datatype policyEffect = Allow | Deny

datatype conditionOperator = OpEq | OpNeq | OpIn | OpGt | OpLt | OpGte | OpLte | OpContains

record policyCondition =
  pc_field :: string
  pc_operator :: conditionOperator
  pc_value :: jsval

record policyRule =
  pr_id :: string
  pr_effect :: policyEffect
  pr_conditions :: "policyCondition list"
  pr_actions :: "string list"
  pr_priority :: rat
  pr_description :: "string option"

record policy =
  po_id :: string
  po_version :: nat
  po_name :: string
  po_description :: "string option"
  po_rules :: "policyRule list"
  po_createdAt :: ms
  po_updatedAt :: ms
  po_hash :: string

section \<open>Conditions\<close>

fun field_walk :: "string list \<Rightarrow> jsval \<Rightarrow> jsval" where
  "field_walk [] current = current"
| "field_walk (part # parts) current =
     (if current = JNull \<or> current = JUndef then JUndef
      else if \<not> is_object_type current then JUndef
      else field_walk parts (get_prop current part))"

definition getFieldValue :: "string \<Rightarrow> jsval \<Rightarrow> jsval" where
  "getFieldValue path ctx = field_walk (str_split CHR ''.'' path) ctx"

fun js_contains :: "jsval \<Rightarrow> jsval \<Rightarrow> bool" where
  "js_contains (JStr s) (JStr p) = str_includes s p"
| "js_contains (JArr vs) v = arr_includes vs v"
| "js_contains fieldValue v = False"

definition evaluateCondition :: "policyCondition \<Rightarrow> jsval \<Rightarrow> bool" where
  "evaluateCondition c ctx =
     (let fieldValue = getFieldValue (pc_field c) ctx; v = pc_value c in
      if fieldValue = JUndef then False
      else (case pc_operator c of
          OpEq \<Rightarrow> strict_eq fieldValue v
        | OpNeq \<Rightarrow> \<not> strict_eq fieldValue v
        | OpIn \<Rightarrow> (case v of JArr vs \<Rightarrow> arr_includes vs fieldValue | _ \<Rightarrow> False)
        | OpGt \<Rightarrow> js_gt fieldValue v
        | OpLt \<Rightarrow> js_lt fieldValue v
        | OpGte \<Rightarrow> js_ge fieldValue v
        | OpLte \<Rightarrow> js_le fieldValue v
        | OpContains \<Rightarrow> js_contains fieldValue v))"

section \<open>Evaluation\<close>

record policyMetadata =
  pm_id :: string
  pm_version :: nat
  pm_hash :: string

record evaluationResult =
  er_decision :: policyEffect
  er_matchedRule :: "string option"
  er_reason :: "string option"
  er_allowedActions :: "string list"
  er_policy :: policyMetadata
  er_evaluatedAt :: ms
  er_durationMs :: rat

definition matchesRule :: "policyRule \<Rightarrow> jsval \<Rightarrow> string list \<Rightarrow> bool" where
  "matchesRule rule ctx actions =
     (if \<not> list_ex (\<lambda>a. a \<in> set (pr_actions rule)) actions then False
      else list_all (\<lambda>c. evaluateCondition c ctx) (pr_conditions rule))"

definition intersectActions :: "string list \<Rightarrow> string list \<Rightarrow> string list" where
  "intersectActions requested ruleActions = filter (\<lambda>a. a \<in> set ruleActions) requested"

definition createResult :: "policy \<Rightarrow> ms \<Rightarrow> rat \<Rightarrow> evaluationResult" where
  "createResult p now duration =
     \<lparr>er_decision = Deny, er_matchedRule = None, er_reason = None, er_allowedActions = [],
      er_policy = \<lparr>pm_id = po_id p, pm_version = po_version p, pm_hash = po_hash p\<rparr>,
      er_evaluatedAt = now, er_durationMs = duration\<rparr>"

definition evaluate :: "policy \<Rightarrow> jsval \<Rightarrow> string list \<Rightarrow> ms \<Rightarrow> rat \<Rightarrow> evaluationResult" where
  "evaluate p ctx requestedActions now duration =
     (let sortedRules = sort_key pr_priority (po_rules p);
          hit = (\<lambda>effect. List.find
            (\<lambda>rule. pr_effect rule = effect \<and> matchesRule rule ctx requestedActions) sortedRules)
      in case hit Deny of
           Some rule \<Rightarrow> (createResult p now duration)
             \<lparr>er_matchedRule := Some (pr_id rule),
              er_reason := Some (''denied by rule: '' @ pr_id rule)\<rparr>
         | None \<Rightarrow>
           (case hit Allow of
              Some rule \<Rightarrow> (createResult p now duration)
                \<lparr>er_decision := Allow, er_matchedRule := Some (pr_id rule),
                 er_allowedActions := intersectActions requestedActions (pr_actions rule)\<rparr>
            | None \<Rightarrow> (createResult p now duration)\<lparr>er_reason := Some ''no matching rule''\<rparr>))"

section \<open>Rule tables in priority order\<close>

text \<open>
  A table that returns, for a test, an entry that passes it with the least priority, and nothing
  when no entry passes.
\<close>

locale decision_table =
  fixes entries :: "'t \<Rightarrow> 'r list"
    and rank :: "'r \<Rightarrow> 'p :: linorder"
    and lookup :: "'t \<Rightarrow> ('r \<Rightarrow> bool) \<Rightarrow> 'r option"
  assumes lookup_None: "lookup t test = None \<longleftrightarrow> (\<forall>r \<in> set (entries t). \<not> test r)"
    and lookup_Some: "lookup t test = Some r \<Longrightarrow> r \<in> set (entries t) \<and> test r \<and>
      (\<forall>r' \<in> set (entries t). test r' \<longrightarrow> rank r \<le> rank r') \<and>
      List.find (\<lambda>r'. test r' \<and> rank r' = rank r) (entries t) = Some r"
begin

text \<open>What a lookup returns does not depend on the order of entries with different ranks.\<close>

lemma lookup_order_independent:
  assumes "set (entries t) = set (entries u)" and "inj_on rank {r \<in> set (entries t). test r}"
  shows "lookup t test = lookup u test"
proof (cases "lookup t test")
  case None
  then have "lookup u test = None" using assms(1) by (simp add: lookup_None)
  with None show ?thesis by simp
next
  case (Some r)
  have "\<exists>r'. lookup u test = Some r'"
    using Some assms(1) lookup_Some [OF Some] lookup_None [of u test] by (cases "lookup u test") auto
  then obtain r' where r': "lookup u test = Some r'" ..
  have "rank r = rank r'"
    using lookup_Some [OF Some] lookup_Some [OF r'] assms(1) by (simp add: order_antisym)
  moreover have "r \<in> {r \<in> set (entries t). test r}" "r' \<in> {r \<in> set (entries t). test r}"
    using lookup_Some [OF Some] lookup_Some [OF r'] assms(1) by auto
  ultimately have "r = r'" using assms(2) by (meson inj_onD)
  with Some r' show ?thesis by simp
qed

lemma lookup_add_failing:
  assumes "set (entries u) = insert x (set (entries t))" and "\<not> test x"
  shows "lookup u test = None \<longleftrightarrow> lookup t test = None"
  using assms by (auto simp: lookup_None)

end

lemma find_sort_key_stable:
  "List.find (\<lambda>x. P x \<and> f x = k) (sort_key f xs) = List.find (\<lambda>x. P x \<and> f x = k) xs"
proof -
  have split: "List.find (\<lambda>x. P x \<and> f x = k) ys = List.find P (filter (\<lambda>x. f x = k) ys)" for ys
    by (induction ys) auto
  show ?thesis unfolding split using sort_key_stable [of f k xs] by simp
qed

lemma find_sort_key_least:
  assumes "List.find P (sort_key f xs) = Some x"
  shows "x \<in> set xs \<and> P x \<and> (\<forall>y \<in> set xs. P y \<longrightarrow> f x \<le> f y) \<and>
    List.find (\<lambda>y. P y \<and> f y = f x) xs = Some x"
proof -
  obtain i where i: "i < length (sort_key f xs)" "P (sort_key f xs ! i)" "x = sort_key f xs ! i"
    "\<And>j. j < i \<Longrightarrow> \<not> P (sort_key f xs ! j)"
    using assms unfolding find_Some_iff by blast
  have "x \<in> set (sort_key f xs)" unfolding i(3) by (rule nth_mem [OF i(1)])
  then have "x \<in> set xs" by simp
  moreover have "f x \<le> f y" if y: "y \<in> set xs" "P y" for y
  proof -
    have "y \<in> set (sort_key f xs)" using y(1) by simp
    then obtain j where j: "j < length (sort_key f xs)" "y = sort_key f xs ! j"
      unfolding in_set_conv_nth by blast
    then have "i \<le> j" using i(4) y(2) by (meson not_le)
    then show ?thesis
      using sorted_nth_mono [OF sorted_sort_key, of i j f xs] i(1,3) j by simp
  qed
  moreover have "List.find (\<lambda>y. P y \<and> f y = f x) (sort_key f xs) = Some x"
    unfolding find_Some_iff using i by (intro exI [of _ i]) auto
  ultimately show ?thesis using i(2,3) by (simp add: find_sort_key_stable)
qed

interpretation rules: decision_table po_rules pr_priority
  "\<lambda>p test. List.find test (sort_key pr_priority (po_rules p))"
proof unfold_locales
  fix p test
  show "List.find test (sort_key pr_priority (po_rules p)) = None \<longleftrightarrow>
      (\<forall>r \<in> set (po_rules p). \<not> test r)"
    by (auto simp: find_None_iff)
next
  fix p test r
  assume "List.find test (sort_key pr_priority (po_rules p)) = Some r"
  then show "r \<in> set (po_rules p) \<and> test r \<and>
      (\<forall>r' \<in> set (po_rules p). test r' \<longrightarrow> pr_priority r \<le> pr_priority r') \<and>
      List.find (\<lambda>r'. test r' \<and> pr_priority r' = pr_priority r) (po_rules p) = Some r"
    by (rule find_sort_key_least)
qed

lemma matchesRule_iff:
  "matchesRule rule ctx actions \<longleftrightarrow>
     (\<exists>a \<in> set actions. a \<in> set (pr_actions rule)) \<and>
     (\<forall>c \<in> set (pr_conditions rule). evaluateCondition c ctx)"
  by (auto simp: matchesRule_def list_ex_iff list_all_iff)

lemma evaluate_cases:
  obtains (denied) rule where
      "List.find (\<lambda>rule. pr_effect rule = Deny \<and> matchesRule rule ctx acts)
         (sort_key pr_priority (po_rules p)) = Some rule"
      "evaluate p ctx acts now d = (createResult p now d)\<lparr>er_matchedRule := Some (pr_id rule),
         er_reason := Some (''denied by rule: '' @ pr_id rule)\<rparr>"
  | (allowed) rule where
      "List.find (\<lambda>rule. pr_effect rule = Deny \<and> matchesRule rule ctx acts)
         (sort_key pr_priority (po_rules p)) = None"
      "List.find (\<lambda>rule. pr_effect rule = Allow \<and> matchesRule rule ctx acts)
         (sort_key pr_priority (po_rules p)) = Some rule"
      "evaluate p ctx acts now d = (createResult p now d)\<lparr>er_decision := Allow,
         er_matchedRule := Some (pr_id rule),
         er_allowedActions := intersectActions acts (pr_actions rule)\<rparr>"
  | (default) "List.find (\<lambda>rule. pr_effect rule = Deny \<and> matchesRule rule ctx acts)
         (sort_key pr_priority (po_rules p)) = None"
      "List.find (\<lambda>rule. pr_effect rule = Allow \<and> matchesRule rule ctx acts)
         (sort_key pr_priority (po_rules p)) = None"
      "evaluate p ctx acts now d = (createResult p now d)\<lparr>er_reason := Some ''no matching rule''\<rparr>"
  unfolding evaluate_def Let_def by (auto split: option.splits)

section \<open>Properties\<close>

lemma evaluate_decides:
  "er_decision (evaluate p ctx acts now d) = Allow \<longleftrightarrow>
     (\<exists>r \<in> set (po_rules p). pr_effect r = Allow \<and> matchesRule r ctx acts) \<and>
     \<not> (\<exists>r \<in> set (po_rules p). pr_effect r = Deny \<and> matchesRule r ctx acts)"
proof (cases rule: evaluate_cases [of ctx acts p now d])
  case (denied rule)
  then show ?thesis using rules.lookup_Some [OF denied(1)] by (auto simp: createResult_def)
next
  case (allowed rule)
  have "\<not> (\<exists>r \<in> set (po_rules p). pr_effect r = Deny \<and> matchesRule r ctx acts)"
    using allowed(1) unfolding rules.lookup_None by blast
  then show ?thesis using rules.lookup_Some [OF allowed(2)] allowed(3) by auto
next
  case default
  have "\<not> (\<exists>r \<in> set (po_rules p). pr_effect r = Allow \<and> matchesRule r ctx acts)"
    using default(2) unfolding rules.lookup_None by blast
  then show ?thesis using default(3) by (auto simp: createResult_def)
qed

text \<open>
  (C23) Deny overrides: access is allowed exactly when some allow rule of the policy matches and no
  deny rule matches, whatever the priorities and the order of the rules; in particular an empty
  policy, and an empty request, are denied.
\<close>

theorem evaluate_decision:
  "er_decision (evaluate p ctx acts now d) = Allow \<longleftrightarrow>
     (\<exists>r \<in> set (po_rules p). pr_effect r = Allow \<and> matchesRule r ctx acts) \<and>
     \<not> (\<exists>r \<in> set (po_rules p). pr_effect r = Deny \<and> matchesRule r ctx acts)"
  by (rule evaluate_decides)

definition sample_rule :: "string \<Rightarrow> policyEffect \<Rightarrow> rat \<Rightarrow> string list \<Rightarrow> policyCondition list \<Rightarrow> policyRule"
where
  "sample_rule i e n as cs = \<lparr>pr_id = i, pr_effect = e, pr_conditions = cs, pr_actions = as,
     pr_priority = n, pr_description = None\<rparr>"

definition sample_policy :: "policyRule list \<Rightarrow> policy" where
  "sample_policy rs = \<lparr>po_id = ''p'', po_version = 1, po_name = ''P'', po_description = None,
     po_rules = rs, po_createdAt = 0, po_updatedAt = 0, po_hash = ''h''\<rparr>"

text \<open>
  Least privilege: an allow decision grants exactly the requested actions that one matching
  allow rule lists, that rule has the least priority value of all matching allow rules and is the
  first of them in the policy's order, and at least one action is granted; a deny grants nothing.
\<close>

theorem evaluate_least_privilege:
  shows "(er_decision (evaluate p ctx acts now d) = Allow \<longrightarrow>
      (\<exists>r \<in> set (po_rules p). pr_effect r = Allow \<and> matchesRule r ctx acts \<and>
        er_matchedRule (evaluate p ctx acts now d) = Some (pr_id r) \<and>
        er_allowedActions (evaluate p ctx acts now d) = [a \<leftarrow> acts. a \<in> set (pr_actions r)] \<and>
        er_allowedActions (evaluate p ctx acts now d) \<noteq> [] \<and>
        (\<forall>r' \<in> set (po_rules p). pr_effect r' = Allow \<and> matchesRule r' ctx acts \<longrightarrow>
          pr_priority r \<le> pr_priority r') \<and>
        List.find (\<lambda>r'. pr_effect r' = Allow \<and> matchesRule r' ctx acts \<and>
          pr_priority r' = pr_priority r) (po_rules p) = Some r))
    \<and> (er_decision (evaluate p ctx acts now d) = Deny \<longrightarrow>
      er_allowedActions (evaluate p ctx acts now d) = [])"
proof (intro conjI impI)
  show "er_allowedActions (evaluate p ctx acts now d) = []"
    if "er_decision (evaluate p ctx acts now d) = Deny"
    using that by (cases rule: evaluate_cases [of ctx acts p now d]) (simp_all add: createResult_def)
  assume allow: "er_decision (evaluate p ctx acts now d) = Allow"
  show "\<exists>r \<in> set (po_rules p). pr_effect r = Allow \<and> matchesRule r ctx acts \<and>
        er_matchedRule (evaluate p ctx acts now d) = Some (pr_id r) \<and>
        er_allowedActions (evaluate p ctx acts now d) = [a \<leftarrow> acts. a \<in> set (pr_actions r)] \<and>
        er_allowedActions (evaluate p ctx acts now d) \<noteq> [] \<and>
        (\<forall>r' \<in> set (po_rules p). pr_effect r' = Allow \<and> matchesRule r' ctx acts \<longrightarrow>
          pr_priority r \<le> pr_priority r') \<and>
        List.find (\<lambda>r'. pr_effect r' = Allow \<and> matchesRule r' ctx acts \<and>
          pr_priority r' = pr_priority r) (po_rules p) = Some r"
  proof (cases rule: evaluate_cases [of ctx acts p now d])
    case (allowed rule)
    note hit = rules.lookup_Some [OF allowed(2)]
    have "[a \<leftarrow> acts. a \<in> set (pr_actions rule)] \<noteq> []"
      using hit by (auto simp: matchesRule_iff filter_empty_conv)
    with hit allowed(3) show ?thesis
      by (intro bexI [of _ rule]) (auto simp: intersectActions_def conj_assoc)
  qed (use allow in \<open>auto simp: createResult_def\<close>)
qed

theorem evaluate_least_privilege_witness:
  "er_matchedRule (evaluate (sample_policy [sample_rule ''a'' Allow 2 [''x'', ''y''] [],
        sample_rule ''b'' Allow 1 [''x''] []]) JNull [''x'', ''y''] 0 0) = Some ''b''"
proof -
  have "er_decision (evaluate (sample_policy [sample_rule ''a'' Allow 2 [''x'', ''y''] [],
        sample_rule ''b'' Allow 1 [''x''] []]) JNull [''x'', ''y''] 0 0) = Allow"
    by (simp add: evaluate_decides sample_policy_def sample_rule_def matchesRule_def)
  from conjunct1 [OF evaluate_least_privilege, THEN mp, OF this] show ?thesis
    by (auto simp: sample_policy_def sample_rule_def matchesRule_def simp del: sort_key_simps)
qed

text \<open>
  The order in which a policy lists its rules decides nothing but ties: two policies with the
  same identification and the same set of rules, all of different priorities, give the same result.
\<close>

theorem evaluate_order_independent:
  assumes "set (po_rules p) = set (po_rules q)" and "inj_on pr_priority (set (po_rules p))"
    and "po_id p = po_id q" "po_version p = po_version q" "po_hash p = po_hash q"
  shows "evaluate p ctx acts now d = evaluate q ctx acts now d"
proof -
  have same: "List.find test (sort_key pr_priority (po_rules p)) =
      List.find test (sort_key pr_priority (po_rules q))" for test
    by (rule rules.lookup_order_independent [OF assms(1)])
       (use assms(2) in \<open>auto simp: inj_on_def\<close>)
  have base: "createResult p now d = createResult q now d"
    using assms(3-5) by (simp add: createResult_def)
  show ?thesis unfolding evaluate_def Let_def same base ..
qed

theorem evaluate_order_independent_witness:
  "evaluate (sample_policy [sample_rule ''a'' Allow 2 [''x''] [], sample_rule ''b'' Deny 1 [''y''] []])
      JNull [''x''] 0 0 =
   evaluate (sample_policy [sample_rule ''b'' Deny 1 [''y''] [], sample_rule ''a'' Allow 2 [''x''] []])
      JNull [''x''] 0 0"
  by (rule evaluate_order_independent) (auto simp: sample_policy_def sample_rule_def)

text \<open>
  A condition on a field that the context does not have never holds, under any operator
  (\<open>neq\<close> included); on a numeric field with a numeric value the six comparisons are the arithmetic
  ones, and on any field \<open>neq\<close> is the negation of \<open>eq\<close> when the field is present.
\<close>

theorem condition_semantics:
  shows "(getFieldValue f ctx = JUndef \<longrightarrow>
      \<not> evaluateCondition \<lparr>pc_field = f, pc_operator = opr, pc_value = v\<rparr> ctx)
    \<and> (getFieldValue f ctx \<noteq> JUndef \<longrightarrow>
      evaluateCondition \<lparr>pc_field = f, pc_operator = OpNeq, pc_value = v\<rparr> ctx =
        (\<not> evaluateCondition \<lparr>pc_field = f, pc_operator = OpEq, pc_value = v\<rparr> ctx))
    \<and> (getFieldValue f ctx = JNum n \<longrightarrow>
      evaluateCondition \<lparr>pc_field = f, pc_operator = OpEq, pc_value = JNum m\<rparr> ctx = (n = m) \<and>
      evaluateCondition \<lparr>pc_field = f, pc_operator = OpGt, pc_value = JNum m\<rparr> ctx = (m < n) \<and>
      evaluateCondition \<lparr>pc_field = f, pc_operator = OpLt, pc_value = JNum m\<rparr> ctx = (n < m) \<and>
      evaluateCondition \<lparr>pc_field = f, pc_operator = OpGte, pc_value = JNum m\<rparr> ctx = (m \<le> n) \<and>
      evaluateCondition \<lparr>pc_field = f, pc_operator = OpLte, pc_value = JNum m\<rparr> ctx = (n \<le> m))"
  by (auto simp: evaluateCondition_def)

theorem condition_semantics_witness:
  "\<not> evaluateCondition \<lparr>pc_field = ''credential.role'', pc_operator = OpNeq, pc_value = JStr ''admin''\<rparr>
      (JObj [(''credential'', JObj [])])"
proof -
  have "getFieldValue ''credential.role'' (JObj [(''credential'', JObj [])]) = JUndef"
    by (simp add: getFieldValue_def)
  with condition_semantics [of "''credential.role''" "JObj [(''credential'', JObj [])]" OpNeq
      "JStr ''admin''" 0 0] show ?thesis by blast
qed

end
