(* ===== verification/PolicyStore.thy ===== *)
theory PolicyStore
  imports PolicyEval JsJson
begin

text \<open>
  \<open>policy/policy-store.ts\<close> and \<open>policy/errors.ts\<close>: the in-memory policies with their version
  history. The two maps of the closure are the fields of \<open>policyStore\<close>; a thrown \<open>PolicyError\<close> is
  an \<open>Inl\<close>. The SHA-256 hash in hex is the parameter \<open>sha256\<close>, applied to the JSON text of the
  rules (with the member order that the rule objects of \<open>index.ts\<close> have).
\<close>

section \<open>State and operations\<close>

datatype policyError =
    PolicyNotFound string
  | PolicyAlreadyExists string
  | InvalidPolicy string "string option"
  | InvalidRule string string
  | MaxPoliciesExceeded int

definition error_code :: "policyError \<Rightarrow> string" where
  "error_code e =
     (case e of
        PolicyNotFound i \<Rightarrow> ''policy_not_found''
      | PolicyAlreadyExists i \<Rightarrow> ''policy_already_exists''
      | InvalidPolicy r i \<Rightarrow> ''invalid_policy''
      | InvalidRule r i \<Rightarrow> ''invalid_rule''
      | MaxPoliciesExceeded n \<Rightarrow> ''max_policies_exceeded'')"

definition error_message :: "policyError \<Rightarrow> string" where
  "error_message e =
     (case e of
        PolicyNotFound i \<Rightarrow> ''Policy not found: '' @ i
      | PolicyAlreadyExists i \<Rightarrow> ''Policy already exists: '' @ i
      | InvalidPolicy r i \<Rightarrow> ''Invalid policy: '' @ r
      | InvalidRule i r \<Rightarrow> ''Invalid rule '' @ [CHR 0x27] @ i @ [CHR 0x27] @ '': '' @ r
      | MaxPoliciesExceeded n \<Rightarrow> ''Maximum number of policies exceeded: '' @ int_to_dec n)"

record createPolicyInput =
  ci_id :: string
  ci_name :: string
  ci_description :: "string option"
  ci_rules :: "policyRule list"

record updatePolicyInput =
  ui_name :: "string option"
  ui_description :: "string option"
  ui_rules :: "policyRule list option"

record policyStore =
  ps_maxPolicies :: int
  ps_policies :: "(string, policy) jsmap"
  ps_history :: "(string, policy list) jsmap"

definition DEFAULT_MAX_POLICIES :: int where
  "DEFAULT_MAX_POLICIES = 10000"

definition operator_text :: "conditionOperator \<Rightarrow> string" where
  "operator_text c =
     (case c of OpEq \<Rightarrow> ''eq'' | OpNeq \<Rightarrow> ''neq'' | OpIn \<Rightarrow> ''in'' | OpGt \<Rightarrow> ''gt'' | OpLt \<Rightarrow> ''lt''
      | OpGte \<Rightarrow> ''gte'' | OpLte \<Rightarrow> ''lte'' | OpContains \<Rightarrow> ''contains'')"

definition effect_text :: "policyEffect \<Rightarrow> string" where
  "effect_text e = (case e of Allow \<Rightarrow> ''allow'' | Deny \<Rightarrow> ''deny'')"

definition condition_json :: "policyCondition \<Rightarrow> jsval" where
  "condition_json c =
     JObj [(''field'', JStr (pc_field c)), (''operator'', JStr (operator_text (pc_operator c))),
           (''value'', pc_value c)]"

definition rule_json :: "policyRule \<Rightarrow> jsval" where
  "rule_json r =
     JObj ([(''id'', JStr (pr_id r)), (''effect'', JStr (effect_text (pr_effect r))),
            (''priority'', JNum (pr_priority r)), (''actions'', JArr (map JStr (pr_actions r))),
            (''conditions'', JArr (map condition_json (pr_conditions r)))] @
           (case pr_description r of None \<Rightarrow> [] | Some d \<Rightarrow> [(''description'', JStr d)]))"

definition computeRulesHash :: "(string \<Rightarrow> string) \<Rightarrow> policyRule list \<Rightarrow> string" where
  "computeRulesHash sha256 rs = sha256 (json_stringify (JArr (map rule_json rs)))"

definition createPolicyStore :: "int option \<Rightarrow> policyStore" where
  "createPolicyStore config =
     \<lparr>ps_maxPolicies = (case config of None \<Rightarrow> DEFAULT_MAX_POLICIES | Some n \<Rightarrow> n),
      ps_policies = [], ps_history = []\<rparr>"

definition policy_get :: "policyStore \<Rightarrow> string \<Rightarrow> policy option" where
  "policy_get s i = jm_get (ps_policies s) i"

definition getByVersion :: "policyStore \<Rightarrow> string \<Rightarrow> nat \<Rightarrow> policy option" where
  "getByVersion s i version =
     (case jm_get (ps_history s) i of
        None \<Rightarrow> None
      | Some versions \<Rightarrow> List.find (\<lambda>p. po_version p = version) versions)"

definition policy_list :: "policyStore \<Rightarrow> policy list" where
  "policy_list s = jm_values (ps_policies s)"

definition policy_create ::
    "(string \<Rightarrow> string) \<Rightarrow> policyStore \<Rightarrow> createPolicyInput \<Rightarrow> ms
      \<Rightarrow> policyError + policy \<times> policyStore" where
  "policy_create sha256 s input now =
     (if jm_has (ps_policies s) (ci_id input) then Inl (PolicyAlreadyExists (ci_id input))
      else if int (jm_size (ps_policies s)) \<ge> ps_maxPolicies s
      then Inl (MaxPoliciesExceeded (ps_maxPolicies s))
      else
        (let p = \<lparr>po_id = ci_id input, po_version = 1, po_name = ci_name input,
                  po_description = ci_description input, po_rules = ci_rules input,
                  po_createdAt = now, po_updatedAt = now,
                  po_hash = computeRulesHash sha256 (ci_rules input)\<rparr>
         in Inr (p, s\<lparr>ps_policies := jm_set (ps_policies s) (ci_id input) p,
                     ps_history := jm_set (ps_history s) (ci_id input) [p]\<rparr>)))"

definition policy_update ::
    "(string \<Rightarrow> string) \<Rightarrow> policyStore \<Rightarrow> string \<Rightarrow> updatePolicyInput \<Rightarrow> ms
      \<Rightarrow> policyError + policy \<times> policyStore" where
  "policy_update sha256 s i updates now =
     (case jm_get (ps_policies s) i of
        None \<Rightarrow> Inl (PolicyNotFound i)
      | Some existing \<Rightarrow>
          (let newRules = (case ui_rules updates of None \<Rightarrow> po_rules existing | Some rs \<Rightarrow> rs);
               updated = existing
                 \<lparr>po_name := (case ui_name updates of None \<Rightarrow> po_name existing | Some n \<Rightarrow> n),
                  po_description := (case ui_description updates of
                      None \<Rightarrow> po_description existing | Some d \<Rightarrow> Some d),
                  po_rules := newRules, po_version := po_version existing + 1,
                  po_updatedAt := now, po_hash := computeRulesHash sha256 newRules\<rparr>;
               versions = (case jm_get (ps_history s) i of None \<Rightarrow> [] | Some vs \<Rightarrow> vs) @ [updated]
           in Inr (updated, s\<lparr>ps_policies := jm_set (ps_policies s) i updated,
                              ps_history := jm_set (ps_history s) i versions\<rparr>)))"

definition policy_delete :: "policyStore \<Rightarrow> string \<Rightarrow> bool \<times> policyStore" where
  "policy_delete s i =
     (jm_has (ps_policies s) i,
      s\<lparr>ps_policies := jm_delete (ps_policies s) i, ps_history := jm_delete (ps_history s) i\<rparr>)"

definition getVersionHistory :: "policyStore \<Rightarrow> string \<Rightarrow> policy list" where
  "getVersionHistory s i = (case jm_get (ps_history s) i of None \<Rightarrow> [] | Some vs \<Rightarrow> vs)"

definition policy_clear :: "policyStore \<Rightarrow> policyStore" where
  "policy_clear s = s\<lparr>ps_policies := [], ps_history := []\<rparr>"

section \<open>Invariant\<close>

datatype store_op =
    PolCreate createPolicyInput ms
  | PolUpdate string updatePolicyInput ms
  | PolDelete string
  | PolClear

text \<open>A call that throws leaves the state as it is.\<close>

fun policy_step :: "(string \<Rightarrow> string) \<Rightarrow> policyStore \<Rightarrow> store_op \<Rightarrow> policyStore" where
  "policy_step h s (PolCreate input now) =
     (case policy_create h s input now of Inl e \<Rightarrow> s | Inr (p, s') \<Rightarrow> s')"
| "policy_step h s (PolUpdate i updates now) =
     (case policy_update h s i updates now of Inl e \<Rightarrow> s | Inr (p, s') \<Rightarrow> s')"
| "policy_step h s (PolDelete i) = snd (policy_delete s i)"
| "policy_step h s PolClear = policy_clear s"

text \<open>The versions of one policy: numbered from one, the last is the current one, all carry the
  same id and creation date and the hash of their own rules.\<close>

definition versions_ok :: "(string \<Rightarrow> string) \<Rightarrow> string \<Rightarrow> policy \<Rightarrow> policy list \<Rightarrow> bool" where
  "versions_ok h i p vs \<longleftrightarrow> vs \<noteq> [] \<and> last vs = p \<and> map po_version vs = [1..<Suc (length vs)] \<and>
     (\<forall>v \<in> set vs. po_id v = i \<and> po_createdAt v = po_createdAt p \<and>
        po_hash v = computeRulesHash h (po_rules v))"

definition paired :: "(string \<Rightarrow> string) \<Rightarrow> string \<Rightarrow> policy option \<Rightarrow> policy list option \<Rightarrow> bool" where
  "paired h i current versions =
     (case current of None \<Rightarrow> versions = None
      | Some p \<Rightarrow> (case versions of None \<Rightarrow> False | Some vs \<Rightarrow> versions_ok h i p vs))"

lemma paired_simps [simp]:
  "paired h i None vs \<longleftrightarrow> vs = None" "paired h i (Some p) (Some ws) \<longleftrightarrow> versions_ok h i p ws"
  by (simp_all add: paired_def)

definition policies_ok :: "(string \<Rightarrow> string) \<Rightarrow> policyStore \<Rightarrow> bool" where
  "policies_ok h s \<longleftrightarrow> jm_wf (ps_policies s) \<and>
     int (jm_size (ps_policies s)) \<le> max 0 (ps_maxPolicies s) \<and>
     (\<forall>i. paired h i (jm_get (ps_policies s) i) (jm_get (ps_history s) i))"

lemma policies_okD:
  assumes "policies_ok h s" and "jm_get (ps_policies s) i = Some p"
  shows "\<exists>vs. jm_get (ps_history s) i = Some vs \<and> versions_ok h i p vs"
proof -
  have "paired h i (Some p) (jm_get (ps_history s) i)"
    using assms by (metis policies_ok_def)
  then show ?thesis by (auto simp: paired_def split: option.splits)
qed

lemma versions_ok_first:
  "po_id p = i \<Longrightarrow> po_version p = 1 \<Longrightarrow> po_hash p = computeRulesHash h (po_rules p) \<Longrightarrow>
   versions_ok h i p [p]"
  by (simp add: versions_ok_def)

lemma versions_ok_snoc:
  assumes "versions_ok h i p vs" and "po_id q = i" and "po_version q = Suc (po_version p)"
    and "po_createdAt q = po_createdAt p" and "po_hash q = computeRulesHash h (po_rules q)"
  shows "versions_ok h i q (vs @ [q])"
proof -
  have "vs \<noteq> []" and map: "map po_version vs = [1..<Suc (length vs)]" and "last vs = p"
    using assms(1) by (simp_all add: versions_ok_def)
  then have "po_version p = last [1..<Suc (length vs)]" by (metis last_map)
  also have "\<dots> = length vs" using \<open>vs \<noteq> []\<close> by (simp add: Suc_le_eq)
  finally have "map po_version (vs @ [q]) = [1..<Suc (length (vs @ [q]))]"
    using map assms(3) by simp
  then show ?thesis using assms by (simp add: versions_ok_def)
qed

lemma policies_ok_put:
  assumes "policies_ok h s" and "versions_ok h i p vs"
    and "int (jm_size (jm_set (ps_policies s) i p)) \<le> max 0 (ps_maxPolicies s)"
  shows "policies_ok h (s\<lparr>ps_policies := jm_set (ps_policies s) i p,
    ps_history := jm_set (ps_history s) i vs\<rparr>)"
  using assms by (auto simp: policies_ok_def jm.wf_put jm.get_put)

lemma policy_create_ok:
  assumes "policies_ok h s"
  shows "policies_ok h (policy_step h s (PolCreate input now))"
proof (cases "policy_create h s input now")
  case (Inl e)
  then show ?thesis using assms by simp
next
  case (Inr r)
  then have new: "\<not> jm_has (ps_policies s) (ci_id input)"
    and room: "int (jm_size (ps_policies s)) < ps_maxPolicies s"
    by (auto simp: policy_create_def split: if_splits)
  have "int (jm_size (jm_set (ps_policies s) (ci_id input) p)) \<le> max 0 (ps_maxPolicies s)" for p
    using new room by (simp add: jm_size_set)
  with new room show ?thesis
    by (simp add: policy_create_def Let_def policies_ok_put [OF assms] versions_ok_first
        del: not_None_eq)
qed

lemma policy_update_ok:
  assumes "policies_ok h s"
  shows "policies_ok h (policy_step h s (PolUpdate i updates now))"
proof (cases "jm_get (ps_policies s) i")
  case None
  then show ?thesis using assms by (simp add: policy_update_def)
next
  case (Some p)
  obtain vs where vs: "jm_get (ps_history s) i = Some vs" "versions_ok h i p vs"
    using policies_okD [OF assms Some] by blast
  have "po_id p = i" using vs(2) by (auto simp: versions_ok_def)
  moreover have "int (jm_size (jm_set (ps_policies s) i q)) \<le> max 0 (ps_maxPolicies s)" for q
    using Some assms by (simp add: jm_size_set policies_ok_def)
  ultimately show ?thesis
    by (simp add: policy_update_def Some vs Let_def policies_ok_put [OF assms]
        versions_ok_snoc [OF vs(2)])
qed

lemma policy_delete_ok:
  assumes "policies_ok h s"
  shows "policies_ok h (policy_step h s (PolDelete i))"
proof -
  have "int (jm_size (jm_delete (ps_policies s) i)) \<le> int (jm_size (ps_policies s))"
    using jm_size_delete_le [of i "ps_policies s"] by simp
  with assms show ?thesis
    by (auto simp: policy_delete_def policies_ok_def jm.wf_del jm.get_del)
qed

lemma policy_clear_ok: "policies_ok h s \<Longrightarrow> policies_ok h (policy_step h s PolClear)"
  by (simp add: policy_clear_def policies_ok_def)

lemma policy_step_ok: "policies_ok h s \<Longrightarrow> policies_ok h (policy_step h s x)"
  by (cases x) (blast intro: policy_create_ok policy_update_ok policy_delete_ok policy_clear_ok)+

interpretation policies: invariant_system "policy_step h" "policies_ok h" for h
  by unfold_locales (rule policy_step_ok)

lemma create_store_ok: "policies_ok h (createPolicyStore config)"
  by (simp add: policies_ok_def createPolicyStore_def)

section \<open>Stored versions\<close>

lemma version_nth:
  assumes "map po_version vs = [1..<Suc (length vs)]" and "i < length vs"
  shows "po_version (vs ! i) = Suc i"
proof -
  have "map po_version vs ! i = [1..<Suc (length vs)] ! i" using assms(1) by (rule arg_cong)
  with assms(2) show ?thesis by (simp add: nth_upt del: upt_Suc)
qed

lemma find_version:
  assumes "map po_version vs = [1..<Suc (length vs)]"
  shows "List.find (\<lambda>p. po_version p = k) vs =
    (if 1 \<le> k \<and> k \<le> length vs then Some (vs ! (k - 1)) else None)"
proof (cases "1 \<le> k \<and> k \<le> length vs")
  case True
  note nth = version_nth [OF assms]
  have "List.find (\<lambda>p. po_version p = k) vs = Some (vs ! (k - 1))"
    unfolding find_Some_iff
  proof (intro exI [of _ "k - 1"] conjI allI impI)
    fix j assume "j < k - 1"
    moreover from this True have "po_version (vs ! j) = Suc j" by (intro nth) linarith
    ultimately show "po_version (vs ! j) \<noteq> k" by simp
  next
    show "k - 1 < length vs" using True by linarith
    then show "po_version (vs ! (k - 1)) = k" using True nth [of "k - 1"] by simp
  qed simp
  with True show ?thesis by simp
next
  case False
  have "k \<notin> set (map po_version vs)" unfolding assms using False by auto
  then have "List.find (\<lambda>p. po_version p = k) vs = None" by (auto simp: find_None_iff)
  with False show ?thesis by simp
qed

lemma getByVersion_eq:
  assumes "policies_ok h s" and "jm_get (ps_history s) i = Some vs"
  shows "getByVersion s i k = (if 1 \<le> k \<and> k \<le> length vs then Some (vs ! (k - 1)) else None)"
proof -
  have "paired h i (jm_get (ps_policies s) i) (Some vs)"
    using assms by (metis policies_ok_def)
  then obtain p where "versions_ok h i p vs" by (auto simp: paired_def split: option.splits)
  then show ?thesis
    using find_version [of vs k] assms(2) by (simp add: getByVersion_def versions_ok_def del: upt_Suc)
qed

text \<open>Only a deletion takes stored versions away.\<close>

fun not_removal :: "store_op \<Rightarrow> bool" where
  "not_removal (PolDelete i) = False"
| "not_removal PolClear = False"
| "not_removal x = True"

definition keeps_version ::
    "(string \<Rightarrow> string) \<Rightarrow> string \<Rightarrow> nat \<Rightarrow> policy \<Rightarrow> policyStore \<Rightarrow> bool" where
  "keeps_version h i k v s \<longleftrightarrow> policies_ok h s \<and> getByVersion s i k = Some v"

lemma history_grows:
  assumes "policies_ok h s" and "not_removal x" and "jm_get (ps_history s) i = Some vs"
  shows "\<exists>ws. jm_get (ps_history (policy_step h s x)) i = Some (vs @ ws)"
proof (cases x)
  case (PolCreate input now)
  show ?thesis
  proof (cases "policy_create h s input now")
    case (Inr r)
    then have "jm_get (ps_policies s) (ci_id input) = None"
      by (auto simp: policy_create_def split: if_splits)
    then have "paired h (ci_id input) None (jm_get (ps_history s) (ci_id input))"
      using assms(1) by (metis policies_ok_def)
    then have "ci_id input \<noteq> i" using assms(3) by auto
    with PolCreate Inr assms(3) show ?thesis
      by (auto simp: policy_create_def jm.get_put Let_def split: if_splits)
  qed (use PolCreate assms(3) in simp)
next
  case (PolUpdate j updates now)
  then show ?thesis using assms(3)
    by (cases "jm_get (ps_policies s) j") (auto simp: policy_update_def jm.get_put Let_def)
qed (use assms(2) in simp_all)

lemma step_keeps_version:
  assumes "keeps_version h i k v s" and "not_removal x"
  shows "keeps_version h i k v (policy_step h s x)"
proof -
  have ok: "policies_ok h s" and v: "getByVersion s i k = Some v"
    using assms(1) by (simp_all add: keeps_version_def)
  then obtain vs where vs: "jm_get (ps_history s) i = Some vs"
    by (auto simp: getByVersion_def split: option.splits)
  obtain ws where ws: "jm_get (ps_history (policy_step h s x)) i = Some (vs @ ws)"
    using history_grows [OF ok assms(2) vs] by blast
  have ok': "policies_ok h (policy_step h s x)" by (rule policy_step_ok [OF ok])
  show ?thesis
    using v ok' getByVersion_eq [OF ok vs, of k] getByVersion_eq [OF ok' ws, of k]
    by (auto simp: keeps_version_def nth_append split: if_splits)
qed

interpretation version_store: stable_property "policy_step h" "keeps_version h i k v" not_removal
  for h i k v
  by unfold_locales (rule step_keeps_version)

section \<open>Properties\<close>

text \<open>
  (C31) In every history of creates, updates, deletions and clears of a store, each current policy of
  version \<open>n\<close> has exactly the versions 1 to \<open>n\<close> behind it: every one of them can be fetched by its
  number, carries the policy's id and creation date and the hash of its own rules, version \<open>n\<close> is the
  current policy, no other number gives a version, and the store holds at most its maximum.
\<close>

theorem policy_versions_complete:
  fixes ops :: "store_op list"
  assumes "s = foldl (policy_step h) (createPolicyStore config) ops" and "policy_get s i = Some p"
  shows "(\<forall>k. 1 \<le> k \<and> k \<le> po_version p \<longrightarrow>
      (\<exists>v. getByVersion s i k = Some v \<and> po_version v = k \<and> po_id v = i \<and>
        po_createdAt v = po_createdAt p \<and> po_hash v = computeRulesHash h (po_rules v)))
    \<and> getByVersion s i (po_version p) = Some p
    \<and> (\<forall>k. k = 0 \<or> po_version p < k \<longrightarrow> getByVersion s i k = None)
    \<and> length (getVersionHistory s i) = po_version p
    \<and> int (length (policy_list s)) \<le> max 0 (ps_maxPolicies s)"
proof -
  have ok: "policies_ok h s" unfolding assms(1) by (rule policies.run_good) (rule create_store_ok)
  obtain vs where vs: "jm_get (ps_history s) i = Some vs" and v: "versions_ok h i p vs"
    using policies_okD [OF ok] assms(2) unfolding policy_get_def by blast
  have ne: "vs \<noteq> []" and nums: "map po_version vs = [1..<Suc (length vs)]" and l: "last vs = p"
    and all: "\<And>w. w \<in> set vs \<Longrightarrow> po_id w = i \<and> po_createdAt w = po_createdAt p \<and>
      po_hash w = computeRulesHash h (po_rules w)"
    using v by (auto simp: versions_ok_def)
  note nth = version_nth [OF nums]
  have n: "po_version p = length vs"
    using nth [of "length vs - 1"] ne l by (simp add: last_conv_nth)
  note get = getByVersion_eq [OF ok vs]
  show ?thesis
  proof (intro conjI allI impI)
    fix k assume k: "1 \<le> k \<and> k \<le> po_version p"
    then have lt: "k - 1 < length vs" using n by linarith
    then have "vs ! (k - 1) \<in> set vs" by (rule nth_mem)
    moreover have "po_version (vs ! (k - 1)) = k" using nth [OF lt] k by simp
    ultimately show "\<exists>v. getByVersion s i k = Some v \<and> po_version v = k \<and> po_id v = i \<and>
        po_createdAt v = po_createdAt p \<and> po_hash v = computeRulesHash h (po_rules v)"
      using get [of k] n k all [of "vs ! (k - 1)"] by simp
  next
    show "getByVersion s i (po_version p) = Some p"
      using get n ne l by (simp add: last_conv_nth Suc_le_eq)
  qed (use get n ok vs in \<open>auto simp: getVersionHistory_def policy_list_def policies_ok_def\<close>)
qed

definition sample_store_ops :: "store_op list" where
  "sample_store_ops =
     [PolCreate \<lparr>ci_id = ''p'', ci_name = ''P'', ci_description = None, ci_rules = []\<rparr> 5,
      PolUpdate ''p'' \<lparr>ui_name = None, ui_description = None,
        ui_rules = Some [sample_rule ''a'' Allow 1 [''x''] []]\<rparr> 6]"

definition sample_store :: policyStore where
  "sample_store = foldl (policy_step id) (createPolicyStore None) sample_store_ops"

lemma sample_store_get:
  "policy_get sample_store ''p'' = Some \<lparr>po_id = ''p'', po_version = 2, po_name = ''P'',
     po_description = None, po_rules = [sample_rule ''a'' Allow 1 [''x''] []], po_createdAt = 5,
     po_updatedAt = 6, po_hash = computeRulesHash id [sample_rule ''a'' Allow 1 [''x''] []]\<rparr>"
  by (simp add: sample_store_def sample_store_ops_def createPolicyStore_def policy_create_def
      policy_update_def policy_get_def DEFAULT_MAX_POLICIES_def Let_def)

theorem policy_versions_complete_witness:
  "getByVersion sample_store ''p'' 3 = None \<and> length (getVersionHistory sample_store ''p'') = 2"
  using policy_versions_complete [OF sample_store_def sample_store_get] by simp

text \<open>
  A stored version is immutable: once a version of a policy can be fetched, no sequence of
  further creates and updates, of this policy or others, successful or not, changes what fetching it
  returns.
\<close>

theorem stored_version_immutable:
  assumes "policies_ok h s" and "getByVersion s i k = Some v" and "list_all not_removal ops"
  shows "getByVersion (foldl (policy_step h) s ops) i k = Some v"
  using version_store.run_stable [of h i k v s ops] assms by (simp add: keeps_version_def)

lemma sample_store_ok: "policies_ok id sample_store"
  unfolding sample_store_def by (rule policies.run_good) (rule create_store_ok)

theorem stored_version_immutable_witness:
  "\<exists>v. getByVersion sample_store ''p'' 1 = Some v \<and>
     getByVersion (foldl (policy_step id) sample_store
       [PolUpdate ''p'' \<lparr>ui_name = Some ''Q'', ui_description = None, ui_rules = None\<rparr> 9]) ''p'' 1
     = Some v"
proof -
  let ?v = "\<lparr>po_id = ''p'', po_version = 1, po_name = ''P'', po_description = None, po_rules = [],
     po_createdAt = 5, po_updatedAt = 5, po_hash = computeRulesHash id []\<rparr>"
  have "getByVersion sample_store ''p'' 1 = Some ?v"
    by (simp add: sample_store_def sample_store_ops_def createPolicyStore_def policy_create_def
        policy_update_def getByVersion_def DEFAULT_MAX_POLICIES_def Let_def)
  moreover have "list_all not_removal
      [PolUpdate ''p'' \<lparr>ui_name = Some ''Q'', ui_description = None, ui_rules = None\<rparr> 9]" by simp
  ultimately show ?thesis using stored_version_immutable [OF sample_store_ok] by blast
qed

text \<open>
  The error branches: creating an existing id and updating or deleting a missing one are
  refused or report it, a full store refuses every new id, and none of these changes the store; a
  create on a free id with room succeeds with version 1.
\<close>

theorem policy_store_errors:
  shows "(jm_has (ps_policies s) (ci_id input) \<longrightarrow>
      policy_create h s input now = Inl (PolicyAlreadyExists (ci_id input)))
    \<and> (\<not> jm_has (ps_policies s) (ci_id input) \<and> ps_maxPolicies s \<le> int (jm_size (ps_policies s)) \<longrightarrow>
      policy_create h s input now = Inl (MaxPoliciesExceeded (ps_maxPolicies s)))
    \<and> (\<not> jm_has (ps_policies s) (ci_id input) \<and> int (jm_size (ps_policies s)) < ps_maxPolicies s \<longrightarrow>
      (\<exists>p s'. policy_create h s input now = Inr (p, s') \<and> po_version p = 1 \<and>
        policy_get s' (ci_id input) = Some p))
    \<and> (policy_get s i = None \<longrightarrow> policy_update h s i updates now = Inl (PolicyNotFound i) \<and>
        \<not> fst (policy_delete s i) \<and> policy_get (snd (policy_delete s i)) = policy_get s)"
  by (auto simp: policy_create_def policy_update_def policy_delete_def policy_get_def Let_def
      jm.get_put jm_delete_absent fun_eq_iff jm.get_del)

theorem policy_store_errors_witness:
  "policy_create id sample_store \<lparr>ci_id = ''p'', ci_name = ''P'', ci_description = None, ci_rules = []\<rparr> 7
     = Inl (PolicyAlreadyExists ''p'')"
proof -
  have "jm_has (ps_policies sample_store) ''p''"
    using sample_store_get by (simp add: policy_get_def)
  then show ?thesis
    using policy_store_errors [of sample_store
        "\<lparr>ci_id = ''p'', ci_name = ''P'', ci_description = None, ci_rules = []\<rparr>" id 7] by simp
qed

end
