(* ===== verification/CacheMetrics.thy ===== *)
theory CacheMetrics
  imports Prelude
begin

text \<open>
  \<open>tokens/cache-metrics.ts\<close>: the hit, miss, eviction and size counters of the revocation cache.
  The closure's four variables are the fields of \<open>cacheMetrics\<close>; \<open>hitRate\<close>, a quotient of
  two counters, is the exact rational.
\<close>

record cacheMetrics =
  hits :: nat
  misses :: nat
  evictions :: nat
  msize :: nat

record cacheMetricsSnapshot =
  snap_hits :: nat
  snap_misses :: nat
  snap_size :: nat
  snap_evictions :: nat
  snap_hitRate :: rat

definition createCacheMetrics :: cacheMetrics where
  "createCacheMetrics = \<lparr>hits = 0, misses = 0, evictions = 0, msize = 0\<rparr>"

definition recordHit :: "cacheMetrics \<Rightarrow> cacheMetrics" where
  "recordHit m = m\<lparr>hits := hits m + 1\<rparr>"

definition recordMiss :: "cacheMetrics \<Rightarrow> cacheMetrics" where
  "recordMiss m = m\<lparr>misses := misses m + 1\<rparr>"

definition recordEviction :: "cacheMetrics \<Rightarrow> nat \<Rightarrow> cacheMetrics" where
  "recordEviction m n = m\<lparr>evictions := evictions m + n\<rparr>"

definition setSize :: "cacheMetrics \<Rightarrow> nat \<Rightarrow> cacheMetrics" where
  "setSize m newSize = m\<lparr>msize := newSize\<rparr>"

definition getSnapshot :: "cacheMetrics \<Rightarrow> cacheMetricsSnapshot" where
  "getSnapshot m =
     (let total = hits m + misses m in
      \<lparr>snap_hits = hits m, snap_misses = misses m, snap_size = msize m,
       snap_evictions = evictions m,
       snap_hitRate = (if total > 0 then of_nat (hits m) / of_nat total else 0)\<rparr>)"

definition reset_metrics :: "cacheMetrics \<Rightarrow> cacheMetrics" where
  "reset_metrics m = m\<lparr>hits := 0, misses := 0, evictions := 0, msize := 0\<rparr>"

lemmas metrics_defs =
  createCacheMetrics_def recordHit_def recordMiss_def recordEviction_def setSize_def
  reset_metrics_def

lemma msize_simps [simp]:
  "msize createCacheMetrics = 0"
  "msize (recordHit m) = msize m"
  "msize (recordMiss m) = msize m"
  "msize (recordEviction m n) = msize m"
  "msize (setSize m n) = n"
  by (simp_all add: metrics_defs)

lemma lookups_simps [simp]:
  "hits (recordHit m) + misses (recordHit m) = Suc (hits m + misses m)"
  "hits (recordMiss m) + misses (recordMiss m) = Suc (hits m + misses m)"
  "hits (recordEviction m n) = hits m" "misses (recordEviction m n) = misses m"
  "hits (setSize m n) = hits m" "misses (setSize m n) = misses m"
  by (simp_all add: metrics_defs)

lemma hitRate_bounds: "0 \<le> snap_hitRate (getSnapshot m) \<and> snap_hitRate (getSnapshot m) \<le> 1"
proof (cases "hits m + misses m > 0")
  case True
  have pos: "0 < (of_nat (hits m + misses m) :: rat)"
    using True by (simp only: of_nat_0_less_iff)
  have "(of_nat (hits m) :: rat) \<le> of_nat (hits m + misses m)" by simp
  with pos have "(of_nat (hits m) :: rat) / of_nat (hits m + misses m) \<le> 1"
    by (simp add: divide_le_eq_1)
  with True show ?thesis by (simp add: getSnapshot_def Let_def)
next
  case False
  then show ?thesis by (simp add: getSnapshot_def)
qed

end
