(* ===== verification/RevocationCache.thy ===== *)
theory RevocationCache
  imports JsMap CacheMetrics
begin

text \<open>
  \<open>tokens/revocation-cache.ts\<close>: the in-memory cache of revoked tokens. The closure's variables
  are the fields of \<open>revocationCache\<close>; \<open>Date.now()\<close> is the argument \<open>now\<close> of each
  operation. \<open>maxSize\<close> comes from \<open>parseInt\<close> of an environment variable, so it is an
  \<^typ>\<open>int option\<close> with \<open>None\<close> for \<open>NaN\<close>. \<open>Math.floor(size * 0.1)\<close> is \<open>size div 10\<close>,
  which the double product rounds to for every size below \<open>2 ^ 53\<close>. A \<open>revokedAt\<close> that is an
  invalid date only enters from a store file; the order of \<open>sort\<close> is then implementation-defined
  and the model reads it as 0.
\<close>

section \<open>State and operations\<close>

record revokedEntry =
  re_jti :: string
  re_revokedAt :: jsdate
  re_expiresAt :: jsdate
  re_reason :: "string option"

record revocationCache =
  rc_maxSize :: "int option"
  rc_cache :: "(string, revokedEntry) jsmap"
  rc_metrics :: cacheMetrics

definition DEFAULT_MAX_SIZE :: int where
  "DEFAULT_MAX_SIZE = 100000"

definition createRevocationCache :: "int option option \<Rightarrow> revocationCache" where
  "createRevocationCache config =
     \<lparr>rc_maxSize = (case config of None \<Rightarrow> Some DEFAULT_MAX_SIZE | Some m \<Rightarrow> m),
      rc_cache = [], rc_metrics = createCacheMetrics\<rparr>"

definition size_below :: "nat \<Rightarrow> int option \<Rightarrow> bool" where
  "size_below n m = (case m of None \<Rightarrow> False | Some k \<Rightarrow> int n < k)"

definition revoked_time :: "revokedEntry \<Rightarrow> ms" where
  "revoked_time e = (case re_revokedAt e of None \<Rightarrow> 0 | Some t \<Rightarrow> t)"

definition eviction_count :: "nat \<Rightarrow> nat" where
  "eviction_count n = max 1 (n div 10)"

definition evictIfNeeded :: "revocationCache \<Rightarrow> revocationCache" where
  "evictIfNeeded c =
     (if size_below (jm_size (rc_cache c)) (rc_maxSize c) then c
      else
        let entries = sort_key revoked_time (jm_values (rc_cache c));
            toEvict = eviction_count (jm_size (rc_cache c))
        in c\<lparr>rc_cache := foldl jm_delete (rc_cache c) (map re_jti (take toEvict entries)),
             rc_metrics := recordEviction (rc_metrics c) toEvict\<rparr>)"

definition cache_add ::
    "revocationCache \<Rightarrow> string \<Rightarrow> jsdate \<Rightarrow> string option \<Rightarrow> ms \<Rightarrow> revocationCache" where
  "cache_add c jti expiresAt reason now =
     (let c1 = evictIfNeeded c;
          entry = \<lparr>re_jti = jti, re_revokedAt = Some now, re_expiresAt = expiresAt,
                   re_reason = reason\<rparr>;
          m = jm_set (rc_cache c1) jti entry
      in c1\<lparr>rc_cache := m, rc_metrics := setSize (rc_metrics c1) (jm_size m)\<rparr>)"

definition cache_isRevoked ::
    "revocationCache \<Rightarrow> string \<Rightarrow> ms \<Rightarrow> bool \<times> revocationCache" where
  "cache_isRevoked c jti now =
     (case jm_get (rc_cache c) jti of
        None \<Rightarrow> (False, c\<lparr>rc_metrics := recordMiss (rc_metrics c)\<rparr>)
      | Some entry \<Rightarrow>
          (if date_le (re_expiresAt entry) now
           then let m = jm_delete (rc_cache c) jti in
                (False, c\<lparr>rc_cache := m,
                          rc_metrics := recordMiss (setSize (rc_metrics c) (jm_size m))\<rparr>)
           else (True, c\<lparr>rc_metrics := recordHit (rc_metrics c)\<rparr>)))"

definition cache_remove :: "revocationCache \<Rightarrow> string \<Rightarrow> bool \<times> revocationCache" where
  "cache_remove c jti =
     (let m = jm_delete (rc_cache c) jti in
      if jm_has (rc_cache c) jti
      then (True, c\<lparr>rc_cache := m, rc_metrics := setSize (rc_metrics c) (jm_size m)\<rparr>)
      else (False, c\<lparr>rc_cache := m\<rparr>))"

text \<open>The loop of \<open>cleanup\<close> over the entries, with the map and the counter it updates.\<close>

fun cache_cleanup_loop ::
    "ms \<Rightarrow> (string \<times> revokedEntry) list \<Rightarrow> (string, revokedEntry) jsmap \<times> nat
      \<Rightarrow> (string, revokedEntry) jsmap \<times> nat" where
  "cache_cleanup_loop now [] acc = acc"
| "cache_cleanup_loop now ((jti, entry) # rest) (m, removed) =
     cache_cleanup_loop now rest
       (if date_le (re_expiresAt entry) now then (jm_delete m jti, removed + 1) else (m, removed))"

definition cache_cleanup :: "revocationCache \<Rightarrow> ms \<Rightarrow> nat \<times> revocationCache" where
  "cache_cleanup c now =
     (let (m, removed) = cache_cleanup_loop now (rc_cache c) (rc_cache c, 0) in
      (removed,
       if removed > 0
       then c\<lparr>rc_cache := m,
              rc_metrics := recordEviction (setSize (rc_metrics c) (jm_size m)) removed\<rparr>
       else c\<lparr>rc_cache := m\<rparr>))"

definition cache_getMetrics :: "revocationCache \<Rightarrow> cacheMetricsSnapshot" where
  "cache_getMetrics c = getSnapshot (rc_metrics c)"

definition cache_getAll :: "revocationCache \<Rightarrow> revokedEntry list" where
  "cache_getAll c = jm_values (rc_cache c)"

definition loadFromStore :: "revocationCache \<Rightarrow> revokedEntry list \<Rightarrow> ms \<Rightarrow> revocationCache" where
  "loadFromStore c entries now =
     (let m = foldl (\<lambda>m e. if date_gt (re_expiresAt e) now then jm_set m (re_jti e) e else m)
                (rc_cache c) entries
      in c\<lparr>rc_cache := m, rc_metrics := setSize (rc_metrics c) (jm_size m)\<rparr>)"

definition cache_size :: "revocationCache \<Rightarrow> nat" where
  "cache_size c = jm_size (rc_cache c)"

section \<open>Well-formedness\<close>

definition entries_ok :: "(string, revokedEntry) jsmap \<Rightarrow> bool" where
  "entries_ok m \<longleftrightarrow> jm_wf m \<and> (\<forall>(k, e) \<in> set m. re_jti e = k)"

text \<open>Keys are the entries' own ids, and the size counter is the size of the map.\<close>

definition cache_ok :: "revocationCache \<Rightarrow> bool" where
  "cache_ok c \<longleftrightarrow> entries_ok (rc_cache c) \<and> msize (rc_metrics c) = jm_size (rc_cache c)"

lemma cache_ok_wf: "cache_ok c \<Longrightarrow> jm_wf (rc_cache c)"
  by (simp add: cache_ok_def entries_ok_def)

lemma entries_ok_set: "entries_ok m \<Longrightarrow> re_jti e = k \<Longrightarrow> entries_ok (jm_set m k e)"
  by (auto simp: entries_ok_def jm.wf_put dest!: jm_set_in)

lemma entries_ok_delete: "entries_ok m \<Longrightarrow> entries_ok (jm_delete m k)"
  by (auto simp: entries_ok_def jm.wf_del jm_delete_in)

lemma entries_ok_delete_all: "entries_ok m \<Longrightarrow> entries_ok (foldl jm_delete m ks)"
  by (induction ks arbitrary: m) (auto simp: entries_ok_delete)

lemma entries_ok_jtis: "entries_ok m \<Longrightarrow> map re_jti (jm_values m) = jm_keys m"
  by (auto simp: entries_ok_def case_prod_unfold)

lemma entries_ok_get: "entries_ok m \<Longrightarrow> jm_get m k = Some e \<Longrightarrow> re_jti e = k"
  by (auto simp: entries_ok_def dest: map_of_SomeD)

lemma entries_ok_load:
  "entries_ok m \<Longrightarrow>
   entries_ok (foldl (\<lambda>m e. if P e then jm_set m (re_jti e) e else m) m es)"
  by (induction es arbitrary: m) (auto simp: entries_ok_set)

lemma cache_cleanup_loop_eq:
  "cache_cleanup_loop now es (m, n) =
     (foldl jm_delete m (map fst (filter (\<lambda>(k, e). date_le (re_expiresAt e) now) es)),
      n + length (filter (\<lambda>(k, e). date_le (re_expiresAt e) now) es))"
  by (induction es arbitrary: m n) auto

lemma cache_cleanup_result:
  assumes "jm_wf (rc_cache c)"
  shows "rc_cache (snd (cache_cleanup c now)) =
      filter (\<lambda>kv. \<not> date_le (re_expiresAt (snd kv)) now) (rc_cache c)"
    and "fst (cache_cleanup c now) =
      length (filter (\<lambda>kv. date_le (re_expiresAt (snd kv)) now) (rc_cache c))"
  using jm_delete_matching [OF assms, of "\<lambda>kv. date_le (re_expiresAt (snd kv)) now"]
  by (auto simp: cache_cleanup_def cache_cleanup_loop_eq case_prod_unfold Let_def)


section \<open>Eviction\<close>

definition evicted_jtis :: "revocationCache \<Rightarrow> string list" where
  "evicted_jtis c =
     (if size_below (jm_size (rc_cache c)) (rc_maxSize c) then []
      else map re_jti (take (eviction_count (jm_size (rc_cache c)))
             (sort_key revoked_time (jm_values (rc_cache c)))))"

lemma evict_cache: "rc_cache (evictIfNeeded c) = foldl jm_delete (rc_cache c) (evicted_jtis c)"
  by (simp add: evictIfNeeded_def evicted_jtis_def Let_def)

lemma evict_maxSize [simp]: "rc_maxSize (evictIfNeeded c) = rc_maxSize c"
  by (simp add: evictIfNeeded_def Let_def)

lemma evict_get:
  "jm_get (rc_cache (evictIfNeeded c)) j =
     (if j \<in> set (evicted_jtis c) then None else jm_get (rc_cache c) j)"
  by (simp add: evict_cache jm.get_del_all)

lemma evict_entries_ok: "entries_ok (rc_cache c) \<Longrightarrow> entries_ok (rc_cache (evictIfNeeded c))"
  by (simp add: evict_cache entries_ok_delete_all)

lemma set_evicted_jtis:
  assumes "entries_ok (rc_cache c)"
  shows "set (evicted_jtis c) \<subseteq> set (jm_keys (rc_cache c))"
proof -
  have "set (evicted_jtis c) \<subseteq> set (map re_jti (jm_values (rc_cache c)))"
    by (auto simp: evicted_jtis_def dest!: in_set_takeD split: if_splits)
  then show ?thesis using entries_ok_jtis [OF assms] by simp
qed

lemma distinct_evicted_jtis:
  assumes "entries_ok (rc_cache c)"
  shows "distinct (evicted_jtis c)"
proof -
  let ?vs = "jm_values (rc_cache c)"
  have "distinct (map re_jti ?vs)"
    unfolding entries_ok_jtis [OF assms] using assms by (simp add: entries_ok_def)
  moreover have "mset (map re_jti (sort_key revoked_time ?vs)) = mset (map re_jti ?vs)"
    by (simp only: mset_map mset_sort)
  ultimately have "distinct (map re_jti (sort_key revoked_time ?vs))"
    by (metis mset_eq_imp_distinct_iff)
  then show ?thesis
    by (auto simp: evicted_jtis_def take_map [symmetric] intro: distinct_take)
qed

text \<open>How many entries an eviction really removes.\<close>

lemma evict_size:
  assumes "entries_ok (rc_cache c)" and "\<not> size_below (jm_size (rc_cache c)) (rc_maxSize c)"
  shows "jm_size (rc_cache (evictIfNeeded c)) =
    jm_size (rc_cache c) - eviction_count (jm_size (rc_cache c))"
proof -
  have "jm_size (foldl jm_delete (rc_cache c) (evicted_jtis c)) + length (evicted_jtis c)
      = jm_size (rc_cache c)"
    by (rule jm_size_delete_all)
       (use assms(1) distinct_evicted_jtis [OF assms(1)] set_evicted_jtis [OF assms(1)]
        in \<open>auto simp: entries_ok_def\<close>)
  moreover have "length (evicted_jtis c) =
      min (eviction_count (jm_size (rc_cache c))) (jm_size (rc_cache c))"
    using assms(2) by (simp add: evicted_jtis_def)
  ultimately show ?thesis by (simp add: evict_cache min_def split: if_splits)
qed

lemma evicted_are_oldest:
  assumes ok: "entries_ok (rc_cache c)"
    and gone: "jm_get (rc_cache c) j = Some e" "j \<in> set (evicted_jtis c)"
    and kept: "jm_get (rc_cache c) j' = Some e'" "j' \<notin> set (evicted_jtis c)"
  shows "revoked_time e \<le> revoked_time e'"
proof -
  let ?vs = "jm_values (rc_cache c)" and ?n = "eviction_count (jm_size (rc_cache c))"
  let ?s = "sort_key revoked_time ?vs"
  have below: "\<not> size_below (jm_size (rc_cache c)) (rc_maxSize c)"
    using gone(2) by (auto simp: evicted_jtis_def split: if_splits)
  have wf: "jm_wf (rc_cache c)" using ok by (simp add: entries_ok_def)
  have vals: "e \<in> set ?vs" "e' \<in> set ?vs"
    using gone(1) kept(1) wf by (meson jm_value_iff)+
  have jtis: "re_jti e = j" "re_jti e' = j'"
    using ok gone(1) kept(1) by (auto intro: entries_ok_get)
  obtain e1 where e1: "e1 \<in> set (take ?n ?s)" "re_jti e1 = j"
    using gone(2) below by (auto simp: evicted_jtis_def)
  have "e1 \<in> set ?vs" using e1(1) in_set_takeD by fastforce
  then obtain k1 where "jm_get (rc_cache c) k1 = Some e1" using wf by (meson jm_value_iff)
  with ok e1(2) gone(1) have e1e: "e1 = e" by (metis entries_ok_get option.inject)
  have "e' \<notin> set (take ?n ?s)"
    using kept(2) below jtis(2) by (auto simp: evicted_jtis_def)
  moreover have "e' \<in> set (take ?n ?s @ drop ?n ?s)" using vals(2) by simp
  ultimately have "e' \<in> set (drop ?n ?s)" unfolding set_append by blast
  moreover have "sorted (map revoked_time (take ?n ?s) @ map revoked_time (drop ?n ?s))"
    unfolding map_append [symmetric] append_take_drop_id by (rule sorted_sort_key)
  ultimately show ?thesis
    using e1(1) e1e by (auto simp: sorted_append)
qed

section \<open>The observable effect of each operation\<close>

definition is_revoked_at :: "revocationCache \<Rightarrow> string \<Rightarrow> ms \<Rightarrow> bool" where
  "is_revoked_at c jti now =
     (case jm_get (rc_cache c) jti of None \<Rightarrow> False
      | Some e \<Rightarrow> \<not> date_le (re_expiresAt e) now)"

lemma isRevoked_answer: "fst (cache_isRevoked c jti now) = is_revoked_at c jti now"
  by (simp add: cache_isRevoked_def is_revoked_at_def Let_def split: option.splits)

text \<open>A check only ever forgets an entry that has expired: later answers stay the same.\<close>

lemma isRevoked_stable:
  assumes "now \<le> t"
  shows "is_revoked_at (snd (cache_isRevoked c jti now)) j t = is_revoked_at c j t"
  using assms date_le_mono [of _ now t]
  by (auto simp: cache_isRevoked_def is_revoked_at_def Let_def jm.get_del
      split: option.splits if_splits)

lemma cleanup_stable:
  assumes "jm_wf (rc_cache c)" and "now \<le> t"
  shows "is_revoked_at (snd (cache_cleanup c now)) j t = is_revoked_at c j t"
  using assms(2) date_le_mono [of _ now t]
    jm_get_filter [OF assms(1), of "\<lambda>e. \<not> date_le (re_expiresAt e) now" j]
  by (auto simp: is_revoked_at_def cache_cleanup_result(1) [OF assms(1)]
      split: option.splits if_splits)

lemma add_revoked:
  "is_revoked_at (cache_add c jti expiresAt reason now) jti t = (\<not> date_le expiresAt t)"
  by (simp add: is_revoked_at_def cache_add_def Let_def jm.get_put)

lemma add_revoked_other:
  "j \<noteq> jti \<Longrightarrow>
   is_revoked_at (cache_add c jti expiresAt reason now) j t =
     (j \<notin> set (evicted_jtis c) \<and> is_revoked_at c j t)"
  by (simp add: is_revoked_at_def cache_add_def Let_def jm.get_put evict_get)

lemma add_maxSize [simp]: "rc_maxSize (cache_add c jti expiresAt reason now) = rc_maxSize c"
  by (simp add: cache_add_def Let_def)

section \<open>Invariant\<close>

lemma create_ok [inv_intros]: "cache_ok (createRevocationCache config)"
  by (simp add: cache_ok_def createRevocationCache_def entries_ok_def)

lemma add_ok [inv_intros]:
  assumes "cache_ok c"
  shows "cache_ok (cache_add c jti expiresAt reason now)"
  using assms
  by (simp add: cache_ok_def cache_add_def Let_def entries_ok_set evict_entries_ok)

lemma isRevoked_ok [inv_intros]: "cache_ok c \<Longrightarrow> cache_ok (snd (cache_isRevoked c jti now))"
  by (auto simp: cache_ok_def cache_isRevoked_def Let_def entries_ok_delete split: option.splits)

lemma remove_ok [inv_intros]: "cache_ok c \<Longrightarrow> cache_ok (snd (cache_remove c jti))"
  by (auto simp: cache_ok_def cache_remove_def Let_def entries_ok_delete jm_delete_absent)

lemma cleanup_ok [inv_intros]:
  assumes "cache_ok c"
  shows "cache_ok (snd (cache_cleanup c now))"
proof -
  have wf: "jm_wf (rc_cache c)" using assms by (simp add: cache_ok_def entries_ok_def)
  have "entries_ok (rc_cache (snd (cache_cleanup c now)))"
    unfolding cache_cleanup_result(1) [OF wf]
    using assms by (auto simp: cache_ok_def entries_ok_def jm_wf_filter)
  moreover have "msize (rc_metrics (snd (cache_cleanup c now))) =
      jm_size (rc_cache (snd (cache_cleanup c now)))"
    using assms
    by (auto simp: cache_ok_def cache_cleanup_def cache_cleanup_loop_eq Let_def)
  ultimately show ?thesis by (simp add: cache_ok_def)
qed

lemma load_ok [inv_intros]: "cache_ok c \<Longrightarrow> cache_ok (loadFromStore c entries now)"
  by (simp add: cache_ok_def loadFromStore_def Let_def entries_ok_load)

text \<open>The operations as events, so that a history of the cache is a list.\<close>

datatype cache_op =
    CacheAdd string jsdate "string option" ms
  | CacheCheck string ms
  | CacheRemove string
  | CacheCleanup ms
  | CacheLoad "revokedEntry list" ms

fun cache_step :: "revocationCache \<Rightarrow> cache_op \<Rightarrow> revocationCache" where
  "cache_step c (CacheAdd jti expiresAt reason now) = cache_add c jti expiresAt reason now"
| "cache_step c (CacheCheck jti now) = snd (cache_isRevoked c jti now)"
| "cache_step c (CacheRemove jti) = snd (cache_remove c jti)"
| "cache_step c (CacheCleanup now) = snd (cache_cleanup c now)"
| "cache_step c (CacheLoad entries now) = loadFromStore c entries now"

interpretation cache: invariant_system cache_step cache_ok
proof unfold_locales
  fix c x assume "cache_ok c"
  then show "cache_ok (cache_step c x)" by (cases x) (auto intro: inv_intros)
qed


section \<open>The size bound\<close>

definition within_bound :: "int \<Rightarrow> revocationCache \<Rightarrow> bool" where
  "within_bound m c \<longleftrightarrow>
     cache_ok c \<and> rc_maxSize c = Some m \<and> cache_size c \<le> max 1 (nat m)"

fun not_load :: "cache_op \<Rightarrow> bool" where
  "not_load (CacheLoad entries now) = False"
| "not_load x = True"

lemma add_within_bound:
  assumes "within_bound m c"
  shows "within_bound m (cache_add c jti expiresAt reason now)"
proof -
  let ?n = "jm_size (rc_cache c)" and ?n1 = "jm_size (rc_cache (evictIfNeeded c))"
  have ok: "cache_ok c" and max: "rc_maxSize c = Some m" and bound: "?n \<le> max 1 (nat m)"
    using assms by (simp_all add: within_bound_def cache_size_def)
  have "Suc ?n1 \<le> max 1 (nat m)"
  proof (cases "size_below ?n (rc_maxSize c)")
    case True
    then have "int ?n < m" by (simp add: size_below_def max)
    moreover from True have "?n1 = ?n" by (simp add: evictIfNeeded_def)
    ultimately show ?thesis by linarith
  next
    case False
    then have "?n1 = ?n - eviction_count ?n"
      using ok by (intro evict_size) (simp_all add: cache_ok_def)
    then have "?n1 \<le> ?n - 1" by (simp add: eviction_count_def)
    with bound show ?thesis by linarith
  qed
  moreover have "jm_size (rc_cache (cache_add c jti expiresAt reason now)) \<le> Suc ?n1"
    by (simp add: cache_add_def Let_def jm_size_set_le)
  ultimately show ?thesis
    using add_ok [OF ok] max by (auto simp: within_bound_def cache_size_def)
qed

lemma step_within_bound:
  assumes "within_bound m c" and "not_load x"
  shows "within_bound m (cache_step c x)"
proof (cases x)
  case (CacheAdd jti expiresAt reason now)
  with assms(1) show ?thesis by (simp add: add_within_bound)
next
  case (CacheCheck jti now)
  have "cache_ok (snd (cache_isRevoked c jti now))"
    using assms(1) by (simp add: within_bound_def isRevoked_ok)
  with CacheCheck assms(1) show ?thesis
    by (auto simp: within_bound_def cache_size_def cache_isRevoked_def Let_def
        intro: order_trans [OF jm_size_delete_le] split: option.splits)
next
  case (CacheRemove jti)
  have "cache_ok (snd (cache_remove c jti))"
    using assms(1) by (simp add: within_bound_def remove_ok)
  with CacheRemove assms(1) show ?thesis
    by (auto simp: within_bound_def cache_size_def cache_remove_def Let_def
        intro: order_trans [OF jm_size_delete_le])
next
  case (CacheCleanup now)
  have ok: "cache_ok (snd (cache_cleanup c now))" and wf: "jm_wf (rc_cache c)"
    using assms(1) by (simp_all add: within_bound_def cleanup_ok cache_ok_wf)
  have "jm_size (rc_cache (snd (cache_cleanup c now))) \<le> jm_size (rc_cache c)"
    by (simp add: cache_cleanup_result(1) [OF wf])
  moreover have "rc_maxSize (snd (cache_cleanup c now)) = rc_maxSize c"
    by (simp add: cache_cleanup_def case_prod_unfold Let_def)
  ultimately show ?thesis
    using ok assms(1) CacheCleanup by (auto simp: within_bound_def cache_size_def)
next
  case (CacheLoad entries now)
  with assms(2) show ?thesis by simp
qed

interpretation cache_bound: stable_property cache_step "within_bound m" not_load for m
  by unfold_locales (rule step_within_bound)

section \<open>Properties\<close>

text \<open>
  (C35) The cache never grows past its configured size (or one entry, when the configured size is
  not positive) in any history of adds, checks, removals and cleanups, and its size counter always
  equals the number of entries it holds.
\<close>

theorem cache_history_bounded:
  assumes "list_all not_load ops"
  shows "cache_size (foldl cache_step (createRevocationCache (Some (Some m))) ops) \<le> max 1 (nat m)
    \<and> msize (rc_metrics (foldl cache_step (createRevocationCache (Some (Some m))) ops)) =
      cache_size (foldl cache_step (createRevocationCache (Some (Some m))) ops)"
proof -
  have "within_bound m (createRevocationCache (Some (Some m)))"
    using create_ok [of "Some (Some m)"]
    by (simp add: within_bound_def cache_size_def createRevocationCache_def)
  from cache_bound.run_stable [OF this assms] show ?thesis
    by (auto simp: within_bound_def cache_ok_def cache_size_def)
qed

theorem cache_history_bounded_witness:
  "cache_size (foldl cache_step (createRevocationCache (Some (Some 1)))
     [CacheAdd ''a'' (Some 9) None 1, CacheAdd ''b'' (Some 9) None 2]) \<le> 1"
  using cache_history_bounded [of "[CacheAdd ''a'' (Some 9) None 1, CacheAdd ''b'' (Some 9) None 2]" 1]
  by simp

text \<open>
  Eviction drops the oldest revocations: no entry that an eviction removes was revoked later
  than an entry it keeps.
\<close>

theorem eviction_drops_oldest:
  assumes "cache_ok c"
    and "jm_get (rc_cache c) j = Some e" and "jm_get (rc_cache (evictIfNeeded c)) j = None"
    and "jm_get (rc_cache (evictIfNeeded c)) j' = Some e'"
  shows "revoked_time e \<le> revoked_time e' \<and> jm_get (rc_cache c) j' = Some e'"
proof -
  have gone: "j \<in> set (evicted_jtis c)"
    using assms(2,3) by (simp add: evict_get split: if_splits)
  have kept: "j' \<notin> set (evicted_jtis c)" "jm_get (rc_cache c) j' = Some e'"
    using assms(4) by (auto simp: evict_get split: if_splits)
  have "entries_ok (rc_cache c)" using assms(1) by (simp add: cache_ok_def)
  from evicted_are_oldest [OF this assms(2) gone kept(2,1)] kept(2) show ?thesis by simp
qed

definition two_entry_cache :: revocationCache where
  "two_entry_cache = foldl cache_step (createRevocationCache (Some (Some 2)))
     [CacheAdd ''a'' (Some 9) None 1, CacheAdd ''b'' (Some 9) None 2]"

lemma two_entry_cache_ok: "cache_ok two_entry_cache"
  unfolding two_entry_cache_def by (intro cache.run_good create_ok)

lemma two_entry_cache_eq:
  "rc_cache two_entry_cache =
     [(''a'', \<lparr>re_jti = ''a'', re_revokedAt = Some 1, re_expiresAt = Some 9, re_reason = None\<rparr>),
      (''b'', \<lparr>re_jti = ''b'', re_revokedAt = Some 2, re_expiresAt = Some 9, re_reason = None\<rparr>)]"
  "rc_maxSize two_entry_cache = Some 2"
  by (simp_all add: two_entry_cache_def cache_add_def createRevocationCache_def
      evictIfNeeded_def size_below_def Let_def)

lemma two_entry_cache_evict:
  "rc_cache (evictIfNeeded two_entry_cache) =
     [(''b'', \<lparr>re_jti = ''b'', re_revokedAt = Some 2, re_expiresAt = Some 9, re_reason = None\<rparr>)]"
  by (simp add: evictIfNeeded_def two_entry_cache_eq size_below_def eviction_count_def
      revoked_time_def Let_def AList.delete_eq)

theorem eviction_drops_oldest_witness:
  "\<exists>e e'. jm_get (rc_cache two_entry_cache) ''a'' = Some e \<and>
     jm_get (rc_cache (evictIfNeeded two_entry_cache)) ''a'' = None \<and>
     jm_get (rc_cache (evictIfNeeded two_entry_cache)) ''b'' = Some e' \<and>
     revoked_time e \<le> revoked_time e'"
proof -
  obtain e e' where e: "jm_get (rc_cache two_entry_cache) ''a'' = Some e"
    "jm_get (rc_cache (evictIfNeeded two_entry_cache)) ''a'' = None"
    "jm_get (rc_cache (evictIfNeeded two_entry_cache)) ''b'' = Some e'"
    by (simp add: two_entry_cache_eq two_entry_cache_evict)
  with eviction_drops_oldest [OF two_entry_cache_ok e] show ?thesis by blast
qed

fun passive_until :: "ms \<Rightarrow> cache_op \<Rightarrow> bool" where
  "passive_until t (CacheCheck jti now) = (now \<le> t)"
| "passive_until t (CacheCleanup now) = (now \<le> t)"
| "passive_until t x = False"

lemma passive_run:
  assumes "cache_ok c" and "list_all (passive_until t) ops"
  shows "is_revoked_at (foldl cache_step c ops) j t = is_revoked_at c j t"
  using assms
proof (induction ops arbitrary: c)
  case Nil
  then show ?case by simp
next
  case (Cons x ops)
  have "cache_ok (cache_step c x)" using Cons.prems(1) by (rule cache.step_good)
  moreover have "is_revoked_at (cache_step c x) j t = is_revoked_at c j t"
    using Cons.prems
    by (cases x) (auto simp: isRevoked_stable cleanup_stable cache_ok_def entries_ok_def)
  ultimately show ?case using Cons by simp
qed

text \<open>
  A revocation takes effect at once and lasts exactly until the token expires: after an
  \<open>add\<close>, whatever checks and cleanups happen at times up to \<open>t\<close>, the answer at \<open>t\<close> is
  \<open>true\<close> precisely when the expiry date is after \<open>t\<close>.
\<close>

theorem revocation_lasts_until_expiry:
  assumes "cache_ok c" and "list_all (passive_until t) ops"
  shows "fst (cache_isRevoked (foldl cache_step (cache_add c jti (Some e) reason now) ops) jti t)
    = (t < e)"
  using passive_run [OF add_ok [OF assms(1)] assms(2)]
  by (simp add: isRevoked_answer add_revoked not_le)

theorem revocation_lasts_until_expiry_witness:
  "fst (cache_isRevoked (foldl cache_step (cache_add two_entry_cache ''c'' (Some 20) None 3)
     [CacheCheck ''a'' 10, CacheCleanup 12]) ''c'' 19)"
  using revocation_lasts_until_expiry [OF two_entry_cache_ok,
      of 19 "[CacheCheck ''a'' 10, CacheCleanup 12]" "''c''" 20 None 3]
  by simp

text \<open>
  Loading persisted revocations does not respect the configured size: a cache configured for
  one entry holds two after loading two unexpired revocations.
\<close>

theorem loadFromStore_ignores_bound:
  "cache_size (loadFromStore (createRevocationCache (Some (Some 1)))
     [\<lparr>re_jti = ''a'', re_revokedAt = Some 1, re_expiresAt = Some 9, re_reason = None\<rparr>,
      \<lparr>re_jti = ''b'', re_revokedAt = Some 2, re_expiresAt = Some 9, re_reason = None\<rparr>] 5) = 2"
  by (simp add: cache_size_def loadFromStore_def createRevocationCache_def Let_def)

end
