(* ===== verification/TokenRegistry.thy ===== *)
theory TokenRegistry
  imports RevocationCache
begin

text \<open>
  \<open>tokens/token-registry.ts\<close>: the registry of active capability tokens. The closure's variables
  are the fields of \<open>tokenRegistry\<close>; an operation that reads the clock takes the time as \<open>now\<close>
  (the code reads it once or more within one synchronous call). \<open>tr_appends\<close> lists the calls to
  \<open>revocationStore.append\<close> in order: the call is asynchronous and its failure is only logged, and
  \<open>RevocationStore\<close> models what the calls do to the file.

  \<open>token_contract\<close> is the interface the rest of the gateway relies on: a token is valid only while
  it is registered and unexpired, and no operation but a registration brings a token back.
\<close>

section \<open>State and operations\<close>

record tokenEntry =
  te_jti :: string
  te_sessionId :: string
  te_operatorDid :: string
  te_robotId :: string
  te_expiresAt :: ms

record tokenRegistry =
  tr_tokens :: "(string, tokenEntry) jsmap"
  tr_cleanupInterval :: "ms option"
  tr_revocationCache :: "revocationCache option"
  tr_hasStore :: bool
  tr_appends :: "revokedEntry list"

definition createTokenRegistry :: tokenRegistry where
  "createTokenRegistry =
     \<lparr>tr_tokens = [], tr_cleanupInterval = None, tr_revocationCache = None, tr_hasStore = False,
      tr_appends = []\<rparr>"

definition isExpired :: "tokenEntry \<Rightarrow> ms \<Rightarrow> bool" where
  "isExpired entry now = (te_expiresAt entry \<le> now)"

definition addToRevocationCache ::
    "tokenRegistry \<Rightarrow> string \<Rightarrow> ms \<Rightarrow> string option \<Rightarrow> ms \<Rightarrow> tokenRegistry" where
  "addToRevocationCache r jti expiresAt reason now =
     (case tr_revocationCache r of
        None \<Rightarrow> r
      | Some c \<Rightarrow>
          let r1 = r\<lparr>tr_revocationCache := Some (cache_add c jti (Some expiresAt) reason now)\<rparr> in
          if tr_hasStore r1
          then r1\<lparr>tr_appends := tr_appends r1 @
                 [\<lparr>re_jti = jti, re_revokedAt = Some now, re_expiresAt = Some expiresAt,
                   re_reason = reason\<rparr>]\<rparr>
          else r1)"

definition reg_register :: "tokenRegistry \<Rightarrow> tokenEntry \<Rightarrow> tokenRegistry" where
  "reg_register r entry = r\<lparr>tr_tokens := jm_set (tr_tokens r) (te_jti entry) entry\<rparr>"

definition reg_revoke ::
    "tokenRegistry \<Rightarrow> string \<Rightarrow> string option \<Rightarrow> ms \<Rightarrow> bool \<times> tokenRegistry" where
  "reg_revoke r jti reason now =
     (case jm_get (tr_tokens r) jti of
        None \<Rightarrow> (False, r)
      | Some entry \<Rightarrow>
          let r1 = addToRevocationCache r jti (te_expiresAt entry) reason now
          in (True, r1\<lparr>tr_tokens := jm_delete (tr_tokens r1) jti\<rparr>))"

definition reg_isValid :: "tokenRegistry \<Rightarrow> string \<Rightarrow> ms \<Rightarrow> bool \<times> tokenRegistry" where
  "reg_isValid r jti now =
     (let (revoked, r1) =
        (case tr_revocationCache r of
           None \<Rightarrow> (False, r)
         | Some c \<Rightarrow> (let (b, c') = cache_isRevoked c jti now
                     in (b, r\<lparr>tr_revocationCache := Some c'\<rparr>)))
      in if revoked then (False, r1)
         else case jm_get (tr_tokens r1) jti of
             None \<Rightarrow> (False, r1)
           | Some entry \<Rightarrow> (\<not> isExpired entry now, r1))"

definition reg_get :: "tokenRegistry \<Rightarrow> string \<Rightarrow> tokenEntry option" where
  "reg_get r jti = jm_get (tr_tokens r) jti"

definition getExpiringSoon :: "tokenRegistry \<Rightarrow> ms \<Rightarrow> ms \<Rightarrow> tokenEntry list" where
  "getExpiringSoon r thresholdMs now =
     filter (\<lambda>entry. te_expiresAt entry > now \<and> te_expiresAt entry \<le> now + thresholdMs)
       (jm_values (tr_tokens r))"

text \<open>The loop of \<open>cleanup\<close> over the entries.\<close>

fun reg_cleanup_loop ::
    "ms \<Rightarrow> (string \<times> tokenEntry) list \<Rightarrow> (string, tokenEntry) jsmap \<times> nat
      \<Rightarrow> (string, tokenEntry) jsmap \<times> nat" where
  "reg_cleanup_loop now [] acc = acc"
| "reg_cleanup_loop now ((jti, entry) # rest) (m, removed) =
     reg_cleanup_loop now rest
       (if isExpired entry now then (jm_delete m jti, removed + 1) else (m, removed))"

definition reg_cleanup :: "tokenRegistry \<Rightarrow> ms \<Rightarrow> nat \<times> tokenRegistry" where
  "reg_cleanup r now =
     (let (m, removed) = reg_cleanup_loop now (tr_tokens r) (tr_tokens r, 0);
          r1 = r\<lparr>tr_tokens := m\<rparr>
      in (removed,
          case tr_revocationCache r1 of
            None \<Rightarrow> r1
          | Some c \<Rightarrow> r1\<lparr>tr_revocationCache := Some (snd (cache_cleanup c now))\<rparr>))"

definition startCleanup :: "tokenRegistry \<Rightarrow> ms \<Rightarrow> tokenRegistry" where
  "startCleanup r intervalMs = r\<lparr>tr_cleanupInterval := Some intervalMs\<rparr>"

definition stopCleanup :: "tokenRegistry \<Rightarrow> tokenRegistry" where
  "stopCleanup r = (if tr_cleanupInterval r \<noteq> None then r\<lparr>tr_cleanupInterval := None\<rparr> else r)"

definition getBySession :: "tokenRegistry \<Rightarrow> string \<Rightarrow> tokenEntry list" where
  "getBySession r sessionId =
     filter (\<lambda>entry. te_sessionId entry = sessionId) (jm_values (tr_tokens r))"

text \<open>The body of the two revocation loops, for one entry.\<close>

definition revoke_entry ::
    "string option \<Rightarrow> ms \<Rightarrow> tokenRegistry \<Rightarrow> tokenEntry \<Rightarrow> tokenRegistry" where
  "revoke_entry reason now r entry =
     (let r1 = addToRevocationCache r (te_jti entry) (te_expiresAt entry) reason now
      in r1\<lparr>tr_tokens := jm_delete (tr_tokens r1) (te_jti entry)\<rparr>)"

definition revokeBySession ::
    "tokenRegistry \<Rightarrow> string \<Rightarrow> string option \<Rightarrow> ms \<Rightarrow> nat \<times> tokenRegistry" where
  "revokeBySession r sessionId reason now =
     (let sessionTokens = getBySession r sessionId
      in (length sessionTokens, foldl (revoke_entry reason now) r sessionTokens))"

definition getByOperator :: "tokenRegistry \<Rightarrow> string \<Rightarrow> tokenEntry list" where
  "getByOperator r operatorDid =
     filter (\<lambda>entry. te_operatorDid entry = operatorDid) (jm_values (tr_tokens r))"

definition revokeByOperator ::
    "tokenRegistry \<Rightarrow> string \<Rightarrow> string option \<Rightarrow> ms \<Rightarrow> string list \<times> tokenRegistry" where
  "revokeByOperator r operatorDid reason now =
     (let operatorTokens = getByOperator r operatorDid;
          sessionIds = js_unique (map te_sessionId operatorTokens)
      in (sessionIds, foldl (revoke_entry reason now) r operatorTokens))"

definition reg_size :: "tokenRegistry \<Rightarrow> nat" where
  "reg_size r = jm_size (tr_tokens r)"

definition setRevocationCache :: "tokenRegistry \<Rightarrow> revocationCache \<Rightarrow> tokenRegistry" where
  "setRevocationCache r cache = r\<lparr>tr_revocationCache := Some cache\<rparr>"

definition setRevocationStore :: "tokenRegistry \<Rightarrow> tokenRegistry" where
  "setRevocationStore r = r\<lparr>tr_hasStore := True\<rparr>"

definition getRevocationMetrics :: "tokenRegistry \<Rightarrow> cacheMetricsSnapshot option" where
  "getRevocationMetrics r = map_option cache_getMetrics (tr_revocationCache r)"

section \<open>Well-formedness\<close>

definition tokens_ok :: "(string, tokenEntry) jsmap \<Rightarrow> bool" where
  "tokens_ok m \<longleftrightarrow> jm_wf m \<and> (\<forall>(k, e) \<in> set m. te_jti e = k)"

definition registry_ok :: "tokenRegistry \<Rightarrow> bool" where
  "registry_ok r \<longleftrightarrow>
     tokens_ok (tr_tokens r) \<and> (case tr_revocationCache r of None \<Rightarrow> True | Some c \<Rightarrow> cache_ok c)"

lemma registry_ok_wf: "registry_ok r \<Longrightarrow> jm_wf (tr_tokens r)"
  by (simp add: registry_ok_def tokens_ok_def)

lemma tokens_ok_get: "tokens_ok m \<Longrightarrow> jm_get m k = Some e \<Longrightarrow> te_jti e = k"
  by (auto simp: tokens_ok_def dest: map_of_SomeD)

lemma tokens_ok_set: "tokens_ok m \<Longrightarrow> te_jti e = k \<Longrightarrow> tokens_ok (jm_set m k e)"
  by (auto simp: tokens_ok_def jm.wf_put dest!: jm_set_in)

lemma tokens_ok_delete: "tokens_ok m \<Longrightarrow> tokens_ok (jm_delete m k)"
  by (auto simp: tokens_ok_def jm.wf_del jm_delete_in)

lemma tokens_ok_filter: "tokens_ok m \<Longrightarrow> tokens_ok (filter P m)"
  by (auto simp: tokens_ok_def jm_wf_filter)

lemma tokens_ok_value:
  assumes "tokens_ok m"
  shows "e \<in> set (jm_values m) \<longleftrightarrow> jm_get m (te_jti e) = Some e"
proof -
  have wf: "jm_wf m" using assms by (simp add: tokens_ok_def)
  show ?thesis unfolding jm_value_iff [OF wf] using tokens_ok_get [OF assms] by blast
qed

lemma addToRevocationCache_frame [simp]:
  "tr_tokens (addToRevocationCache r jti e reason now) = tr_tokens r"
  "tr_cleanupInterval (addToRevocationCache r jti e reason now) = tr_cleanupInterval r"
  "tr_hasStore (addToRevocationCache r jti e reason now) = tr_hasStore r"
  by (simp_all add: addToRevocationCache_def Let_def split: option.splits)

lemma addToRevocationCache_ok: "registry_ok r \<Longrightarrow> registry_ok (addToRevocationCache r jti e reason now)"
  by (auto simp: registry_ok_def addToRevocationCache_def Let_def add_ok split: option.splits)

lemma revoke_entry_tokens:
  "tr_tokens (revoke_entry reason now r e) = jm_delete (tr_tokens r) (te_jti e)"
  by (simp add: revoke_entry_def Let_def)

lemma revoke_entry_ok: "registry_ok r \<Longrightarrow> registry_ok (revoke_entry reason now r e)"
  using addToRevocationCache_ok [of r "te_jti e" "te_expiresAt e" reason now]
  by (auto simp: revoke_entry_def registry_ok_def Let_def tokens_ok_delete)

lemma revoke_entries_tokens:
  "tr_tokens (foldl (revoke_entry reason now) r es) =
     foldl jm_delete (tr_tokens r) (map te_jti es)"
  by (induction es arbitrary: r) (simp_all add: revoke_entry_tokens)

lemma revoke_entries_ok: "registry_ok r \<Longrightarrow> registry_ok (foldl (revoke_entry reason now) r es)"
  by (induction es arbitrary: r) (simp_all add: revoke_entry_ok)

text \<open>Revoking the entries that satisfy a test removes exactly them.\<close>

lemma revoke_matching_tokens:
  assumes "registry_ok r"
  shows "tr_tokens (foldl (revoke_entry reason now) r (filter P (jm_values (tr_tokens r)))) =
    filter (\<lambda>kv. \<not> P (snd kv)) (tr_tokens r)"
proof -
  have ok: "tokens_ok (tr_tokens r)" using assms by (simp add: registry_ok_def)
  have "map te_jti (filter P (jm_values (tr_tokens r))) =
      map fst (filter (\<lambda>kv. P (snd kv)) (tr_tokens r))"
    using ok by (auto simp: filter_map comp_def tokens_ok_def)
  then show ?thesis
    using jm_delete_matching [OF registry_ok_wf [OF assms], of "\<lambda>kv. P (snd kv)"]
    by (simp add: revoke_entries_tokens)
qed

lemma revoke_matching_get:
  assumes "registry_ok r"
  shows "reg_get (foldl (revoke_entry reason now) r (filter P (jm_values (tr_tokens r)))) j =
    (case reg_get r j of None \<Rightarrow> None | Some e \<Rightarrow> if P e then None else Some e)"
  using jm_get_filter [OF registry_ok_wf [OF assms], of "\<lambda>e. \<not> P e" j]
  by (auto simp: reg_get_def revoke_matching_tokens [OF assms] split: option.splits)

lemma reg_cleanup_loop_eq:
  "reg_cleanup_loop now es (m, n) =
     (foldl jm_delete m (map fst (filter (\<lambda>(k, e). isExpired e now) es)),
      n + length (filter (\<lambda>(k, e). isExpired e now) es))"
  by (induction es arbitrary: m n) auto

lemma reg_cleanup_result:
  assumes "registry_ok r"
  shows "tr_tokens (snd (reg_cleanup r now)) =
      filter (\<lambda>kv. \<not> isExpired (snd kv) now) (tr_tokens r)"
    and "fst (reg_cleanup r now) =
      length (filter (\<lambda>kv. isExpired (snd kv) now) (tr_tokens r))"
  using jm_delete_matching [OF registry_ok_wf [OF assms], of "\<lambda>kv. isExpired (snd kv) now"]
  by (auto simp: reg_cleanup_def reg_cleanup_loop_eq case_prod_unfold Let_def split: option.splits)

section \<open>The contract of a token registry\<close>

text \<open>
  What the rest of the gateway relies on: only a registered, unexpired token is valid, and an
  operation only brings in the tokens it registers.
\<close>

locale token_contract =
  fixes lookup :: "'s \<Rightarrow> 'j \<Rightarrow> 'e option"
    and valid :: "'s \<Rightarrow> 'j \<Rightarrow> ms \<Rightarrow> bool"
    and expiry :: "'e \<Rightarrow> ms"
    and step :: "'s \<Rightarrow> 'op \<Rightarrow> 's"
    and registers :: "'op \<Rightarrow> 'j \<Rightarrow> bool"
  assumes valid_lookup: "valid s j t \<Longrightarrow> \<exists>e. lookup s j = Some e \<and> t < expiry e"
    and step_lookup: "lookup (step s x) j = Some e \<Longrightarrow> \<not> registers x j \<Longrightarrow> lookup s j = Some e"
begin

lemma run_lookup:
  "lookup (foldl step s xs) j = Some e \<Longrightarrow> list_all (\<lambda>x. \<not> registers x j) xs \<Longrightarrow>
   lookup s j = Some e"
  by (induction xs arbitrary: s) (auto dest: step_lookup)

lemma gone_stays_gone:
  assumes "lookup s j = None" and "list_all (\<lambda>x. \<not> registers x j) xs"
  shows "lookup (foldl step s xs) j = None"
  using assms run_lookup [of s xs j] by (cases "lookup (foldl step s xs) j") auto

lemma gone_never_valid:
  assumes "lookup s j = None" and "list_all (\<lambda>x. \<not> registers x j) xs"
  shows "\<not> valid (foldl step s xs) j t"
  using gone_stays_gone [OF assms] valid_lookup by fastforce

lemma expired_never_valid:
  assumes "lookup s j = Some e" and "expiry e \<le> t" and "list_all (\<lambda>x. \<not> registers x j) xs"
  shows "\<not> valid (foldl step s xs) j t"
proof
  assume "valid (foldl step s xs) j t"
  then obtain e' where e': "lookup (foldl step s xs) j = Some e'" "t < expiry e'"
    using valid_lookup by blast
  with run_lookup [OF e'(1) assms(3)] assms(1,2) show False by simp
qed

end

text \<open>The contract with a revocation that takes the token out.\<close>

locale revocable_tokens = token_contract +
  fixes revoke :: "'s \<Rightarrow> 'j \<Rightarrow> 'arg \<Rightarrow> 's"
  assumes revoke_lookup: "lookup (revoke s j arg) j = None"
begin

lemma revoked_never_valid:
  assumes "list_all (\<lambda>x. \<not> registers x j) xs"
  shows "\<not> valid (foldl step (revoke s j arg) xs) j t"
  using gone_never_valid [OF revoke_lookup assms] .

end

section \<open>The registry as a system of operations\<close>

datatype registry_op =
    RegRegister tokenEntry
  | RegRevoke string "string option" ms
  | RegCheck string ms
  | RegCleanup ms
  | RegRevokeSession string "string option" ms
  | RegRevokeOperator string "string option" ms
  | RegStartCleanup ms
  | RegStopCleanup
  | RegSetCache revocationCache
  | RegSetStore

fun registry_step :: "tokenRegistry \<Rightarrow> registry_op \<Rightarrow> tokenRegistry" where
  "registry_step r (RegRegister entry) = reg_register r entry"
| "registry_step r (RegRevoke jti reason now) = snd (reg_revoke r jti reason now)"
| "registry_step r (RegCheck jti now) = snd (reg_isValid r jti now)"
| "registry_step r (RegCleanup now) = snd (reg_cleanup r now)"
| "registry_step r (RegRevokeSession sid reason now) = snd (revokeBySession r sid reason now)"
| "registry_step r (RegRevokeOperator did reason now) = snd (revokeByOperator r did reason now)"
| "registry_step r (RegStartCleanup intervalMs) = startCleanup r intervalMs"
| "registry_step r RegStopCleanup = stopCleanup r"
| "registry_step r (RegSetCache c) = setRevocationCache r c"
| "registry_step r RegSetStore = setRevocationStore r"

fun op_registers :: "registry_op \<Rightarrow> string \<Rightarrow> bool" where
  "op_registers (RegRegister entry) j = (te_jti entry = j)"
| "op_registers x j = False"

fun op_cache_ok :: "registry_op \<Rightarrow> bool" where
  "op_cache_ok (RegSetCache c) = cache_ok c"
| "op_cache_ok x = True"

subsection \<open>Lookup after each operation\<close>

lemma register_get [op_simps]:
  "reg_get (reg_register r e) j = (if j = te_jti e then Some e else reg_get r j)"
  by (simp add: reg_get_def reg_register_def jm.get_put)

lemma revoke_get [op_simps]:
  "reg_get (snd (reg_revoke r jti reason now)) j = (if j = jti then None else reg_get r j)"
  by (auto simp: reg_get_def reg_revoke_def Let_def jm.get_del split: option.splits)

lemma isValid_tokens [simp]: "tr_tokens (snd (reg_isValid r jti now)) = tr_tokens r"
  by (auto simp: reg_isValid_def case_prod_unfold Let_def split: option.splits)

lemma cleanup_get_some:
  "reg_get (snd (reg_cleanup r now)) j = Some e \<Longrightarrow> reg_get r j = Some e"
  by (auto simp: reg_get_def reg_cleanup_def reg_cleanup_loop_eq case_prod_unfold Let_def
      jm.get_del_all split: option.splits if_splits)

lemma revoke_entries_get:
  "reg_get (foldl (revoke_entry reason now) r es) j =
     (if j \<in> te_jti ` set es then None else reg_get r j)"
  by (simp add: reg_get_def revoke_entries_tokens jm.get_del_all)

lemma isValid_answer:
  "fst (reg_isValid r jti now) =
     ((case tr_revocationCache r of None \<Rightarrow> True | Some c \<Rightarrow> \<not> is_revoked_at c jti now)
      \<and> (\<exists>e. reg_get r jti = Some e \<and> now < te_expiresAt e))"
  by (auto simp: reg_isValid_def reg_get_def isExpired_def Let_def case_prod_unfold
      isRevoked_answer split: option.splits)

lemma minor_ops_tokens [simp]:
  "tr_tokens (startCleanup r n) = tr_tokens r" "tr_tokens (stopCleanup r) = tr_tokens r"
  "tr_tokens (setRevocationCache r c) = tr_tokens r" "tr_tokens (setRevocationStore r) = tr_tokens r"
  by (simp_all add: startCleanup_def stopCleanup_def setRevocationCache_def setRevocationStore_def)

lemma minor_ops_get [simp]:
  "reg_get (startCleanup r n) j = reg_get r j" "reg_get (stopCleanup r) j = reg_get r j"
  "reg_get (setRevocationCache r c) j = reg_get r j" "reg_get (setRevocationStore r) j = reg_get r j"
  "reg_get (snd (reg_isValid r jti now)) j = reg_get r j"
  by (simp_all add: reg_get_def)

lemma isValid_cache:
  "tr_revocationCache (snd (reg_isValid r jti now)) =
     map_option (\<lambda>c. snd (cache_isRevoked c jti now)) (tr_revocationCache r)"
  by (cases "tr_revocationCache r")
     (simp_all add: reg_isValid_def case_prod_unfold Let_def split: option.splits)

lemma registry_step_lookup:
  assumes "reg_get (registry_step r x) j = Some e" and "\<not> op_registers x j"
  shows "reg_get r j = Some e"
proof (cases x)
  case (RegRevokeSession sid reason now)
  then show ?thesis using assms(1)
    by (auto simp: revokeBySession_def Let_def revoke_entries_get split: if_splits)
next
  case (RegRevokeOperator did reason now)
  then show ?thesis using assms(1)
    by (auto simp: revokeByOperator_def Let_def revoke_entries_get split: if_splits)
qed (use assms in \<open>auto simp: op_simps dest: cleanup_get_some split: if_splits\<close>)

interpretation reg: revocable_tokens reg_get "\<lambda>r j t. fst (reg_isValid r j t)" te_expiresAt
  registry_step op_registers "\<lambda>r j (reason, now). snd (reg_revoke r j reason now)"
  by unfold_locales
     (auto simp: isValid_answer op_simps dest: registry_step_lookup split: prod.splits)

subsection \<open>The registry's own invariant\<close>

lemma isValid_ok: "registry_ok r \<Longrightarrow> registry_ok (snd (reg_isValid r jti now))"
  by (auto simp: registry_ok_def reg_isValid_def Let_def case_prod_unfold isRevoked_ok
      split: option.splits)

lemma revoke_ok: "registry_ok r \<Longrightarrow> registry_ok (snd (reg_revoke r jti reason now))"
proof (cases "reg_get r jti")
  case (Some e)
  assume "registry_ok r"
  from addToRevocationCache_ok [OF this, of jti "te_expiresAt e" reason now] Some show ?thesis
    by (simp add: reg_revoke_def reg_get_def Let_def registry_ok_def tokens_ok_delete)
qed (simp add: reg_revoke_def reg_get_def)

lemma register_ok: "registry_ok r \<Longrightarrow> registry_ok (reg_register r e)"
  by (simp add: registry_ok_def reg_register_def tokens_ok_set)

lemma minor_ops_ok:
  "registry_ok r \<Longrightarrow> registry_ok (startCleanup r n)"
  "registry_ok r \<Longrightarrow> registry_ok (stopCleanup r)"
  "registry_ok r \<Longrightarrow> cache_ok c \<Longrightarrow> registry_ok (setRevocationCache r c)"
  "registry_ok r \<Longrightarrow> registry_ok (setRevocationStore r)"
  by (simp_all add: registry_ok_def startCleanup_def stopCleanup_def setRevocationCache_def
      setRevocationStore_def)

lemmas registry_ops_ok = isValid_ok revoke_ok register_ok minor_ops_ok

lemma reg_cleanup_ok: "registry_ok r \<Longrightarrow> registry_ok (snd (reg_cleanup r now))"
  using reg_cleanup_result(1) [of r now]
  by (auto simp: registry_ok_def tokens_ok_filter reg_cleanup_def case_prod_unfold Let_def
      cleanup_ok split: option.splits)

lemma registry_step_ok:
  assumes "registry_ok r" and "op_cache_ok x"
  shows "registry_ok (registry_step r x)"
  using assms
  by (cases x) (auto simp: registry_ops_ok reg_cleanup_ok revokeBySession_def revokeByOperator_def
      Let_def revoke_entries_ok)

interpretation reg_inv: stable_property registry_step registry_ok op_cache_ok
  by unfold_locales (rule registry_step_ok)

lemma create_registry_ok: "registry_ok createTokenRegistry"
  by (simp add: registry_ok_def createTokenRegistry_def tokens_ok_def)

section \<open>Properties\<close>

text \<open>
  (C9) A revoked token is never valid again: once \<open>revoke\<close> ran for a token id, no sequence of
  registry operations (cleanups, other revocations, cache replacement, checks at any times) that
  does not register that id again makes \<open>isValid\<close> answer true for it, at any time. It holds even
  when the revocation cache has evicted the entry.
\<close>

theorem revoked_token_never_valid:
  assumes "list_all (\<lambda>x. \<not> op_registers x jti) ops"
  shows "\<not> fst (reg_isValid (foldl registry_step (snd (reg_revoke r jti reason now)) ops) jti t)"
  using reg.revoked_never_valid [OF assms, of r "(reason, now)" t] by simp

definition sample_token :: "string \<Rightarrow> string \<Rightarrow> string \<Rightarrow> ms \<Rightarrow> tokenEntry" where
  "sample_token jti sid did e =
     \<lparr>te_jti = jti, te_sessionId = sid, te_operatorDid = did, te_robotId = ''r1'', te_expiresAt = e\<rparr>"

definition sample_registry :: tokenRegistry where
  "sample_registry = foldl registry_step createTokenRegistry
     [RegSetCache (createRevocationCache None),
      RegRegister (sample_token ''a'' ''s1'' ''d1'' 10),
      RegRegister (sample_token ''b'' ''s2'' ''d2'' 20),
      RegRegister (sample_token ''c'' ''s1'' ''d2'' 30)]"

lemma sample_registry_ok: "registry_ok sample_registry"
  unfolding sample_registry_def by (rule reg_inv.run_stable) (simp_all add: create_registry_ok create_ok)

lemma sample_registry_tokens:
  "tr_tokens sample_registry =
     [(''a'', sample_token ''a'' ''s1'' ''d1'' 10), (''b'', sample_token ''b'' ''s2'' ''d2'' 20),
      (''c'', sample_token ''c'' ''s1'' ''d2'' 30)]"
  by (simp add: sample_registry_def createTokenRegistry_def setRevocationCache_def
      reg_register_def sample_token_def)

theorem revoked_token_never_valid_witness:
  "\<not> fst (reg_isValid (foldl registry_step (snd (reg_revoke sample_registry ''a'' None 3))
      [RegRegister (sample_token ''d'' ''s1'' ''d1'' 10), RegCleanup 4]) ''a'' 5)"
  using revoked_token_never_valid
    [of "''a''" "[RegRegister (sample_token ''d'' ''s1'' ''d1'' 10), RegCleanup 4]"
        sample_registry None 3 5]
  by (simp add: sample_token_def)

text \<open>
  \<open>isValid\<close> decides exactly this: the token is registered, its expiry is after now, and the
  revocation cache, when there is one, does not hold an unexpired revocation of it. The check
  changes no token and no later answer.
\<close>

theorem isValid_decides:
  shows "(fst (reg_isValid r jti now) \<longleftrightarrow>
      (\<exists>e. jm_get (tr_tokens r) jti = Some e \<and> now < te_expiresAt e) \<and>
      (\<forall>c e. tr_revocationCache r = Some c \<and> jm_get (rc_cache c) jti = Some e \<longrightarrow>
        date_le (re_expiresAt e) now))
    \<and> tr_tokens (snd (reg_isValid r jti now)) = tr_tokens r
    \<and> (now \<le> t \<longrightarrow> fst (reg_isValid (snd (reg_isValid r jti now)) j t) = fst (reg_isValid r j t))"
proof (intro conjI impI)
  show "fst (reg_isValid r jti now) \<longleftrightarrow>
      (\<exists>e. jm_get (tr_tokens r) jti = Some e \<and> now < te_expiresAt e) \<and>
      (\<forall>c e. tr_revocationCache r = Some c \<and> jm_get (rc_cache c) jti = Some e \<longrightarrow>
        date_le (re_expiresAt e) now)"
    by (auto simp: isValid_answer reg_get_def is_revoked_at_def split: option.splits)
next
  assume "now \<le> t"
  then show "fst (reg_isValid (snd (reg_isValid r jti now)) j t) = fst (reg_isValid r j t)"
    by (cases "tr_revocationCache r") (simp_all add: isValid_answer isValid_cache isRevoked_stable)
qed simp

theorem isValid_decides_witness:
  "fst (reg_isValid (snd (reg_isValid sample_registry ''a'' 10)) ''b'' 15) =
   fst (reg_isValid sample_registry ''b'' 15)"
  using isValid_decides [of sample_registry "''a''" 10 15 "''b''"] by simp

lemma revokeByOperator_effect:
  assumes "registry_ok r"
  shows "reg_get (snd (revokeByOperator r did reason now)) j =
        (case reg_get r j of None \<Rightarrow> None
         | Some e \<Rightarrow> if te_operatorDid e = did then None else Some e)"
    and "set (fst (revokeByOperator r did reason now)) =
        {te_sessionId e | e j. reg_get r j = Some e \<and> te_operatorDid e = did}"
    and "registry_ok (snd (revokeByOperator r did reason now))"
proof -
  show "reg_get (snd (revokeByOperator r did reason now)) j =
        (case reg_get r j of None \<Rightarrow> None
         | Some e \<Rightarrow> if te_operatorDid e = did then None else Some e)"
    using revoke_matching_get [OF assms, of reason now "\<lambda>e. te_operatorDid e = did" j]
    by (simp add: revokeByOperator_def getByOperator_def Let_def)
next
  have "set (fst (revokeByOperator r did reason now)) =
      te_sessionId ` {e \<in> set (jm_values (tr_tokens r)). te_operatorDid e = did}"
    by (simp add: revokeByOperator_def getByOperator_def Let_def)
  also have "\<dots> = {te_sessionId e | e j. reg_get r j = Some e \<and> te_operatorDid e = did}"
    unfolding jm_value_iff [OF registry_ok_wf [OF assms]] reg_get_def by blast
  finally show "set (fst (revokeByOperator r did reason now)) =
      {te_sessionId e | e j. reg_get r j = Some e \<and> te_operatorDid e = did}" .
next
  show "registry_ok (snd (revokeByOperator r did reason now))"
    by (simp add: revokeByOperator_def Let_def revoke_entries_ok assms)
qed

text \<open>
  \<open>revokeByOperator\<close> removes exactly the operator's tokens: afterwards a lookup gives nothing
  for a token of that operator and the same entry as before for every other token, the session ids
  returned are the distinct sessions of the removed tokens, and with a revocation cache the
  registry stays well-formed.
\<close>

theorem revokeByOperator_exact:
  assumes "registry_ok r"
  shows "(\<forall>j. reg_get (snd (revokeByOperator r did reason now)) j =
        (case reg_get r j of None \<Rightarrow> None
         | Some e \<Rightarrow> if te_operatorDid e = did then None else Some e))
    \<and> set (fst (revokeByOperator r did reason now)) =
        {te_sessionId e | e j. reg_get r j = Some e \<and> te_operatorDid e = did}
    \<and> distinct (fst (revokeByOperator r did reason now))
    \<and> registry_ok (snd (revokeByOperator r did reason now))"
proof -
  have "distinct (fst (revokeByOperator r did reason now))"
    by (simp add: revokeByOperator_def Let_def)
  with revokeByOperator_effect [OF assms] show ?thesis by blast
qed

theorem revokeByOperator_exact_witness:
  "set (fst (revokeByOperator sample_registry ''d2'' None 3)) =
     {te_sessionId e | e j. reg_get sample_registry j = Some e \<and> te_operatorDid e = ''d2''}"
  using revokeByOperator_exact [OF sample_registry_ok, of "''d2''" None 3] by blast

lemma addToRevocationCache_appends:
  "tr_appends (addToRevocationCache r jti e reason now) = tr_appends r @
     (if tr_revocationCache r \<noteq> None \<and> tr_hasStore r
      then [\<lparr>re_jti = jti, re_revokedAt = Some now, re_expiresAt = Some e, re_reason = reason\<rparr>] else [])"
  "tr_revocationCache (addToRevocationCache r jti e reason now) = None \<longleftrightarrow> tr_revocationCache r = None"
  by (auto simp: addToRevocationCache_def Let_def split: option.splits)

lemma revoke_entry_appends:
  "tr_appends (revoke_entry reason now r e) = tr_appends r @
     (if tr_revocationCache r \<noteq> None \<and> tr_hasStore r
      then [\<lparr>re_jti = te_jti e, re_revokedAt = Some now, re_expiresAt = Some (te_expiresAt e),
             re_reason = reason\<rparr>] else [])"
  "tr_revocationCache (revoke_entry reason now r e) = None \<longleftrightarrow> tr_revocationCache r = None"
  "tr_hasStore (revoke_entry reason now r e) = tr_hasStore r"
  by (simp_all add: revoke_entry_def Let_def addToRevocationCache_appends)

lemma revoke_entries_appends:
  "tr_revocationCache r \<noteq> None \<Longrightarrow> tr_hasStore r \<Longrightarrow>
   tr_appends (foldl (revoke_entry reason now) r es) = tr_appends r @
     map (\<lambda>e. \<lparr>re_jti = te_jti e, re_revokedAt = Some now, re_expiresAt = Some (te_expiresAt e),
             re_reason = reason\<rparr>) es"
  by (induction es arbitrary: r) (simp_all add: revoke_entry_appends del: not_None_eq)

text \<open>
  Revoking a session's tokens removes exactly them, whatever their order: the count returned
  is the number of tokens removed from the registry, the tokens of other sessions keep their
  entries, and every removed token is in the list of revocations sent to the store when a cache and
  a store are set.
\<close>

theorem revokeBySession_exact:
  assumes "registry_ok r" and "tr_revocationCache r \<noteq> None" and "tr_hasStore r"
  shows "reg_size (snd (revokeBySession r sid reason now)) + fst (revokeBySession r sid reason now)
      = reg_size r
    \<and> (\<forall>j. reg_get (snd (revokeBySession r sid reason now)) j =
        (case reg_get r j of None \<Rightarrow> None
         | Some e \<Rightarrow> if te_sessionId e = sid then None else Some e))
    \<and> map re_jti (tr_appends (snd (revokeBySession r sid reason now))) =
        map re_jti (tr_appends r) @ map te_jti (getBySession r sid)"
proof (intro conjI allI)
  fix j
  show "reg_get (snd (revokeBySession r sid reason now)) j =
        (case reg_get r j of None \<Rightarrow> None
         | Some e \<Rightarrow> if te_sessionId e = sid then None else Some e)"
    using revoke_matching_get [OF assms(1), of reason now "\<lambda>e. te_sessionId e = sid" j]
    by (simp add: revokeBySession_def getBySession_def Let_def)
next
  show "map re_jti (tr_appends (snd (revokeBySession r sid reason now))) =
        map re_jti (tr_appends r) @ map te_jti (getBySession r sid)"
    using assms(2,3)
    by (simp add: revokeBySession_def Let_def revoke_entries_appends comp_def)
next
  show "reg_size (snd (revokeBySession r sid reason now)) + fst (revokeBySession r sid reason now)
      = reg_size r"
    using revoke_matching_tokens [OF assms(1), of reason now "\<lambda>e. te_sessionId e = sid"]
      sum_length_filter_compl [of "\<lambda>kv. te_sessionId (snd kv) = sid" "tr_tokens r"]
    by (simp add: revokeBySession_def getBySession_def Let_def reg_size_def filter_map comp_def)
qed

definition stored_registry :: tokenRegistry where
  "stored_registry = setRevocationStore sample_registry"

lemma stored_registry_facts:
  "registry_ok stored_registry" "tr_revocationCache stored_registry \<noteq> None"
  "tr_hasStore stored_registry"
  by (simp_all add: stored_registry_def minor_ops_ok sample_registry_ok)
     (simp_all add: setRevocationStore_def sample_registry_def reg_register_def setRevocationCache_def)

theorem revokeBySession_exact_witness:
  "map re_jti (tr_appends (snd (revokeBySession stored_registry ''s1'' None 3))) =
     map re_jti (tr_appends stored_registry) @ map te_jti (getBySession stored_registry ''s1'')"
  using revokeBySession_exact [OF stored_registry_facts, of "''s1''" None 3] by blast

text \<open>
  \<open>cleanup\<close> removes exactly the tokens that have expired, keeps the others in their order,
  and returns how many it removed; a cleanup changes no answer of \<open>isValid\<close> at that time or later.
\<close>

theorem registry_cleanup_exact:
  assumes "registry_ok r" and "now \<le> t"
  shows "tr_tokens (snd (reg_cleanup r now)) = filter (\<lambda>(k, e). now < te_expiresAt e) (tr_tokens r)
    \<and> fst (reg_cleanup r now) + reg_size (snd (reg_cleanup r now)) = reg_size r
    \<and> fst (reg_isValid (snd (reg_cleanup r now)) j t) = fst (reg_isValid r j t)"
proof (intro conjI)
  have eq: "(\<lambda>kv. \<not> isExpired (snd kv) now) = (\<lambda>(k, e). now < te_expiresAt e)"
    by (auto simp: isExpired_def fun_eq_iff not_le)
  show toks: "tr_tokens (snd (reg_cleanup r now)) =
      filter (\<lambda>(k, e). now < te_expiresAt e) (tr_tokens r)"
    unfolding reg_cleanup_result(1) [OF assms(1)] eq ..
  show "fst (reg_cleanup r now) + reg_size (snd (reg_cleanup r now)) = reg_size r"
    using sum_length_filter_compl [of "\<lambda>kv. isExpired (snd kv) now" "tr_tokens r"]
    by (simp add: reg_size_def reg_cleanup_result [OF assms(1)])
  have "reg_get (snd (reg_cleanup r now)) j = Some e \<and> t < te_expiresAt e \<longleftrightarrow>
      reg_get r j = Some e \<and> t < te_expiresAt e" for e
    using jm_get_filter [OF registry_ok_wf [OF assms(1)], of "\<lambda>e. now < te_expiresAt e" j] assms(2)
    by (auto simp: reg_get_def toks case_prod_unfold split: option.splits if_splits)
  moreover have "(case tr_revocationCache (snd (reg_cleanup r now)) of None \<Rightarrow> True
      | Some c \<Rightarrow> \<not> is_revoked_at c j t) =
    (case tr_revocationCache r of None \<Rightarrow> True | Some c \<Rightarrow> \<not> is_revoked_at c j t)"
    using assms
    by (auto simp: reg_cleanup_def case_prod_unfold Let_def cleanup_stable cache_ok_wf
        registry_ok_def split: option.splits)
  ultimately show "fst (reg_isValid (snd (reg_cleanup r now)) j t) = fst (reg_isValid r j t)"
    by (auto simp: isValid_answer)
qed

theorem registry_cleanup_exact_witness:
  "fst (reg_isValid (snd (reg_cleanup sample_registry 10)) ''b'' 12) =
   fst (reg_isValid sample_registry ''b'' 12)"
  using registry_cleanup_exact [OF sample_registry_ok, of 10 12 "''b''"] by simp

end
