(* ===== verification/TokenKeys.thy ===== *)
theory TokenKeys
  imports Base64
begin

text \<open>
  \<open>tokens/token-generator.ts\<close>, \<open>tokens/key-manager.ts\<close> and \<open>routes/jwks.ts\<close>: the signing key, the
  capability tokens signed with it, and the key set published for their verification.

  \<open>jose.SignJWT(...).sign\<close> is the parameter \<open>sign\<close> (key, protected header, payload); the random
  \<open>crypto.randomUUID()\<close> values, and the key pair \<open>jose.generateKeyPair\<close> returns, are arguments.
  \<open>signs_compact\<close> is what the code relies on: the token is the compact serialisation of the header
  and the payload.
\<close>

section \<open>Key manager\<close>

record 'key keyManager =
  km_privateKey :: 'key
  km_keyId :: string
  km_publicJwk :: "(string \<times> jsval) list"

definition createDevKeyManager :: "'key \<Rightarrow> (string \<times> jsval) list \<Rightarrow> 'key keyManager" where
  "createDevKeyManager privateKey publicJwk =
     \<lparr>km_privateKey = privateKey, km_keyId = ''dev-key-1'', km_publicJwk = publicJwk\<rparr>"

definition getPublicJwk :: "'key keyManager \<Rightarrow> jsval" where
  "getPublicJwk km =
     JObj (jm_set (jm_set (jm_set (km_publicJwk km)
       ''kid'' (JStr (km_keyId km))) ''use'' (JStr ''sig'')) ''alg'' (JStr ''EdDSA''))"

section \<open>Token generator\<close>

record tokenGenerationInput =
  gi_operatorDid :: string
  gi_robotId :: string
  gi_sessionId :: string
  gi_allowedActions :: "string list"
  gi_ttlSeconds :: int

record tokenGenerationResult =
  gr_token :: string
  gr_expiresAt :: ms
  gr_tokenId :: string

record 'key tokenGenerator =
  tg_privateKey :: 'key
  tg_keyId :: string

definition createTokenGenerator :: "'key \<Rightarrow> string \<Rightarrow> 'key tokenGenerator" where
  "createTokenGenerator privateKey keyId = \<lparr>tg_privateKey = privateKey, tg_keyId = keyId\<rparr>"

definition token_header :: "string \<Rightarrow> jsval" where
  "token_header keyId =
     JObj [(''alg'', JStr ''EdDSA''), (''typ'', JStr ''JWT''), (''kid'', JStr keyId)]"

definition token_payload :: "tokenGenerationInput \<Rightarrow> string \<Rightarrow> int \<Rightarrow> int \<Rightarrow> string \<Rightarrow> jsval" where
  "token_payload input nonce now expSeconds jti =
     JObj [(''sub'', JStr (gi_operatorDid input)), (''aud'', JStr (gi_robotId input)),
           (''sid'', JStr (gi_sessionId input)),
           (''scope'', JArr (map JStr (gi_allowedActions input))), (''nonce'', JStr nonce),
           (''iat'', JNum (of_int now)), (''exp'', JNum (of_int expSeconds)), (''jti'', JStr jti)]"

definition generate ::
    "('key \<Rightarrow> jsval \<Rightarrow> jsval \<Rightarrow> string) \<Rightarrow> 'key tokenGenerator \<Rightarrow> tokenGenerationInput
      \<Rightarrow> ms \<Rightarrow> string \<Rightarrow> string \<Rightarrow> tokenGenerationResult" where
  "generate sign g input nowMs jtiUuid nonceUuid =
     (let now = nowMs div 1000;
          expSeconds = now + gi_ttlSeconds input;
          jti = ''tok_'' @ jtiUuid;
          token = sign (tg_privateKey g) (token_header (tg_keyId g))
                    (token_payload input nonceUuid now expSeconds jti)
      in \<lparr>gr_token = token, gr_expiresAt = expSeconds * 1000, gr_tokenId = jti\<rparr>)"

section \<open>Published keys\<close>

definition FALLBACK_KEY :: jsval where
  "FALLBACK_KEY =
     JObj [(''kty'', JStr ''OKP''), (''crv'', JStr ''Ed25519''),
           (''x'', JStr ''o5Uq1iJNqJ6pVvKwrI5TQHtT5rF_0mKE6t6J9dQj_qQ''),
           (''kid'', JStr ''dev-key-1''), (''use'', JStr ''sig''), (''alg'', JStr ''EdDSA'')]"

definition setKeyManager :: "'key keyManager \<Rightarrow> 'key keyManager option" where
  "setKeyManager keyManager = Some keyManager"

definition buildJWKS :: "'key keyManager option \<Rightarrow> jsval" where
  "buildJWKS activeKeyManager =
     (case activeKeyManager of
        Some km \<Rightarrow> JObj [(''keys'', JArr [getPublicJwk km])]
      | None \<Rightarrow> JObj [(''keys'', JArr [FALLBACK_KEY])])"

definition getCurrentKeyId :: "'key keyManager option \<Rightarrow> jsval" where
  "getCurrentKeyId activeKeyManager =
     (case activeKeyManager of
        Some km \<Rightarrow> JStr (km_keyId km)
      | None \<Rightarrow> get_prop FALLBACK_KEY ''kid'')"

section \<open>Reading tokens\<close>

definition signs_compact :: "('key \<Rightarrow> jsval \<Rightarrow> jsval \<Rightarrow> string) \<Rightarrow> bool" where
  "signs_compact sign \<longleftrightarrow>
     (\<forall>k h p. \<exists>s. CHR ''.'' \<notin> set s \<and> sign k h p = compact_jws (json_stringify h) (json_stringify p) s)"

text \<open>An example signer: a signature that does not depend on the key.\<close>

definition stub_sign :: "unit \<Rightarrow> jsval \<Rightarrow> jsval \<Rightarrow> string" where
  "stub_sign k h p = compact_jws (json_stringify h) (json_stringify p) ''sig''"

lemma stub_signs_compact: "signs_compact stub_sign"
  unfolding signs_compact_def stub_sign_def
  by (intro allI exI [of _ "''sig''"]) simp

text \<open>The payload text that the gateway reads back from a compact token.\<close>

definition jwt_part :: "string \<Rightarrow> nat \<Rightarrow> string" where
  "jwt_part token i = base64url_decode (str_split CHR ''.'' token ! i)"

lemma signed_parts:
  assumes "signs_compact sign"
  shows "length (str_split CHR ''.'' (sign k h p)) = 3"
    and "jwt_part (sign k h p) 0 = json_stringify h"
    and "jwt_part (sign k h p) 1 = json_stringify p"
proof -
  obtain s where s: "CHR ''.'' \<notin> set s"
    and eq: "sign k h p = compact_jws (json_stringify h) (json_stringify p) s"
    using assms unfolding signs_compact_def by blast
  note split = compact_jws_split [OF s, of "json_stringify h" "json_stringify p"]
  show "length (str_split CHR ''.'' (sign k h p)) = 3" by (simp add: eq split)
  show "jwt_part (sign k h p) 0 = json_stringify h" "jwt_part (sign k h p) 1 = json_stringify p"
    by (simp_all add: jwt_part_def eq split base64url_decode_encode)
qed

lemma token_payload_plain: "plain (token_payload input nonce now expSeconds jti)"
  by (simp add: token_payload_def list_all_iff)

lemma token_header_plain: "plain (token_header keyId)"
  by (simp add: token_header_def)

lemma generated_payload:
  assumes "signs_compact sign"
  shows "json_parse (jwt_part (gr_token (generate sign g input nowMs u n)) 1) =
    Some (token_payload input n (nowMs div 1000) (nowMs div 1000 + gi_ttlSeconds input) (''tok_'' @ u))"
  unfolding generate_def Let_def tokenGenerationResult.simps signed_parts [OF assms]
  by (rule json_roundtrip_compact) (rule token_payload_plain)

section \<open>Properties\<close>

text \<open>
  A generated token can be verified with the published keys: its header names the algorithm
  and the key id of a key in the key set of the manager whose private key signed it, and the key id
  is the one \<open>getCurrentKeyId\<close> reports.
\<close>

theorem token_header_matches_jwks:
  assumes "signs_compact sign"
  shows "\<exists>h jwk. json_parse (jwt_part (gr_token (generate sign
        (createTokenGenerator (km_privateKey km) (km_keyId km)) input nowMs u n)) 0) = Some h \<and>
      get_prop (buildJWKS (setKeyManager km)) ''keys'' = JArr [jwk] \<and>
      get_prop h ''kid'' = get_prop jwk ''kid'' \<and> get_prop h ''alg'' = get_prop jwk ''alg'' \<and>
      get_prop h ''kid'' = getCurrentKeyId (setKeyManager km)"
proof (intro exI conjI)
  let ?h = "token_header (km_keyId km)"
  show "json_parse (jwt_part (gr_token (generate sign
      (createTokenGenerator (km_privateKey km) (km_keyId km)) input nowMs u n)) 0) = Some ?h"
    by (simp add: generate_def createTokenGenerator_def Let_def signed_parts [OF assms]
        json_roundtrip_compact token_header_plain)
  show "get_prop (buildJWKS (setKeyManager km)) ''keys'' = JArr [getPublicJwk km]"
    by (simp add: buildJWKS_def setKeyManager_def)
qed (simp_all add: token_header_def getPublicJwk_def jm.get_put getCurrentKeyId_def setKeyManager_def)

theorem token_header_matches_jwks_witness:
  "\<exists>h. json_parse (jwt_part (gr_token (generate stub_sign
        (createTokenGenerator () ''dev-key-1'')
        \<lparr>gi_operatorDid = ''did:key:z6'', gi_robotId = ''r1'', gi_sessionId = ''s1'',
         gi_allowedActions = [''teleop:view''], gi_ttlSeconds = 60\<rparr> 5000 ''u'' ''n'')) 0) = Some h
      \<and> get_prop h ''kid'' = JStr ''dev-key-1''"
  using token_header_matches_jwks [OF stub_signs_compact, of "createDevKeyManager () []"
      "\<lparr>gi_operatorDid = ''did:key:z6'', gi_robotId = ''r1'', gi_sessionId = ''s1'',
        gi_allowedActions = [''teleop:view''], gi_ttlSeconds = 60\<rparr>" 5000 "''u''" "''n''"]
  by (auto simp: createDevKeyManager_def getCurrentKeyId_def setKeyManager_def)

text \<open>
  A token never outlives its configured lifetime: the expiry is a whole second, at most
  \<open>ttl\<close> seconds after the time of generation and less than one second before that, so rounding
  only ever shortens it; the \<open>exp\<close> claim in the signed payload is that expiry.
\<close>

theorem token_expiry_bounds:
  assumes "signs_compact sign"
  shows "gr_expiresAt (generate sign g input nowMs u n) \<le> nowMs + 1000 * gi_ttlSeconds input
    \<and> nowMs + 1000 * gi_ttlSeconds input < gr_expiresAt (generate sign g input nowMs u n) + 1000
    \<and> (\<exists>p. json_parse (jwt_part (gr_token (generate sign g input nowMs u n)) 1) = Some p \<and>
        get_prop p ''exp'' = JNum (of_int (gr_expiresAt (generate sign g input nowMs u n) div 1000)))"
proof (intro conjI)
  have "nowMs div 1000 * 1000 \<le> nowMs" "nowMs < nowMs div 1000 * 1000 + 1000"
    using div_mult_mod_eq [of nowMs 1000] pos_mod_bound [of 1000 nowMs] pos_mod_sign [of 1000 nowMs]
    by linarith+
  then show "gr_expiresAt (generate sign g input nowMs u n) \<le> nowMs + 1000 * gi_ttlSeconds input"
    "nowMs + 1000 * gi_ttlSeconds input < gr_expiresAt (generate sign g input nowMs u n) + 1000"
    by (simp_all add: generate_def Let_def algebra_simps)
  show "\<exists>p. json_parse (jwt_part (gr_token (generate sign g input nowMs u n)) 1) = Some p \<and>
        get_prop p ''exp'' = JNum (of_int (gr_expiresAt (generate sign g input nowMs u n) div 1000))"
    unfolding generated_payload [OF assms]
    by (simp add: token_payload_def) (simp add: generate_def Let_def)
qed

theorem token_expiry_bounds_witness:
  "gr_expiresAt (generate stub_sign (createTokenGenerator () ''k'')
     \<lparr>gi_operatorDid = ''d'', gi_robotId = ''r1'', gi_sessionId = ''s1'',
      gi_allowedActions = [], gi_ttlSeconds = 60\<rparr> 5999 ''u'' ''n'') \<le> 65999"
  using token_expiry_bounds [OF stub_signs_compact, of "createTokenGenerator () ''k''"
      "\<lparr>gi_operatorDid = ''d'', gi_robotId = ''r1'', gi_sessionId = ''s1'',
        gi_allowedActions = [], gi_ttlSeconds = 60\<rparr>" 5999 "''u''" "''n''"]
  by simp

end
