(* ===== verification/SessionPolicy.thy ===== *)
theory SessionPolicy
  imports Config Credentials PolicyStore TokenRegistry TokenKeys
begin

text \<open>
  \<open>routes/session-policy.ts\<close>: the policy check of a session request and the validation of a bearer
  token for a session. Logging is left out. The evaluator has no state, so the module variable that
  holds it is the flag \<open>evaluatorSet\<close>; the store is an option.
\<close>

section \<open>Tokens\<close>

definition DEFAULT_POLICY_ID :: string where
  "DEFAULT_POLICY_ID = ''default-policy''"

text \<open>The \<open>jti\<close> of the payload, whatever its type; \<open>JNull\<close> when there is none or decoding fails.\<close>

definition extractJtiFromToken :: "string \<Rightarrow> jsval" where
  "extractJtiFromToken token =
     (if length (str_split CHR ''.'' token) \<noteq> 3 then JNull
      else
        (case json_parse (jwt_part token 1) of
           None \<Rightarrow> JNull
         | Some payload \<Rightarrow>
             if get_prop payload ''jti'' = JUndef then JNull else get_prop payload ''jti''))"

definition isTokenValidForSession ::
    "string \<Rightarrow> string \<Rightarrow> tokenRegistry option \<Rightarrow> ms \<Rightarrow> bool \<times> tokenRegistry option" where
  "isTokenValidForSession token sessionId registry now =
     (case registry of
        None \<Rightarrow> (True, None)
      | Some r \<Rightarrow>
          (case extractJtiFromToken token of
             JStr jti \<Rightarrow>
               if jti = [] then (False, Some r)
               else
                 (case reg_get r jti of
                    None \<Rightarrow> (False, Some r)
                  | Some entry \<Rightarrow>
                      if te_sessionId entry = sessionId
                      then (let (valid, r') = reg_isValid r jti now in (valid, Some r'))
                      else (False, Some r))
           | _ \<Rightarrow> (False, Some r)))"

section \<open>Policy check\<close>

record policyEvaluationInput =
  pi_vcOrVp :: string
  pi_robotId :: string
  pi_requestedScope :: "string list"

record policyInfo =
  pl_policy_id :: string
  pl_version :: string
  pl_hash :: string

definition createDevModeResult :: policyInfo where
  "createDevModeResult =
     \<lparr>pl_policy_id = ''default-policy'', pl_version = ''1.0.0'', pl_hash = ''no-policy-configured''\<rparr>"

definition member_or_undef :: "(string \<times> jsval) list \<Rightarrow> string \<Rightarrow> jsval" where
  "member_or_undef ms k = (case jm_get ms k of None \<Rightarrow> JUndef | Some v \<Rightarrow> v)"

definition buildEvaluationContext ::
    "(string \<times> jsval) list \<Rightarrow> policyEvaluationInput \<Rightarrow> ms \<Rightarrow> jsval" where
  "buildEvaluationContext credential input now =
     JObj [(''credential'', JObj [(''issuer'', member_or_undef credential ''issuer''),
              (''subject'', member_or_undef credential ''subject''),
              (''role'', member_or_undef credential ''role'')]),
           (''context'', JObj [(''time'', JDate (Some now)), (''resource'', JStr (pi_robotId input)),
              (''action'', case pi_requestedScope input of [] \<Rightarrow> JUndef | a # as \<Rightarrow> JStr a)])]"

definition createPolicySuccess :: "policy \<Rightarrow> policyInfo" where
  "createPolicySuccess p =
     \<lparr>pl_policy_id = po_id p, pl_version = nat_to_dec (po_version p), pl_hash = po_hash p\<rparr>"

definition opt_str :: "string option \<Rightarrow> jsval" where
  "opt_str s = (case s of None \<Rightarrow> JUndef | Some t \<Rightarrow> JStr t)"

definition createPolicyDeniedError :: "string option \<Rightarrow> string option \<Rightarrow> httpReply" where
  "createPolicyDeniedError reason matchedRule =
     Reply 403 (JObj [(''error'', JStr ''policy_denied''),
       (''reason'', JStr (case reason of None \<Rightarrow> ''Access denied by policy'' | Some r \<Rightarrow> r)),
       (''matched_rule'', opt_str matchedRule)])"

definition evaluateSessionPolicy ::
    "(string \<Rightarrow> jsval option) \<Rightarrow> policyEvaluationInput \<Rightarrow> bool \<Rightarrow> policyStore option \<Rightarrow> ms \<Rightarrow> rat
      \<Rightarrow> httpReply + policyInfo" where
  "evaluateSessionPolicy decodeJwt input evaluatorSet store now duration =
     (case store of
        None \<Rightarrow> Inr createDevModeResult
      | Some ps \<Rightarrow>
          if \<not> evaluatorSet then Inr createDevModeResult
          else
            (case extractCredentialForPolicy decodeJwt (pi_vcOrVp input) of
               Inl (CredentialExtractionError m) \<Rightarrow> Inl (Reply 400 (error_body ''invalid_credential'' m))
             | Inr credential \<Rightarrow>
                 (case policy_get ps DEFAULT_POLICY_ID of
                    None \<Rightarrow> Inl (Reply 500
                      (error_body ''policy_not_configured'' ''Default policy not found''))
                  | Some p \<Rightarrow>
                      (let r = evaluate p (buildEvaluationContext credential input now)
                                 (pi_requestedScope input) now duration
                       in if er_decision r = Deny
                          then Inl (createPolicyDeniedError (er_reason r) (er_matchedRule r))
                          else Inr (createPolicySuccess p)))))"

section \<open>Facts\<close>

lemma token_valid_registered:
  assumes "fst (isTokenValidForSession token sid (Some r) now)"
  shows "\<exists>jti e. extractJtiFromToken token = JStr jti \<and> reg_get r jti = Some e \<and> te_sessionId e = sid \<and>
    now < te_expiresAt e \<and> fst (reg_isValid r jti now)"
  using assms
  by (auto simp: isTokenValidForSession_def Let_def case_prod_unfold isValid_answer
      split: jsval.splits if_splits option.splits)

lemma isTokenValid_registry:
  "snd (isTokenValidForSession token sid registry now) = None \<longleftrightarrow> registry = None"
  "snd (isTokenValidForSession token sid (Some r) now) = Some r' \<Longrightarrow> tr_tokens r' = tr_tokens r"
  by (auto simp: isTokenValidForSession_def Let_def case_prod_unfold
      split: jsval.splits if_splits option.splits)

lemma extract_generated:
  assumes "signs_compact sign"
  shows "extractJtiFromToken (gr_token (generate sign g input nowMs u n)) =
    JStr (gr_tokenId (generate sign g input nowMs u n))"
proof -
  have "length (str_split CHR ''.'' (gr_token (generate sign g input nowMs u n))) = 3"
    by (simp add: generate_def Let_def signed_parts(1) [OF assms])
  then show ?thesis
    unfolding extractJtiFromToken_def generated_payload [OF assms]
    by (simp add: token_payload_def) (simp add: generate_def Let_def)
qed

section \<open>Properties\<close>

text \<open>
  (C22) When the policy engine is configured, a session request passes the check only if the
  credential in it can be extracted and the stored default policy allows the request under the
  context built from it: some allow rule of that policy matches and no deny rule does. The policy
  reported is the one evaluated.
\<close>

theorem session_policy_gate:
  assumes "evaluateSessionPolicy decodeJwt input True (Some ps) now d = Inr info"
  shows "\<exists>credential p. extractCredentialForPolicy decodeJwt (pi_vcOrVp input) = Inr credential \<and>
    policy_get ps ''default-policy'' = Some p \<and> info = createPolicySuccess p \<and>
    (\<exists>r \<in> set (po_rules p). pr_effect r = Allow \<and>
       matchesRule r (buildEvaluationContext credential input now) (pi_requestedScope input)) \<and>
    \<not> (\<exists>r \<in> set (po_rules p). pr_effect r = Deny \<and>
       matchesRule r (buildEvaluationContext credential input now) (pi_requestedScope input))"
proof -
  obtain credential p where *: "extractCredentialForPolicy decodeJwt (pi_vcOrVp input) = Inr credential"
    "policy_get ps ''default-policy'' = Some p" "info = createPolicySuccess p"
    "er_decision (evaluate p (buildEvaluationContext credential input now)
       (pi_requestedScope input) now d) \<noteq> Deny"
    using assms by (auto simp: evaluateSessionPolicy_def DEFAULT_POLICY_ID_def Let_def
        split: sum.splits extractionError.splits option.splits if_splits)
  from *(4) have "er_decision (evaluate p (buildEvaluationContext credential input now)
       (pi_requestedScope input) now d) = Allow"
    by (cases "er_decision (evaluate p (buildEvaluationContext credential input now)
       (pi_requestedScope input) now d)") simp_all
  with * show ?thesis unfolding evaluate_decides by blast
qed

section \<open>The default policy\<close>

text \<open>The policy that \<open>index.ts\<close> creates at startup.\<close>

definition defaultPolicyRules :: "policyRule list" where
  "defaultPolicyRules =
     [\<lparr>pr_id = ''allow-operators'', pr_effect = Allow,
       pr_conditions = [\<lparr>pc_field = ''credential.role'', pc_operator = OpIn,
          pc_value = JArr [JStr ''operator'', JStr ''admin'']\<rparr>],
       pr_actions = [''teleop:view'', ''teleop:control'', ''teleop:estop''], pr_priority = 100,
       pr_description = Some ''Allow operators and admins to control robots''\<rparr>]"

definition defaultPolicyInput :: createPolicyInput where
  "defaultPolicyInput = \<lparr>ci_id = ''default-policy'', ci_name = ''Default Teleoperation Policy'',
     ci_description = None, ci_rules = defaultPolicyRules\<rparr>"

definition defaultPolicyStore :: "(string \<Rightarrow> string) \<Rightarrow> ms \<Rightarrow> policyStore" where
  "defaultPolicyStore sha256 now =
     (case policy_create sha256 (createPolicyStore None) defaultPolicyInput now of
        Inl e \<Rightarrow> createPolicyStore None
      | Inr (p, s) \<Rightarrow> s)"

definition defaultPolicy :: "(string \<Rightarrow> string) \<Rightarrow> ms \<Rightarrow> policy" where
  "defaultPolicy sha256 now =
     \<lparr>po_id = ''default-policy'', po_version = 1, po_name = ''Default Teleoperation Policy'',
      po_description = None, po_rules = defaultPolicyRules, po_createdAt = now, po_updatedAt = now,
      po_hash = computeRulesHash sha256 defaultPolicyRules\<rparr>"

lemma defaultPolicyStore_get:
  "policy_get (defaultPolicyStore sha256 now) ''default-policy'' = Some (defaultPolicy sha256 now)"
  by (simp add: defaultPolicyStore_def createPolicyStore_def policy_create_def defaultPolicyInput_def
      policy_get_def DEFAULT_MAX_POLICIES_def defaultPolicy_def Let_def)

lemma role_field:
  "getFieldValue ''credential.role'' (buildEvaluationContext credential input now) =
     member_or_undef credential ''role''"
  by (simp add: getFieldValue_def buildEvaluationContext_def)

lemma default_rule_matches:
  "matchesRule (hd defaultPolicyRules) (buildEvaluationContext credential input now) scope \<longleftrightarrow>
     (\<exists>a \<in> set scope. a \<in> {''teleop:view'', ''teleop:control'', ''teleop:estop''}) \<and>
     member_or_undef credential ''role'' \<in> {JStr ''operator'', JStr ''admin''}"
  unfolding matchesRule_iff
  by (auto simp: defaultPolicyRules_def evaluateCondition_def role_field arr_includes_def Let_def
      dest: strict_eq_imp_eq)

lemma default_policy_passes:
  "(\<exists>info. evaluateSessionPolicy decodeJwt input True (Some (defaultPolicyStore sha256 t0)) now d
      = Inr info) \<longleftrightarrow>
     (\<exists>credential. extractCredentialForPolicy decodeJwt (pi_vcOrVp input) = Inr credential \<and>
        member_or_undef credential ''role'' \<in> {JStr ''operator'', JStr ''admin''} \<and>
        (\<exists>a \<in> set (pi_requestedScope input).
           a \<in> {''teleop:view'', ''teleop:control'', ''teleop:estop''}))"
proof (cases "extractCredentialForPolicy decodeJwt (pi_vcOrVp input)")
  case (Inl e)
  then show ?thesis
    by (cases e) (simp add: evaluateSessionPolicy_def)
next
  case (Inr credential)
  let ?ctx = "buildEvaluationContext credential input now"
  have "er_decision (evaluate (defaultPolicy sha256 t0) ?ctx (pi_requestedScope input) now d) = Allow \<longleftrightarrow>
      matchesRule (hd defaultPolicyRules) ?ctx (pi_requestedScope input)"
    unfolding evaluate_decides by (simp add: defaultPolicy_def) (simp add: defaultPolicyRules_def)
  moreover have "er_decision r = Deny \<longleftrightarrow> er_decision r \<noteq> Allow" for r :: evaluationResult
    by (cases "er_decision r") simp_all
  ultimately show ?thesis
    using Inr default_rule_matches [of credential input now "pi_requestedScope input"]
    by (simp add: evaluateSessionPolicy_def DEFAULT_POLICY_ID_def defaultPolicyStore_get Let_def)
qed

text \<open>
  Under the policy created at startup a request passes exactly when the credential can be
  extracted, its role is \<open>operator\<close> or \<open>admin\<close>, and at least one requested action is one of the three
  teleoperation actions; otherwise it is refused with 400 or 403.
\<close>

theorem default_policy_decides:
  "(\<exists>info. evaluateSessionPolicy decodeJwt input True (Some (defaultPolicyStore sha256 t0)) now d
      = Inr info) \<longleftrightarrow>
     (\<exists>credential. extractCredentialForPolicy decodeJwt (pi_vcOrVp input) = Inr credential \<and>
        member_or_undef credential ''role'' \<in> {JStr ''operator'', JStr ''admin''} \<and>
        (\<exists>a \<in> set (pi_requestedScope input).
           a \<in> {''teleop:view'', ''teleop:control'', ''teleop:estop''}))"
  by (rule default_policy_passes)

definition sample_request :: policyEvaluationInput where
  "sample_request = \<lparr>pi_vcOrVp = ''jwt'', pi_robotId = ''r1'',
     pi_requestedScope = [''teleop:view'', ''fleet:admin'']\<rparr>"

lemma sample_request_passes:
  "\<exists>info. evaluateSessionPolicy (\<lambda>t. Some sample_payload) sample_request True
     (Some (defaultPolicyStore id 0)) now 0 = Inr info"
  using default_policy_passes [of "\<lambda>t. Some sample_payload" sample_request id 0 now 0]
  by (simp add: sample_request_def extractCredentialForPolicy_def sample_payload_def
      buildEvaluationCredential_def member_or_undef_def Let_def)

theorem session_policy_gate_witness:
  "\<exists>credential. extractCredentialForPolicy (\<lambda>t. Some sample_payload) ''jwt'' = Inr credential"
  using session_policy_gate sample_request_passes [of 5] by (fastforce simp: sample_request_def)

end
