(* ===== verification/Sessions.thy ===== *)
theory Sessions
  imports SessionPolicy
begin

text \<open>
  \<open>routes/sessions.ts\<close>: creating, reading, terminating and refreshing sessions. The module variables
  are the fields of \<open>sessionsModule\<close>; the token registry, shared with other modules, is passed as
  state and \<open>None\<close> when it is not set. Request bodies are taken at their declared types: nothing checks
  them, and what an ill-typed one leads to is up to \<open>jose\<close>, which puts its fields into the token.

  A handler that awaits the token generator runs in two steps: up to the \<open>await\<close>, returning either
  its reply or what it still has to do (\<open>pendingCreate\<close>, \<open>pendingRefresh\<close>), and the rest, which runs
  after other requests may have been handled. A TTL that is \<open>NaN\<close> makes jose reject the expiry.
  The session object that a refresh holds is the one stored under its id.
\<close>

section \<open>State\<close>

datatype sessionStatus = Pending | Active | Terminated | Revoked

definition status_text :: "sessionStatus \<Rightarrow> string" where
  "status_text s = (case s of Pending \<Rightarrow> ''pending'' | Active \<Rightarrow> ''active''
     | Terminated \<Rightarrow> ''terminated'' | Revoked \<Rightarrow> ''revoked'')"

record sessionState =
  ss_session_id :: string
  ss_robot_id :: string
  ss_operator_did :: string
  ss_state :: sessionStatus
  ss_created_at :: string
  ss_expires_at :: string
  ss_effective_scope :: "string list"

record 'key sessionsModule =
  sx_sessions :: "(string, sessionState) jsmap"
  sx_tokenGenerator :: "'key tokenGenerator option"
  sx_evaluatorSet :: bool
  sx_policyStore :: "policyStore option"

record createSessionRequest =
  cr_robot_id :: string
  cr_operator_did :: string
  cr_vc_or_vp :: string
  cr_requested_scope :: "string list option"

text \<open>What one call of a handler gets from outside: random values, clock readings, libraries.\<close>

record 'key callEnv =
  ev_now :: ms
  ev_duration :: rat
  ev_sessionId :: string
  ev_jtiUuid :: string
  ev_nonceUuid :: string
  ev_decodeJwt :: "string \<Rightarrow> jsval option"
  ev_sign :: "'key \<Rightarrow> jsval \<Rightarrow> jsval \<Rightarrow> string"

record pendingCreate =
  pc_sessionId :: string
  pc_robotId :: string
  pc_operatorDid :: string
  pc_effectiveScope :: "string list"
  pc_tokenResult :: tokenGenerationResult
  pc_policyInfo :: policyInfo
  pc_hostname :: string

record pendingRefresh =
  pf_sessionId :: string
  pf_robotId :: string
  pf_operatorDid :: string
  pf_tokenResult :: tokenGenerationResult

section \<open>Helpers\<close>

definition setTokenGenerator :: "'key sessionsModule \<Rightarrow> 'key tokenGenerator \<Rightarrow> 'key sessionsModule" where
  "setTokenGenerator m generator = m\<lparr>sx_tokenGenerator := Some generator\<rparr>"

definition setPolicyEvaluator :: "'key sessionsModule \<Rightarrow> 'key sessionsModule" where
  "setPolicyEvaluator m = m\<lparr>sx_evaluatorSet := True\<rparr>"

definition setPolicyStore :: "'key sessionsModule \<Rightarrow> policyStore \<Rightarrow> 'key sessionsModule" where
  "setPolicyStore m store = m\<lparr>sx_policyStore := Some store\<rparr>"

definition registerToken :: "tokenRegistry option \<Rightarrow> tokenEntry \<Rightarrow> tokenRegistry option" where
  "registerToken registry entry = map_option (\<lambda>r. reg_register r entry) registry"

definition session_json :: "sessionState \<Rightarrow> jsval" where
  "session_json s =
     JObj [(''session_id'', JStr (ss_session_id s)), (''robot_id'', JStr (ss_robot_id s)),
           (''operator_did'', JStr (ss_operator_did s)), (''state'', JStr (status_text (ss_state s))),
           (''created_at'', JStr (ss_created_at s)), (''expires_at'', JStr (ss_expires_at s)),
           (''effective_scope'', JArr (map JStr (ss_effective_scope s)))]"

definition buildSessionResponse ::
    "string \<Rightarrow> tokenGenerationResult \<Rightarrow> string \<Rightarrow> config \<Rightarrow> string list \<Rightarrow> policyInfo \<Rightarrow> jsval" where
  "buildSessionResponse sessionId tokenResult hostname config effectiveScope info =
     JObj [(''session_id'', JStr sessionId), (''capability_token'', JStr (gr_token tokenResult)),
       (''signaling_url'', JStr (''ws://'' @ hostname @ ''/v1/signal'')),
       (''ice_servers'', JArr [JObj [(''urls'', JStr (cf_stunUrl config))],
          JObj [(''urls'', JStr (cf_turnUrl config)), (''username'', JStr ''stub-user''),
                (''credential'', JStr ''stub-credential'')]]),
       (''expires_at'', JStr (toISOString (gr_expiresAt tokenResult))),
       (''effective_scope'', JArr (map JStr effectiveScope)),
       (''limits'', JObj [(''max_control_rate_hz'', json_num (cf_maxControlRateHz config)),
          (''max_video_bitrate_kbps'', json_num (cf_maxVideoBitrateKbps config))]),
       (''policy'', JObj [(''policy_id'', JStr (pl_policy_id info)),
          (''version'', JStr (pl_version info)), (''hash'', JStr (pl_hash info))])]"

definition createSession ::
    "'key sessionsModule \<Rightarrow> string \<Rightarrow> string \<Rightarrow> string \<Rightarrow> string list \<Rightarrow> ms \<Rightarrow> ms \<Rightarrow> 'key sessionsModule" where
  "createSession m sessionId robotId operatorDid effectiveScope expiresAt now =
     m\<lparr>sx_sessions := jm_set (sx_sessions m) sessionId
        \<lparr>ss_session_id = sessionId, ss_robot_id = robotId, ss_operator_did = operatorDid,
         ss_state = Pending, ss_created_at = toISOString now, ss_expires_at = toISOString expiresAt,
         ss_effective_scope = effectiveScope\<rparr>\<rparr>"

text \<open>\<open>authHeader?.startsWith('Bearer ')\<close> and \<open>slice(7)\<close>.\<close>

definition extractBearerToken :: "string option \<Rightarrow> string option" where
  "extractBearerToken authHeader =
     (case authHeader of
        None \<Rightarrow> None
      | Some h \<Rightarrow> if starts_with h ''Bearer '' then Some (drop 7 h) else None)"

definition getSession :: "'key sessionsModule \<Rightarrow> string \<Rightarrow> sessionState option" where
  "getSession m sessionId = jm_get (sx_sessions m) sessionId"

definition updateSessionState ::
    "'key sessionsModule \<Rightarrow> string \<Rightarrow> sessionStatus \<Rightarrow> bool \<times> 'key sessionsModule" where
  "updateSessionState m sessionId state =
     (case jm_get (sx_sessions m) sessionId of
        None \<Rightarrow> (False, m)
      | Some s \<Rightarrow> (True, m\<lparr>sx_sessions := jm_set (sx_sessions m) sessionId (s\<lparr>ss_state := state\<rparr>)\<rparr>))"

section \<open>Handlers\<close>

definition post_session_begin ::
    "config \<Rightarrow> 'key sessionsModule \<Rightarrow> createSessionRequest \<Rightarrow> string \<Rightarrow> 'key callEnv
      \<Rightarrow> httpReply + pendingCreate" where
  "post_session_begin config m body hostname ev =
     (case sx_tokenGenerator m of
        None \<Rightarrow> Inl (Reply 500
          (error_body ''token_generator_not_configured'' ''Token generator not initialized''))
      | Some g \<Rightarrow>
          (let effectiveScope = (case cr_requested_scope body of
                 None \<Rightarrow> [''teleop:view'', ''teleop:control''] | Some sc \<Rightarrow> sc)
           in case evaluateSessionPolicy (ev_decodeJwt ev)
                     \<lparr>pi_vcOrVp = cr_vc_or_vp body, pi_robotId = cr_robot_id body,
                      pi_requestedScope = effectiveScope\<rparr>
                     (sx_evaluatorSet m) (sx_policyStore m) (ev_now ev) (ev_duration ev) of
                Inl reply \<Rightarrow> Inl reply
              | Inr info \<Rightarrow>
                  (case cf_sessionTtlSeconds config of
                     None \<Rightarrow> Inl HandlerError
                   | Some ttl \<Rightarrow>
                       Inr \<lparr>pc_sessionId = ev_sessionId ev, pc_robotId = cr_robot_id body,
                            pc_operatorDid = cr_operator_did body,
                            pc_effectiveScope = effectiveScope,
                            pc_tokenResult = generate (ev_sign ev) g
                              \<lparr>gi_operatorDid = cr_operator_did body, gi_robotId = cr_robot_id body,
                               gi_sessionId = ev_sessionId ev, gi_allowedActions = effectiveScope,
                               gi_ttlSeconds = ttl\<rparr> (ev_now ev) (ev_jtiUuid ev) (ev_nonceUuid ev),
                            pc_policyInfo = info, pc_hostname = hostname\<rparr>)))"

definition post_session_finish ::
    "config \<Rightarrow> 'key sessionsModule \<Rightarrow> tokenRegistry option \<Rightarrow> pendingCreate \<Rightarrow> ms
      \<Rightarrow> httpReply \<times> 'key sessionsModule \<times> tokenRegistry option" where
  "post_session_finish config m registry p now =
     (let tokenResult = pc_tokenResult p;
          registry' = registerToken registry
            \<lparr>te_jti = gr_tokenId tokenResult, te_sessionId = pc_sessionId p,
             te_operatorDid = pc_operatorDid p, te_robotId = pc_robotId p,
             te_expiresAt = gr_expiresAt tokenResult\<rparr>;
          m' = createSession m (pc_sessionId p) (pc_robotId p) (pc_operatorDid p)
                 (pc_effectiveScope p) (gr_expiresAt tokenResult) now
      in (Reply 201 (buildSessionResponse (pc_sessionId p) tokenResult (pc_hostname p) config
            (pc_effectiveScope p) (pc_policyInfo p)), m', registry'))"

definition session_not_found :: httpReply where
  "session_not_found = Reply 404 (error_body ''session_not_found'' ''Session not found'')"

definition get_session_handler :: "'key sessionsModule \<Rightarrow> string \<Rightarrow> httpReply" where
  "get_session_handler m sessionId =
     (case jm_get (sx_sessions m) sessionId of
        None \<Rightarrow> session_not_found
      | Some s \<Rightarrow> Reply 200 (session_json s))"

definition revoke_session_tokens :: "tokenRegistry option \<Rightarrow> string \<Rightarrow> ms \<Rightarrow> nat \<times> tokenRegistry option" where
  "revoke_session_tokens registry sessionId now =
     (case registry of
        None \<Rightarrow> (0, None)
      | Some r \<Rightarrow> (let (n, r') = revokeBySession r sessionId None now in (n, Some r')))"

definition delete_session_handler ::
    "'key sessionsModule \<Rightarrow> tokenRegistry option \<Rightarrow> string \<Rightarrow> ms
      \<Rightarrow> httpReply \<times> 'key sessionsModule \<times> tokenRegistry option" where
  "delete_session_handler m registry sessionId now =
     (case jm_get (sx_sessions m) sessionId of
        None \<Rightarrow> (session_not_found, m, registry)
      | Some s \<Rightarrow>
          (let m' = m\<lparr>sx_sessions := jm_set (sx_sessions m) sessionId (s\<lparr>ss_state := Terminated\<rparr>)\<rparr>;
               (n, registry') = revoke_session_tokens registry sessionId now
           in (Reply 200 (JObj [(''session_id'', JStr sessionId), (''state'', JStr ''terminated'')]),
               m', registry')))"

definition refresh_begin ::
    "config \<Rightarrow> 'key sessionsModule \<Rightarrow> tokenRegistry option \<Rightarrow> string \<Rightarrow> string option \<Rightarrow> 'key callEnv
      \<Rightarrow> (httpReply + pendingRefresh) \<times> tokenRegistry option" where
  "refresh_begin config m registry sessionId authHeader ev =
     (case extractBearerToken authHeader of
        None \<Rightarrow> (Inl (Reply 401 (error_body ''missing_authorization'' ''Authorization header required'')),
                 registry)
      | Some bearerToken \<Rightarrow>
          if bearerToken = []
          then (Inl (Reply 401 (error_body ''missing_authorization'' ''Authorization header required'')),
                registry)
          else
            (case jm_get (sx_sessions m) sessionId of
               None \<Rightarrow> (Inl session_not_found, registry)
             | Some s \<Rightarrow>
                 if ss_state s \<noteq> Pending \<and> ss_state s \<noteq> Active
                 then (Inl (Reply 403 (error_body ''session_not_active'' ''Session is not active'')),
                       registry)
                 else
                   (let (valid, registry1) =
                          isTokenValidForSession bearerToken sessionId registry (ev_now ev)
                    in if \<not> valid
                       then (Inl (Reply 403
                               (error_body ''invalid_token'' ''Token is not valid for this session'')),
                             registry1)
                       else
                         (case sx_tokenGenerator m of
                            None \<Rightarrow> (Inl (Reply 500 (error_body ''token_generator_not_configured''
                                      ''Token generator not initialized'')), registry1)
                          | Some g \<Rightarrow>
                              (let registry2 =
                                     snd (revoke_session_tokens registry1 sessionId (ev_now ev))
                               in case cf_sessionTtlSeconds config of
                                    None \<Rightarrow> (Inl HandlerError, registry2)
                                  | Some ttl \<Rightarrow>
                                      (Inr \<lparr>pf_sessionId = sessionId, pf_robotId = ss_robot_id s,
                                         pf_operatorDid = ss_operator_did s,
                                         pf_tokenResult = generate (ev_sign ev) g
                                           \<lparr>gi_operatorDid = ss_operator_did s,
                                            gi_robotId = ss_robot_id s, gi_sessionId = sessionId,
                                            gi_allowedActions = ss_effective_scope s,
                                            gi_ttlSeconds = ttl\<rparr>
                                           (ev_now ev) (ev_jtiUuid ev) (ev_nonceUuid ev)\<rparr>,
                                       registry2))))))"

definition refresh_finish ::
    "'key sessionsModule \<Rightarrow> tokenRegistry option \<Rightarrow> pendingRefresh
      \<Rightarrow> httpReply \<times> 'key sessionsModule \<times> tokenRegistry option" where
  "refresh_finish m registry p =
     (let tokenResult = pf_tokenResult p;
          registry' = registerToken registry
            \<lparr>te_jti = gr_tokenId tokenResult, te_sessionId = pf_sessionId p,
             te_operatorDid = pf_operatorDid p, te_robotId = pf_robotId p,
             te_expiresAt = gr_expiresAt tokenResult\<rparr>;
          m' = (case jm_get (sx_sessions m) (pf_sessionId p) of
                  None \<Rightarrow> m
                | Some s \<Rightarrow> m\<lparr>sx_sessions := jm_set (sx_sessions m) (pf_sessionId p)
                    (s\<lparr>ss_expires_at := toISOString (gr_expiresAt tokenResult)\<rparr>)\<rparr>)
      in (Reply 200 (JObj [(''session_id'', JStr (pf_sessionId p)),
            (''capability_token'', JStr (gr_token tokenResult)),
            (''expires_at'', JStr (toISOString (gr_expiresAt tokenResult)))]), m', registry'))"

section \<open>Facts\<close>

lemma revokeBySession_get:
  "registry_ok r \<Longrightarrow> reg_get (snd (revokeBySession r sid reason now)) j =
     (case reg_get r j of None \<Rightarrow> None | Some e \<Rightarrow> if te_sessionId e = sid then None else Some e)"
  using revoke_matching_get [of r reason now "\<lambda>e. te_sessionId e = sid" j]
  by (simp add: revokeBySession_def getBySession_def Let_def)

lemma revokeBySession_ok: "registry_ok r \<Longrightarrow> registry_ok (snd (revokeBySession r sid reason now))"
  by (simp add: revokeBySession_def Let_def revoke_entries_ok)

lemma isTokenValid_registry_ok:
  "registry_ok r \<Longrightarrow> snd (isTokenValidForSession token sid (Some r) now) = Some r' \<Longrightarrow> registry_ok r'"
  by (auto simp: isTokenValidForSession_def Let_def case_prod_unfold isValid_ok
      split: jsval.splits if_splits option.splits)

lemma isTokenValid_None_iff:
  "snd (isTokenValidForSession token sid registry now) = None \<longleftrightarrow> registry = None"
  by (rule isTokenValid_registry(1))

lemma refresh_begin_pending:
  assumes "refresh_begin config m (Some r) sid authHeader ev = (Inr p, registry')"
  shows "\<exists>s tok r1. jm_get (sx_sessions m) sid = Some s \<and> ss_state s \<in> {Pending, Active} \<and>
    authHeader = Some (''Bearer '' @ tok) \<and> fst (isTokenValidForSession tok sid (Some r) (ev_now ev)) \<and>
    snd (isTokenValidForSession tok sid (Some r) (ev_now ev)) = Some r1 \<and>
    registry' = Some (snd (revokeBySession r1 sid None (ev_now ev))) \<and>
    pf_sessionId p = sid \<and> pf_operatorDid p = ss_operator_did s \<and> pf_robotId p = ss_robot_id s"
proof -
  obtain h where h: "authHeader = Some h" "starts_with h ''Bearer ''"
    using assms by (auto simp: refresh_begin_def extractBearerToken_def split: option.splits if_splits)
  then obtain tok where tok: "h = ''Bearer '' @ tok" by (auto simp: starts_with_append)
  then have bearer: "extractBearerToken authHeader = Some tok"
    using h by (simp add: extractBearerToken_def)
  obtain r1 where r1: "snd (isTokenValidForSession tok sid (Some r) (ev_now ev)) = Some r1"
    using isTokenValid_None_iff [of tok sid "Some r" "ev_now ev"]
    by (cases "snd (isTokenValidForSession tok sid (Some r) (ev_now ev))") auto
  then obtain s where s: "jm_get (sx_sessions m) sid = Some s" "ss_state s \<in> {Pending, Active}"
    and ok: "fst (isTokenValidForSession tok sid (Some r) (ev_now ev))"
    and p: "registry' = Some (snd (revokeBySession r1 sid None (ev_now ev)))" "pf_sessionId p = sid"
      "pf_operatorDid p = ss_operator_did s" "pf_robotId p = ss_robot_id s"
    using assms bearer
    by (auto simp: refresh_begin_def revoke_session_tokens_def Let_def case_prod_unfold
        split: option.splits if_splits)
  show ?thesis using s ok p r1 h(1) tok by blast
qed

section \<open>Properties\<close>

text \<open>
  (C19) A refresh goes ahead only for a session that is pending or active and only with a bearer
  token that the registry knows, for this very session, unexpired and not revoked; when it goes
  ahead, every token of the session is out of the registry before the new one is generated, and the
  new token is for the session's own operator and robot.
\<close>

theorem refresh_guarded:
  assumes "registry_ok r" and "refresh_begin config m (Some r) sid authHeader ev = (Inr p, registry')"
  shows "\<exists>s tok jti e r'. jm_get (sx_sessions m) sid = Some s \<and> ss_state s \<in> {Pending, Active} \<and>
    authHeader = Some (''Bearer '' @ tok) \<and> extractJtiFromToken tok = JStr jti \<and>
    reg_get r jti = Some e \<and> te_sessionId e = sid \<and> ev_now ev < te_expiresAt e \<and>
    fst (reg_isValid r jti (ev_now ev)) \<and>
    registry' = Some r' \<and> (\<forall>j e. reg_get r' j = Some e \<longrightarrow> te_sessionId e \<noteq> sid) \<and>
    pf_sessionId p = sid \<and> pf_operatorDid p = ss_operator_did s \<and> pf_robotId p = ss_robot_id s"
proof -
  obtain s tok r1 where *: "jm_get (sx_sessions m) sid = Some s" "ss_state s \<in> {Pending, Active}"
    "authHeader = Some (''Bearer '' @ tok)" "fst (isTokenValidForSession tok sid (Some r) (ev_now ev))"
    "snd (isTokenValidForSession tok sid (Some r) (ev_now ev)) = Some r1"
    "registry' = Some (snd (revokeBySession r1 sid None (ev_now ev)))"
    "pf_sessionId p = sid" "pf_operatorDid p = ss_operator_did s" "pf_robotId p = ss_robot_id s"
    using refresh_begin_pending [OF assms(2)] by blast
  have "registry_ok r1" using isTokenValid_registry_ok [OF assms(1) *(5)] .
  then have "\<forall>j e. reg_get (snd (revokeBySession r1 sid None (ev_now ev))) j = Some e \<longrightarrow>
      te_sessionId e \<noteq> sid"
    by (simp add: revokeBySession_get split: option.splits)
  with * token_valid_registered [OF *(4)] show ?thesis by blast
qed

definition sample_generator :: "unit tokenGenerator" where
  "sample_generator = createTokenGenerator () ''dev-key-1''"

definition sample_module :: "unit sessionsModule" where
  "sample_module = \<lparr>sx_sessions = [], sx_tokenGenerator = Some sample_generator,
     sx_evaluatorSet = True, sx_policyStore = Some (defaultPolicyStore id 0)\<rparr>"

definition sample_ev :: "ms \<Rightarrow> string \<Rightarrow> string \<Rightarrow> unit callEnv" where
  "sample_ev now sid u = \<lparr>ev_now = now, ev_duration = 0, ev_sessionId = sid, ev_jtiUuid = u,
     ev_nonceUuid = ''n'', ev_decodeJwt = \<lambda>t. Some sample_payload, ev_sign = stub_sign\<rparr>"

definition sample_config :: config where
  "sample_config = loadConfig (\<lambda>v. None)"

lemma sample_config_ttl: "cf_sessionTtlSeconds sample_config = Some 3600"
  by (simp add: sample_config_def loadConfig_def env_or_def parse_int10_def is_space_def is_digit_def
      dec_value_def digit_val_def)

definition sample_body :: createSessionRequest where
  "sample_body = \<lparr>cr_robot_id = ''r1'', cr_operator_did = ''did:key:m'', cr_vc_or_vp = ''jwt'',
     cr_requested_scope = Some [''teleop:view'', ''fleet:admin'']\<rparr>"

lemma issued_token_iff:
  assumes "signs_compact (ev_sign ev)"
    and "post_session_begin config m body hostname ev = Inr p"
    and "post_session_finish config m1 (Some r) p t1 = (reply, m2, Some r2)"
    and "\<And>c. tr_revocationCache r = Some c \<Longrightarrow> \<not> is_revoked_at c (gr_tokenId (pc_tokenResult p)) now"
  shows "fst (isTokenValidForSession (gr_token (pc_tokenResult p)) sid (Some r2) now) \<longleftrightarrow>
    sid = pc_sessionId p \<and> now < gr_expiresAt (pc_tokenResult p)"
proof -
  obtain g input where gen: "pc_tokenResult p =
      generate (ev_sign ev) g input (ev_now ev) (ev_jtiUuid ev) (ev_nonceUuid ev)"
    using assms(2) by (auto simp: post_session_begin_def Let_def split: option.splits sum.splits)
  have jti: "extractJtiFromToken (gr_token (pc_tokenResult p)) = JStr (gr_tokenId (pc_tokenResult p))"
    unfolding gen by (rule extract_generated [OF assms(1)])
  have ne: "gr_tokenId (pc_tokenResult p) \<noteq> []" unfolding gen by (simp add: generate_def Let_def)
  have r2: "r2 = reg_register r \<lparr>te_jti = gr_tokenId (pc_tokenResult p), te_sessionId = pc_sessionId p,
      te_operatorDid = pc_operatorDid p, te_robotId = pc_robotId p,
      te_expiresAt = gr_expiresAt (pc_tokenResult p)\<rparr>"
    using assms(3) by (auto simp: post_session_finish_def Let_def registerToken_def)
  have cache: "tr_revocationCache r2 = tr_revocationCache r" by (simp add: r2 reg_register_def)
  have get: "reg_get r2 (gr_tokenId (pc_tokenResult p)) = Some
      \<lparr>te_jti = gr_tokenId (pc_tokenResult p), te_sessionId = pc_sessionId p,
       te_operatorDid = pc_operatorDid p, te_robotId = pc_robotId p,
       te_expiresAt = gr_expiresAt (pc_tokenResult p)\<rparr>"
    by (simp add: r2 register_get)
  show ?thesis
    using assms(4) get
    by (auto simp: isTokenValidForSession_def jti ne Let_def case_prod_unfold isValid_answer cache
        split: option.splits)
qed

lemma sample_begin:
  "\<exists>p. post_session_begin sample_config sample_module sample_body ''host'' (sample_ev 5000 ''s1'' ''u'') = Inr p
    \<and> pc_sessionId p = ''s1'' \<and> pc_effectiveScope p = [''teleop:view'', ''fleet:admin'']
    \<and> gr_expiresAt (pc_tokenResult p) = 3605000 \<and> pc_operatorDid p = ''did:key:m''"
proof -
  obtain info where "evaluateSessionPolicy (\<lambda>t. Some sample_payload) sample_request True
     (Some (defaultPolicyStore id 0)) 5000 0 = Inr info"
    using sample_request_passes [of 5000] by blast
  then show ?thesis
    by (simp add: post_session_begin_def sample_module_def sample_body_def sample_ev_def
        sample_request_def sample_config_ttl Let_def generate_def)
qed

text \<open>A concrete session: created at 5000, refreshed at 6000.\<close>

lemma sample_created:
  "\<exists>p m2 r2 reply. post_session_begin sample_config sample_module sample_body ''host''
      (sample_ev 5000 ''s1'' ''u'') = Inr p \<and> pc_sessionId p = ''s1'' \<and>
    post_session_finish sample_config sample_module (Some createTokenRegistry) p 5001
      = (reply, m2, Some r2) \<and> registry_ok r2 \<and>
    fst (isTokenValidForSession (gr_token (pc_tokenResult p)) ''s1'' (Some r2) 6000) \<and>
    (\<exists>s. jm_get (sx_sessions m2) ''s1'' = Some s \<and> ss_state s = Pending) \<and>
    sx_tokenGenerator m2 = Some sample_generator"
proof -
  obtain p where p: "post_session_begin sample_config sample_module sample_body ''host''
      (sample_ev 5000 ''s1'' ''u'') = Inr p" "pc_sessionId p = ''s1''"
      "gr_expiresAt (pc_tokenResult p) = 3605000"
    using sample_begin by blast
  obtain reply m2 r2 where f: "post_session_finish sample_config sample_module (Some createTokenRegistry) p 5001
      = (reply, m2, Some r2)"
    by (simp add: post_session_finish_def Let_def registerToken_def)
  have ok: "registry_ok r2"
    using f by (auto simp: post_session_finish_def Let_def registerToken_def
        register_ok [OF create_registry_ok])
  have signs: "signs_compact (ev_sign (sample_ev 5000 ''s1'' ''u''))"
    by (simp add: sample_ev_def stub_signs_compact)
  have "fst (isTokenValidForSession (gr_token (pc_tokenResult p)) ''s1'' (Some r2) 6000)"
    using issued_token_iff [OF signs p(1) f, of 6000 "''s1''"] p(2,3)
    by (auto simp: createTokenRegistry_def)
  moreover have "\<exists>s. jm_get (sx_sessions m2) ''s1'' = Some s \<and> ss_state s = Pending"
    "sx_tokenGenerator m2 = Some sample_generator"
    using f p(2) by (auto simp: post_session_finish_def Let_def createSession_def jm.get_put sample_module_def)
  ultimately show ?thesis using p f ok by blast
qed

lemma sample_refresh:
  "\<exists>(m :: unit sessionsModule) r sid h p registry'. registry_ok r \<and>
     refresh_begin sample_config m (Some r) sid h (sample_ev 6000 ''x'' ''u2'') = (Inr p, registry')"
proof -
  obtain p :: pendingCreate and r :: tokenRegistry and m :: "unit sessionsModule" where c: "registry_ok r"
    "fst (isTokenValidForSession (gr_token (pc_tokenResult p)) ''s1'' (Some r) 6000)"
    "\<exists>s. jm_get (sx_sessions m) ''s1'' = Some s \<and> ss_state s = Pending"
    "sx_tokenGenerator m = Some sample_generator"
    using sample_created by blast
  have "gr_token (pc_tokenResult p) \<noteq> []"
    using c(2) extract_generated
    by (auto simp: isTokenValidForSession_def extractJtiFromToken_def)
  then have "\<exists>p' registry'. refresh_begin sample_config m (Some r) ''s1''
      (Some (''Bearer '' @ gr_token (pc_tokenResult p))) (sample_ev 6000 ''x'' ''u2'') = (Inr p', registry')"
    using c
    by (auto simp: refresh_begin_def extractBearerToken_def starts_with_append sample_config_ttl
        Let_def case_prod_unfold sample_ev_def)
  with c(1) show ?thesis by blast
qed

theorem refresh_guarded_witness:
  "\<exists>r sid jti e. reg_get (r :: tokenRegistry) jti = Some e \<and> te_sessionId e = sid \<and> 6000 < te_expiresAt e"
proof -
  obtain m :: "unit sessionsModule" and r sid h p registry' where "registry_ok r"
    "refresh_begin sample_config m (Some r) sid h (sample_ev 6000 ''x'' ''u2'') = (Inr p, registry')"
    using sample_refresh by blast
  from refresh_guarded [OF this] show ?thesis by (auto simp: sample_ev_def)
qed

text \<open>
  (C21) A token that a session creation issues is accepted for refreshing that session, and for no
  other session, until it expires: at any later time before the expiry, unless its id is in the
  revocation cache.
\<close>

theorem issued_token_accepted:
  assumes "signs_compact (ev_sign ev)"
    and "post_session_begin config m body hostname ev = Inr p"
    and "post_session_finish config m1 (Some r) p t1 = (reply, m2, Some r2)"
    and "\<And>c. tr_revocationCache r = Some c \<Longrightarrow> \<not> is_revoked_at c (gr_tokenId (pc_tokenResult p)) now"
  shows "fst (isTokenValidForSession (gr_token (pc_tokenResult p)) sid (Some r2) now) \<longleftrightarrow>
    sid = pc_sessionId p \<and> now < gr_expiresAt (pc_tokenResult p)"
  using assms by (rule issued_token_iff)

theorem issued_token_accepted_witness:
  "\<exists>p m2 r2 reply. post_session_begin sample_config sample_module sample_body ''host'' (sample_ev 5000 ''s1'' ''u'')
      = Inr p \<and>
    post_session_finish sample_config sample_module (Some createTokenRegistry) p 5001
      = (reply, m2, Some r2) \<and>
    fst (isTokenValidForSession (gr_token (pc_tokenResult p)) ''s1'' (Some r2) 6000)"
proof -
  obtain p where p: "post_session_begin sample_config sample_module sample_body ''host''
      (sample_ev 5000 ''s1'' ''u'') = Inr p" "pc_sessionId p = ''s1''"
      "gr_expiresAt (pc_tokenResult p) = 3605000"
    using sample_begin by blast
  obtain reply m2 r2 where f: "post_session_finish sample_config sample_module (Some createTokenRegistry) p 5001
      = (reply, m2, Some r2)"
    by (simp add: post_session_finish_def Let_def registerToken_def)
  have "signs_compact (ev_sign (sample_ev 5000 ''s1'' ''u''))"
    by (simp add: sample_ev_def stub_signs_compact)
  from issued_token_accepted [OF this p(1) f, of 6000 "''s1''"] p(2,3) f p(1) show ?thesis
    by (auto simp: createTokenRegistry_def)
qed

text \<open>
  The scope of a session is the requested scope, not the actions the policy allowed: under the
  default policy an operator who asks for one allowed and one unknown action gets a token and a
  session for both.
\<close>

theorem session_scope_exceeds_policy:
  "\<exists>p. post_session_begin sample_config sample_module sample_body ''host'' (sample_ev 5000 ''s1'' ''u'') = Inr p
    \<and> ''fleet:admin'' \<in> set (pc_effectiveScope p)
    \<and> (\<forall>credential now d. ''fleet:admin'' \<notin> set (er_allowedActions
        (evaluate (defaultPolicy id 0) (buildEvaluationContext credential sample_request now)
          (pi_requestedScope sample_request) now d)))"
proof -
  have "''fleet:admin'' \<notin> set (er_allowedActions (evaluate (defaultPolicy id 0) ctx acts now d))" for ctx acts now d
    by (cases rule: evaluate_cases [of ctx acts "defaultPolicy id 0" now d])
       (auto simp: createResult_def defaultPolicy_def defaultPolicyRules_def intersectActions_def
         find_Some_iff split: if_splits)
  moreover obtain p where "post_session_begin sample_config sample_module sample_body ''host''
      (sample_ev 5000 ''s1'' ''u'') = Inr p" "pc_effectiveScope p = [''teleop:view'', ''fleet:admin'']"
    using sample_begin by blast
  ultimately show ?thesis by auto
qed

text \<open>
  Terminating a session takes all its tokens out of the registry and changes nothing else: the
  session's state becomes \<open>terminated\<close>, every other session and every token of another session keeps
  its entry; an unknown id is answered 404 and changes nothing.
\<close>

theorem delete_session_exact:
  assumes "registry_ok r" and "delete_session_handler m (Some r) sid now = (reply, m', registry')"
  shows "(if getSession m sid = None then reply = session_not_found \<and> m' = m \<and> registry' = Some r
     else \<exists>body r'. reply = Reply 200 body \<and> registry' = Some r' \<and>
       getSession m' sid = map_option (\<lambda>s. s\<lparr>ss_state := Terminated\<rparr>) (getSession m sid) \<and>
       (\<forall>i. i \<noteq> sid \<longrightarrow> getSession m' i = getSession m i) \<and>
       (\<forall>j. reg_get r' j = (case reg_get r j of None \<Rightarrow> None
          | Some e \<Rightarrow> if te_sessionId e = sid then None else Some e)))"
  using assms
  by (auto simp: delete_session_handler_def getSession_def Let_def revoke_session_tokens_def
      case_prod_unfold jm.get_put revokeBySession_get split: option.splits)

theorem delete_session_exact_witness:
  "fst (delete_session_handler sample_module (Some sample_registry) ''s9'' 5) = session_not_found"
proof -
  obtain reply m' registry' where d: "delete_session_handler sample_module (Some sample_registry) ''s9'' 5
      = (reply, m', registry')" by (metis prod_cases3)
  have "getSession sample_module ''s9'' = None" by (simp add: getSession_def sample_module_def)
  with delete_session_exact [OF sample_registry_ok d] d show ?thesis by simp
qed

end
