(* ===== verification/Signaling.thy ===== *)
theory Signaling
  imports TokenRegistry TokenKeys
begin

text \<open>
  \<open>routes/signaling.ts\<close> and \<open>routes/signaling-errors.ts\<close>: the WebSocket rooms that relay WebRTC
  signaling. \<open>sg_rooms\<close> is the module's map of rooms; \<open>sg_conns\<close> holds what the closure of each
  connection holds (its peer id and state) and the ready state of its socket (1 open, 2 closing,
  3 closed); \<open>sg_sent\<close> lists what was sent, as the value that \<open>JSON.stringify\<close> prints, in order.

  A message is a text that the handler parses; its fields have any type. \<open>Inl TypeError\<close> is an
  exception that escapes the handler: it is raised in an event listener and nothing catches it. The
  token registry of the module, which may not be set, is passed as state. Logging is left out.
\<close>

section \<open>Errors and state\<close>

record signalingError =
  se_code :: string
  se_message :: string

definition MISSING_TOKEN :: signalingError where
  "MISSING_TOKEN = \<lparr>se_code = ''missing_token'', se_message = ''Token is required''\<rparr>"
definition INVALID_TOKEN :: signalingError where
  "INVALID_TOKEN = \<lparr>se_code = ''invalid_token'', se_message = ''Invalid token format''\<rparr>"
definition SESSION_MISMATCH :: signalingError where
  "SESSION_MISMATCH =
     \<lparr>se_code = ''session_mismatch'', se_message = ''Token session does not match''\<rparr>"
definition TOKEN_INVALID :: signalingError where
  "TOKEN_INVALID = \<lparr>se_code = ''token_invalid'', se_message = ''Token is not valid or expired''\<rparr>"
definition INVALID_JSON :: signalingError where
  "INVALID_JSON = \<lparr>se_code = ''invalid_json'', se_message = ''Failed to parse message''\<rparr>"
definition NOT_JOINED :: signalingError where
  "NOT_JOINED = \<lparr>se_code = ''not_joined'', se_message = ''Must join a session first''\<rparr>"
definition UNKNOWN_TYPE :: signalingError where
  "UNKNOWN_TYPE = \<lparr>se_code = ''unknown_type'', se_message = ''Unknown message type''\<rparr>"

datatype jsException = TypeError

record peer =
  pe_ws :: nat
  pe_role :: jsval
  pe_sessionId :: string

record peerState =
  st_sessionId :: "string option"
  st_role :: jsval

record connection =
  cn_peerId :: string
  cn_state :: peerState
  cn_readyState :: nat

record signaling =
  sg_rooms :: "(string, (string, peer) jsmap) jsmap"
  sg_conns :: "(nat, connection) jsmap"
  sg_sent :: "(nat \<times> jsval) list"

record tokenClaims =
  tk_jti :: string
  tk_sid :: string

section \<open>Helpers\<close>

definition decodeTokenClaims :: "string \<Rightarrow> tokenClaims option" where
  "decodeTokenClaims token =
     (if length (str_split CHR ''.'' token) \<noteq> 3 then None
      else
        (case json_parse (jwt_part token 1) of
           None \<Rightarrow> None
         | Some payload \<Rightarrow>
             (case (get_prop payload ''jti'', get_prop payload ''sid'') of
                (JStr jti, JStr sid) \<Rightarrow> Some \<lparr>tk_jti = jti, tk_sid = sid\<rparr>
              | _ \<Rightarrow> None)))"

definition socket_open :: "signaling \<Rightarrow> nat \<Rightarrow> bool" where
  "socket_open s ws =
     (case jm_get (sg_conns s) ws of None \<Rightarrow> False | Some c \<Rightarrow> cn_readyState c = 1)"

text \<open>\<open>ws.send\<close>: data sent on a socket that is no longer open is dropped.\<close>

definition ws_send :: "signaling \<Rightarrow> nat \<Rightarrow> jsval \<Rightarrow> signaling" where
  "ws_send s ws v = (if socket_open s ws then s\<lparr>sg_sent := sg_sent s @ [(ws, v)]\<rparr> else s)"

definition broadcast :: "signaling \<Rightarrow> string \<Rightarrow> jsval \<Rightarrow> string option \<Rightarrow> signaling" where
  "broadcast s sessionId message excludePeerId =
     (case jm_get (sg_rooms s) sessionId of
        None \<Rightarrow> s
      | Some room \<Rightarrow>
          foldl (\<lambda>s (peerId, p).
            if Some peerId \<noteq> excludePeerId \<and> socket_open s (pe_ws p)
            then ws_send s (pe_ws p) message else s) s room)"

definition sendError :: "signaling \<Rightarrow> nat \<Rightarrow> string \<Rightarrow> string \<Rightarrow> signaling" where
  "sendError s ws code message =
     ws_send s ws (JObj [(''type'', JStr ''error''), (''code'', JStr code), (''message'', JStr message)])"

definition leaveRoom :: "signaling \<Rightarrow> string \<Rightarrow> string \<Rightarrow> signaling" where
  "leaveRoom s peerId sessionId =
     (case jm_get (sg_rooms s) sessionId of
        None \<Rightarrow> s
      | Some room \<Rightarrow>
          (let room' = jm_delete room peerId in
           if jm_size room' = 0 then s\<lparr>sg_rooms := jm_delete (sg_rooms s) sessionId\<rparr>
           else s\<lparr>sg_rooms := jm_set (sg_rooms s) sessionId room'\<rparr>))"

definition joinRoom :: "signaling \<Rightarrow> string \<Rightarrow> string \<Rightarrow> nat \<Rightarrow> jsval \<Rightarrow> signaling" where
  "joinRoom s peerId sessionId ws role =
     (let room = (case jm_get (sg_rooms s) sessionId of None \<Rightarrow> [] | Some room \<Rightarrow> room)
      in s\<lparr>sg_rooms := jm_set (sg_rooms s) sessionId
             (jm_set room peerId \<lparr>pe_ws = ws, pe_role = role, pe_sessionId = sessionId\<rparr>)\<rparr>)"

definition set_state :: "signaling \<Rightarrow> nat \<Rightarrow> string option \<Rightarrow> jsval \<Rightarrow> signaling" where
  "set_state s ws sessionId role =
     (case jm_get (sg_conns s) ws of
        None \<Rightarrow> s
      | Some c \<Rightarrow> s\<lparr>sg_conns := jm_set (sg_conns s) ws
          (c\<lparr>cn_state := \<lparr>st_sessionId = sessionId, st_role = role\<rparr>\<rparr>)\<rparr>)"

text \<open>The session of a connection when it is set and not the empty string.\<close>

definition joined_session :: "connection \<Rightarrow> string option" where
  "joined_session c =
     (case st_sessionId (cn_state c) of
        None \<Rightarrow> None | Some sid \<Rightarrow> if sid = [] then None else Some sid)"

definition session_state_msg :: "string \<Rightarrow> string \<Rightarrow> jsval" where
  "session_state_msg sid state =
     JObj [(''type'', JStr ''session_state''), (''session_id'', JStr sid), (''state'', JStr state)]"

definition validateJoinToken ::
    "tokenRegistry option \<Rightarrow> jsval \<Rightarrow> ms
      \<Rightarrow> jsException + (signalingError + tokenClaims) \<times> tokenRegistry option" where
  "validateJoinToken registry msg now =
     (if \<not> truthy (get_prop msg ''token'') then Inr (Inl MISSING_TOKEN, registry)
      else
        (case get_prop msg ''token'' of
           JStr token \<Rightarrow>
             (case decodeTokenClaims token of
                None \<Rightarrow> Inr (Inl INVALID_TOKEN, registry)
              | Some claims \<Rightarrow>
                  if \<not> strict_eq (JStr (tk_sid claims)) (get_prop msg ''session_id'')
                  then Inr (Inl SESSION_MISMATCH, registry)
                  else
                    (case registry of
                       None \<Rightarrow> Inr (Inr claims, None)
                     | Some r \<Rightarrow>
                         (let (valid, r') = reg_isValid r (tk_jti claims) now
                          in Inr (if valid then Inr claims else Inl TOKEN_INVALID, Some r'))))
         | _ \<Rightarrow> Inl TypeError))"

section \<open>Handlers\<close>

definition handleJoin ::
    "signaling \<Rightarrow> tokenRegistry option \<Rightarrow> nat \<Rightarrow> connection \<Rightarrow> jsval \<Rightarrow> ms
      \<Rightarrow> jsException + signaling \<times> tokenRegistry option" where
  "handleJoin s registry ws c msg now =
     (case validateJoinToken registry msg now of
        Inl e \<Rightarrow> Inl e
      | Inr (Inl e, registry') \<Rightarrow> Inr (sendError s ws (se_code e) (se_message e), registry')
      | Inr (Inr claims, registry') \<Rightarrow>
          (let sid = tk_sid claims; role = get_prop msg ''role'';
               s1 = (case joined_session c of None \<Rightarrow> s | Some old \<Rightarrow> leaveRoom s (cn_peerId c) old);
               s2 = set_state s1 ws (Some sid) role;
               s3 = joinRoom s2 (cn_peerId c) sid ws role;
               s4 = broadcast s3 sid (session_state_msg sid (js_to_string role @ ''_joined''))
                      (Some (cn_peerId c));
               s5 = ws_send s4 ws (session_state_msg sid ''joined'')
           in Inr (s5, registry')))"

definition handleLeave :: "signaling \<Rightarrow> nat \<Rightarrow> connection \<Rightarrow> signaling" where
  "handleLeave s ws c =
     (case joined_session c of
        None \<Rightarrow> s
      | Some sid \<Rightarrow>
          (let s1 = leaveRoom s (cn_peerId c) sid;
               s2 = broadcast s1 sid
                      (session_state_msg sid (js_to_string (st_role (cn_state c)) @ ''_left'')) None
           in set_state s2 ws None JNull))"

definition handleDisconnect :: "signaling \<Rightarrow> connection \<Rightarrow> signaling" where
  "handleDisconnect s c =
     (case joined_session c of
        None \<Rightarrow> s
      | Some sid \<Rightarrow>
          (let message = session_state_msg sid (js_to_string (st_role (cn_state c)) @ ''_disconnected'')
           in case jm_get (sg_rooms s) sid of
                None \<Rightarrow> broadcast s sid message None
              | Some room \<Rightarrow>
                  (let room' = jm_delete room (cn_peerId c) in
                   if jm_size room' = 0 then s\<lparr>sg_rooms := jm_delete (sg_rooms s) sid\<rparr>
                   else broadcast (s\<lparr>sg_rooms := jm_set (sg_rooms s) sid room'\<rparr>) sid message None)))"

definition onMessage ::
    "signaling \<Rightarrow> tokenRegistry option \<Rightarrow> nat \<Rightarrow> connection \<Rightarrow> string \<Rightarrow> ms
      \<Rightarrow> jsException + signaling \<times> tokenRegistry option" where
  "onMessage s registry ws c data now =
     (case json_parse data of
        None \<Rightarrow> Inr (sendError s ws (se_code INVALID_JSON) (se_message INVALID_JSON), registry)
      | Some msg \<Rightarrow>
          if msg = JNull \<or> msg = JUndef then Inl TypeError
          else
            (let t = get_prop msg ''type'' in
             if t = JStr ''join'' then handleJoin s registry ws c msg now
             else if t = JStr ''offer'' \<or> t = JStr ''answer'' \<or> t = JStr ''ice'' then
               (case joined_session c of
                  None \<Rightarrow> Inr (sendError s ws (se_code NOT_JOINED) (se_message NOT_JOINED), registry)
                | Some sid \<Rightarrow> Inr (broadcast s sid msg (Some (cn_peerId c)), registry))
             else if t = JStr ''leave'' then Inr (handleLeave s ws c, registry)
             else Inr (sendError s ws (se_code UNKNOWN_TYPE)
                     (se_message UNKNOWN_TYPE @ '': '' @ js_to_string t), registry)))"

definition onConnect :: "signaling \<Rightarrow> nat \<Rightarrow> string \<Rightarrow> signaling" where
  "onConnect s ws peerId =
     s\<lparr>sg_conns := jm_set (sg_conns s) ws
        \<lparr>cn_peerId = peerId, cn_state = \<lparr>st_sessionId = None, st_role = JNull\<rparr>, cn_readyState = 1\<rparr>\<rparr>"

definition onClose :: "signaling \<Rightarrow> nat \<Rightarrow> connection \<Rightarrow> signaling" where
  "onClose s ws c =
     (let s1 = s\<lparr>sg_conns := jm_set (sg_conns s) ws (c\<lparr>cn_readyState := 3\<rparr>)\<rparr>
      in handleDisconnect s1 c)"

text \<open>\<open>peer.ws.close\<close>: an open socket starts closing; its close event comes later.\<close>

definition ws_close :: "signaling \<Rightarrow> nat \<Rightarrow> signaling" where
  "ws_close s ws =
     (case jm_get (sg_conns s) ws of
        None \<Rightarrow> s
      | Some c \<Rightarrow> if cn_readyState c = 1
                then s\<lparr>sg_conns := jm_set (sg_conns s) ws (c\<lparr>cn_readyState := 2\<rparr>)\<rparr> else s)"

text \<open>The reason is what the revocation request has for it, of any type; a missing one is left out of the text.\<close>

definition notifyRevocation :: "signaling \<Rightarrow> string \<Rightarrow> jsval \<Rightarrow> signaling" where
  "notifyRevocation s sessionId reason =
     (let s1 = broadcast s sessionId
            (JObj [(''type'', JStr ''revoked''), (''session_id'', JStr sessionId),
                   (''reason'', reason)]) None
      in case jm_get (sg_rooms s1) sessionId of
           None \<Rightarrow> s1
         | Some room \<Rightarrow>
             (let s2 = foldl (\<lambda>s (peerId, p). ws_close s (pe_ws p)) s1 room
              in s2\<lparr>sg_rooms := jm_delete (sg_rooms s2) sessionId\<rparr>))"

section \<open>The module as a step relation\<close>

definition empty_signaling :: signaling where
  "empty_signaling = \<lparr>sg_rooms = [], sg_conns = [], sg_sent = []\<rparr>"

datatype sigEvent =
    Connect nat string
  | Message nat string ms
  | Close nat
  | Revoke string jsval

text \<open>
  Sockets and peer ids are new at each connection: the peer id is the time and a random suffix.
  Messages of a socket arrive until it is closed, also while it is closing.
\<close>

inductive sig_step ::
    "signaling \<times> tokenRegistry option \<Rightarrow> sigEvent \<Rightarrow> signaling \<times> tokenRegistry option \<Rightarrow> bool" where
  connect: "\<not> jm_has (sg_conns s) ws \<Longrightarrow> peerId \<notin> cn_peerId ` set (jm_values (sg_conns s)) \<Longrightarrow>
    sig_step (s, registry) (Connect ws peerId) (onConnect s ws peerId, registry)"
| message: "jm_get (sg_conns s) ws = Some c \<Longrightarrow> cn_readyState c \<noteq> 3 \<Longrightarrow>
    onMessage s registry ws c data now = Inr (s', registry') \<Longrightarrow>
    sig_step (s, registry) (Message ws data now) (s', registry')"
| close: "jm_get (sg_conns s) ws = Some c \<Longrightarrow> cn_readyState c \<noteq> 3 \<Longrightarrow>
    sig_step (s, registry) (Close ws) (onClose s ws c, registry)"
| revoke: "sig_step (s, registry) (Revoke sid reason) (notifyRevocation s sid reason, registry)"

inductive_cases connectE: "sig_step sr (Connect ws peerId) tr"
inductive_cases messageE: "sig_step sr (Message ws data now) tr"
inductive_cases closeE: "sig_step sr (Close ws) tr"
inductive_cases revokeE: "sig_step sr (Revoke sid reason) tr"

section \<open>What each helper changes\<close>

definition room_get :: "signaling \<Rightarrow> string \<Rightarrow> string \<Rightarrow> peer option" where
  "room_get s sid pid = Option.bind (jm_get (sg_rooms s) sid) (\<lambda>room. jm_get room pid)"

lemma ws_send_frame [simp]:
  "sg_rooms (ws_send s ws v) = sg_rooms s" "sg_conns (ws_send s ws v) = sg_conns s"
  "socket_open (ws_send s ws v) w = socket_open s w"
  by (simp_all add: ws_send_def socket_open_def)

lemma broadcast_fold:
  "foldl (\<lambda>s (peerId, p). if Some peerId \<noteq> ex \<and> socket_open s (pe_ws p)
      then ws_send s (pe_ws p) m else s) s room =
   s\<lparr>sg_sent := sg_sent s @ map (\<lambda>(pid, p). (pe_ws p, m))
      (filter (\<lambda>(pid, p). Some pid \<noteq> ex \<and> socket_open s (pe_ws p)) room)\<rparr>"
proof (induction room arbitrary: s)
  case Nil
  show ?case by simp
next
  case (Cons kv room)
  obtain pid p where kv: "kv = (pid, p)" by (cases kv)
  have same: "socket_open (s\<lparr>sg_sent := x\<rparr>) w = socket_open s w" for x w
    by (simp add: socket_open_def)
  show ?case using Cons kv by (simp add: ws_send_def same)
qed

lemma broadcast_frame [simp]:
  "sg_rooms (broadcast s sid m ex) = sg_rooms s" "sg_conns (broadcast s sid m ex) = sg_conns s"
  by (simp_all add: broadcast_def broadcast_fold split: option.splits)

lemma broadcast_sent:
  "sg_sent (broadcast s sid m ex) = sg_sent s @
     (case jm_get (sg_rooms s) sid of None \<Rightarrow> []
      | Some room \<Rightarrow> map (\<lambda>(pid, p). (pe_ws p, m))
          (filter (\<lambda>(pid, p). Some pid \<noteq> ex \<and> socket_open s (pe_ws p)) room))"
  by (simp add: broadcast_def broadcast_fold split: option.splits)

lemma sendError_frame [simp]:
  "sg_rooms (sendError s ws a b) = sg_rooms s" "sg_conns (sendError s ws a b) = sg_conns s"
  by (simp_all add: sendError_def)

lemma set_state_rooms [simp]: "sg_rooms (set_state s ws sid r) = sg_rooms s"
  by (simp add: set_state_def split: option.splits)

lemma leaveRoom_conns [simp]: "sg_conns (leaveRoom s pid sid) = sg_conns s"
  by (simp add: leaveRoom_def Let_def split: option.splits)

lemma joinRoom_conns [simp]: "sg_conns (joinRoom s pid sid ws r) = sg_conns s"
  by (simp add: joinRoom_def Let_def)

lemma room_get_rooms: "sg_rooms s = sg_rooms t \<Longrightarrow> room_get s sid pid = room_get t sid pid"
  by (simp add: room_get_def)

lemma room_get_frame [simp]:
  "room_get (broadcast s a m ex) sid pid = room_get s sid pid"
  "room_get (ws_send s ws v) sid pid = room_get s sid pid"
  "room_get (sendError s ws b c) sid pid = room_get s sid pid"
  "room_get (set_state s ws d r) sid pid = room_get s sid pid"
  by (simp_all add: room_get_def)

lemma leaveRoom_get:
  "room_get (leaveRoom s pid sid) sid' pid' =
     (if sid' = sid \<and> pid' = pid then None else room_get s sid' pid')"
proof (cases "jm_get (sg_rooms s) sid")
  case None
  then show ?thesis by (auto simp: leaveRoom_def room_get_def)
next
  case (Some room)
  have empty: "jm_get room pid' = None" if "jm_delete room pid = []" "pid' \<noteq> pid"
    using jm.get_del [where m = room and k = pid and k' = pid'] that by simp
  show ?thesis
    using Some empty
    by (auto simp: leaveRoom_def room_get_def Let_def jm.get_put jm.get_del)
qed

lemma joinRoom_get:
  "room_get (joinRoom s pid sid ws r) sid' pid' =
     (if sid' = sid \<and> pid' = pid then Some \<lparr>pe_ws = ws, pe_role = r, pe_sessionId = sid\<rparr>
      else room_get s sid' pid')"
  by (auto simp: joinRoom_def room_get_def Let_def jm.get_put split: option.splits)

text \<open>Rooms are never empty.\<close>

definition rooms_ok :: "signaling \<Rightarrow> bool" where
  "rooms_ok s \<longleftrightarrow> jm_wf (sg_rooms s) \<and>
     (\<forall>(sid, room) \<in> set (sg_rooms s). room \<noteq> [] \<and> jm_wf room)"

lemma rooms_okD: "rooms_ok s \<Longrightarrow> jm_get (sg_rooms s) sid = Some room \<Longrightarrow> room \<noteq> [] \<and> jm_wf room"
  by (auto simp: rooms_ok_def dest: map_of_SomeD)

lemma rooms_ok_set: "rooms_ok s \<Longrightarrow> room \<noteq> [] \<Longrightarrow> jm_wf room \<Longrightarrow>
    rooms_ok (s\<lparr>sg_rooms := jm_set (sg_rooms s) sid room\<rparr>)"
  by (auto simp: rooms_ok_def jm.wf_put dest!: jm_set_in)

lemma rooms_ok_delete: "rooms_ok s \<Longrightarrow> rooms_ok (s\<lparr>sg_rooms := jm_delete (sg_rooms s) sid\<rparr>)"
  by (auto simp: rooms_ok_def jm.wf_del jm_delete_in)

lemma rooms_ok_frame: "sg_rooms s = sg_rooms t \<Longrightarrow> rooms_ok s \<longleftrightarrow> rooms_ok t"
  by (simp add: rooms_ok_def)

lemma rooms_ok_leave: "rooms_ok s \<Longrightarrow> rooms_ok (leaveRoom s pid sid)"
  by (auto simp: leaveRoom_def Let_def jm.wf_del dest: rooms_okD
      intro!: rooms_ok_delete rooms_ok_set split: option.splits)

lemma update_not_Nil: "AList.update k v m \<noteq> []"
  by (cases m) (auto split: if_splits)

lemma rooms_ok_join: "rooms_ok s \<Longrightarrow> rooms_ok (joinRoom s pid sid ws r)"
  by (auto simp: joinRoom_def Let_def jm.wf_put update_not_Nil dest: rooms_okD
      intro!: rooms_ok_set split: option.splits)

lemma disconnect_rooms:
  "sg_rooms (handleDisconnect s c) =
     (case joined_session c of None \<Rightarrow> sg_rooms s
      | Some sid \<Rightarrow> sg_rooms (leaveRoom s (cn_peerId c) sid))"
  by (auto simp: handleDisconnect_def leaveRoom_def Let_def split: option.splits)

lemma disconnect_conns [simp]: "sg_conns (handleDisconnect s c) = sg_conns s"
  by (auto simp: handleDisconnect_def Let_def split: option.splits)

lemma close_all_rooms [simp]:
  "sg_rooms (foldl (\<lambda>s (pid, p). ws_close s (pe_ws p)) s room) = sg_rooms s"
  by (induction room arbitrary: s) (auto simp: ws_close_def split: option.splits)

lemma close_all_conns:
  "jm_get (sg_conns (foldl (\<lambda>s (pid, p). ws_close s (pe_ws p)) s room)) w =
     (case jm_get (sg_conns s) w of None \<Rightarrow> None
      | Some c \<Rightarrow> Some (if w \<in> (pe_ws \<circ> snd) ` set room \<and> cn_readyState c = 1
                       then c\<lparr>cn_readyState := 2\<rparr> else c))"
proof (induction room arbitrary: s)
  case Nil
  show ?case by (simp split: option.splits)
next
  case (Cons kv room)
  obtain pid p where kv: "kv = (pid, p)" by (cases kv)
  have one: "jm_get (sg_conns (ws_close s (pe_ws p))) w =
      (case jm_get (sg_conns s) w of None \<Rightarrow> None
       | Some c \<Rightarrow> Some (if w = pe_ws p \<and> cn_readyState c = 1 then c\<lparr>cn_readyState := 2\<rparr> else c))"
    by (auto simp: ws_close_def jm.get_put split: option.splits)
  show ?case using kv by (auto simp: Cons.IH one split: option.splits)
qed

section \<open>Invariant\<close>

definition member_ok :: "signaling \<Rightarrow> string \<Rightarrow> string \<Rightarrow> peer \<Rightarrow> bool" where
  "member_ok s sid pid p \<longleftrightarrow> pe_sessionId p = sid \<and>
     (\<exists>c. jm_get (sg_conns s) (pe_ws p) = Some c \<and> cn_peerId c = pid \<and>
       (sid \<noteq> [] \<longrightarrow> st_sessionId (cn_state c) = Some sid \<and> cn_readyState c \<noteq> 3))"

definition sig_ok :: "signaling \<Rightarrow> bool" where
  "sig_ok s \<longleftrightarrow> rooms_ok s \<and>
     (\<forall>sid pid p. room_get s sid pid = Some p \<longrightarrow> member_ok s sid pid p) \<and>
     (\<forall>w w' c c'. jm_get (sg_conns s) w = Some c \<longrightarrow> jm_get (sg_conns s) w' = Some c' \<longrightarrow>
        cn_peerId c = cn_peerId c' \<longrightarrow> w = w')"

lemma sig_okD:
  assumes "sig_ok s"
  shows "rooms_ok s" and "\<And>sid pid p. room_get s sid pid = Some p \<Longrightarrow> member_ok s sid pid p"
    and "\<And>w w' c c'. jm_get (sg_conns s) w = Some c \<Longrightarrow> jm_get (sg_conns s) w' = Some c' \<Longrightarrow>
        cn_peerId c = cn_peerId c' \<Longrightarrow> w = w'"
  using assms unfolding sig_ok_def by blast+

text \<open>Changes that only touch the log keep the invariant.\<close>

lemma sig_ok_frame:
  "sg_rooms s = sg_rooms t \<Longrightarrow> sg_conns s = sg_conns t \<Longrightarrow> sig_ok s \<longleftrightarrow> sig_ok t"
  by (simp add: sig_ok_def rooms_ok_def room_get_def member_ok_def)

lemma sig_ok_log [simp]:
  "sig_ok (sendError s ws a b) = sig_ok s" "sig_ok (broadcast s sid m ex) = sig_ok s"
  by (rule sig_ok_frame; simp)+

lemma member_okI:
  "pe_sessionId p = sid \<Longrightarrow> jm_get (sg_conns s) (pe_ws p) = Some c \<Longrightarrow> cn_peerId c = pid \<Longrightarrow>
   (sid \<noteq> [] \<Longrightarrow> st_sessionId (cn_state c) = Some sid \<and> cn_readyState c \<noteq> 3) \<Longrightarrow>
   member_ok s sid pid p"
  by (auto simp: member_ok_def)

lemma joined_session_Some: "joined_session c = Some sid \<longleftrightarrow> st_sessionId (cn_state c) = Some sid \<and> sid \<noteq> []"
  by (auto simp: joined_session_def split: option.splits)

text \<open>
  A connection changes its state, and at most the session it was in before and the one it is in
  afterwards see it come or go.
\<close>

lemma sig_ok_move:
  assumes "sig_ok s" and c: "jm_get (sg_conns s) ws = Some c"
    and conns: "\<And>w. jm_get (sg_conns t) w = (if w = ws then Some c' else jm_get (sg_conns s) w)"
    and same: "cn_peerId c' = cn_peerId c"
    and rooms: "rooms_ok t"
    and get: "\<And>sid pid p. room_get t sid pid = Some p \<Longrightarrow>
      (pid \<noteq> cn_peerId c \<or> sid = []) \<and> room_get s sid pid = Some p \<or>
      pid = cn_peerId c \<and> pe_ws p = ws \<and> pe_sessionId p = sid \<and>
        (sid \<noteq> [] \<longrightarrow> st_sessionId (cn_state c') = Some sid \<and> cn_readyState c' \<noteq> 3)"
  shows "sig_ok t"
  unfolding sig_ok_def
proof (intro conjI allI impI)
  fix sid pid p assume "room_get t sid pid = Some p"
  from get [OF this] show "member_ok t sid pid p"
  proof
    assume old: "(pid \<noteq> cn_peerId c \<or> sid = []) \<and> room_get s sid pid = Some p"
    then obtain d where d: "pe_sessionId p = sid" "jm_get (sg_conns s) (pe_ws p) = Some d"
      "cn_peerId d = pid" "sid \<noteq> [] \<longrightarrow> st_sessionId (cn_state d) = Some sid \<and> cn_readyState d \<noteq> 3"
      using sig_okD(2) [OF assms(1), of sid pid p] unfolding member_ok_def by blast
    show ?thesis
    proof (cases "pe_ws p = ws")
      case True
      then have "d = c" using d(2) c by simp
      with True old d same show ?thesis by (intro member_okI [of p sid t c']) (auto simp: conns)
    next
      case False
      with d show ?thesis by (intro member_okI [of p sid t d]) (auto simp: conns)
    qed
  next
    assume "pid = cn_peerId c \<and> pe_ws p = ws \<and> pe_sessionId p = sid \<and>
        (sid \<noteq> [] \<longrightarrow> st_sessionId (cn_state c') = Some sid \<and> cn_readyState c' \<noteq> 3)"
    then show ?thesis using same by (intro member_okI [of p sid t c']) (auto simp: conns)
  qed
next
  fix w w' d d' assume "jm_get (sg_conns t) w = Some d" "jm_get (sg_conns t) w' = Some d'"
    "cn_peerId d = cn_peerId d'"
  then show "w = w'"
    using sig_okD(3) [OF assms(1), of w "if w = ws then c else d" w' "if w' = ws then c else d'"]
      c same by (auto simp: conns split: if_splits)
qed (rule rooms)

text \<open>A connection that is in a (named) room is in the room of its own state.\<close>

lemma own_room:
  assumes "sig_ok s" and "jm_get (sg_conns s) ws = Some c"
    and "room_get s sid (cn_peerId c) = Some p" and "sid \<noteq> []"
  shows "joined_session c = Some sid" and "pe_ws p = ws"
proof -
  obtain d where d: "jm_get (sg_conns s) (pe_ws p) = Some d" "cn_peerId d = cn_peerId c"
    "st_sessionId (cn_state d) = Some sid"
    using sig_okD(2) [OF assms(1,3)] assms(4) by (auto simp: member_ok_def)
  show ws: "pe_ws p = ws" using sig_okD(3) [OF assms(1) d(1) assms(2) d(2)] .
  then have "d = c" using d(1) assms(2) by simp
  with d(3) assms(4) show "joined_session c = Some sid" by (simp add: joined_session_Some)
qed

lemma set_state_get:
  "jm_get (sg_conns s) ws = Some c \<Longrightarrow>
   jm_get (sg_conns (set_state s ws sid r)) w =
     (if w = ws then Some (c\<lparr>cn_state := \<lparr>st_sessionId = sid, st_role = r\<rparr>\<rparr>) else jm_get (sg_conns s) w)"
  by (simp add: set_state_def jm.get_put)

lemma connect_ok:
  assumes "sig_ok s" and "\<not> jm_has (sg_conns s) ws"
    and "peerId \<notin> cn_peerId ` set (jm_values (sg_conns s))"
  shows "sig_ok (onConnect s ws peerId)"
proof -
  have new: "cn_peerId d \<noteq> peerId" "w \<noteq> ws" if "jm_get (sg_conns s) w = Some d" for w d
  proof -
    have "d \<in> set (jm_values (sg_conns s))" using map_of_SomeD [OF that] by force
    then show "cn_peerId d \<noteq> peerId" using assms(3) by blast
    show "w \<noteq> ws" using that assms(2) by auto
  qed
  have conns: "jm_get (sg_conns (onConnect s ws peerId)) w = (if w = ws then
      Some \<lparr>cn_peerId = peerId, cn_state = \<lparr>st_sessionId = None, st_role = JNull\<rparr>, cn_readyState = 1\<rparr>
      else jm_get (sg_conns s) w)" for w
    by (simp add: onConnect_def jm.get_put)
  have rooms: "sg_rooms (onConnect s ws peerId) = sg_rooms s" by (simp add: onConnect_def)
  show ?thesis
    unfolding sig_ok_def
  proof (intro conjI allI impI)
    show "rooms_ok (onConnect s ws peerId)"
      using sig_okD(1) [OF assms(1)] rooms by (simp add: rooms_ok_def)
    fix sid pid p assume "room_get (onConnect s ws peerId) sid pid = Some p"
    then have "member_ok s sid pid p"
      using sig_okD(2) [OF assms(1)] room_get_rooms [OF rooms] by simp
    then show "member_ok (onConnect s ws peerId) sid pid p"
      using new(2) unfolding member_ok_def conns by fastforce
  next
    fix w w' d d' assume "jm_get (sg_conns (onConnect s ws peerId)) w = Some d"
      "jm_get (sg_conns (onConnect s ws peerId)) w' = Some d'" "cn_peerId d = cn_peerId d'"
    then show "w = w'"
      using sig_okD(3) [OF assms(1), of w d w' d'] new(1) [of w d] new(1) [of w' d']
      unfolding conns by (auto split: if_splits)
  qed
qed

lemma leave_get_other:
  assumes "sig_ok s" and "jm_get (sg_conns s) ws = Some c"
    and "room_get (case joined_session c of None \<Rightarrow> s | Some old \<Rightarrow> leaveRoom s (cn_peerId c) old) sid pid
      = Some p"
  shows "(pid \<noteq> cn_peerId c \<or> sid = []) \<and> room_get s sid pid = Some p"
  using assms(3) own_room [OF assms(1,2), of sid p]
  by (cases "joined_session c") (auto simp: leaveRoom_get split: if_splits)

lemma enter_room_ok:
  assumes "sig_ok s" and c: "jm_get (sg_conns s) ws = Some c" "cn_readyState c \<noteq> 3"
  shows "sig_ok (joinRoom (set_state (case joined_session c of None \<Rightarrow> s
    | Some old \<Rightarrow> leaveRoom s (cn_peerId c) old) ws (Some sid) role) (cn_peerId c) sid ws role)"
    (is "sig_ok ?t")
proof (rule sig_ok_move [OF assms(1) c(1)])
  define s1 where "s1 = (case joined_session c of None \<Rightarrow> s | Some old \<Rightarrow> leaveRoom s (cn_peerId c) old)"
  have s1: "sg_conns s1 = sg_conns s" "rooms_ok s1"
    using sig_okD(1) [OF assms(1)] by (auto simp: s1_def rooms_ok_leave split: option.splits)
  have t: "?t = joinRoom (set_state s1 ws (Some sid) role) (cn_peerId c) sid ws role"
    by (simp add: s1_def)
  let ?c = "c\<lparr>cn_state := \<lparr>st_sessionId = Some sid, st_role = role\<rparr>\<rparr>"
  show "jm_get (sg_conns ?t) w = (if w = ws then Some ?c else jm_get (sg_conns s) w)" for w
    using set_state_get [of s1 ws c] c(1) s1(1) by (simp add: t)
  show "rooms_ok ?t"
    unfolding t by (intro rooms_ok_join rooms_ok_frame [THEN iffD2, OF set_state_rooms] s1(2))
  fix sid' pid p assume get: "room_get ?t sid' pid = Some p"
  show "(pid \<noteq> cn_peerId c \<or> sid' = []) \<and> room_get s sid' pid = Some p \<or>
    pid = cn_peerId c \<and> pe_ws p = ws \<and> pe_sessionId p = sid' \<and>
      (sid' \<noteq> [] \<longrightarrow> st_sessionId (cn_state ?c) = Some sid' \<and> cn_readyState ?c \<noteq> 3)"
  proof (cases "sid' = sid \<and> pid = cn_peerId c")
    case True
    then show ?thesis using get c(2) by (auto simp: t joinRoom_get)
  next
    case False
    then have "room_get s1 sid' pid = Some p" using get by (auto simp: t joinRoom_get)
    then show ?thesis using leave_get_other [OF assms(1) c(1), of sid' pid p] by (simp add: s1_def)
  qed
qed simp

lemma join_ok:
  assumes "sig_ok s" and "jm_get (sg_conns s) ws = Some c" "cn_readyState c \<noteq> 3"
    and h: "handleJoin s registry ws c msg now = Inr (s', registry')"
  shows "sig_ok s'"
proof -
  obtain v where v: "validateJoinToken registry msg now = Inr v"
    using h by (auto simp: handleJoin_def split: sum.splits)
  show ?thesis
  proof (cases "fst v")
    case (Inl e)
    then have "s' = sendError s ws (se_code e) (se_message e)"
      using h v by (cases v) (auto simp: handleJoin_def)
    then show ?thesis using assms(1) by simp
  next
    case (Inr claims)
    then show ?thesis
      using h v sig_ok_frame [THEN iffD2, OF _ _ enter_room_ok [OF assms(1-3)]]
      by (cases v) (auto simp: handleJoin_def Let_def)
  qed
qed

lemma leave_ok:
  assumes "sig_ok s" and c: "jm_get (sg_conns s) ws = Some c"
  shows "sig_ok (handleLeave s ws c)"
proof (cases "joined_session c")
  case None
  then show ?thesis using assms(1) by (simp add: handleLeave_def)
next
  case (Some old)
  show ?thesis
  proof (rule sig_ok_move [OF assms])
    show "jm_get (sg_conns (handleLeave s ws c)) w = (if w = ws then
        Some (c\<lparr>cn_state := \<lparr>st_sessionId = None, st_role = JNull\<rparr>\<rparr>) else jm_get (sg_conns s) w)" for w
      using c set_state_get [where s = "broadcast (leaveRoom s (cn_peerId c) old) old m None" for m]
      by (simp add: handleLeave_def Some Let_def)
    show "rooms_ok (handleLeave s ws c)"
      using rooms_ok_leave [OF sig_okD(1) [OF assms(1)]]
      by (simp add: handleLeave_def Some Let_def rooms_ok_def)
    fix sid pid p assume "room_get (handleLeave s ws c) sid pid = Some p"
    then have "room_get (leaveRoom s (cn_peerId c) old) sid pid = Some p"
      by (simp add: handleLeave_def Some Let_def)
    then show "(pid \<noteq> cn_peerId c \<or> sid = []) \<and> room_get s sid pid = Some p \<or>
        pid = cn_peerId c \<and> pe_ws p = ws \<and> pe_sessionId p = sid \<and> (sid \<noteq> [] \<longrightarrow>
          st_sessionId (cn_state (c\<lparr>cn_state := \<lparr>st_sessionId = None, st_role = JNull\<rparr>\<rparr>)) = Some sid \<and>
          cn_readyState (c\<lparr>cn_state := \<lparr>st_sessionId = None, st_role = JNull\<rparr>\<rparr>) \<noteq> 3)"
      using leave_get_other [OF assms, of sid pid p] Some by simp
  qed simp
qed

lemma close_ok:
  assumes "sig_ok s" and c: "jm_get (sg_conns s) ws = Some c"
  shows "sig_ok (onClose s ws c)"
proof (rule sig_ok_move [OF assms])
  show "jm_get (sg_conns (onClose s ws c)) w =
      (if w = ws then Some (c\<lparr>cn_readyState := 3\<rparr>) else jm_get (sg_conns s) w)" for w
    by (simp add: onClose_def Let_def jm.get_put)
  have rooms: "sg_rooms (onClose s ws c) =
      sg_rooms (case joined_session c of None \<Rightarrow> s | Some old \<Rightarrow> leaveRoom s (cn_peerId c) old)"
    by (auto simp: onClose_def Let_def disconnect_rooms leaveRoom_def split: option.splits)
  show "rooms_ok (onClose s ws c)"
    using sig_okD(1) [OF assms(1)] rooms_ok_leave [OF sig_okD(1) [OF assms(1)]]
    by (simp add: rooms_ok_frame [OF rooms] split: option.splits)
  fix sid pid p assume "room_get (onClose s ws c) sid pid = Some p"
  then show "(pid \<noteq> cn_peerId c \<or> sid = []) \<and> room_get s sid pid = Some p \<or>
        pid = cn_peerId c \<and> pe_ws p = ws \<and> pe_sessionId p = sid \<and> (sid \<noteq> [] \<longrightarrow>
          st_sessionId (cn_state (c\<lparr>cn_readyState := 3\<rparr>)) = Some sid \<and>
          cn_readyState (c\<lparr>cn_readyState := 3\<rparr>) \<noteq> 3)"
    using leave_get_other [OF assms, of sid pid p] room_get_rooms [OF rooms] by simp
qed simp

lemma revoke_rooms: "sg_rooms (notifyRevocation s sid reason) = jm_delete (sg_rooms s) sid"
  by (auto simp: notifyRevocation_def Let_def jm_delete_absent split: option.splits)

lemma revoke_conns:
  "jm_get (sg_conns (notifyRevocation s sid reason)) w =
     (case jm_get (sg_conns s) w of None \<Rightarrow> None
      | Some c \<Rightarrow> Some (if (\<exists>room. jm_get (sg_rooms s) sid = Some room \<and> w \<in> (pe_ws \<circ> snd) ` set room)
            \<and> cn_readyState c = 1 then c\<lparr>cn_readyState := 2\<rparr> else c))"
  by (auto simp: notifyRevocation_def Let_def close_all_conns split: option.splits)

lemma notify_ok:
  assumes "sig_ok s"
  shows "sig_ok (notifyRevocation s sid reason)"
  unfolding sig_ok_def
proof (intro conjI allI impI)
  show "rooms_ok (notifyRevocation s sid reason)"
    using rooms_ok_delete [OF sig_okD(1) [OF assms], of sid] by (simp add: rooms_ok_def revoke_rooms)
  fix sid' pid p assume "room_get (notifyRevocation s sid reason) sid' pid = Some p"
  then have "room_get s sid' pid = Some p"
    by (simp add: room_get_def revoke_rooms jm.get_del split: if_splits)
  then have "member_ok s sid' pid p" by (rule sig_okD(2) [OF assms])
  then show "member_ok (notifyRevocation s sid reason) sid' pid p"
    by (auto simp: member_ok_def revoke_conns)
next
  fix w w' d d' assume "jm_get (sg_conns (notifyRevocation s sid reason)) w = Some d"
    "jm_get (sg_conns (notifyRevocation s sid reason)) w' = Some d'" "cn_peerId d = cn_peerId d'"
  then obtain e e' where "jm_get (sg_conns s) w = Some e" "jm_get (sg_conns s) w' = Some e'"
    "cn_peerId e = cn_peerId e'"
    by (auto simp: revoke_conns split: option.splits if_splits)
  then show "w = w'" by (rule sig_okD(3) [OF assms])
qed

lemma message_ok:
  assumes "sig_ok s" and "jm_get (sg_conns s) ws = Some c" "cn_readyState c \<noteq> 3"
    and "onMessage s registry ws c data now = Inr (s', registry')"
  shows "sig_ok s'"
  using assms(4) join_ok [OF assms(1-3)] leave_ok [OF assms(1,2)] assms(1)
  by (auto simp: onMessage_def Let_def split: option.splits if_splits)

lemma sig_step_ok: "sig_step sr e tr \<Longrightarrow> sig_ok (fst sr) \<Longrightarrow> sig_ok (fst tr)"
  by (induction rule: sig_step.induct) (auto intro: connect_ok message_ok close_ok notify_ok)

interpretation signaling_inv: step_invariant sig_step "\<lambda>sr. sig_ok (fst sr)" "\<lambda>e. True"
  by unfold_locales (rule sig_step_ok)

lemma empty_sig_ok: "sig_ok empty_signaling"
  by (simp add: sig_ok_def empty_signaling_def rooms_ok_def room_get_def)

section \<open>Joining\<close>

lemma validate_accepts:
  assumes "validateJoinToken registry msg now = Inr (Inr claims, registry')"
  shows "\<exists>token. get_prop msg ''token'' = JStr token \<and> decodeTokenClaims token = Some claims \<and>
    get_prop msg ''session_id'' = JStr (tk_sid claims) \<and>
    (\<forall>r. registry = Some r \<longrightarrow> fst (reg_isValid r (tk_jti claims) now))"
  using assms
  by (auto simp: validateJoinToken_def Let_def case_prod_unfold
      split: if_splits jsval.splits option.splits dest: strict_eq_imp_eq)

lemma handleJoin_room_get:
  assumes "handleJoin s registry ws c msg now = Inr (s', registry')"
    and "validateJoinToken registry msg now = Inr (Inr claims, registry1)"
  shows "room_get s' sid pid = (if sid = tk_sid claims \<and> pid = cn_peerId c
      then Some \<lparr>pe_ws = ws, pe_role = get_prop msg ''role'', pe_sessionId = sid\<rparr>
      else room_get (case joined_session c of None \<Rightarrow> s | Some old \<Rightarrow> leaveRoom s (cn_peerId c) old) sid pid)"
    and "registry' = registry1"
  using assms by (auto simp: handleJoin_def Let_def joinRoom_get split: if_split)

lemma join_message:
  assumes "onMessage s registry ws c data now = Inr (s', registry')"
    and "room_get s' sid pid = Some p" and "room_get s sid pid = None"
  shows "\<exists>msg token jti. json_parse data = Some msg \<and> get_prop msg ''type'' = JStr ''join'' \<and>
    get_prop msg ''token'' = JStr token \<and> decodeTokenClaims token = Some \<lparr>tk_jti = jti, tk_sid = sid\<rparr> \<and>
    pid = cn_peerId c \<and> pe_ws p = ws \<and>
    (\<forall>r. registry = Some r \<longrightarrow> fst (reg_isValid r jti now))"
proof -
  obtain msg where msg: "json_parse data = Some msg" "msg \<noteq> JNull" "msg \<noteq> JUndef"
    using assms by (auto simp: onMessage_def split: option.splits if_splits)
  have join: "get_prop msg ''type'' = JStr ''join''"
  proof (rule ccontr)
    assume "get_prop msg ''type'' \<noteq> JStr ''join''"
    then have "\<And>q. room_get s' sid pid = Some q \<Longrightarrow> room_get s sid pid = Some q"
      using assms(1) msg
      by (auto simp: onMessage_def Let_def handleLeave_def leaveRoom_get split: option.splits if_splits)
    with assms(2,3) show False by simp
  qed
  then have h: "handleJoin s registry ws c msg now = Inr (s', registry')"
    using assms(1) msg by (simp add: onMessage_def Let_def)
  obtain claims where v: "validateJoinToken registry msg now = Inr (Inr claims, registry')"
    using h assms(2,3) by (auto simp: handleJoin_def Let_def split: sum.splits prod.splits)
  note s' = handleJoin_room_get(1) [OF h v, of sid pid]
  have "sid = tk_sid claims \<and> pid = cn_peerId c \<and> pe_ws p = ws"
  proof (rule ccontr)
    assume "\<not> (sid = tk_sid claims \<and> pid = cn_peerId c \<and> pe_ws p = ws)"
    then have "\<not> (sid = tk_sid claims \<and> pid = cn_peerId c)" using s' assms(2) by auto
    with s' assms(2,3) show False
      by (auto simp: leaveRoom_get split: option.splits if_splits)
  qed
  with validate_accepts [OF v] msg(1) join show ?thesis by (cases claims) auto
qed

text \<open>A token in compact form with the given claims, signed or not.\<close>

definition claims_payload :: "string \<Rightarrow> string \<Rightarrow> jsval" where
  "claims_payload jti sid = JObj [(''jti'', JStr jti), (''sid'', JStr sid)]"

definition unsigned_token :: "string \<Rightarrow> string \<Rightarrow> string" where
  "unsigned_token jti sid = compact_jws ''{}'' (json_stringify (claims_payload jti sid)) []"

lemma decode_unsigned: "decodeTokenClaims (unsigned_token jti sid) = Some \<lparr>tk_jti = jti, tk_sid = sid\<rparr>"
proof -
  have "plain (claims_payload jti sid)" by (simp add: claims_payload_def)
  then have "json_parse (json_stringify (claims_payload jti sid)) = Some (claims_payload jti sid)"
    by (rule json_roundtrip_compact)
  then show ?thesis
    unfolding decodeTokenClaims_def unsigned_token_def jwt_part_def
    by (simp add: compact_jws_split base64url_decode_encode claims_payload_def)
qed

definition join_text :: "string \<Rightarrow> string \<Rightarrow> string" where
  "join_text sid token = json_stringify (JObj [(''type'', JStr ''join''), (''session_id'', JStr sid),
     (''role'', JStr ''operator''), (''token'', JStr token)])"

lemma join_text_parse: "json_parse (join_text sid token) = Some (JObj [(''type'', JStr ''join''),
    (''session_id'', JStr sid), (''role'', JStr ''operator''), (''token'', JStr token)])"
  unfolding join_text_def by (rule json_roundtrip_compact) simp

lemma unsigned_token_not_Nil: "unsigned_token jti sid \<noteq> []"
  by (simp add: unsigned_token_def compact_jws_def)

lemma unsigned_join:
  assumes "jm_get (sg_conns s) ws = Some c" and "cn_readyState c = 1"
  shows "\<exists>s'. onMessage s None ws c (join_text sid (unsigned_token jti sid)) now = Inr (s', None) \<and>
    room_get s' sid (cn_peerId c) =
      Some \<lparr>pe_ws = ws, pe_role = JStr ''operator'', pe_sessionId = sid\<rparr> \<and>
    jm_get (sg_conns s') ws = Some (c\<lparr>cn_state := \<lparr>st_sessionId = Some sid, st_role = JStr ''operator''\<rparr>\<rparr>)"
  using assms(1)
  by (cases "joined_session c") (simp_all add: onMessage_def join_text_parse handleJoin_def validateJoinToken_def
      unsigned_token_not_Nil decode_unsigned Let_def joinRoom_get set_state_def jm.get_put)

section \<open>Properties\<close>

text \<open>A socket is open, closing or closed.\<close>

definition sockets_ok :: "signaling \<Rightarrow> bool" where
  "sockets_ok s \<longleftrightarrow> (\<forall>ws c. jm_get (sg_conns s) ws = Some c \<longrightarrow> cn_readyState c \<in> {1, 2, 3})"

lemma sockets_ok_conns: "sg_conns t = sg_conns s \<Longrightarrow> sockets_ok t = sockets_ok s"
  by (simp add: sockets_ok_def)

lemma sockets_ok_frame [simp]:
  "sockets_ok (broadcast s sid m ex) = sockets_ok s" "sockets_ok (ws_send s ws m) = sockets_ok s"
  "sockets_ok (sendError s ws code txt) = sockets_ok s" "sockets_ok (leaveRoom s pid sid) = sockets_ok s"
  "sockets_ok (joinRoom s pid sid ws role) = sockets_ok s" "sockets_ok (handleDisconnect s c) = sockets_ok s"
  by (rule sockets_ok_conns; simp)+

lemma sockets_ok_state: "sockets_ok s \<Longrightarrow> sockets_ok (set_state s ws sid role)"
  by (auto simp: sockets_ok_def set_state_def jm.get_put split: option.splits)

lemma sockets_step: "sig_step sr e tr \<Longrightarrow> sockets_ok (fst sr) \<Longrightarrow> sockets_ok (fst tr)"
proof (induction rule: sig_step.induct)
  case (connect s ws peerId registry)
  then show ?case by (auto simp: onConnect_def sockets_ok_def jm.get_put)
next
  case (message s ws c registry data now s' registry')
  then show ?case
    by (auto simp: onMessage_def Let_def handleJoin_def handleLeave_def sockets_ok_state
        split: option.splits if_splits sum.splits prod.splits)
next
  case (close s ws c registry)
  then show ?case by (auto simp: onClose_def Let_def) (auto simp: sockets_ok_def jm.get_put)
next
  case (revoke s registry sid reason)
  then show ?case by (fastforce simp: sockets_ok_def revoke_conns split: option.splits)
qed

interpretation sockets_inv: step_invariant sig_step "\<lambda>sr. sockets_ok (fst sr)" "\<lambda>e. True"
  by unfold_locales (rule sockets_step)

text \<open>
  (C25) In every reachable state of the signaling module no room is empty, every member of a room whose id
  is not empty is a connection, open or closing but not closed, whose own state is that session, and
  no peer is in two such rooms.
\<close>

theorem signaling_rooms_invariant:
  assumes "runs sig_step (empty_signaling, registry) es (s, registry')"
  shows "(\<forall>sid room. jm_get (sg_rooms s) sid = Some room \<longrightarrow> room \<noteq> [])
    \<and> (\<forall>sid pid p. room_get s sid pid = Some p \<and> sid \<noteq> [] \<longrightarrow>
        (\<exists>c. jm_get (sg_conns s) (pe_ws p) = Some c \<and> cn_peerId c = pid \<and>
          st_sessionId (cn_state c) = Some sid \<and> cn_readyState c \<in> {1, 2}))
    \<and> (\<forall>sid sid' pid p p'. room_get s sid pid = Some p \<and> room_get s sid' pid = Some p' \<and>
        sid \<noteq> [] \<and> sid' \<noteq> [] \<longrightarrow> sid = sid')"
proof -
  have ok: "sig_ok s"
    using signaling_inv.run_good [OF assms] empty_sig_ok by (simp add: list_all_iff)
  have sockets: "sockets_ok s"
    using sockets_inv.run_good [OF assms] by (simp add: list_all_iff sockets_ok_def empty_signaling_def)
  have member: "\<exists>c. jm_get (sg_conns s) (pe_ws p) = Some c \<and> cn_peerId c = pid \<and>
          st_sessionId (cn_state c) = Some sid \<and> cn_readyState c \<in> {1, 2}"
    if "room_get s sid pid = Some p" "sid \<noteq> []" for sid pid p
    using sig_okD(2) [OF ok that(1)] that(2) sockets unfolding member_ok_def sockets_ok_def by blast
  show ?thesis
  proof (intro conjI allI impI)
    fix sid sid' pid p p'
    assume a: "room_get s sid pid = Some p \<and> room_get s sid' pid = Some p' \<and> sid \<noteq> [] \<and> sid' \<noteq> []"
    obtain c c' where "jm_get (sg_conns s) (pe_ws p) = Some c" "cn_peerId c = pid"
      "st_sessionId (cn_state c) = Some sid" "jm_get (sg_conns s) (pe_ws p') = Some c'"
      "cn_peerId c' = pid" "st_sessionId (cn_state c') = Some sid'"
      using member [of sid pid p] member [of sid' pid p'] a by blast
    then show "sid = sid'" using sig_okD(3) [OF ok, of "pe_ws p" c "pe_ws p'" c'] by auto
  qed (use rooms_okD [OF sig_okD(1) [OF ok]] member in blast)+
qed

definition one_connection :: signaling where
  "one_connection = onConnect empty_signaling 1 ''p1''"

lemma one_connection_get:
  "jm_get (sg_conns one_connection) 1 = Some \<lparr>cn_peerId = ''p1'',
     cn_state = \<lparr>st_sessionId = None, st_role = JNull\<rparr>, cn_readyState = 1\<rparr>"
  by (simp add: one_connection_def onConnect_def empty_signaling_def)

definition joined_signaling :: signaling where
  "joined_signaling = fst (projr (onMessage one_connection None 1
     \<lparr>cn_peerId = ''p1'', cn_state = \<lparr>st_sessionId = None, st_role = JNull\<rparr>, cn_readyState = 1\<rparr>
     (join_text ''s1'' (unsigned_token ''j'' ''s1'')) 5))"

lemma joined_signaling_facts:
  "onMessage one_connection None 1
     \<lparr>cn_peerId = ''p1'', cn_state = \<lparr>st_sessionId = None, st_role = JNull\<rparr>, cn_readyState = 1\<rparr>
     (join_text ''s1'' (unsigned_token ''j'' ''s1'')) 5 = Inr (joined_signaling, None)"
  "room_get joined_signaling ''s1'' ''p1'' =
     Some \<lparr>pe_ws = 1, pe_role = JStr ''operator'', pe_sessionId = ''s1''\<rparr>"
  using unsigned_join [OF one_connection_get, of "''s1''" "''j''" 5]
  by (auto simp: joined_signaling_def)

lemma joined_signaling_run:
  "runs sig_step (empty_signaling, None)
     [Connect 1 ''p1'', Message 1 (join_text ''s1'' (unsigned_token ''j'' ''s1'')) 5] (joined_signaling, None)"
proof -
  have "sig_step (empty_signaling, None) (Connect 1 ''p1'') (one_connection, None)"
    unfolding one_connection_def by (rule sig_step.connect) (simp_all add: empty_signaling_def)
  moreover have "sig_step (one_connection, None)
      (Message 1 (join_text ''s1'' (unsigned_token ''j'' ''s1'')) 5) (joined_signaling, None)"
    by (rule sig_step.message [OF one_connection_get _ joined_signaling_facts(1)]) simp
  ultimately show ?thesis by auto
qed

theorem signaling_rooms_invariant_witness:
  "\<exists>c. jm_get (sg_conns joined_signaling) 1 = Some c \<and> st_sessionId (cn_state c) = Some ''s1''"
  using signaling_rooms_invariant [OF joined_signaling_run] joined_signaling_facts(2) by fastforce

text \<open>
  The room of the session with the empty id is the exception: the empty string is falsy, so the socket of
  a peer that joined it is not taken out when it closes, and stays in the room for ever.
\<close>

theorem empty_session_room_leaks:
  "\<exists>s p c. runs sig_step (empty_signaling, None)
     [Connect 1 ''p1'', Message 1 (join_text [] (unsigned_token ''j'' [])) 5, Close 1] (s, None) \<and>
     room_get s [] ''p1'' = Some p \<and> jm_get (sg_conns s) (pe_ws p) = Some c \<and> cn_readyState c = 3"
proof -
  let ?c = "\<lparr>cn_peerId = ''p1'', cn_state = \<lparr>st_sessionId = None, st_role = JNull\<rparr>, cn_readyState = 1\<rparr>"
  let ?d = "?c\<lparr>cn_state := \<lparr>st_sessionId = Some [], st_role = JStr ''operator''\<rparr>\<rparr>"
  let ?p = "\<lparr>pe_ws = 1, pe_role = JStr ''operator'', pe_sessionId = []\<rparr>"
  obtain s1 where s1: "onMessage one_connection None 1 ?c (join_text [] (unsigned_token ''j'' [])) 5 = Inr (s1, None)"
    "room_get s1 [] ''p1'' = Some ?p" "jm_get (sg_conns s1) 1 = Some ?d"
    using unsigned_join [OF one_connection_get] by fastforce
  let ?s = "onClose s1 1 ?d"
  have s: "?s = s1\<lparr>sg_conns := jm_set (sg_conns s1) 1 (?d\<lparr>cn_readyState := 3\<rparr>)\<rparr>"
    by (simp add: onClose_def handleDisconnect_def joined_session_def)
  have "sig_step (empty_signaling, None) (Connect 1 ''p1'') (one_connection, None)"
    unfolding one_connection_def by (rule sig_step.connect) (simp_all add: empty_signaling_def)
  moreover have "sig_step (one_connection, None) (Message 1 (join_text [] (unsigned_token ''j'' [])) 5) (s1, None)"
    by (rule sig_step.message [OF one_connection_get _ s1(1)]) simp
  moreover have "sig_step (s1, None) (Close 1) (?s, None)"
    by (rule sig_step.close [OF s1(3)]) simp
  ultimately have "runs sig_step (empty_signaling, None)
     [Connect 1 ''p1'', Message 1 (join_text [] (unsigned_token ''j'' [])) 5, Close 1] (?s, None)" by auto
  moreover have "room_get ?s [] ''p1'' = Some ?p" using s1(2) unfolding s room_get_def by simp
  moreover have "jm_get (sg_conns ?s) (pe_ws ?p) = Some (?d\<lparr>cn_readyState := 3\<rparr>)"
    unfolding s by (simp add: jm.get_put)
  ultimately show ?thesis by fastforce
qed

text \<open>
  (C24) Joining needs a token: when a step puts a peer into a room, the step is a join message of
  that peer's own socket with a token whose session claim is that room, and, when a registry is set,
  the token was valid there at that moment.
\<close>

theorem join_requires_token:
  assumes "sig_step (s, registry) e (s', registry')"
    and "room_get s sid pid = None" and "room_get s' sid pid = Some p"
  shows "\<exists>ws data now msg token jti. e = Message ws data now \<and> pe_ws p = ws \<and>
    json_parse data = Some msg \<and> get_prop msg ''type'' = JStr ''join'' \<and>
    get_prop msg ''token'' = JStr token \<and> decodeTokenClaims token = Some \<lparr>tk_jti = jti, tk_sid = sid\<rparr> \<and>
    (\<forall>r. registry = Some r \<longrightarrow> fst (reg_isValid r jti now))"
  using assms(1)
proof (cases rule: sig_step.cases)
  case (connect ws peerId)
  then show ?thesis using assms(2,3) by (simp add: onConnect_def room_get_def)
next
  case (message ws c data now)
  from join_message [OF message(4) assms(3,2)] message(1) show ?thesis by blast
next
  case (close ws c)
  have "sg_rooms s' = sg_rooms (case joined_session c of None \<Rightarrow> s | Some old \<Rightarrow> leaveRoom s (cn_peerId c) old)"
    using close(2) by (auto simp: onClose_def Let_def disconnect_rooms leaveRoom_def split: option.splits)
  from room_get_rooms [OF this, of sid pid] assms(2,3) show ?thesis
    by (auto simp: leaveRoom_get split: option.splits if_splits)
next
  case (revoke sid' reason)
  then show ?thesis using assms(2,3)
    by (auto simp: room_get_def revoke_rooms jm.get_del split: if_splits)
qed

theorem join_requires_token_witness:
  "\<exists>token jti. decodeTokenClaims token = Some \<lparr>tk_jti = jti, tk_sid = ''s1''\<rparr>"
proof -
  have "sig_step (one_connection, None)
      (Message 1 (join_text ''s1'' (unsigned_token ''j'' ''s1'')) 5) (joined_signaling, None)"
    by (rule sig_step.message [OF one_connection_get _ joined_signaling_facts(1)]) simp
  moreover have "room_get one_connection ''s1'' ''p1'' = None"
    by (simp add: one_connection_def onConnect_def empty_signaling_def room_get_def)
  ultimately show ?thesis
    using join_requires_token [of one_connection None _ joined_signaling None "''s1''" "''p1''"]
      joined_signaling_facts(2) by blast
qed

text \<open>The entries of a session's room, none if there is none.\<close>

definition room_entries :: "signaling \<Rightarrow> string \<Rightarrow> (string \<times> peer) list" where
  "room_entries s sid = (case jm_get (sg_rooms s) sid of None \<Rightarrow> [] | Some r \<Rightarrow> r)"

lemma room_entries_facts:
  assumes "sig_ok s"
  shows "jm_wf (room_entries s sid)"
    and "(pid, p) \<in> set (room_entries s sid) \<longleftrightarrow> room_get s sid pid = Some p"
proof -
  show wf: "jm_wf (room_entries s sid)"
    using rooms_okD [OF sig_okD(1) [OF assms], of sid]
    by (auto simp: room_entries_def split: option.splits)
  then show "(pid, p) \<in> set (room_entries s sid) \<longleftrightarrow> room_get s sid pid = Some p"
    by (cases "jm_get (sg_rooms s) sid") (simp_all add: room_get_def room_entries_def)
qed

lemma room_entry_conn:
  assumes "sig_ok s" and "(pid, p) \<in> set (room_entries s sid)" and "sid \<noteq> []"
  shows "\<exists>d. jm_get (sg_conns s) (pe_ws p) = Some d \<and> cn_peerId d = pid \<and> joined_session d = Some sid"
  using sig_okD(2) [OF assms(1), of sid pid p] assms(2,3) room_entries_facts(2) [OF assms(1)]
  by (auto simp: member_ok_def joined_session_Some)

lemma room_sockets_distinct:
  assumes "sig_ok s" and "sid \<noteq> []"
  shows "distinct (map (\<lambda>(pid, p). pe_ws p) (filter P (room_entries s sid)))"
proof -
  have wf: "distinct (room_entries s sid)" "inj_on fst (set (room_entries s sid))"
    using room_entries_facts(1) [OF assms(1), of sid] by (simp_all add: distinct_map)
  have "inj_on (\<lambda>(pid, p). pe_ws p) (set (room_entries s sid))"
  proof (rule inj_onI)
    fix x y assume xy: "x \<in> set (room_entries s sid)" "y \<in> set (room_entries s sid)"
      "(\<lambda>(pid, p). pe_ws p) x = (\<lambda>(pid, p). pe_ws p) y"
    then have "fst x = fst y"
      using room_entry_conn [OF assms(1) _ assms(2), of "fst x" "snd x"]
        room_entry_conn [OF assms(1) _ assms(2), of "fst y" "snd y"]
      by (auto simp: case_prod_unfold)
    with xy wf(2) show "x = y" by (meson inj_onD)
  qed
  then have "inj_on (\<lambda>(pid, p). pe_ws p) (set (filter P (room_entries s sid)))"
    by (rule inj_on_subset) auto
  then show ?thesis using wf(1) by (simp add: distinct_map)
qed

lemma relay_exact:
  assumes "sig_ok s" and "jm_get (sg_conns s) ws = Some c" and "joined_session c = Some sid"
    and "json_parse data = Some msg"
    and "get_prop msg ''type'' \<in> {JStr ''offer'', JStr ''answer'', JStr ''ice''}"
  shows "\<exists>s' xs. onMessage s registry ws c data now = Inr (s', registry) \<and> sg_rooms s' = sg_rooms s \<and>
    sg_sent s' = sg_sent s @ map (\<lambda>w. (w, msg)) xs \<and> ws \<notin> set xs \<and> distinct xs \<and>
    set xs = {pe_ws p | pid p. room_get s sid pid = Some p \<and> pid \<noteq> cn_peerId c \<and> socket_open s (pe_ws p)} \<and>
    (\<forall>w \<in> set xs. \<exists>d. jm_get (sg_conns s) w = Some d \<and> joined_session d = Some sid)"
proof -
  define ps where "ps = filter (\<lambda>(pid, p). pid \<noteq> cn_peerId c \<and> socket_open s (pe_ws p)) (room_entries s sid)"
  note in_room = room_entries_facts(2) [OF assms(1), of _ _ sid]
  have sid: "sid \<noteq> []" using assms(3) by (simp add: joined_session_Some)
  note member = room_entry_conn [OF assms(1) _ sid]
  have "msg \<noteq> JNull" "msg \<noteq> JUndef" using assms(5) by auto
  then have step: "onMessage s registry ws c data now = Inr (broadcast s sid msg (Some (cn_peerId c)), registry)"
    using assms(3-5) by (auto simp: onMessage_def Let_def)
  have sent: "sg_sent (broadcast s sid msg (Some (cn_peerId c))) =
      sg_sent s @ map (\<lambda>w. (w, msg)) (map (\<lambda>(pid, p). pe_ws p) ps)"
    by (simp add: broadcast_sent ps_def room_entries_def case_prod_unfold comp_def split: option.splits)
  have dist: "distinct (map (\<lambda>(pid, p). pe_ws p) ps)"
    unfolding ps_def by (rule room_sockets_distinct [OF assms(1) sid])
  have own: "ws \<notin> set (map (\<lambda>(pid, p). pe_ws p) ps)"
  proof
    assume "ws \<in> set (map (\<lambda>(pid, p). pe_ws p) ps)"
    then obtain pid p where p: "(pid, p) \<in> set (room_entries s sid)" "pe_ws p = ws" "pid \<noteq> cn_peerId c"
      by (auto simp: ps_def)
    with member [OF p(1)] assms(2) show False by simp
  qed
  have recv: "set (map (\<lambda>(pid, p). pe_ws p) ps) =
      {pe_ws p | pid p. room_get s sid pid = Some p \<and> pid \<noteq> cn_peerId c \<and> socket_open s (pe_ws p)}"
    unfolding ps_def by (auto simp: in_room image_iff) blast
  have same: "\<forall>w \<in> set (map (\<lambda>(pid, p). pe_ws p) ps). \<exists>d. jm_get (sg_conns s) w = Some d \<and>
      joined_session d = Some sid"
    using member by (fastforce simp: ps_def)
  show ?thesis
    by (intro exI [of _ "broadcast s sid msg (Some (cn_peerId c))"]
        exI [of _ "map (\<lambda>(pid, p). pe_ws p) ps"] conjI step sent own dist recv same) simp
qed

lemma revoked_sent:
  assumes "jm_get (sg_rooms s) sid = Some room"
  shows "sg_sent (notifyRevocation s sid reason) = sg_sent s @
        map (\<lambda>(pid, p). (pe_ws p, JObj [(''type'', JStr ''revoked''), (''session_id'', JStr sid),
            (''reason'', reason)])) (filter (\<lambda>(pid, p). socket_open s (pe_ws p)) room)"
proof -
  have "sg_sent (foldl (\<lambda>s (pid, p). ws_close s (pe_ws p)) t r) = sg_sent t"
    for t and r :: "(string \<times> peer) list"
    by (induction r arbitrary: t) (auto simp: ws_close_def split: option.splits)
  then show ?thesis using assms by (simp add: notifyRevocation_def Let_def broadcast_sent)
qed

text \<open>
  Relay isolation: an offer, answer or candidate of a joined peer reaches exactly the other open
  connections that are in the sender's room, unchanged and once each; it never goes back to the
  sender, never to another session, and changes no room.
\<close>

theorem relay_isolated:
  assumes "sig_ok s" and "jm_get (sg_conns s) ws = Some c" and "joined_session c = Some sid"
    and "json_parse data = Some msg"
    and "get_prop msg ''type'' \<in> {JStr ''offer'', JStr ''answer'', JStr ''ice''}"
  shows "\<exists>s' xs. onMessage s registry ws c data now = Inr (s', registry) \<and> sg_rooms s' = sg_rooms s \<and>
    sg_sent s' = sg_sent s @ map (\<lambda>w. (w, msg)) xs \<and> ws \<notin> set xs \<and> distinct xs \<and>
    set xs = {pe_ws p | pid p. room_get s sid pid = Some p \<and> pid \<noteq> cn_peerId c \<and> socket_open s (pe_ws p)} \<and>
    (\<forall>w \<in> set xs. \<exists>d. jm_get (sg_conns s) w = Some d \<and> joined_session d = Some sid)"
  by (rule relay_exact [OF assms])

lemma offer_text_parse:
  "json_parse (json_stringify (JObj [(''type'', JStr ''offer''), (''sdp'', JStr ''v=0'')])) =
     Some (JObj [(''type'', JStr ''offer''), (''sdp'', JStr ''v=0'')])"
  by (rule json_roundtrip_compact) simp

lemma joined_signaling_ok: "sig_ok joined_signaling"
  using signaling_inv.run_good [OF joined_signaling_run] empty_sig_ok by (simp add: list_all_iff)

lemma joined_conn:
  "\<exists>c. jm_get (sg_conns joined_signaling) 1 = Some c \<and> joined_session c = Some ''s1'' \<and> cn_peerId c = ''p1''"
  using sig_okD(2) [OF joined_signaling_ok joined_signaling_facts(2)]
  by (auto simp: member_ok_def joined_session_Some)

theorem relay_isolated_witness:
  "\<exists>c s'. jm_get (sg_conns joined_signaling) 1 = Some c \<and>
     onMessage joined_signaling None 1 c
       (json_stringify (JObj [(''type'', JStr ''offer''), (''sdp'', JStr ''v=0'')])) 9 = Inr (s', None) \<and>
     sg_rooms s' = sg_rooms joined_signaling"
proof -
  obtain c where c: "jm_get (sg_conns joined_signaling) 1 = Some c" "joined_session c = Some ''s1''"
    using joined_conn by blast
  from relay_isolated [OF joined_signaling_ok c offer_text_parse, of None 9] c(1) show ?thesis by auto
qed

text \<open>
  Teardown on revocation: after \<open>notifyRevocation\<close> the session's room is gone and every other
  room is as before; every open member was sent the \<open>revoked\<close> message, nobody else was sent
  anything, and no former member's socket is open any more.
\<close>

theorem revocation_teardown:
  assumes "jm_get (sg_rooms s) sid = Some room"
  shows "sg_rooms (notifyRevocation s sid reason) = jm_delete (sg_rooms s) sid
    \<and> sg_sent (notifyRevocation s sid reason) = sg_sent s @
        map (\<lambda>(pid, p). (pe_ws p, JObj [(''type'', JStr ''revoked''), (''session_id'', JStr sid),
            (''reason'', reason)])) (filter (\<lambda>(pid, p). socket_open s (pe_ws p)) room)
    \<and> (\<forall>(pid, p) \<in> set room. \<not> socket_open (notifyRevocation s sid reason) (pe_ws p))
    \<and> (\<forall>w. w \<notin> (pe_ws \<circ> snd) ` set room \<longrightarrow>
        socket_open (notifyRevocation s sid reason) w = socket_open s w)"
proof (intro conjI ballI allI impI)
  show "sg_sent (notifyRevocation s sid reason) = sg_sent s @
        map (\<lambda>(pid, p). (pe_ws p, JObj [(''type'', JStr ''revoked''), (''session_id'', JStr sid),
            (''reason'', reason)])) (filter (\<lambda>(pid, p). socket_open s (pe_ws p)) room)"
    by (rule revoked_sent [OF assms])
  fix x assume x: "x \<in> set room"
  have "\<not> socket_open (notifyRevocation s sid reason) (pe_ws (snd x))"
    using assms x by (auto simp: socket_open_def revoke_conns split: option.splits)
  then show "case x of (pid, p) \<Rightarrow> \<not> socket_open (notifyRevocation s sid reason) (pe_ws p)"
    by (simp add: case_prod_unfold)
next
  fix w assume "w \<notin> (pe_ws \<circ> snd) ` set room"
  then show "socket_open (notifyRevocation s sid reason) w = socket_open s w"
    using assms by (auto simp: socket_open_def revoke_conns split: option.splits)
qed (rule revoke_rooms)

theorem revocation_teardown_witness:
  "\<not> socket_open (notifyRevocation joined_signaling ''s1'' (JStr ''bye'')) 1"
proof -
  obtain room where room: "jm_get (sg_rooms joined_signaling) ''s1'' = Some room"
    "jm_get room ''p1'' = Some \<lparr>pe_ws = 1, pe_role = JStr ''operator'', pe_sessionId = ''s1''\<rparr>"
    using joined_signaling_facts(2) by (auto simp: room_get_def bind_eq_Some_conv)
  have "(''p1'', \<lparr>pe_ws = 1, pe_role = JStr ''operator'', pe_sessionId = ''s1''\<rparr>) \<in> set room"
    using map_of_SomeD [OF room(2)] .
  with revocation_teardown [OF room(1), of "JStr ''bye''"] show ?thesis by fastforce
qed

text \<open>
  Two texts that any client can send make the message handler throw an exception that nothing
  catches: the JSON value \<open>null\<close>, and a join message whose token is a number.
\<close>

theorem malformed_message_throws:
  "onMessage s registry ws c (json_stringify JNull) now = Inl TypeError \<and>
   onMessage s registry ws c (json_stringify (JObj [(''type'', JStr ''join''), (''token'', JNum 5)])) now
     = Inl TypeError"
proof -
  have "json_parse (json_stringify JNull) = Some JNull"
    by (rule json_roundtrip_compact) simp
  moreover have "rat_is_int 5" using rat_is_int_of_int [of 5] by simp
  then have "json_parse (json_stringify (JObj [(''type'', JStr ''join''), (''token'', JNum 5)])) =
      Some (JObj [(''type'', JStr ''join''), (''token'', JNum 5)])"
    by (intro json_roundtrip_compact) simp
  ultimately show ?thesis
    by (simp add: onMessage_def handleJoin_def validateJoinToken_def)
qed

text \<open>
  Without a registry (\<open>index.ts\<close> never calls this module's \<open>setTokenRegistry\<close>) a token needs no
  signature and no registration: for any session id, an unsigned token naming it puts any open
  connection into that session's room.
\<close>

theorem unsigned_token_joins:
  assumes "jm_get (sg_conns s) ws = Some c" and "cn_readyState c = 1"
  shows "\<exists>s'. sig_step (s, None) (Message ws (join_text sid (unsigned_token jti sid)) now) (s', None) \<and>
    room_get s' sid (cn_peerId c) = Some \<lparr>pe_ws = ws, pe_role = JStr ''operator'', pe_sessionId = sid\<rparr>"
  using unsigned_join [OF assms, of sid jti now] sig_step.message [OF assms(1)] assms(2) by fastforce

theorem unsigned_token_joins_witness:
  "\<exists>s'. sig_step (one_connection, None)
      (Message 1 (join_text ''victim'' (unsigned_token ''x'' ''victim'')) 7) (s', None) \<and>
    room_get s' ''victim'' ''p1'' \<noteq> None"
  using unsigned_token_joins [OF one_connection_get, of "''victim''" "''x''" 7] by fastforce

end
