(* ===== verification/Revocations.thy ===== *)
theory Revocations
  imports Sessions Signaling
begin

text \<open>
  \<open>routes/revocations.ts\<close>: the administrator's revocation endpoint. A revocation marks sessions,
  takes their tokens out of the registry and tears their signaling rooms down, all within one
  synchronous call; \<open>revocationCtx\<close> holds the three modules it changes. The body of a request is any JSON
  value, as nothing checks it: its fields are read off it (\<open>rq_session_id\<close> and so on, undefined when they
  are absent). A session or operator that is not a string passes for one given, but is the key of
  no session and the owner of no token. The revocation id (time and a random suffix) is a parameter.
\<close>

section \<open>State\<close>

record 'key revocationCtx =
  rc_registry :: "tokenRegistry option"
  rc_sessions :: "'key sessionsModule"
  rc_signaling :: signaling

record revocationRecord =
  rv_session_ids :: "string list"
  rv_reason :: jsval
  rv_timestamp :: string

type_synonym createRevocationRequest = jsval

definition rq_session_id :: "createRevocationRequest \<Rightarrow> jsval" where
  "rq_session_id body = get_prop body ''session_id''"

definition rq_operator_did :: "createRevocationRequest \<Rightarrow> jsval" where
  "rq_operator_did body = get_prop body ''operator_did''"

definition rq_reason :: "createRevocationRequest \<Rightarrow> jsval" where
  "rq_reason body = get_prop body ''reason''"

section \<open>Operations\<close>

definition revokeSession ::
    "'key revocationCtx \<Rightarrow> string \<Rightarrow> jsval \<Rightarrow> ms \<Rightarrow> bool \<times> 'key revocationCtx" where
  "revokeSession c sessionId reason now =
     (let (sessionUpdated, m') = updateSessionState (rc_sessions c) sessionId Revoked;
          (tokensRevoked, registry') = revoke_session_tokens (rc_registry c) sessionId now;
          c' = c\<lparr>rc_sessions := m', rc_registry := registry'\<rparr>
      in if sessionUpdated \<or> 0 < tokensRevoked
         then (True, c'\<lparr>rc_signaling := notifyRevocation (rc_signaling c') sessionId reason\<rparr>)
         else (False, c'))"

definition mark_revoked :: "jsval \<Rightarrow> 'key revocationCtx \<Rightarrow> string \<Rightarrow> 'key revocationCtx" where
  "mark_revoked reason c sid =
     c\<lparr>rc_sessions := snd (updateSessionState (rc_sessions c) sid Revoked),
       rc_signaling := notifyRevocation (rc_signaling c) sid reason\<rparr>"

definition revokeOperatorSessions ::
    "'key revocationCtx \<Rightarrow> string \<Rightarrow> jsval \<Rightarrow> ms \<Rightarrow> string list \<times> 'key revocationCtx" where
  "revokeOperatorSessions c operatorDid reason now =
     (case rc_registry c of
        None \<Rightarrow> ([], c)
      | Some r \<Rightarrow>
          (let (revokedSessionIds, r') = revokeByOperator r operatorDid None now
           in (revokedSessionIds,
               foldl (mark_revoked reason) (c\<lparr>rc_registry := Some r'\<rparr>) revokedSessionIds)))"

definition storeRevocation ::
    "(string, revocationRecord) jsmap \<Rightarrow> string \<Rightarrow> string list \<Rightarrow> jsval \<Rightarrow> ms
      \<Rightarrow> jsval \<times> (string, revocationRecord) jsmap" where
  "storeRevocation revocations revocationId affectedSessions reason now =
     (let timestamp = toISOString now
      in (JObj [(''revocation_id'', JStr revocationId),
                (''affected_sessions'', JArr (map JStr affectedSessions)),
                (''timestamp'', JStr timestamp)],
          jm_set revocations revocationId
            \<lparr>rv_session_ids = affectedSessions, rv_reason = reason, rv_timestamp = timestamp\<rparr>))"

text \<open>A key to look up: a string that is not empty.\<close>

definition given :: "jsval \<Rightarrow> string option" where
  "given v = (case v of JStr s \<Rightarrow> if s = [] then None else Some s | _ \<Rightarrow> None)"

definition post_revocation ::
    "config \<Rightarrow> (string, revocationRecord) jsmap \<Rightarrow> 'key revocationCtx \<Rightarrow> (string \<Rightarrow> jsval)
      \<Rightarrow> createRevocationRequest \<Rightarrow> string \<Rightarrow> ms
      \<Rightarrow> httpReply \<times> (string, revocationRecord) jsmap \<times> 'key revocationCtx" where
  "post_revocation config revocations c headers body revocationId now =
     (case requireAdminAuth headers config of
        Some reply \<Rightarrow> (reply, revocations, c)
      | None \<Rightarrow>
          if body = JNull \<or> body = JUndef then (HandlerError, revocations, c)
          else if \<not> truthy (rq_session_id body) \<and> \<not> truthy (rq_operator_did body)
          then (Reply 400 (error_body ''invalid_request'' ''Must provide session_id or operator_did''),
                revocations, c)
          else
            (let (affected1, c1) =
                   (case given (rq_session_id body) of
                      None \<Rightarrow> ([], c)
                    | Some sid \<Rightarrow>
                        (let (hit, c') = revokeSession c sid (rq_reason body) now
                         in (if hit then [sid] else [], c')));
                 (affected2, c2) =
                   (case given (rq_operator_did body) of
                      None \<Rightarrow> ([], c1)
                    | Some did \<Rightarrow> revokeOperatorSessions c1 did (rq_reason body) now);
                 (response, revocations') =
                   storeRevocation revocations revocationId (affected1 @ affected2) (rq_reason body) now
             in (Reply 201 response, revocations', c2)))"

definition get_revocation :: "(string, revocationRecord) jsmap \<Rightarrow> string \<Rightarrow> httpReply" where
  "get_revocation revocations revocationId =
     (case jm_get revocations revocationId of
        None \<Rightarrow> Reply 404 (error_body ''revocation_not_found'' ''Revocation not found'')
      | Some v \<Rightarrow> Reply 200 (JObj [(''revocation_id'', JStr revocationId),
          (''session_ids'', JArr (map JStr (rv_session_ids v))), (''reason'', rv_reason v),
          (''timestamp'', JStr (rv_timestamp v))]))"

section \<open>What a revocation changes\<close>

lemma given_facts [simp]:
  "given (JStr s) = (if s = [] then None else Some s)" "given JUndef = None"
  by (simp_all add: given_def)

lemma request_fields [simp]:
  "rq_session_id (JObj ms) = get_prop (JObj ms) ''session_id''"
  "rq_operator_did (JObj ms) = get_prop (JObj ms) ''operator_did''"
  "rq_reason (JObj ms) = get_prop (JObj ms) ''reason''"
  by (simp_all add: rq_session_id_def rq_operator_did_def rq_reason_def)

lemma given_truthy: "given v \<noteq> None \<Longrightarrow> truthy v"
  by (auto simp: given_def split: jsval.splits if_splits)

lemma given_body:
  "given (rq_session_id body) \<noteq> None \<or> given (rq_operator_did body) \<noteq> None \<Longrightarrow>
    body \<noteq> JNull \<and> body \<noteq> JUndef \<and> (truthy (rq_session_id body) \<or> truthy (rq_operator_did body))"
  using given_truthy [of "rq_session_id body"] given_truthy [of "rq_operator_did body"]
  by (auto simp: rq_session_id_def rq_operator_did_def)

text \<open>
  The abstract effect of revoking a set of sessions, and of taking tokens out: both revocation
  routines are instances of it.
\<close>

definition sessions_revoked :: "string set \<Rightarrow> 'key revocationCtx \<Rightarrow> 'key revocationCtx \<Rightarrow> bool" where
  "sessions_revoked A c c' \<longleftrightarrow>
     (\<forall>sid. getSession (rc_sessions c') sid =
        (if sid \<in> A then map_option (\<lambda>s. s\<lparr>ss_state := Revoked\<rparr>) (getSession (rc_sessions c) sid)
         else getSession (rc_sessions c) sid)) \<and>
     (\<forall>sid. jm_get (sg_rooms (rc_signaling c')) sid =
        (if sid \<in> A then None else jm_get (sg_rooms (rc_signaling c)) sid)) \<and>
     sx_tokenGenerator (rc_sessions c') = sx_tokenGenerator (rc_sessions c) \<and>
     sx_evaluatorSet (rc_sessions c') = sx_evaluatorSet (rc_sessions c) \<and>
     sx_policyStore (rc_sessions c') = sx_policyStore (rc_sessions c)"

definition tokens_removed :: "(tokenEntry \<Rightarrow> bool) \<Rightarrow> tokenRegistry option \<Rightarrow> tokenRegistry option \<Rightarrow> bool" where
  "tokens_removed P registry registry' \<longleftrightarrow>
     (case registry of
        None \<Rightarrow> registry' = None
      | Some r \<Rightarrow> \<exists>r'. registry' = Some r' \<and> registry_ok r' \<and>
          (\<forall>j. reg_get r' j = (case reg_get r j of None \<Rightarrow> None
             | Some e \<Rightarrow> if P e then None else Some e)))"

definition has_token :: "tokenRegistry option \<Rightarrow> (tokenEntry \<Rightarrow> bool) \<Rightarrow> bool" where
  "has_token registry P \<longleftrightarrow> (\<exists>r j e. registry = Some r \<and> reg_get r j = Some e \<and> P e)"

definition registered_ok :: "tokenRegistry option \<Rightarrow> bool" where
  "registered_ok registry \<longleftrightarrow> (\<forall>r. registry = Some r \<longrightarrow> registry_ok r)"

lemma update_session_get:
  "getSession (snd (updateSessionState m sid st)) i =
     (if i = sid then map_option (\<lambda>s. s\<lparr>ss_state := st\<rparr>) (getSession m sid) else getSession m i)"
  by (auto simp: updateSessionState_def getSession_def jm.get_put split: option.splits)

lemma update_session_hit: "fst (updateSessionState m sid st) \<longleftrightarrow> getSession m sid \<noteq> None"
  by (simp add: updateSessionState_def getSession_def split: option.splits)

lemma update_session_frame:
  "sx_tokenGenerator (snd (updateSessionState m sid st)) = sx_tokenGenerator m"
  "sx_evaluatorSet (snd (updateSessionState m sid st)) = sx_evaluatorSet m"
  "sx_policyStore (snd (updateSessionState m sid st)) = sx_policyStore m"
  by (simp_all add: updateSessionState_def split: option.splits)

lemma revoke_rooms_get:
  "jm_get (sg_rooms (notifyRevocation s sid reason)) i =
     (if i = sid then None else jm_get (sg_rooms s) i)"
  by (simp add: revoke_rooms jm.get_del)

lemma sessions_revoked_refl: "sessions_revoked {} c c"
  by (simp add: sessions_revoked_def)

lemma sessions_revoked_trans:
  "sessions_revoked A c d \<Longrightarrow> sessions_revoked B d e \<Longrightarrow> sessions_revoked (A \<union> B) c e"
  unfolding sessions_revoked_def
  by (intro conjI allI) (auto simp: option.map_comp o_def)

lemma sessions_revoked_registry [simp]:
  "sessions_revoked A c (d\<lparr>rc_registry := x\<rparr>) \<longleftrightarrow> sessions_revoked A c d"
  "sessions_revoked A (c\<lparr>rc_registry := x\<rparr>) d \<longleftrightarrow> sessions_revoked A c d"
  by (simp_all add: sessions_revoked_def)

lemma mark_revoked_sessions: "sessions_revoked {sid} c (mark_revoked reason c sid)"
  by (simp add: sessions_revoked_def mark_revoked_def update_session_get revoke_rooms_get
      update_session_frame)

lemma mark_revoked_registry [simp]: "rc_registry (mark_revoked reason c sid) = rc_registry c"
  by (simp add: mark_revoked_def)

lemma mark_all_revoked:
  "sessions_revoked (set sids) c (foldl (mark_revoked reason) c sids)"
  "rc_registry (foldl (mark_revoked reason) c sids) = rc_registry c"
proof (induction sids arbitrary: c)
  case (Cons sid sids)
  case 1
  show "sessions_revoked (set (sid # sids)) c (foldl (mark_revoked reason) c (sid # sids))"
    using sessions_revoked_trans [OF mark_revoked_sessions Cons.IH(1)] by simp
  case 2
  show ?case using Cons.IH(2) by simp
qed (simp_all add: sessions_revoked_refl)

lemma revoke_tokens_removed:
  assumes "registered_ok registry"
  shows "tokens_removed (\<lambda>e. te_sessionId e = sid) registry
    (snd (revoke_session_tokens registry sid now))"
  using assms
  by (auto simp: tokens_removed_def registered_ok_def revoke_session_tokens_def revokeBySession_get
      revokeBySession_ok case_prod_unfold Let_def split: option.splits)

lemma revoke_tokens_hit:
  assumes "registered_ok registry"
  shows "0 < fst (revoke_session_tokens registry sid now) \<longleftrightarrow>
    has_token registry (\<lambda>e. te_sessionId e = sid)"
proof (cases registry)
  case (Some r)
  have "0 < length (getBySession r sid) \<longleftrightarrow> (\<exists>e \<in> set (jm_values (tr_tokens r)). te_sessionId e = sid)"
    by (auto simp: getBySession_def filter_empty_conv)
  also have "\<dots> \<longleftrightarrow> has_token registry (\<lambda>e. te_sessionId e = sid)"
  proof -
    have "registry_ok r" using assms Some by (simp add: registered_ok_def)
    from jm_value_iff [OF registry_ok_wf [OF this]] show ?thesis
      unfolding has_token_def Some reg_get_def by blast
  qed
  finally show ?thesis
    by (simp add: Some revoke_session_tokens_def revokeBySession_def Let_def)
qed (simp add: revoke_session_tokens_def has_token_def)

lemma revokeSession_effect:
  assumes "registered_ok (rc_registry c)" and "revokeSession c sid reason now = (hit, c')"
  shows "(hit \<longleftrightarrow> getSession (rc_sessions c) sid \<noteq> None \<or>
      has_token (rc_registry c) (\<lambda>e. te_sessionId e = sid)) \<and>
    sessions_revoked (if hit then {sid} else {}) c c' \<and>
    tokens_removed (\<lambda>e. te_sessionId e = sid) (rc_registry c) (rc_registry c')"
proof -
  have hit: "hit \<longleftrightarrow> getSession (rc_sessions c) sid \<noteq> None \<or>
      has_token (rc_registry c) (\<lambda>e. te_sessionId e = sid)"
    using assms(2) revoke_tokens_hit [OF assms(1)]
    by (auto simp: revokeSession_def case_prod_unfold Let_def update_session_hit split: if_splits)
  have reg: "rc_registry c' = snd (revoke_session_tokens (rc_registry c) sid now)"
    using assms(2) by (auto simp: revokeSession_def case_prod_unfold Let_def split: if_splits)
  have c': "c' = (if hit then (mark_revoked reason c sid)\<lparr>rc_registry := rc_registry c'\<rparr>
      else c\<lparr>rc_registry := rc_registry c'\<rparr>)"
    using assms(2) hit
    by (auto simp: revokeSession_def case_prod_unfold Let_def mark_revoked_def updateSessionState_def
        getSession_def split: if_splits)
  have "sessions_revoked (if hit then {sid} else {}) c c'"
    by (subst c') (simp add: mark_revoked_sessions sessions_revoked_refl)
  then show ?thesis
    using hit reg revoke_tokens_removed [OF assms(1), of sid now] by simp
qed

lemma operator_sessions_effect:
  assumes "registered_ok (rc_registry c)" and "revokeOperatorSessions c did reason now = (sids, c')"
  shows "(\<forall>sid. sid \<in> set sids \<longleftrightarrow>
      has_token (rc_registry c) (\<lambda>e. te_operatorDid e = did \<and> te_sessionId e = sid)) \<and>
    sessions_revoked (set sids) c c' \<and>
    tokens_removed (\<lambda>e. te_operatorDid e = did) (rc_registry c) (rc_registry c')"
proof (cases "rc_registry c")
  case None
  with assms(2) show ?thesis
    by (auto simp: revokeOperatorSessions_def has_token_def sessions_revoked_refl tokens_removed_def)
next
  case (Some r)
  have ok: "registry_ok r" using assms(1) Some by (simp add: registered_ok_def)
  have sids: "sids = fst (revokeByOperator r did None now)"
    and c': "c' = foldl (mark_revoked reason)
      (c\<lparr>rc_registry := Some (snd (revokeByOperator r did None now))\<rparr>) sids"
    using assms(2) Some by (auto simp: revokeOperatorSessions_def case_prod_unfold Let_def)
  have "sessions_revoked (set sids) c c'"
    using mark_all_revoked(1) [where c = "c\<lparr>rc_registry := Some (snd (revokeByOperator r did None now))\<rparr>"]
    by (simp add: c')
  moreover have "tokens_removed (\<lambda>e. te_operatorDid e = did) (rc_registry c) (rc_registry c')"
    using revokeByOperator_effect(1,3) [OF ok, of did None now]
    by (simp add: c' mark_all_revoked(2) tokens_removed_def Some)
  moreover have "\<forall>sid. sid \<in> set sids \<longleftrightarrow>
      has_token (rc_registry c) (\<lambda>e. te_operatorDid e = did \<and> te_sessionId e = sid)"
    unfolding sids revokeByOperator_effect(2) [OF ok] has_token_def Some by blast
  ultimately show ?thesis by blast
qed

lemma tokens_removed_refl: "registered_ok registry \<Longrightarrow> tokens_removed (\<lambda>e. False) registry registry"
  by (auto simp: tokens_removed_def registered_ok_def split: option.splits)

lemma tokens_removed_ok: "tokens_removed P registry registry' \<Longrightarrow> registered_ok registry'"
  by (auto simp: tokens_removed_def registered_ok_def split: option.splits)

lemma tokens_removed_trans:
  assumes "tokens_removed P x y" and "tokens_removed Q y z"
  shows "tokens_removed (\<lambda>e. P e \<or> Q e) x z"
proof (cases x)
  case (Some r)
  then obtain r1 where r1: "y = Some r1" "\<And>j. reg_get r1 j = (case reg_get r j of None \<Rightarrow> None
      | Some e \<Rightarrow> if P e then None else Some e)" using assms(1) by (auto simp: tokens_removed_def)
  then obtain r2 where "z = Some r2" "registry_ok r2" "\<And>j. reg_get r2 j =
      (case reg_get r1 j of None \<Rightarrow> None | Some e \<Rightarrow> if Q e then None else Some e)"
    using assms(2) by (auto simp: tokens_removed_def)
  then show ?thesis by (auto simp: tokens_removed_def Some r1 split: option.splits)
qed (use assms in \<open>auto simp: tokens_removed_def\<close>)

lemma removed_has_token:
  "tokens_removed P x y \<Longrightarrow> has_token y Q \<longleftrightarrow> has_token x (\<lambda>e. Q e \<and> \<not> P e)"
proof (cases x)
  case (Some r)
  assume "tokens_removed P x y"
  then obtain r1 where r1: "y = Some r1" "\<And>j. reg_get r1 j = (case reg_get r j of None \<Rightarrow> None
      | Some e \<Rightarrow> if P e then None else Some e)" using Some by (auto simp: tokens_removed_def)
  have "reg_get r1 j = Some e \<longleftrightarrow> reg_get r j = Some e \<and> \<not> P e" for j e
    by (auto simp: r1(2) split: option.splits)
  then show ?thesis unfolding has_token_def Some r1(1) by auto
qed (auto simp: tokens_removed_def has_token_def)

section \<open>Properties\<close>

text \<open>The sessions a revocation request affects, as its specification.\<close>

definition revocation_targets :: "'key revocationCtx \<Rightarrow> createRevocationRequest \<Rightarrow> string set" where
  "revocation_targets c body =
     {sid. given (rq_session_id body) = Some sid \<and>
        (getSession (rc_sessions c) sid \<noteq> None \<or> has_token (rc_registry c) (\<lambda>e. te_sessionId e = sid))}
     \<union> {sid. has_token (rc_registry c)
        (\<lambda>e. given (rq_operator_did body) = Some (te_operatorDid e) \<and> te_sessionId e = sid)}"

text \<open>The part of the handler for a session id, and the part for an operator.\<close>

lemma session_part:
  assumes "registered_ok (rc_registry c)"
    and "(case given (rq_session_id body) of None \<Rightarrow> ([], c)
      | Some sid \<Rightarrow> (let (hit, c') = revokeSession c sid (rq_reason body) now
                  in (if hit then [sid] else [], c'))) = (a1, c1)"
  shows "set a1 = {sid. given (rq_session_id body) = Some sid \<and>
        (getSession (rc_sessions c) sid \<noteq> None \<or> has_token (rc_registry c) (\<lambda>e. te_sessionId e = sid))} \<and>
      sessions_revoked (set a1) c c1 \<and>
      tokens_removed (\<lambda>e. given (rq_session_id body) = Some (te_sessionId e))
        (rc_registry c) (rc_registry c1)"
proof (cases "given (rq_session_id body)")
  case None
  then show ?thesis
    using assms(2) tokens_removed_refl [OF assms(1)] by (simp add: sessions_revoked_refl)
next
  case (Some sid)
  obtain hit c'' where h: "revokeSession c sid (rq_reason body) now = (hit, c'')" by fastforce
  have "a1 = (if hit then [sid] else [])" "c1 = c''" using assms(2) by (simp_all add: Some h)
  with revokeSession_effect [OF assms(1) h] show ?thesis
    by (auto simp: Some eq_commute [of sid])
qed

lemma operator_part:
  assumes "registered_ok (rc_registry c)"
    and "(case given (rq_operator_did body) of None \<Rightarrow> ([], c)
      | Some did \<Rightarrow> revokeOperatorSessions c did (rq_reason body) now) = (a2, c2)"
  shows "set a2 = {sid. has_token (rc_registry c)
        (\<lambda>e. given (rq_operator_did body) = Some (te_operatorDid e) \<and> te_sessionId e = sid)} \<and>
      sessions_revoked (set a2) c c2 \<and>
      tokens_removed (\<lambda>e. given (rq_operator_did body) = Some (te_operatorDid e))
        (rc_registry c) (rc_registry c2)"
proof (cases "given (rq_operator_did body)")
  case None
  then show ?thesis
    using assms(2) tokens_removed_refl [OF assms(1)] by (simp add: sessions_revoked_refl has_token_def)
next
  case (Some did)
  then have "revokeOperatorSessions c did (rq_reason body) now = (a2, c2)" using assms(2) by simp
  from operator_sessions_effect [OF assms(1) this] show ?thesis
    by (auto simp: Some eq_commute [of did])
qed

lemma targets_union:
  assumes "tokens_removed (\<lambda>e. given (rq_session_id body) = Some (te_sessionId e)) (rc_registry c) registry1"
  shows "revocation_targets c body =
     {sid. given (rq_session_id body) = Some sid \<and>
        (getSession (rc_sessions c) sid \<noteq> None \<or> has_token (rc_registry c) (\<lambda>e. te_sessionId e = sid))}
     \<union> {sid. has_token registry1
        (\<lambda>e. given (rq_operator_did body) = Some (te_operatorDid e) \<and> te_sessionId e = sid)}"
proof -
  let ?P = "\<lambda>sid e. given (rq_operator_did body) = Some (te_operatorDid e) \<and> te_sessionId e = sid"
  have later: "has_token registry1 (?P sid) \<longleftrightarrow> has_token (rc_registry c)
      (\<lambda>e. ?P sid e \<and> given (rq_session_id body) \<noteq> Some (te_sessionId e))" for sid
    by (rule removed_has_token [OF assms])
  have split: "has_token (rc_registry c) (?P sid) \<longleftrightarrow> has_token registry1 (?P sid) \<or>
      given (rq_session_id body) = Some sid \<and> has_token (rc_registry c) (?P sid)" for sid
    unfolding later unfolding has_token_def by blast
  have weaken: "has_token (rc_registry c) (?P sid) \<Longrightarrow>
      has_token (rc_registry c) (\<lambda>e. te_sessionId e = sid)" for sid
    unfolding has_token_def by blast
  have "sid \<in> revocation_targets c body \<longleftrightarrow> given (rq_session_id body) = Some sid \<and>
      (getSession (rc_sessions c) sid \<noteq> None \<or> has_token (rc_registry c) (\<lambda>e. te_sessionId e = sid)) \<or>
      has_token registry1 (?P sid)" for sid
    using split [of sid] weaken [of sid] unfolding revocation_targets_def Un_iff mem_Collect_eq by argo
  then show ?thesis by blast
qed

lemma revocation_effect:
  assumes "registered_ok (rc_registry c)" and "requireAdminAuth headers config = None"
    and "given (rq_session_id body) \<noteq> None \<or> given (rq_operator_did body) \<noteq> None"
    and "post_revocation config revocations c headers body rid now = (reply, revocations', c')"
  shows "\<exists>affected. set affected = revocation_targets c body \<and>
    reply = Reply 201 (fst (storeRevocation revocations rid affected (rq_reason body) now)) \<and>
    revocations' = snd (storeRevocation revocations rid affected (rq_reason body) now) \<and>
    sessions_revoked (set affected) c c' \<and>
    tokens_removed (\<lambda>e. given (rq_session_id body) = Some (te_sessionId e) \<or>
      given (rq_operator_did body) = Some (te_operatorDid e)) (rc_registry c) (rc_registry c')"
proof -
  let ?one = "case given (rq_session_id body) of None \<Rightarrow> ([], c)
    | Some sid \<Rightarrow> (let (hit, c') = revokeSession c sid (rq_reason body) now
                in (if hit then [sid] else [], c'))"
  obtain a1 c1 where one: "?one = (a1, c1)" by (cases ?one) auto
  let ?two = "case given (rq_operator_did body) of None \<Rightarrow> ([], c1)
    | Some did \<Rightarrow> revokeOperatorSessions c1 did (rq_reason body) now"
  obtain a2 c2 where two: "?two = (a2, c2)" by (cases ?two) auto
  note A = session_part [OF assms(1) one]
  then have "registered_ok (rc_registry c1)" by (blast intro: tokens_removed_ok)
  note B = operator_part [OF this two]
  have "post_revocation config revocations c headers body rid now =
      (Reply 201 (fst (storeRevocation revocations rid (a1 @ a2) (rq_reason body) now)),
       snd (storeRevocation revocations rid (a1 @ a2) (rq_reason body) now), c2)"
    unfolding post_revocation_def one unfolding Let_def prod.case two
    using assms(2) given_body [OF assms(3)] by (auto simp: case_prod_unfold)
  moreover have "set (a1 @ a2) = revocation_targets c body"
    unfolding set_append targets_union [OF A [THEN conjunct2, THEN conjunct2]]
    by (simp only: A [THEN conjunct1] B [THEN conjunct1])
  ultimately show ?thesis
    using assms(4) A B sessions_revoked_trans [of "set a1" c c1 "set a2" c2]
      tokens_removed_trans by (intro exI [of _ "a1 @ a2"]) auto
qed

lemma untargeted_unchanged:
  assumes "\<not> (requireAdminAuth headers config = None \<and>
    (given (rq_session_id body) \<noteq> None \<or> given (rq_operator_did body) \<noteq> None))"
  shows "snd (snd (post_revocation config revocations c headers body rid now)) = c"
  using assms by (auto simp: post_revocation_def Let_def case_prod_unfold split: option.split)

lemma unauthorised_unchanged:
  "requireAdminAuth headers config = Some reply \<Longrightarrow>
   post_revocation config revocations c headers body rid now = (reply, revocations, c)"
  by (simp add: post_revocation_def)

text \<open>
  (C8) An authorised revocation does exactly what it promises: the sessions reported as affected
  are the named one, when it exists or has a token, and every session with a registered token of the
  named operator; those become \<open>revoked\<close> and lose their signaling room, every other session and room
  stays as it was, and exactly the tokens of the named session or operator leave the registry.
\<close>

theorem revocation_exact:
  assumes "rc_registry c = Some r" and "registry_ok r" and "requireAdminAuth headers config = None"
    and "given (rq_session_id body) \<noteq> None \<or> given (rq_operator_did body) \<noteq> None"
    and "post_revocation config revocations c headers body rid now = (reply, revocations', c')"
  shows "\<exists>affected r'.
    reply = Reply 201 (fst (storeRevocation revocations rid affected (rq_reason body) now)) \<and>
    set affected = revocation_targets c body \<and> rc_registry c' = Some r' \<and>
    (\<forall>sid. getSession (rc_sessions c') sid =
       (if sid \<in> set affected then map_option (\<lambda>s. s\<lparr>ss_state := Revoked\<rparr>) (getSession (rc_sessions c) sid)
        else getSession (rc_sessions c) sid)) \<and>
    (\<forall>sid. jm_get (sg_rooms (rc_signaling c')) sid =
       (if sid \<in> set affected then None else jm_get (sg_rooms (rc_signaling c)) sid)) \<and>
    (\<forall>j. reg_get r' j = (case reg_get r j of None \<Rightarrow> None
       | Some e \<Rightarrow> if given (rq_session_id body) = Some (te_sessionId e) \<or>
           given (rq_operator_did body) = Some (te_operatorDid e) then None else Some e))"
proof -
  have "registered_ok (rc_registry c)" using assms(1,2) by (simp add: registered_ok_def)
  from revocation_effect [OF this assms(3-5)] show ?thesis
    unfolding sessions_revoked_def tokens_removed_def assms(1) by fastforce
qed

text \<open>
  Without the administrator's key, or without a session or operator in the request, a
  revocation request changes nothing: no session, no token, no room and no stored revocation.
\<close>

theorem refused_revocation_changes_nothing:
  assumes "requireAdminAuth headers config \<noteq> None \<or>
    \<not> truthy (rq_session_id body) \<and> \<not> truthy (rq_operator_did body)"
  shows "snd (post_revocation config revocations c headers body rid now) = (revocations, c) \<and>
    (fst (post_revocation config revocations c headers body rid now) = HandlerError \<or>
     (\<exists>status b. fst (post_revocation config revocations c headers body rid now) = Reply status b \<and>
      status \<in> {400, 401, 403}))"
  using assms
  by (auto simp: post_revocation_def requireAdminAuth_def Let_def split: option.splits)

text \<open>
  A session id that is not a string is not looked at: the request is answered with success, and as
  if it named no session.
\<close>

theorem untyped_revocation_accepted:
  assumes "requireAdminAuth headers config = None"
    and "given (rq_session_id body) = None" and "given (rq_operator_did body) = None"
    and "truthy (rq_session_id body) \<or> truthy (rq_operator_did body)"
  shows "post_revocation config revocations c headers body rid now =
    (Reply 201 (fst (storeRevocation revocations rid [] (rq_reason body) now)),
     snd (storeRevocation revocations rid [] (rq_reason body) now), c)"
proof -
  have "body \<noteq> JNull \<and> body \<noteq> JUndef" using assms(4) by (auto simp: rq_session_id_def rq_operator_did_def)
  then show ?thesis using assms by (auto simp: post_revocation_def case_prod_unfold Let_def)
qed

text \<open>
  A stored revocation is found again under its id, with the affected sessions that the
  revocation reported, its reason and its time, until the id is reused.
\<close>

theorem revocation_is_recorded:
  assumes "requireAdminAuth headers config = None"
    and "post_revocation config revocations c headers body rid now =
      (Reply 201 (JObj [(''revocation_id'', JStr rid), (''affected_sessions'', affected),
         (''timestamp'', stamp)]), revocations', c')"
  shows "get_revocation revocations' rid = Reply 200 (JObj [(''revocation_id'', JStr rid),
      (''session_ids'', affected), (''reason'', rq_reason body), (''timestamp'', stamp)]) \<and>
    (\<forall>i. i \<noteq> rid \<longrightarrow> get_revocation revocations' i = get_revocation revocations i)"
  using assms
  by (auto simp: post_revocation_def storeRevocation_def get_revocation_def Let_def case_prod_unfold
      jm.get_put split: if_splits)

text \<open>
  Revoking an operator does not reach a session of that operator whose tokens have left the
  registry (they expired and were cleaned up): its state and its signaling room stay, and the reply
  does not name it.
\<close>

theorem operator_revocation_skips_tokenless:
  assumes "rc_registry c = Some r" and "registry_ok r" and "requireAdminAuth headers config = None"
    and "rq_session_id body = JUndef" and "rq_operator_did body = JStr did"
    and "getSession (rc_sessions c) sid = Some s" and "ss_operator_did s = did" and "did \<noteq> []"
    and "\<And>j e. reg_get r j = Some e \<Longrightarrow> te_sessionId e \<noteq> sid"
    and "post_revocation config revocations c headers body rid now = (reply, revocations', c')"
  shows "getSession (rc_sessions c') sid = Some s \<and>
    jm_get (sg_rooms (rc_signaling c')) sid = jm_get (sg_rooms (rc_signaling c)) sid \<and>
    (\<exists>affected. sid \<notin> set affected \<and>
      reply = Reply 201 (fst (storeRevocation revocations rid affected (rq_reason body) now)))"
proof -
  have ok: "registered_ok (rc_registry c)" using assms(1,2) by (simp add: registered_ok_def)
  have g: "given (rq_session_id body) \<noteq> None \<or> given (rq_operator_did body) \<noteq> None"
    using assms(4,5,8) by simp
  obtain affected where A: "set affected = revocation_targets c body" "sessions_revoked (set affected) c c'"
    "reply = Reply 201 (fst (storeRevocation revocations rid affected (rq_reason body) now))"
    using revocation_effect [OF ok assms(3) g assms(10)] by blast
  have "sid \<notin> set affected"
    using assms(1,4,5,9) unfolding A(1) revocation_targets_def has_token_def by auto
  with A assms(6) show ?thesis unfolding sessions_revoked_def by auto
qed

text \<open>A state with two sessions; the tokens of \<open>s1\<close> and \<open>s2\<close> are registered, those of \<open>s3\<close> are gone.\<close>

definition sample_ctx :: "unit revocationCtx" where
  "sample_ctx = \<lparr>rc_registry = Some sample_registry,
     rc_sessions = createSession (createSession sample_module ''s1'' ''r1'' ''d1'' [] 10 0)
       ''s3'' ''r1'' ''d1'' [] 10 0,
     rc_signaling = joined_signaling\<rparr>"

definition admin_headers :: "string \<Rightarrow> jsval" where
  "admin_headers h = JStr (cf_adminApiKey sample_config)"

lemma admin_headers_ok: "requireAdminAuth admin_headers sample_config = None"
  by (simp add: admin_headers_def requireAdminAuth_def extractAdminKey_def validateAdminKey_def
      sample_config_def loadConfig_def env_or_def list.rel_eq)

lemma sample_ctx_facts:
  "rc_registry sample_ctx = Some sample_registry"
  "\<exists>s. getSession (rc_sessions sample_ctx) ''s1'' = Some s \<and> ss_operator_did s = ''d1''"
  "\<exists>s. getSession (rc_sessions sample_ctx) ''s3'' = Some s \<and> ss_operator_did s = ''d1''
     \<and> ss_state s = Pending"
  by (simp_all add: sample_ctx_def getSession_def createSession_def jm.get_put)

theorem revocation_exact_witness:
  "\<exists>s. getSession (rc_sessions (snd (snd (post_revocation sample_config [] sample_ctx admin_headers
     (JObj [(''session_id'', JStr ''s1''), (''reason'', JStr ''x'')]) ''rev'' 5)))) ''s1'' = Some s
     \<and> ss_state s = Revoked"
proof -
  let ?b = "(JObj [(''session_id'', JStr ''s1''), (''reason'', JStr ''x'')])"
  obtain reply rs c' where p: "post_revocation sample_config [] sample_ctx admin_headers ?b ''rev'' 5
    = (reply, rs, c')" by (metis prod_cases3)
  have g: "given (rq_session_id ?b) \<noteq> None \<or> given (rq_operator_did ?b) \<noteq> None"
    by (simp add: given_def)
  have "''s1'' \<in> revocation_targets sample_ctx ?b"
    using sample_ctx_facts(2) by (auto simp: revocation_targets_def given_def)
  with revocation_exact [OF sample_ctx_facts(1) sample_registry_ok admin_headers_ok g p] sample_ctx_facts(2) p
  show ?thesis by fastforce
qed

theorem refused_revocation_changes_nothing_witness:
  "snd (post_revocation sample_config [] sample_ctx admin_headers
     (JObj [(''session_id'', JStr [])]) ''rev'' 5) = ([], sample_ctx)"
  using refused_revocation_changes_nothing
    [of admin_headers sample_config "(JObj [(''session_id'', JStr [])])"
      "[]" sample_ctx "''rev''" 5]
  by (simp add: given_def)

theorem revocation_is_recorded_witness:
  "\<exists>body. get_revocation (fst (snd (post_revocation sample_config [] sample_ctx admin_headers
     (JObj [(''session_id'', JStr ''s1''), (''reason'', JStr ''x'')]) ''rev'' 5))) ''rev''
     = Reply 200 body"
proof -
  let ?b = "(JObj [(''session_id'', JStr ''s1''), (''reason'', JStr ''x'')])"
  obtain affected stamp rs c' where p: "post_revocation sample_config [] sample_ctx admin_headers ?b ''rev'' 5
    = (Reply 201 (JObj [(''revocation_id'', JStr ''rev''), (''affected_sessions'', affected),
         (''timestamp'', stamp)]), rs, c')"
    by (simp add: post_revocation_def admin_headers_ok given_def Let_def case_prod_unfold
        storeRevocation_def)
  from revocation_is_recorded [OF admin_headers_ok p] show ?thesis by (simp add: p)
qed

theorem operator_revocation_skips_tokenless_witness:
  "\<exists>s. getSession (rc_sessions (snd (snd (post_revocation sample_config [] sample_ctx admin_headers
     (JObj [(''operator_did'', JStr ''d1''), (''reason'', JStr ''x'')]) ''rev'' 5)))) ''s3'' = Some s
     \<and> ss_state s = Pending"
proof -
  let ?b = "(JObj [(''operator_did'', JStr ''d1''), (''reason'', JStr ''x'')])"
  obtain reply rs c' where p: "post_revocation sample_config [] sample_ctx admin_headers ?b ''rev'' 5
    = (reply, rs, c')" by (metis prod_cases3)
  obtain s where s: "getSession (rc_sessions sample_ctx) ''s3'' = Some s" "ss_operator_did s = ''d1''"
    "ss_state s = Pending" using sample_ctx_facts(3) by blast
  have "te_sessionId e \<noteq> ''s3''" if "reg_get sample_registry j = Some e" for j e
    using that by (auto simp: reg_get_def sample_registry_tokens sample_token_def split: if_splits)
  from operator_revocation_skips_tokenless [OF sample_ctx_facts(1) sample_registry_ok admin_headers_ok
      _ _ s(1,2) _ this p] s p show ?thesis by simp
qed

theorem untyped_revocation_accepted_witness:
  "\<exists>b. post_revocation sample_config [] sample_ctx admin_headers (JObj [(''session_id'', JNum 1)]) ''rev'' 5 =
     (Reply 201 b, [(''rev'', \<lparr>rv_session_ids = [], rv_reason = JUndef, rv_timestamp = toISOString 5\<rparr>)], sample_ctx)"
proof -
  let ?b = "JObj [(''session_id'', JNum 1)]"
  have "given (rq_session_id ?b) = None" "given (rq_operator_did ?b) = None"
    "truthy (rq_session_id ?b) \<or> truthy (rq_operator_did ?b)"
    by (simp_all add: given_def)
  from untyped_revocation_accepted [OF admin_headers_ok this, of "[]" sample_ctx "''rev''" 5] show ?thesis
    by (simp add: storeRevocation_def Let_def)
qed

end
