(* ===== verification/RevocationStore.thy ===== *)
theory RevocationStore
  imports RevocationCache JsJsonRoundtrip
begin

text \<open>
  \<open>tokens/revocation-store.ts\<close>: the file that keeps revocations across restarts. The file is a
  \<open>storeFile\<close>, whose content is the JSON text itself, so \<open>load\<close> really parses and \<open>save\<close>
  really prints. Each exception is a value of \<open>storeError\<close>.

  \<open>store_save\<close> and \<open>store_append\<close> are what a call does when nothing comes between. But the calls are
  asynchronous, and \<open>fs.writeFile\<close> first truncates the file and then writes its text piece by piece, each
  call at a position of its own. \<open>store_step\<close> is the step relation of several appends in flight, with a rule
  for each of these steps and for the failure of each; a read is one step, of the file as it is then.
\<close>

section \<open>State and operations\<close>

datatype storeFile = Absent | Denied | ReadError | Content string

datatype storeError =
    PermissionDenied
  | CorruptedStore
  | UnknownError
  | IllTypedEntry
  | PersistFailed nat
  | AppendFailed string

text \<open>\<open>new Date(x)\<close> on a decoded JSON value.\<close>

fun date_of_json :: "jsval \<Rightarrow> jsdate" where
  "date_of_json (JStr s) = parseISO s"
| "date_of_json (JNum n) =
     (let t = (if n < 0 then - rat_floor (- n) else rat_floor n)
      in if abs t \<le> 8640000000000000 then Some t else None)"
| "date_of_json JNull = Some 0"
| "date_of_json (JBool b) = Some (if b then 1 else 0)"
| "date_of_json v = None"

text \<open>
  An element that is not of the declared type \<open>StoredEntry\<close> (no object, an id or a reason that is
  no string) is \<open>None\<close>: the code does not check this, and the model stops there.
\<close>

definition parseEntry :: "jsval \<Rightarrow> revokedEntry option" where
  "parseEntry stored =
     (case (get_prop stored ''jti'', get_prop stored ''reason'') of
        (JStr jti, JStr reason) \<Rightarrow>
          Some \<lparr>re_jti = jti, re_revokedAt = date_of_json (get_prop stored ''revokedAt''),
                re_expiresAt = date_of_json (get_prop stored ''expiresAt''),
                re_reason = Some reason\<rparr>
      | (JStr jti, JUndef) \<Rightarrow>
          Some \<lparr>re_jti = jti, re_revokedAt = date_of_json (get_prop stored ''revokedAt''),
                re_expiresAt = date_of_json (get_prop stored ''expiresAt''), re_reason = None\<rparr>
      | _ \<Rightarrow> None)"

text \<open>\<open>None\<close> is the \<open>RangeError\<close> that \<open>toISOString\<close> throws on an invalid date.\<close>

definition serializeEntry :: "revokedEntry \<Rightarrow> jsval option" where
  "serializeEntry entry =
     (case (re_revokedAt entry, re_expiresAt entry) of
        (Some r, Some e) \<Rightarrow>
          Some (JObj [(''jti'', JStr (re_jti entry)), (''revokedAt'', JStr (toISOString r)),
                      (''expiresAt'', JStr (toISOString e)),
                      (''reason'', case re_reason entry of None \<Rightarrow> JUndef | Some x \<Rightarrow> JStr x)])
      | _ \<Rightarrow> None)"

definition store_load :: "storeFile \<Rightarrow> storeError + revokedEntry list" where
  "store_load fl =
     (case fl of
        Absent \<Rightarrow> Inr []
      | Denied \<Rightarrow> Inl PermissionDenied
      | ReadError \<Rightarrow> Inl UnknownError
      | Content data \<Rightarrow>
          (case json_parse data of
             None \<Rightarrow> Inl CorruptedStore
           | Some (JArr stored) \<Rightarrow>
               (case those (map parseEntry stored) of
                  None \<Rightarrow> Inl IllTypedEntry | Some es \<Rightarrow> Inr es)
           | Some v \<Rightarrow> Inl UnknownError))"

text \<open>What \<open>save\<close> writes; \<open>None\<close> is an exception of \<open>toISOString\<close>.\<close>

definition save_text :: "revokedEntry list \<Rightarrow> string option" where
  "save_text entries =
     map_option (\<lambda>stored. json_stringify_indented (JArr stored)) (those (map serializeEntry entries))"

definition store_save ::
    "bool \<Rightarrow> revokedEntry list \<Rightarrow> storeFile \<Rightarrow> (storeError + unit) \<times> storeFile" where
  "store_save writable entries fl =
     (case (if writable then save_text entries else None) of
        None \<Rightarrow> (Inl (PersistFailed (length entries)), fl)
      | Some data \<Rightarrow> (Inr (), Content data))"

definition store_append ::
    "bool \<Rightarrow> revokedEntry \<Rightarrow> storeFile \<Rightarrow> (storeError + unit) \<times> storeFile" where
  "store_append writable entry fl =
     (case store_load fl of
        Inl err \<Rightarrow> (Inl (AppendFailed (re_jti entry)), fl)
      | Inr existing \<Rightarrow>
          (case store_save writable (existing @ [entry]) fl of
             (Inl err, fl') \<Rightarrow> (Inl (AppendFailed (re_jti entry)), fl')
           | (Inr u, fl') \<Rightarrow> (Inr (), fl')))"

section \<open>Round trip\<close>

text \<open>A time that prints with a four-digit year, from the epoch on.\<close>

definition storable_time :: "jsdate \<Rightarrow> bool" where
  "storable_time d \<longleftrightarrow> (case d of None \<Rightarrow> False | Some t \<Rightarrow> 0 \<le> t \<and> t < 253402300800000)"

definition storable :: "revokedEntry \<Rightarrow> bool" where
  "storable e \<longleftrightarrow> storable_time (re_revokedAt e) \<and> storable_time (re_expiresAt e)"

definition drop_undef :: "jsval \<Rightarrow> jsval" where
  "drop_undef v =
     (case v of JObj ms \<Rightarrow> JObj (filter (\<lambda>kv. snd kv \<noteq> JUndef) ms) | w \<Rightarrow> w)"

lemma json_members_defined:
  "json_members gap ind (filter (\<lambda>kv. snd kv \<noteq> JUndef) ms) = json_members gap ind ms"
  by (induction ms) auto

lemma json_val_drop_undef: "json_val gap ind (drop_undef v) = json_val gap ind v"
  by (simp add: drop_undef_def json_members_defined split: jsval.splits)

lemma json_elems_drop_undef: "json_elems gap ind (map drop_undef vs) = json_elems gap ind vs"
  by (induction vs) (simp_all add: json_val_drop_undef)

lemma stored_text_drop_undef:
  "json_stringify_indented (JArr (map drop_undef vs)) = json_stringify_indented (JArr vs)"
  by (simp add: json_stringify_indented_def json_elems_drop_undef)

lemma serializeEntry_Some:
  assumes "storable e"
  obtains v where "serializeEntry e = Some v" and "plain (drop_undef v)"
    and "parseEntry (drop_undef v) = Some e"
proof -
  obtain r x where t: "re_revokedAt e = Some r" "re_expiresAt e = Some x"
    and "0 \<le> r" "r < 253402300800000" "0 \<le> x" "x < 253402300800000"
    using assms by (auto simp: storable_def storable_time_def split: option.splits)
  then have iso: "parseISO (toISOString r) = Some r" "parseISO (toISOString x) = Some x"
    by (auto intro: iso_roundtrip)
  define v where "v = JObj [(''jti'', JStr (re_jti e)), (''revokedAt'', JStr (toISOString r)),
      (''expiresAt'', JStr (toISOString x)),
      (''reason'', case re_reason e of None \<Rightarrow> JUndef | Some y \<Rightarrow> JStr y)]"
  have "serializeEntry e = Some v" by (simp add: serializeEntry_def t v_def)
  moreover have "plain (drop_undef v)"
    by (cases "re_reason e") (simp_all add: v_def drop_undef_def)
  moreover have "parseEntry (drop_undef v) = Some e"
    using t iso by (cases "re_reason e") (simp_all add: v_def drop_undef_def parseEntry_def)
  ultimately show ?thesis by (rule that)
qed

lemma serialize_all:
  assumes "list_all storable es"
  shows "\<exists>vs. those (map serializeEntry es) = Some vs \<and> list_all plain (map drop_undef vs)
    \<and> those (map parseEntry (map drop_undef vs)) = Some es"
  using assms
proof (induction es)
  case Nil
  show ?case by simp
next
  case (Cons e es)
  then obtain vs where "those (map serializeEntry es) = Some vs"
    "list_all plain (map drop_undef vs)" "those (map parseEntry (map drop_undef vs)) = Some es"
    by auto
  moreover obtain v where "serializeEntry e = Some v" "plain (drop_undef v)"
    "parseEntry (drop_undef v) = Some e"
    using Cons.prems serializeEntry_Some [of e] by auto
  ultimately show ?case by (intro exI [of _ "v # vs"]) simp
qed

lemma saved_text_loads:
  assumes "list_all storable es"
  obtains data where "save_text es = Some data" and "store_load (Content data) = Inr es"
proof -
  from serialize_all [OF assms] obtain vs where
    vs: "those (map serializeEntry es) = Some vs" "list_all plain (map drop_undef vs)"
      "those (map parseEntry (map drop_undef vs)) = Some es"
    by blast
  have "json_parse (json_stringify_indented (JArr (map drop_undef vs))) = Some (JArr (map drop_undef vs))"
    unfolding json_stringify_indented_def
    by (rule json_parse_stringify) (simp_all add: vs(2) is_ws_def)
  then have "store_load (Content (json_stringify_indented (JArr vs))) = Inr es"
    using vs(3) by (simp add: store_load_def stored_text_drop_undef)
  then show ?thesis using vs(1) by (intro that) (auto simp: save_text_def)
qed

lemma save_then_load:
  assumes "list_all storable es"
  shows "fst (store_save True es fl) = Inr () \<and> store_load (snd (store_save True es fl)) = Inr es"
  using saved_text_loads [OF assms] by (fastforce simp: store_save_def)

lemma append_then_load:
  assumes "store_load fl = Inr es" and "list_all storable (es @ [e])"
  shows "fst (store_append True e fl) = Inr ()
    \<and> store_load (snd (store_append True e fl)) = Inr (es @ [e])"
  using save_then_load [OF assms(2), of fl] assms(1)
  by (auto simp: store_append_def split: prod.splits sum.splits)

lemma append_error_keeps_file:
  "fst (store_append w e fl) = Inl err \<Longrightarrow> snd (store_append w e fl) = fl"
  by (auto simp: store_append_def store_save_def split: sum.splits prod.splits option.splits if_splits)

section \<open>Appends in flight\<close>

text \<open>
  An append has been called, has read the file, or is writing: the position of its next write, and the text it
  has left. It ends well or not, and keeps its place. \<open>ss_saved\<close> lists the entries whose append has ended
  well, in the order in which they did.
\<close>

datatype appendJob =
    Called revokedEntry
  | Loaded revokedEntry "revokedEntry list"
  | Writing revokedEntry nat string
  | Saved revokedEntry
  | Failed revokedEntry

record storeSys =
  ss_file :: storeFile
  ss_jobs :: "appendJob list"
  ss_saved :: "revokedEntry list"

datatype storeEvent =
    Calls revokedEntry
  | Reads nat
  | Opens nat
  | Writes nat nat
  | Closes nat
  | Fails nat

text \<open>A write at a position of a file, which another call may have made shorter.\<close>

definition write_at :: "nat \<Rightarrow> string \<Rightarrow> string \<Rightarrow> string" where
  "write_at pos chunk data =
     take pos (data @ replicate (pos - length data) CHR 0x00) @ chunk @ drop (pos + length chunk) data"

definition set_job :: "storeSys \<Rightarrow> nat \<Rightarrow> appendJob \<Rightarrow> storeSys" where
  "set_job s i j = s\<lparr>ss_jobs := (ss_jobs s)[i := j]\<rparr>"

inductive store_step :: "storeSys \<Rightarrow> storeEvent \<Rightarrow> storeSys \<Rightarrow> bool" where
  calls: "store_step s (Calls e) (s\<lparr>ss_jobs := ss_jobs s @ [Called e]\<rparr>)"
| reads: "i < length (ss_jobs s) \<Longrightarrow> ss_jobs s ! i = Called e \<Longrightarrow> store_load (ss_file s) = Inr es \<Longrightarrow>
    store_step s (Reads i) (set_job s i (Loaded e es))"
| read_fails: "i < length (ss_jobs s) \<Longrightarrow> ss_jobs s ! i = Called e \<Longrightarrow> store_load (ss_file s) = Inl err \<Longrightarrow>
    store_step s (Fails i) (set_job s i (Failed e))"
| opens: "i < length (ss_jobs s) \<Longrightarrow> ss_jobs s ! i = Loaded e es \<Longrightarrow> save_text (es @ [e]) = Some data \<Longrightarrow>
    store_step s (Opens i) (set_job (s\<lparr>ss_file := Content []\<rparr>) i (Writing e 0 data))"
| open_fails: "i < length (ss_jobs s) \<Longrightarrow> ss_jobs s ! i = Loaded e es \<Longrightarrow>
    store_step s (Fails i) (set_job s i (Failed e))"
| writes: "i < length (ss_jobs s) \<Longrightarrow> ss_jobs s ! i = Writing e pos left \<Longrightarrow> ss_file s = Content data \<Longrightarrow>
    0 < n \<Longrightarrow> n \<le> length left \<Longrightarrow>
    store_step s (Writes i n)
      (set_job (s\<lparr>ss_file := Content (write_at pos (take n left) data)\<rparr>) i (Writing e (pos + n) (drop n left)))"
| write_fails: "i < length (ss_jobs s) \<Longrightarrow> ss_jobs s ! i = Writing e pos left \<Longrightarrow>
    store_step s (Fails i) (set_job s i (Failed e))"
| closes: "i < length (ss_jobs s) \<Longrightarrow> ss_jobs s ! i = Writing e pos [] \<Longrightarrow>
    store_step s (Closes i) (set_job (s\<lparr>ss_saved := ss_saved s @ [e]\<rparr>) i (Saved e))"

inductive_cases store_stepE: "store_step s x t"

lemma set_job_simps [simp]:
  "ss_file (set_job s i j) = ss_file s" "ss_saved (set_job s i j) = ss_saved s"
  "ss_jobs (set_job s i j) = (ss_jobs s)[i := j]"
  by (simp_all add: set_job_def)

section \<open>Appends one at a time\<close>

fun in_progress :: "appendJob \<Rightarrow> bool" where
  "in_progress (Loaded e es) = True"
| "in_progress (Writing e pos left) = True"
| "in_progress j = False"

definition idle_except :: "nat option \<Rightarrow> appendJob list \<Rightarrow> bool" where
  "idle_except k jobs \<longleftrightarrow> (\<forall>i < length jobs. Some i \<noteq> k \<longrightarrow> \<not> in_progress (jobs ! i))"

text \<open>No append starts while another is in progress, and no write fails half way.\<close>

definition lone_step :: "storeSys \<Rightarrow> storeEvent \<Rightarrow> storeSys \<Rightarrow> bool" where
  "lone_step s x t \<longleftrightarrow> store_step s x t \<and>
     (case x of
        Reads i \<Rightarrow> idle_except None (ss_jobs s)
      | Fails i \<Rightarrow> (\<nexists>e pos left. ss_jobs s ! i = Writing e pos left)
      | _ \<Rightarrow> True)"

lemma write_at_next: "pos \<le> length data \<Longrightarrow> write_at pos (take n (drop pos data)) (take pos data) = take (pos + n) data"
  by (simp add: write_at_def take_add)

text \<open>
  The append in progress, if there is one, holds what the file held when it was read, or has written the
  beginning of the new text; otherwise the file holds the old entries and the saved ones.
\<close>

definition job_ok :: "revokedEntry list \<Rightarrow> storeFile \<Rightarrow> appendJob \<Rightarrow> bool" where
  "job_ok es fl j \<longleftrightarrow>
     (case j of
        Loaded e xs \<Rightarrow> xs = es \<and> storable e \<and> store_load fl = Inr es
      | Writing e pos left \<Rightarrow> storable e \<and> (\<exists>data. save_text (es @ [e]) = Some data \<and> pos \<le> length data \<and>
          left = drop pos data \<and> fl = Content (take pos data))
      | _ \<Rightarrow> False)"

definition lone_ok :: "revokedEntry list \<Rightarrow> storeSys \<Rightarrow> bool" where
  "lone_ok es0 s \<longleftrightarrow>
     list_all storable (es0 @ ss_saved s) \<and> (\<forall>e. Called e \<in> set (ss_jobs s) \<longrightarrow> storable e) \<and>
     set (ss_saved s) = {e. Saved e \<in> set (ss_jobs s)} \<and>
     (\<exists>k. idle_except k (ss_jobs s) \<and>
        (case k of
           None \<Rightarrow> store_load (ss_file s) = Inr (es0 @ ss_saved s)
         | Some i \<Rightarrow> i < length (ss_jobs s) \<and> job_ok (es0 @ ss_saved s) (ss_file s) (ss_jobs s ! i)))"

lemma job_ok_progress: "job_ok es fl j \<Longrightarrow> in_progress j"
  by (cases j) (simp_all add: job_ok_def)

lemma idle_append: "idle_except k jobs \<Longrightarrow> \<not> in_progress j \<Longrightarrow> idle_except k (jobs @ [j])"
  by (auto simp: idle_except_def nth_append)

lemma idle_update: "idle_except k jobs \<Longrightarrow> k = None \<or> k = Some i \<Longrightarrow> idle_except (Some i) (jobs[i := j])"
  by (auto simp: idle_except_def nth_list_update)

lemma idle_end: "idle_except k jobs \<Longrightarrow> k = None \<or> k = Some i \<Longrightarrow> \<not> in_progress j \<Longrightarrow> idle_except None (jobs[i := j])"
  by (cases "i < length jobs") (auto simp: idle_except_def nth_list_update list_update_beyond split: if_splits)

lemma set_update_other: "i < length xs \<Longrightarrow> x \<noteq> y \<Longrightarrow> x \<noteq> xs ! i \<Longrightarrow> x \<in> set (xs[i := y]) \<longleftrightarrow> x \<in> set xs"
  by (metis in_set_conv_nth length_list_update nth_list_update)

lemma set_update_self: "i < length xs \<Longrightarrow> x \<in> set (xs[i := x])"
  by (simp add: set_update_memI)

lemma lone_okI:
  assumes "list_all storable (es0 @ ss_saved t)" and "\<And>e. Called e \<in> set (ss_jobs t) \<Longrightarrow> storable e"
    and "\<And>e. e \<in> set (ss_saved t) \<longleftrightarrow> Saved e \<in> set (ss_jobs t)" and "idle_except k (ss_jobs t)"
    and "k = None \<Longrightarrow> store_load (ss_file t) = Inr (es0 @ ss_saved t)"
    and "\<And>i. k = Some i \<Longrightarrow> i < length (ss_jobs t) \<and> job_ok (es0 @ ss_saved t) (ss_file t) (ss_jobs t ! i)"
  shows "lone_ok es0 t"
  unfolding lone_ok_def using assms by (intro conjI exI [of _ k]) (auto split: option.split)

lemma lone_step_ok:
  assumes "lone_ok es0 s" and "case x of Calls e \<Rightarrow> storable e | _ \<Rightarrow> True" and "lone_step s x t"
  shows "lone_ok es0 t"
proof -
  obtain k where st: "list_all storable (es0 @ ss_saved s)" "\<And>e. Called e \<in> set (ss_jobs s) \<Longrightarrow> storable e"
    "\<And>e. e \<in> set (ss_saved s) \<longleftrightarrow> Saved e \<in> set (ss_jobs s)" "idle_except k (ss_jobs s)"
    "k = None \<Longrightarrow> store_load (ss_file s) = Inr (es0 @ ss_saved s)"
    "\<And>i. k = Some i \<Longrightarrow> i < length (ss_jobs s) \<and> job_ok (es0 @ ss_saved s) (ss_file s) (ss_jobs s ! i)"
    using assms(1) unfolding lone_ok_def by (force split: option.splits)
  have busy: "k = Some i \<and> job_ok (es0 @ ss_saved s) (ss_file s) (ss_jobs s ! i)"
    if "i < length (ss_jobs s)" "in_progress (ss_jobs s ! i)" for i
    using st(4,6) that unfolding idle_except_def by (metis not_None_eq option.inject)
  have step: "store_step s x t" and lone: "case x of Reads i \<Rightarrow> idle_except None (ss_jobs s)
      | Fails i \<Rightarrow> (\<nexists>e pos left. ss_jobs s ! i = Writing e pos left) | _ \<Rightarrow> True"
    using assms(3) by (simp_all add: lone_step_def)
  have quiet: "lone_ok es0 (set_job s i (Failed e))"
    if i: "i < length (ss_jobs s)" and j: "ss_jobs s ! i = Called e \<or> ss_jobs s ! i = Loaded e es" for i e es
  proof -
    have load: "in_progress (ss_jobs s ! i) \<Longrightarrow> store_load (ss_file s) = Inr (es0 @ ss_saved s)"
      using busy [OF i] j by (auto simp: job_ok_def)
    have keep: "Called x \<in> set ((ss_jobs s)[i := Failed e]) \<Longrightarrow> Called x \<in> set (ss_jobs s)" for x
      using set_update_subset_insert [of "ss_jobs s" i "Failed e"] by auto
    have saved: "Saved x \<in> set ((ss_jobs s)[i := Failed e]) \<longleftrightarrow> Saved x \<in> set (ss_jobs s)" for x
      by (rule set_update_other [OF i]) (use j in auto)
    show ?thesis
    proof (cases "in_progress (ss_jobs s ! i)")
      case True
      then have "k = Some i" using busy [OF i] by simp
      then show ?thesis
        by (intro lone_okI [of _ _ None]) (use st keep saved load [OF True] idle_end [OF st(4)] in \<open>auto\<close>)
    next
      case False
      have "idle_except k ((ss_jobs s)[i := Failed e])"
        using st(4) i by (auto simp: idle_except_def nth_list_update)
      moreover have "k \<noteq> Some i" using False st(6) [of i] by (auto simp: job_ok_def split: appendJob.splits)
      ultimately show ?thesis
        by (intro lone_okI [of _ _ k]) (use st keep saved in \<open>auto simp: nth_list_update\<close>)
    qed
  qed
  from step show ?thesis
  proof (cases rule: store_step.cases)
    case (calls e)
    have "job_ok es fl (Called e) = False" for es fl by (simp add: job_ok_def)
    with calls assms(2) st idle_append [OF st(4), of "Called e"] show ?thesis
      by (intro lone_okI [of _ _ k]) (auto simp: nth_append)
  next
    case (reads i e es)
    have idle: "idle_except None (ss_jobs s)" using lone reads(1) by simp
    have "k = None"
    proof (rule ccontr)
      assume "k \<noteq> None"
      then obtain j where "k = Some j" by blast
      with st(6) [OF this] idle show False
        by (auto simp: idle_except_def job_ok_def split: appendJob.splits)
    qed
    then have load: "es = es0 @ ss_saved s" "store_load (ss_file s) = Inr (es0 @ ss_saved s)"
      using st(5) reads(5) by simp_all
    have saved: "Saved x \<in> set ((ss_jobs s)[i := Loaded e es]) \<longleftrightarrow> Saved x \<in> set (ss_jobs s)" for x
      by (rule set_update_other [OF reads(3)]) (use reads(4) in auto)
    have keep: "Called x \<in> set ((ss_jobs s)[i := Loaded e es]) \<Longrightarrow> Called x \<in> set (ss_jobs s)" for x
      using set_update_subset_insert [of "ss_jobs s" i "Loaded e es"] by auto
    have "storable e" using st(2) reads(3,4) by (metis nth_mem)
    then show ?thesis unfolding reads(2)
      by (intro lone_okI [of _ _ "Some i"])
        (use st saved keep load reads(3) idle_update [OF idle, of i "Loaded e es"] in \<open>auto simp: job_ok_def\<close>)
  next
    case (read_fails i e err)
    then show ?thesis using quiet by blast
  next
    case (opens i e es data)
    then have ok: "k = Some i" "es = es0 @ ss_saved s" "storable e" using busy [of i] by (auto simp: job_ok_def)
    have saved: "Saved x \<in> set ((ss_jobs s)[i := Writing e 0 data]) \<longleftrightarrow> Saved x \<in> set (ss_jobs s)" for x
      by (rule set_update_other [OF opens(3)]) (use opens(4) in auto)
    have keep: "Called x \<in> set ((ss_jobs s)[i := Writing e 0 data]) \<Longrightarrow> Called x \<in> set (ss_jobs s)" for x
      using set_update_subset_insert [of "ss_jobs s" i "Writing e 0 data"] by auto
    show ?thesis unfolding opens(2)
      by (intro lone_okI [of _ _ "Some i"])
        (use st saved keep ok opens(3,5) idle_update [OF st(4), of i "Writing e 0 data"] in \<open>auto simp: job_ok_def\<close>)
  next
    case (open_fails i e es)
    then show ?thesis using quiet by blast
  next
    case (writes i e pos left data n)
    then obtain whole where ok: "k = Some i" "storable e" "save_text (es0 @ ss_saved s @ [e]) = Some whole"
      "pos \<le> length whole" "left = drop pos whole" "data = take pos whole"
      using busy [of i] by (auto simp: job_ok_def)
    let ?j = "Writing e (pos + n) (drop n left)"
    have saved: "Saved x \<in> set ((ss_jobs s)[i := ?j]) \<longleftrightarrow> Saved x \<in> set (ss_jobs s)" for x
      by (rule set_update_other [OF writes(3)]) (use writes(4) in auto)
    have keep: "Called x \<in> set ((ss_jobs s)[i := ?j]) \<Longrightarrow> Called x \<in> set (ss_jobs s)" for x
      using set_update_subset_insert [of "ss_jobs s" i ?j] by auto
    have "write_at pos (take n left) data = take (pos + n) whole" "pos + n \<le> length whole"
      "drop n left = drop (pos + n) whole"
      using ok writes(7) by (simp_all add: write_at_next add.commute)
    then have "job_ok (es0 @ ss_saved s) (Content (write_at pos (take n left) data)) ?j"
      using ok by (simp add: job_ok_def)
    then show ?thesis unfolding writes(2)
      by (intro lone_okI [of _ _ "Some i"])
        (use st saved keep ok(1) writes(3) idle_update [OF st(4), of i ?j] in auto)
  next
    case (write_fails i e pos left)
    then show ?thesis using lone by auto
  next
    case (closes i e pos)
    then obtain whole where ok: "k = Some i" "storable e" "save_text (es0 @ ss_saved s @ [e]) = Some whole"
      "length whole \<le> pos" "ss_file s = Content (take pos whole)"
      using busy [of i] by (auto simp: job_ok_def)
    have all: "list_all storable (es0 @ ss_saved s @ [e])" using st(1) ok(2) by simp
    have load: "store_load (ss_file s) = Inr (es0 @ ss_saved s @ [e])"
      using saved_text_loads [OF all] ok(3-5) by auto
    have saved: "Saved x \<in> set ((ss_jobs s)[i := Saved e]) \<longleftrightarrow> Saved x \<in> set (ss_jobs s) \<or> x = e" for x
      using set_update_other [OF closes(3), of "Saved x" "Saved e"] set_update_self [OF closes(3), of "Saved e"]
        closes(4) by (cases "x = e") auto
    have keep: "Called x \<in> set ((ss_jobs s)[i := Saved e]) \<Longrightarrow> Called x \<in> set (ss_jobs s)" for x
      using set_update_subset_insert [of "ss_jobs s" i "Saved e"] by auto
    show ?thesis unfolding closes(2)
      by (intro lone_okI [of _ _ None])
        (use st(2,3) all load saved keep idle_end [OF st(4), of i "Saved e"] ok(1) in auto)
  qed
qed

interpretation lone_appends: step_invariant lone_step "lone_ok es0" "\<lambda>x. case x of Calls e \<Rightarrow> storable e | _ \<Rightarrow> True"
  for es0
  by unfold_locales (rule lone_step_ok)


section \<open>Properties\<close>

text \<open>
  (C26) What is saved is what is loaded after a restart: every list of revocations with valid
  dates is written to the file and parsed back unchanged, whatever characters the ids and reasons
  contain.
\<close>

theorem store_roundtrip:
  assumes "list_all storable es"
  shows "store_load (snd (store_save True es fl)) = Inr es"
  using save_then_load [OF assms] by blast

definition sample_entry :: "string \<Rightarrow> revokedEntry" where
  "sample_entry j = \<lparr>re_jti = j, re_revokedAt = Some 1000, re_expiresAt = Some 2000, re_reason = None\<rparr>"

lemma sample_storable: "storable (sample_entry j)"
  by (simp add: storable_def storable_time_def sample_entry_def)

theorem store_roundtrip_witness:
  "store_load (snd (store_save True [sample_entry ''a'', sample_entry ''b''] Absent)) =
     Inr [sample_entry ''a'', sample_entry ''b'']"
  by (rule store_roundtrip) (simp add: sample_storable)

text \<open>
  (C27) Appends that do not overlap, each going through all its steps, lose nothing: if none reads the file while
  another is in progress and no write fails half way, then whenever none is in progress the file loads, as
  what it held at the start followed by exactly the entries whose append has ended well, in that order.
  An append that fails before it opens the file has changed nothing.
\<close>

theorem lone_appends_durable:
  assumes "runs lone_step s xs t" and "store_load (ss_file s) = Inr es" and "ss_jobs s = []" and "ss_saved s = []"
    and "list_all storable es" and "\<forall>e. Calls e \<in> set xs \<longrightarrow> storable e"
    and "\<forall>j \<in> set (ss_jobs t). \<not> in_progress j"
  shows "store_load (ss_file t) = Inr (es @ ss_saved t) \<and> set (ss_saved t) = {e. Saved e \<in> set (ss_jobs t)}"
proof -
  have "lone_ok es s" using assms(2-5) by (auto simp: lone_ok_def idle_except_def split: option.split)
  moreover have "list_all (\<lambda>x. case x of Calls e \<Rightarrow> storable e | _ \<Rightarrow> True) xs"
    using assms(6) by (auto simp: list_all_iff split: storeEvent.split)
  ultimately have "lone_ok es t" using lone_appends.run_good [OF assms(1)] by blast
  then obtain k where "set (ss_saved t) = {e. Saved e \<in> set (ss_jobs t)}"
    "k = None \<Longrightarrow> store_load (ss_file t) = Inr (es @ ss_saved t)"
    "\<And>i. k = Some i \<Longrightarrow> i < length (ss_jobs t) \<and> job_ok (es @ ss_saved t) (ss_file t) (ss_jobs t ! i)"
    unfolding lone_ok_def by (force split: option.splits)
  moreover have "k \<noteq> Some i" for i
    using calculation(3) [of i] assms(7) job_ok_progress nth_mem [of i "ss_jobs t"] by metis
  ultimately show ?thesis by (cases k) auto
qed

text \<open>An append that nothing interferes with runs to its end.\<close>

lemma append_runs:
  assumes "store_load (ss_file s) = Inr es" and "list_all storable (es @ [e])"
    and "\<forall>j \<in> set (ss_jobs s). \<not> in_progress j" and "i = length (ss_jobs s)"
  obtains data where "runs lone_step s [Calls e, Reads i, Opens i, Writes i (length data), Closes i]
      \<lparr>ss_file = Content data, ss_jobs = ss_jobs s @ [Saved e], ss_saved = ss_saved s @ [e]\<rparr>"
    and "store_load (Content data) = Inr (es @ [e])"
proof -
  obtain data where data: "save_text (es @ [e]) = Some data" "store_load (Content data) = Inr (es @ [e])"
    using saved_text_loads [OF assms(2)] .
  have pos: "0 < length data" using data(2) by (cases data) (simp_all add: store_load_def json_parse_def skip_ws_def)
  let ?s1 = "s\<lparr>ss_jobs := ss_jobs s @ [Called e]\<rparr>"
  let ?s2 = "set_job ?s1 i (Loaded e es)"
  let ?s3 = "set_job (?s2\<lparr>ss_file := Content []\<rparr>) i (Writing e 0 data)"
  let ?s4 = "set_job (?s3\<lparr>ss_file := Content (write_at 0 (take (length data) data) [])\<rparr>) i
    (Writing e (0 + length data) (drop (length data) data))"
  let ?s5 = "set_job (?s4\<lparr>ss_saved := ss_saved ?s4 @ [e]\<rparr>) i (Saved e)"
  have "idle_except None (ss_jobs ?s1)" using assms(3) by (auto simp: idle_except_def nth_append)
  then have first: "lone_step s (Calls e) ?s1" and second: "lone_step ?s1 (Reads i) ?s2"
    using store_step.calls [of s e] store_step.reads [of i ?s1 e es] assms(1,4)
    by (simp_all add: lone_step_def nth_append)
  have third: "lone_step ?s2 (Opens i) ?s3"
    using store_step.opens [of i ?s2 e es data] assms(4) data(1) by (simp add: lone_step_def)
  have fourth: "lone_step ?s3 (Writes i (length data)) ?s4"
    using store_step.writes [of i ?s3 e 0 data "[]" "length data"] assms(4) pos by (simp add: lone_step_def)
  have fifth: "lone_step ?s4 (Closes i) ?s5"
    using store_step.closes [of i ?s4 e "length data"] assms(4) by (simp add: lone_step_def)
  have end_state: "?s5 = \<lparr>ss_file = Content data, ss_jobs = ss_jobs s @ [Saved e], ss_saved = ss_saved s @ [e]\<rparr>"
    using assms(4) by (simp add: set_job_def write_at_def list_update_append)
  have "runs lone_step s [Calls e, Reads i, Opens i, Writes i (length data), Closes i]
      \<lparr>ss_file = Content data, ss_jobs = ss_jobs s @ [Saved e], ss_saved = ss_saved s @ [e]\<rparr>"
    unfolding end_state [symmetric]
    by (rule runs_Cons, rule first, rule runs_Cons, rule second, rule runs_Cons, rule third,
        rule runs_Cons, rule fourth, rule runs_Cons, rule fifth, rule runs_Nil)
  then show ?thesis using that data(2) by blast
qed

definition no_appends :: storeSys where
  "no_appends = \<lparr>ss_file = Absent, ss_jobs = [], ss_saved = []\<rparr>"

theorem lone_appends_durable_witness:
  "\<exists>xs t. runs lone_step no_appends xs t \<and> ss_saved t = [sample_entry ''a'', sample_entry ''b''] \<and>
     store_load (ss_file t) = Inr [sample_entry ''a'', sample_entry ''b'']"
proof -
  let ?a = "sample_entry ''a''" and ?b = "sample_entry ''b''"
  have absent: "store_load (ss_file no_appends) = Inr []" by (simp add: no_appends_def store_load_def)
  obtain d where d: "runs lone_step no_appends [Calls ?a, Reads 0, Opens 0, Writes 0 (length d), Closes 0]
      \<lparr>ss_file = Content d, ss_jobs = [Saved ?a], ss_saved = [?a]\<rparr>" "store_load (Content d) = Inr [?a]"
    by (rule append_runs [OF absent, of ?a 0]) (simp_all add: sample_storable no_appends_def)
  let ?s = "\<lparr>ss_file = Content d, ss_jobs = [Saved ?a], ss_saved = [?a]\<rparr>"
  let ?t = "\<lambda>f. \<lparr>ss_file = Content f, ss_jobs = [Saved ?a, Saved ?b], ss_saved = [?a, ?b]\<rparr>"
  obtain f where f: "runs lone_step ?s [Calls ?b, Reads 1, Opens 1, Writes 1 (length f), Closes 1] (?t f)"
    by (rule append_runs [of ?s "[?a]" ?b 1]) (simp_all add: sample_storable d(2))
  let ?xs = "[Calls ?a, Reads 0, Opens 0, Writes 0 (length d), Closes 0] @
    [Calls ?b, Reads 1, Opens 1, Writes 1 (length f), Closes 1]"
  have run: "runs lone_step no_appends ?xs (?t f)" unfolding runs_append using d(1) f by blast
  have "store_load (ss_file (?t f)) = Inr ([] @ ss_saved (?t f)) \<and>
      set (ss_saved (?t f)) = {e. Saved e \<in> set (ss_jobs (?t f))}"
    by (rule lone_appends_durable [OF run absent]) (auto simp: no_appends_def sample_storable)
  with run show ?thesis by (intro exI [of _ ?xs] exI [of _ "?t f"]) simp
qed

text \<open>Two appends that both read the absent file, open it, and write: the second one's text lies over the first one's.\<close>

lemma overlapping_run:
  assumes "save_text [a] = Some da" and "save_text [b] = Some db" and "da \<noteq> []" and "db \<noteq> []"
  shows "\<exists>xs. runs store_step no_appends xs
    \<lparr>ss_file = Content (db @ drop (length db) da), ss_jobs = [Saved a, Saved b], ss_saved = [a, b]\<rparr>"
proof -
  let ?s1 = "\<lparr>ss_file = Absent, ss_jobs = [Called a, Called b], ss_saved = []\<rparr>"
  let ?s2 = "\<lparr>ss_file = Absent, ss_jobs = [Loaded a [], Loaded b []], ss_saved = []\<rparr>"
  let ?s3 = "\<lparr>ss_file = Content [], ss_jobs = [Writing a 0 da, Writing b 0 db], ss_saved = []\<rparr>"
  let ?s4 = "\<lparr>ss_file = Content da, ss_jobs = [Writing a (length da) [], Writing b 0 db], ss_saved = []\<rparr>"
  let ?s5 = "\<lparr>ss_file = Content (db @ drop (length db) da),
    ss_jobs = [Writing a (length da) [], Writing b (length db) []], ss_saved = []\<rparr>"
  let ?s6 = "\<lparr>ss_file = Content (db @ drop (length db) da), ss_jobs = [Saved a, Saved b], ss_saved = [a, b]\<rparr>"
  have "runs store_step no_appends [Calls a, Calls b] ?s1"
    using store_step.calls [of no_appends a] store_step.calls [of "no_appends\<lparr>ss_jobs := [Called a]\<rparr>" b]
    by (auto simp: no_appends_def)
  moreover have "runs store_step ?s1 [Reads 0, Reads 1] ?s2"
    using store_step.reads [of 0 ?s1 a "[]"]
      store_step.reads [of 1 "?s1\<lparr>ss_jobs := [Loaded a [], Called b]\<rparr>" b "[]"]
    by (auto simp: set_job_def store_load_def)
  moreover have "runs store_step ?s2 [Opens 0, Opens 1] ?s3"
    using store_step.opens [of 0 ?s2 a "[]" da] assms(1,2)
      store_step.opens [of 1 "\<lparr>ss_file = Content [], ss_jobs = [Writing a 0 da, Loaded b []], ss_saved = []\<rparr>" b "[]" db]
    by (auto simp: set_job_def)
  moreover have "runs store_step ?s3 [Writes 0 (length da), Writes 1 (length db)] ?s5"
    using store_step.writes [of 0 ?s3 a 0 da "[]" "length da"] assms(3,4)
      store_step.writes [of 1 ?s4 b 0 db da "length db"]
    by (auto simp: set_job_def write_at_def)
  moreover have "runs store_step ?s5 [Closes 0, Closes 1] ?s6"
    using store_step.closes [of 0 ?s5 a "length da"]
      store_step.closes [of 1 "?s5\<lparr>ss_jobs := [Saved a, Writing b (length db) []], ss_saved := [a]\<rparr>" b "length db"]
    by (auto simp: set_job_def)
  ultimately have "runs store_step no_appends ([Calls a, Calls b] @ [Reads 0, Reads 1] @ [Opens 0, Opens 1] @
      [Writes 0 (length da), Writes 1 (length db)] @ [Closes 0, Closes 1]) ?s6"
    unfolding runs_append by blast
  then show ?thesis by blast
qed

lemma sample_text: "save_text [sample_entry j] = Some (json_stringify_indented (JArr [JObj
    [(''jti'', JStr j), (''revokedAt'', JStr (toISOString 1000)), (''expiresAt'', JStr (toISOString 2000)),
     (''reason'', JUndef)]]))"
  by (simp add: save_text_def serializeEntry_def sample_entry_def)

text \<open>
  Appends that overlap can lose a revocation: two appends that both read the absent file before either
  writes it both end well, and the file holds only the second entry.
\<close>

theorem concurrent_appends_lose_update:
  "\<exists>xs t. runs store_step no_appends xs t \<and> ss_jobs t = [Saved (sample_entry ''a''), Saved (sample_entry ''b'')] \<and>
     store_load (ss_file t) = Inr [sample_entry ''b'']"
proof -
  obtain da where da: "save_text [sample_entry ''a''] = Some da" "store_load (Content da) = Inr [sample_entry ''a'']"
    by (rule saved_text_loads [of "[sample_entry ''a'']"]) (simp_all add: sample_storable)
  obtain db where db: "save_text [sample_entry ''b''] = Some db" "store_load (Content db) = Inr [sample_entry ''b'']"
    by (rule saved_text_loads [of "[sample_entry ''b'']"]) (simp_all add: sample_storable)
  have "length (the (save_text [sample_entry ''a''])) = length (the (save_text [sample_entry ''b'']))"
    by code_simp
  then have "drop (length db) da = []" using da(1) db(1) by simp
  moreover have "da \<noteq> []" "db \<noteq> []" using da(2) db(2)
    by (auto simp: store_load_def json_parse_def skip_ws_def)
  ultimately show ?thesis using overlapping_run [OF da(1) db(1)] db(2) by fastforce
qed

text \<open>
  They can even destroy the file: if the first text is the longer one its end stays behind the second one's,
  and although both appends end well the file is corrupted and cannot be loaded any more.
\<close>

theorem overlapping_appends_corrupt:
  "\<exists>xs t. runs store_step no_appends xs t \<and> ss_jobs t = [Saved (sample_entry ''aa''), Saved (sample_entry ''b'')] \<and>
     store_load (ss_file t) = Inl CorruptedStore"
proof -
  obtain da where da: "save_text [sample_entry ''aa''] = Some da" using sample_text by blast
  obtain db where db: "save_text [sample_entry ''b''] = Some db" using sample_text by blast
  have "json_parse (the (save_text [sample_entry ''b'']) @
      drop (length (the (save_text [sample_entry ''b'']))) (the (save_text [sample_entry ''aa'']))) = None"
    by code_simp
  then have "store_load (Content (db @ drop (length db) da)) = Inl CorruptedStore"
    by (simp add: da db store_load_def)
  moreover have "da \<noteq> []" "db \<noteq> []"
    using da db sample_text by (auto simp: json_stringify_indented_def)
  ultimately show ?thesis using overlapping_run [OF da db] by fastforce
qed

text \<open>
  Appends that do not overlap lose nothing: run one after the other, each succeeding, they
  leave a file that loads as the old entries followed by all the new ones, in order.
\<close>

theorem sequential_appends_persist_all:
  assumes "store_load fl = Inr es" and "list_all storable (es @ news)"
  shows "store_load (foldl (\<lambda>f e. snd (store_append True e f)) fl news) = Inr (es @ news)"
  using assms
proof (induction news arbitrary: fl es)
  case Nil
  then show ?case by simp
next
  case (Cons e news)
  have "store_load (snd (store_append True e fl)) = Inr (es @ [e])"
    using append_then_load [OF Cons.prems(1)] Cons.prems(2) by simp
  from Cons.IH [OF this] Cons.prems(2) show ?case by simp
qed

theorem sequential_appends_persist_all_witness:
  "store_load (foldl (\<lambda>f e. snd (store_append True e f)) Absent
     [sample_entry ''a'', sample_entry ''b'']) = Inr ([] @ [sample_entry ''a'', sample_entry ''b''])"
  by (rule sequential_appends_persist_all) (simp_all add: store_load_def sample_storable)

end
