(* ===== verification/ExpiryMonitor.thy ===== *)
theory ExpiryMonitor
  imports TokenRegistry
begin

text \<open>
  \<open>tokens/expiry-monitor.ts\<close>: the periodic warnings for tokens near their expiry. The state is
  the closure's set of warned ids (a list without repetitions, in insertion order) and the timer
  with the options it was started with. \<open>monitor_tick\<close> is the body of the interval callback; the
  calls of \<open>onWarning\<close> it makes are the list it returns.

  \<open>expiry_source\<close> is what the monitor needs of the registry; \<open>TokenRegistry\<close> provides it.
\<close>

section \<open>State and operations\<close>

record expiryWarning =
  ew_jti :: string
  ew_sessionId :: string
  ew_expiresAt :: ms
  ew_remainingMs :: ms

record expiryMonitorOptions =
  warningThresholdMs :: ms
  checkIntervalMs :: ms

record expiryMonitor =
  em_warnedTokens :: "string list"
  em_checkInterval :: "expiryMonitorOptions option"

datatype monitorError = MonitorAlreadyRunning

definition createExpiryMonitor :: expiryMonitor where
  "createExpiryMonitor = \<lparr>em_warnedTokens = [], em_checkInterval = None\<rparr>"

fun warn_loop ::
    "ms \<Rightarrow> tokenEntry list \<Rightarrow> string list \<Rightarrow> string list \<times> expiryWarning list" where
  "warn_loop now [] warned = (warned, [])"
| "warn_loop now (entry # rest) warned =
     (if te_jti entry \<notin> set warned
      then let warning = \<lparr>ew_jti = te_jti entry, ew_sessionId = te_sessionId entry,
                          ew_expiresAt = te_expiresAt entry,
                          ew_remainingMs = te_expiresAt entry - now\<rparr>;
               (warned', ws) = warn_loop now rest (warned @ [te_jti entry])
           in (warned', warning # ws)
      else warn_loop now rest warned)"

fun prune_loop :: "(string \<Rightarrow> 'e option) \<Rightarrow> string list \<Rightarrow> string list \<Rightarrow> string list" where
  "prune_loop get [] warned = warned"
| "prune_loop get (jti # rest) warned =
     prune_loop get rest (if get jti = None then remove1 jti warned else warned)"

definition monitor_tick ::
    "tokenRegistry \<Rightarrow> expiryMonitorOptions \<Rightarrow> ms \<Rightarrow> expiryMonitor
      \<Rightarrow> expiryMonitor \<times> expiryWarning list" where
  "monitor_tick registry options now m =
     (let expiring = getExpiringSoon registry (warningThresholdMs options) now;
          (warned, ws) = warn_loop now expiring (em_warnedTokens m);
          pruned = prune_loop (reg_get registry) warned warned
      in (m\<lparr>em_warnedTokens := pruned\<rparr>, ws))"

definition monitor_start :: "expiryMonitor \<Rightarrow> expiryMonitorOptions \<Rightarrow> monitorError + expiryMonitor" where
  "monitor_start m options =
     (if em_checkInterval m \<noteq> None then Inl MonitorAlreadyRunning
      else Inr (m\<lparr>em_checkInterval := Some options\<rparr>))"

definition monitor_stop :: "expiryMonitor \<Rightarrow> expiryMonitor" where
  "monitor_stop m =
     (if em_checkInterval m \<noteq> None then m\<lparr>em_checkInterval := None\<rparr> else m)"

definition monitor_isRunning :: "expiryMonitor \<Rightarrow> bool" where
  "monitor_isRunning m = (em_checkInterval m \<noteq> None)"

definition clearWarned :: "expiryMonitor \<Rightarrow> expiryMonitor" where
  "clearWarned m = m\<lparr>em_warnedTokens := []\<rparr>"

section \<open>The two loops\<close>

lemma warn_loop_warned:
  "fst (warn_loop now es w) = w @ map ew_jti (snd (warn_loop now es w))"
  by (induction now es w rule: warn_loop.induct) (auto simp: case_prod_unfold Let_def)

lemma warn_loop_distinct: "distinct w \<Longrightarrow> distinct (fst (warn_loop now es w))"
  by (induction now es w rule: warn_loop.induct) (auto simp: case_prod_unfold Let_def)

lemma warn_loop_set: "set (fst (warn_loop now es w)) = set w \<union> te_jti ` set es"
  by (induction now es w rule: warn_loop.induct) (auto simp: case_prod_unfold Let_def)

lemma warn_loop_from:
  "x \<in> set (snd (warn_loop now es w)) \<Longrightarrow>
   \<exists>e \<in> set es. ew_jti x = te_jti e \<and> ew_sessionId x = te_sessionId e \<and>
     ew_expiresAt x = te_expiresAt e \<and> ew_remainingMs x = te_expiresAt e - now"
  by (induction now es w rule: warn_loop.induct)
     (auto simp: case_prod_unfold Let_def split: if_splits)

lemma prune_loop_filter:
  assumes "distinct w"
  shows "prune_loop get js w = filter (\<lambda>j. j \<notin> set js \<or> get j \<noteq> None) w"
  using assms
proof (induction get js w rule: prune_loop.induct)
  case (1 get w)
  then show ?case by simp
next
  case (2 get j js w)
  show ?case
  proof (cases "get j = None")
    case True
    have "prune_loop get (j # js) w = filter (\<lambda>i. i \<notin> set js \<or> get i \<noteq> None) (remove1 j w)"
      using 2 True by simp
    also have "\<dots> = filter (\<lambda>i. i \<notin> set (j # js) \<or> get i \<noteq> None) w"
      using True 2(2) by (auto simp: distinct_remove1_removeAll removeAll_filter_not_eq intro!: filter_cong)
    finally show ?thesis .
  next
    case False
    with 2 show ?thesis by (auto intro!: filter_cong)
  qed
qed

section \<open>What the monitor needs of its registry\<close>

locale expiry_source =
  fixes lookup :: "'s \<Rightarrow> string \<Rightarrow> tokenEntry option"
    and soon :: "'s \<Rightarrow> ms \<Rightarrow> ms \<Rightarrow> tokenEntry list"
    and good :: "'s \<Rightarrow> bool"
  assumes soon_iff: "good s \<Longrightarrow> e \<in> set (soon s th now) \<longleftrightarrow>
      lookup s (te_jti e) = Some e \<and> now < te_expiresAt e \<and> te_expiresAt e \<le> now + th"
begin

lemma warnings_sound:
  assumes "good s" and "x \<in> set (snd (warn_loop now (soon s th now) w))"
  shows "\<exists>e. lookup s (ew_jti x) = Some e \<and> ew_expiresAt x = te_expiresAt e \<and>
    ew_sessionId x = te_sessionId e \<and> 0 < ew_remainingMs x \<and> ew_remainingMs x \<le> th"
  using warn_loop_from [OF assms(2)] soon_iff [OF assms(1)] by fastforce

lemma soon_warned:
  assumes "good s" and "lookup s j = Some e" and "te_jti e = j"
    and "now < te_expiresAt e" and "te_expiresAt e \<le> now + th"
  shows "j \<in> set (fst (warn_loop now (soon s th now) w))"
  using assms soon_iff [OF assms(1), of e th now] by (auto simp: warn_loop_set)

end

interpretation reg_expiry: expiry_source reg_get getExpiringSoon registry_ok
  by unfold_locales
     (auto simp: getExpiringSoon_def reg_get_def tokens_ok_value registry_ok_def simp del: set_map)

section \<open>A tick\<close>

lemma tick_warned:
  assumes "distinct (em_warnedTokens m)"
  shows "em_warnedTokens (fst (monitor_tick r opts now m)) =
      filter (\<lambda>j. reg_get r j \<noteq> None)
        (fst (warn_loop now (getExpiringSoon r (warningThresholdMs opts) now) (em_warnedTokens m)))"
  using warn_loop_distinct [OF assms, of now "getExpiringSoon r (warningThresholdMs opts) now"]
  by (auto simp: monitor_tick_def case_prod_unfold Let_def prune_loop_filter intro!: filter_cong)

lemma tick_warnings:
  "snd (monitor_tick r opts now m) =
     snd (warn_loop now (getExpiringSoon r (warningThresholdMs opts) now) (em_warnedTokens m))"
  by (simp add: monitor_tick_def case_prod_unfold Let_def)

lemma tick_distinct:
  "distinct (em_warnedTokens m) \<Longrightarrow> distinct (em_warnedTokens (fst (monitor_tick r opts now m)))"
  by (simp add: tick_warned warn_loop_distinct)

text \<open>The warnings of a sequence of ticks, each seeing the registry and the time of its moment.\<close>

fun run_ticks ::
    "expiryMonitorOptions \<Rightarrow> (tokenRegistry \<times> ms) list \<Rightarrow> expiryMonitor
      \<Rightarrow> expiryMonitor \<times> expiryWarning list" where
  "run_ticks opts [] m = (m, [])"
| "run_ticks opts ((r, now) # rest) m =
     (let (m1, ws) = monitor_tick r opts now m;
          (m2, ws') = run_ticks opts rest m1
      in (m2, ws @ ws'))"

lemma count_list_distinct: "distinct xs \<Longrightarrow> count_list xs j = of_bool (j \<in> set xs)"
  by (induction xs) auto

lemma tick_once:
  assumes "distinct (em_warnedTokens m)" and "reg_get r j \<noteq> None"
  shows "count_list (map ew_jti (snd (monitor_tick r opts now m))) j +
      of_bool (j \<in> set (em_warnedTokens m)) =
    of_bool (j \<in> set (em_warnedTokens (fst (monitor_tick r opts now m))))"
proof -
  let ?es = "getExpiringSoon r (warningThresholdMs opts) now" and ?w = "em_warnedTokens m"
  let ?ws = "snd (warn_loop now ?es ?w)"
  have d: "distinct (?w @ map ew_jti ?ws)"
    using warn_loop_distinct [OF assms(1), of now ?es] by (simp add: warn_loop_warned [symmetric])
  then have "count_list (map ew_jti ?ws) j = of_bool (j \<in> set (map ew_jti ?ws))"
    by (simp add: count_list_distinct)
  then show ?thesis
    using d assms(2) by (auto simp: tick_warnings tick_warned [OF assms(1)] warn_loop_warned)
qed

lemma run_ticks_once:
  assumes "distinct (em_warnedTokens m)" and "list_all (\<lambda>(r, now). reg_get r j \<noteq> None) ticks"
  shows "count_list (map ew_jti (snd (run_ticks opts ticks m))) j +
      of_bool (j \<in> set (em_warnedTokens m)) =
    of_bool (j \<in> set (em_warnedTokens (fst (run_ticks opts ticks m))))"
  using assms
proof (induction opts ticks m rule: run_ticks.induct)
  case (1 opts m)
  then show ?case by simp
next
  case (2 opts r now rest m)
  obtain m1 ws where t: "monitor_tick r opts now m = (m1, ws)" by fastforce
  have d: "distinct (em_warnedTokens m1)" using tick_distinct [OF 2(2), of r opts now] t by simp
  have "count_list (map ew_jti (snd (run_ticks opts rest m1))) j + of_bool (j \<in> set (em_warnedTokens m1))
      = of_bool (j \<in> set (em_warnedTokens (fst (run_ticks opts rest m1))))"
    using 2(1) [OF t [symmetric] refl d] 2(3) by simp
  moreover have "count_list (map ew_jti ws) j + of_bool (j \<in> set (em_warnedTokens m)) =
      of_bool (j \<in> set (em_warnedTokens m1))"
    using tick_once [OF 2(2), of r j opts now] 2(3) t by simp
  ultimately show ?case by (simp add: t case_prod_unfold Let_def)
qed

lemma warned_mono:
  assumes "distinct (em_warnedTokens m)" and "list_all (\<lambda>(r, now). reg_get r j \<noteq> None) ticks"
    and "j \<in> set (em_warnedTokens m)"
  shows "j \<in> set (em_warnedTokens (fst (run_ticks opts ticks m)))"
  using run_ticks_once [OF assms(1,2), of opts] assms(3) by (cases "j \<in> set (em_warnedTokens (fst (run_ticks opts ticks m)))") simp_all

lemma first_warning_iff:
  assumes "distinct (em_warnedTokens m)" and "j \<notin> set (em_warnedTokens m)"
    and "registry_ok r" and "reg_get r j \<noteq> None"
  shows "j \<in> set (em_warnedTokens (fst (monitor_tick r opts now m))) \<longleftrightarrow>
    (\<exists>e. reg_get r j = Some e \<and> now < te_expiresAt e \<and>
      te_expiresAt e \<le> now + warningThresholdMs opts)"
proof -
  have "j \<in> set (em_warnedTokens (fst (monitor_tick r opts now m))) \<longleftrightarrow>
      j \<in> te_jti ` set (getExpiringSoon r (warningThresholdMs opts) now)"
    using tick_warned [OF assms(1), of r opts now] assms(2,4) by (simp add: warn_loop_set)
  also have "\<dots> \<longleftrightarrow> (\<exists>e. reg_get r j = Some e \<and> now < te_expiresAt e \<and>
      te_expiresAt e \<le> now + warningThresholdMs opts)"
    using reg_expiry.soon_iff [OF assms(3)] tokens_ok_get [of "tr_tokens r" j] assms(3)
    by (auto simp: registry_ok_def reg_get_def)
  finally show ?thesis .
qed

lemma warnings_count:
  assumes "distinct (em_warnedTokens m)" and "j \<notin> set (em_warnedTokens m)"
    and "list_all (\<lambda>(r, now). registry_ok r \<and> reg_get r j \<noteq> None) ticks"
  shows "count_list (map ew_jti (snd (run_ticks opts ticks m))) j =
    (if \<exists>(r, now) \<in> set ticks. \<exists>e. reg_get r j = Some e \<and> now < te_expiresAt e \<and>
         te_expiresAt e \<le> now + warningThresholdMs opts
     then 1 else 0)"
  using assms
proof (induction opts ticks m rule: run_ticks.induct)
  case (1 opts m)
  then show ?case by simp
next
  case (2 opts r now rest m)
  obtain m1 ws where t: "monitor_tick r opts now m = (m1, ws)" by fastforce
  let ?due = "\<exists>e. reg_get r j = Some e \<and> now < te_expiresAt e \<and>
         te_expiresAt e \<le> now + warningThresholdMs opts"
  have d: "distinct (em_warnedTokens m1)" using tick_distinct [OF 2(2), of r opts now] t by simp
  have rok: "registry_ok r" and here: "reg_get r j \<noteq> None"
    and rest: "list_all (\<lambda>(r, now). registry_ok r \<and> reg_get r j \<noteq> None) rest"
    and rest': "list_all (\<lambda>(r, now). reg_get r j \<noteq> None) rest"
    using 2(4) by (auto simp: list_all_iff)
  have one: "count_list (map ew_jti ws) j = of_bool (j \<in> set (em_warnedTokens m1))"
    using tick_once [OF 2(2) here, of opts now] t 2(3) by simp
  have set1: "j \<in> set (em_warnedTokens m1) \<longleftrightarrow> ?due"
    using first_warning_iff [OF 2(2,3) rok here, of opts now] t by simp
  show ?case
  proof (cases ?due)
    case True
    have "count_list (map ew_jti (snd (run_ticks opts rest m1))) j = 0"
      using run_ticks_once [OF d rest', of opts] warned_mono [OF d rest', of opts] True set1 by simp
    with True one set1 show ?thesis by (auto simp: t case_prod_unfold Let_def)
  next
    case False
    have "j \<notin> set (em_warnedTokens m1)" using False set1 by blast
    from 2(1) [OF t [symmetric] refl d this rest] this one False show ?thesis
      by (auto simp: t case_prod_unfold Let_def)
  qed
qed

lemma due_tick:
  fixes time :: "'t \<Rightarrow> ms"
  assumes "ts \<noteq> []" and "time (hd ts) < expiry" and "expiry \<le> time (last ts) + th"
    and "successively (\<lambda>s t. time t \<le> time s + th) ts"
  shows "\<exists>t \<in> set ts. time t < expiry \<and> expiry \<le> time t + th"
  using assms
proof (induction ts)
  case (Cons t ts)
  then show ?case by (cases ts; cases "time (hd ts) < expiry") (auto simp: successively_Cons)
qed simp

section \<open>Properties\<close>

text \<open>
  A token is warned about at most once: over any sequence of ticks during which the token stays
  registered (the registry and the time may change between ticks in any other way), the number of
  warnings for it is one if it was not warned before and some tick found it due, and zero otherwise.
\<close>

theorem monitor_warns_once:
  assumes "distinct (em_warnedTokens m)" and "j \<notin> set (em_warnedTokens m)"
    and "list_all (\<lambda>(r, now). registry_ok r \<and> reg_get r j \<noteq> None) ticks"
  shows "count_list (map ew_jti (snd (run_ticks opts ticks m))) j =
    (if \<exists>(r, now) \<in> set ticks. \<exists>e. reg_get r j = Some e \<and> now < te_expiresAt e \<and>
         te_expiresAt e \<le> now + warningThresholdMs opts
     then 1 else 0)"
  by (rule warnings_count [OF assms])

definition sample_monitor_options :: expiryMonitorOptions where
  "sample_monitor_options = \<lparr>warningThresholdMs = 5, checkIntervalMs = 1\<rparr>"

theorem monitor_warns_once_witness:
  "count_list (map ew_jti (snd (run_ticks sample_monitor_options
     [(sample_registry, 1), (sample_registry, 6), (sample_registry, 7)] createExpiryMonitor))) ''a'' = 1"
proof -
  have "reg_get sample_registry ''a'' = Some (sample_token ''a'' ''s1'' ''d1'' 10)"
    by (simp add: reg_get_def sample_registry_tokens)
  then show ?thesis
    using monitor_warns_once [of createExpiryMonitor "''a''"
        "[(sample_registry, 1), (sample_registry, 6), (sample_registry, 7)]" sample_monitor_options]
    by (simp add: createExpiryMonitor_def sample_registry_ok sample_token_def
        sample_monitor_options_def)
qed

text \<open>
  (C30) A token is warned about in time: if, while it stays registered with one expiry, the ticks begin
  before the expiry, come at most the warning threshold apart and go on until the expiry is that
  near, then exactly one warning is made for it, and some tick before the expiry made it.
\<close>

theorem monitor_warns_in_time:
  assumes "distinct (em_warnedTokens m)" and "j \<notin> set (em_warnedTokens m)"
    and "list_all (\<lambda>(r, now). registry_ok r \<and> map_option te_expiresAt (reg_get r j) = Some expiry) ticks"
    and "ticks \<noteq> []" and "snd (hd ticks) < expiry"
    and "expiry \<le> snd (last ticks) + warningThresholdMs opts"
    and "successively (\<lambda>s t. snd t \<le> snd s + warningThresholdMs opts) ticks"
  shows "count_list (map ew_jti (snd (run_ticks opts ticks m))) j = 1 \<and>
    (\<exists>(r, now) \<in> set ticks. now < expiry \<and> expiry \<le> now + warningThresholdMs opts)"
proof -
  have "\<exists>t \<in> set ticks. snd t < expiry \<and> expiry \<le> snd t + warningThresholdMs opts"
    using assms(4-7) by (rule due_tick)
  then obtain r now where due: "(r, now) \<in> set ticks" "now < expiry" "expiry \<le> now + warningThresholdMs opts"
    by auto
  moreover have "list_all (\<lambda>(r, now). registry_ok r \<and> reg_get r j \<noteq> None) ticks"
    using assms(3) by (auto simp: list_all_iff)
  moreover obtain e where "reg_get r j = Some e" "te_expiresAt e = expiry"
    using assms(3) due(1) by (auto simp: list_all_iff)
  ultimately show ?thesis using warnings_count [OF assms(1,2), of ticks opts] by fastforce
qed

theorem monitor_warns_in_time_witness:
  "count_list (map ew_jti (snd (run_ticks sample_monitor_options
     [(sample_registry, 1), (sample_registry, 4), (sample_registry, 8), (sample_registry, 12)]
     createExpiryMonitor))) ''a'' = 1"
proof -
  have "reg_get sample_registry ''a'' = Some (sample_token ''a'' ''s1'' ''d1'' 10)"
    by (simp add: reg_get_def sample_registry_tokens)
  then show ?thesis
    using monitor_warns_in_time [of createExpiryMonitor "''a''" 10 "[(sample_registry, 1),
        (sample_registry, 4), (sample_registry, 8), (sample_registry, 12)]" sample_monitor_options]
    by (simp add: createExpiryMonitor_def sample_registry_ok sample_token_def
        sample_monitor_options_def)
qed

text \<open>
  A warning is about a token that is registered at that moment, with the entry's session and
  expiry, and its remaining time is positive and within the threshold; after a tick the monitor
  remembers only registered tokens, each once, so its memory is bounded by the registry.
\<close>

theorem monitor_warnings_sound:
  assumes "registry_ok r" and "distinct (em_warnedTokens m)"
  shows "(\<forall>x \<in> set (snd (monitor_tick r opts now m)).
      \<exists>e. reg_get r (ew_jti x) = Some e \<and> ew_sessionId x = te_sessionId e \<and>
        ew_expiresAt x = te_expiresAt e \<and> 0 < ew_remainingMs x \<and>
        ew_remainingMs x \<le> warningThresholdMs opts)
    \<and> length (em_warnedTokens (fst (monitor_tick r opts now m))) \<le> reg_size r"
proof (intro conjI ballI)
  fix x assume "x \<in> set (snd (monitor_tick r opts now m))"
  then show "\<exists>e. reg_get r (ew_jti x) = Some e \<and> ew_sessionId x = te_sessionId e \<and>
      ew_expiresAt x = te_expiresAt e \<and> 0 < ew_remainingMs x \<and>
      ew_remainingMs x \<le> warningThresholdMs opts"
    using reg_expiry.warnings_sound [OF assms(1)] by (fastforce simp: tick_warnings)
next
  let ?w = "em_warnedTokens (fst (monitor_tick r opts now m))"
  have "length ?w = card (set ?w)"
    by (rule distinct_card [symmetric]) (rule tick_distinct [OF assms(2)])
  also have "\<dots> \<le> card (set (jm_keys (tr_tokens r)))"
    by (rule card_mono)
       (auto simp: tick_warned [OF assms(2)] reg_get_def dest!: map_of_SomeD intro: rev_image_eqI)
  also have "\<dots> \<le> reg_size r" using card_length [of "jm_keys (tr_tokens r)"] by (simp add: reg_size_def)
  finally show "length ?w \<le> reg_size r" .
qed

theorem monitor_warnings_sound_witness:
  "length (em_warnedTokens (fst (monitor_tick sample_registry sample_monitor_options 6
     createExpiryMonitor))) \<le> 3"
  using monitor_warnings_sound [OF sample_registry_ok, of createExpiryMonitor sample_monitor_options 6]
  by (simp add: createExpiryMonitor_def reg_size_def sample_registry_tokens)

end
