(* ===== verification/Gateway.thy ===== *)
theory Gateway
  imports Revocations RevocationStore ExpiryMonitor
begin

text \<open>
  \<open>index.ts\<close>: the gateway as one system. \<open>boot\<close> is \<open>main()\<close> up to the registration of the routes:
  it loads the stored revocations, builds the modules and wires them together, with one token
  registry object shared by the session and the revocation module. The signaling module's registry
  is never set, so its steps run without one.

  \<open>gw_step\<close> is the running process: one rule for each synchronous stretch of a handler, timer or
  socket event. A session creation and a refresh each take two steps, since they await the token
  generator; what they hold in between is in \<open>gw_creates\<close> and \<open>gw_refreshes\<close>. The ids a step
  generates are random and are taken to be new.
\<close>

section \<open>State and start\<close>

record 'key gateway =
  gw_config :: config
  gw_sessions :: "'key sessionsModule"
  gw_registry :: tokenRegistry
  gw_revocations :: "(string, revocationRecord) jsmap"
  gw_signaling :: signaling
  gw_monitor :: expiryMonitor
  gw_creates :: "pendingCreate list"
  gw_refreshes :: "pendingRefresh list"

definition CLEANUP_INTERVAL_MS :: ms where
  "CLEANUP_INTERVAL_MS = 30000"

definition EXPIRY_OPTIONS :: expiryMonitorOptions where
  "EXPIRY_OPTIONS = \<lparr>warningThresholdMs = 60000, checkIntervalMs = 10000\<rparr>"

definition boot ::
    "(string \<Rightarrow> string option) \<Rightarrow> 'key \<Rightarrow> (string \<times> jsval) list \<Rightarrow> storeFile
      \<Rightarrow> (string \<Rightarrow> string) \<Rightarrow> ms \<Rightarrow> storeError + 'key gateway" where
  "boot env key publicJwk revocationFile sha256 now =
     (let config = loadConfig env;
          keyManager = createDevKeyManager key publicJwk;
          generator = createTokenGenerator (km_privateKey keyManager) (km_keyId keyManager);
          revocationCache = createRevocationCache (Some (cf_maxRevocationCacheSize config))
      in case store_load revocationFile of
           Inl err \<Rightarrow> Inl err
         | Inr persisted \<Rightarrow>
             (let registry = setRevocationStore
                    (setRevocationCache createTokenRegistry (loadFromStore revocationCache persisted now));
                  empty = \<lparr>sx_sessions = [], sx_tokenGenerator = None, sx_evaluatorSet = False,
                           sx_policyStore = None\<rparr>;
                  sessions = setPolicyStore (setPolicyEvaluator (setTokenGenerator empty generator))
                    (defaultPolicyStore sha256 now);
                  monitor = (case monitor_start createExpiryMonitor EXPIRY_OPTIONS of
                      Inl err \<Rightarrow> createExpiryMonitor | Inr m \<Rightarrow> m)
              in Inr \<lparr>gw_config = config, gw_sessions = sessions,
                      gw_registry = startCleanup registry CLEANUP_INTERVAL_MS,
                      gw_revocations = [], gw_signaling = empty_signaling, gw_monitor = monitor,
                      gw_creates = [], gw_refreshes = []\<rparr>))"

text \<open>On \<open>SIGTERM\<close> or \<open>SIGINT\<close> both timers are stopped before the process exits.\<close>

definition shutdown :: "'key gateway \<Rightarrow> 'key gateway" where
  "shutdown g = g\<lparr>gw_monitor := monitor_stop (gw_monitor g), gw_registry := stopCleanup (gw_registry g)\<rparr>"

section \<open>Steps\<close>

datatype 'key gwEvent =
    PostSession createSessionRequest string "'key callEnv"
  | FinishCreate pendingCreate ms
  | DeleteSession string ms
  | Refresh string "string option" "'key callEnv"
  | FinishRefresh pendingRefresh
  | PostRevocation "string \<Rightarrow> jsval" createRevocationRequest string ms
  | CleanupTick ms
  | MonitorTick ms
  | Signal sigEvent

fun from_client :: "sigEvent \<Rightarrow> bool" where
  "from_client (Revoke sid reason) = False"
| "from_client e = True"

definition token_known :: "'key gateway \<Rightarrow> string \<Rightarrow> bool" where
  "token_known g jti \<longleftrightarrow> reg_get (gw_registry g) jti \<noteq> None
     \<or> jti \<in> (gr_tokenId \<circ> pc_tokenResult) ` set (gw_creates g)
     \<or> jti \<in> (gr_tokenId \<circ> pf_tokenResult) ` set (gw_refreshes g)"

definition session_known :: "'key gateway \<Rightarrow> string \<Rightarrow> bool" where
  "session_known g sid \<longleftrightarrow> getSession (gw_sessions g) sid \<noteq> None
     \<or> sid \<in> pc_sessionId ` set (gw_creates g)"

definition gw_ctx :: "'key gateway \<Rightarrow> 'key revocationCtx" where
  "gw_ctx g = \<lparr>rc_registry = Some (gw_registry g), rc_sessions = gw_sessions g,
     rc_signaling = gw_signaling g\<rparr>"

text \<open>\<open>generate\<close> prefixes the random part of a token's id with \<open>tok_\<close>.\<close>

definition new_jti :: "'key callEnv \<Rightarrow> string" where
  "new_jti ev = ''tok_'' @ ev_jtiUuid ev"

inductive gw_step :: "'key gateway \<Rightarrow> 'key gwEvent \<Rightarrow> 'key gateway \<Rightarrow> bool" where
  create_refused:
    "post_session_begin (gw_config g) (gw_sessions g) body host ev = Inl reply \<Longrightarrow>
     gw_step g (PostSession body host ev) g"
| create_begins:
    "post_session_begin (gw_config g) (gw_sessions g) body host ev = Inr p \<Longrightarrow>
     \<not> session_known g (ev_sessionId ev) \<Longrightarrow> \<not> token_known g (new_jti ev) \<Longrightarrow>
     gw_step g (PostSession body host ev) (g\<lparr>gw_creates := gw_creates g @ [p]\<rparr>)"
| create_finishes:
    "p \<in> set (gw_creates g) \<Longrightarrow>
     post_session_finish (gw_config g) (gw_sessions g) (Some (gw_registry g)) p now
       = (reply, m', Some r') \<Longrightarrow>
     gw_step g (FinishCreate p now)
       (g\<lparr>gw_creates := remove1 p (gw_creates g), gw_sessions := m', gw_registry := r'\<rparr>)"
| deletes:
    "delete_session_handler (gw_sessions g) (Some (gw_registry g)) sid now = (reply, m', Some r') \<Longrightarrow>
     gw_step g (DeleteSession sid now) (g\<lparr>gw_sessions := m', gw_registry := r'\<rparr>)"
| refresh_refused:
    "refresh_begin (gw_config g) (gw_sessions g) (Some (gw_registry g)) sid auth ev
       = (Inl reply, Some r') \<Longrightarrow>
     gw_step g (Refresh sid auth ev) (g\<lparr>gw_registry := r'\<rparr>)"
| refresh_begins:
    "refresh_begin (gw_config g) (gw_sessions g) (Some (gw_registry g)) sid auth ev
       = (Inr p, Some r') \<Longrightarrow> \<not> token_known g (new_jti ev) \<Longrightarrow>
     gw_step g (Refresh sid auth ev)
       (g\<lparr>gw_refreshes := gw_refreshes g @ [p], gw_registry := r'\<rparr>)"
| refresh_finishes:
    "p \<in> set (gw_refreshes g) \<Longrightarrow>
     refresh_finish (gw_sessions g) (Some (gw_registry g)) p = (reply, m', Some r') \<Longrightarrow>
     gw_step g (FinishRefresh p)
       (g\<lparr>gw_refreshes := remove1 p (gw_refreshes g), gw_sessions := m', gw_registry := r'\<rparr>)"
| revokes:
    "post_revocation (gw_config g) (gw_revocations g) (gw_ctx g) headers body rid now
       = (reply, rs', c') \<Longrightarrow> rc_registry c' = Some r' \<Longrightarrow>
     gw_step g (PostRevocation headers body rid now)
       (g\<lparr>gw_revocations := rs', gw_sessions := rc_sessions c', gw_registry := r',
          gw_signaling := rc_signaling c'\<rparr>)"
| cleans:
    "gw_step g (CleanupTick now) (g\<lparr>gw_registry := snd (reg_cleanup (gw_registry g) now)\<rparr>)"
| monitors:
    "em_checkInterval (gw_monitor g) = Some options \<Longrightarrow>
     gw_step g (MonitorTick now)
       (g\<lparr>gw_monitor := fst (monitor_tick (gw_registry g) options now (gw_monitor g))\<rparr>)"
| signals:
    "from_client e \<Longrightarrow> sig_step (gw_signaling g, None) e (s', registry') \<Longrightarrow>
     gw_step g (Signal e) (g\<lparr>gw_signaling := s'\<rparr>)"

inductive_cases PostSessionE: "gw_step g (PostSession body host ev) g'"
inductive_cases FinishRefreshE: "gw_step g (FinishRefresh p) g'"
inductive_cases PostRevocationE: "gw_step g (PostRevocation headers body rid now) g'"

section \<open>The invariant\<close>

text \<open>
  Every registered token, and every refresh in flight, belongs to a session that exists and names
  its operator and robot; the session ids of creations in flight are new and distinct.
\<close>

definition owned :: "'key gateway \<Rightarrow> string \<Rightarrow> string \<Rightarrow> string \<Rightarrow> bool" where
  "owned g sid did robot \<longleftrightarrow> (\<exists>s. getSession (gw_sessions g) sid = Some s \<and>
     ss_operator_did s = did \<and> ss_robot_id s = robot)"

definition gw_ok :: "'key gateway \<Rightarrow> bool" where
  "gw_ok g \<longleftrightarrow> registry_ok (gw_registry g) \<and> sig_ok (gw_signaling g) \<and>
     (\<forall>j e. reg_get (gw_registry g) j = Some e \<longrightarrow>
        owned g (te_sessionId e) (te_operatorDid e) (te_robotId e)) \<and>
     (\<forall>p \<in> set (gw_refreshes g). owned g (pf_sessionId p) (pf_operatorDid p) (pf_robotId p)) \<and>
     distinct (map pc_sessionId (gw_creates g)) \<and>
     (\<forall>p \<in> set (gw_creates g). getSession (gw_sessions g) (pc_sessionId p) = None)"

lemma gw_okD:
  assumes "gw_ok g"
  shows "registry_ok (gw_registry g)" and "sig_ok (gw_signaling g)"
    and "reg_get (gw_registry g) j = Some e \<Longrightarrow>
      owned g (te_sessionId e) (te_operatorDid e) (te_robotId e)"
    and "p \<in> set (gw_refreshes g) \<Longrightarrow> owned g (pf_sessionId p) (pf_operatorDid p) (pf_robotId p)"
    and "distinct (map pc_sessionId (gw_creates g))"
    and "q \<in> set (gw_creates g) \<Longrightarrow> getSession (gw_sessions g) (pc_sessionId q) = None"
  using assms by (simp_all add: gw_ok_def)

text \<open>What a step may do to the sessions: their owner never changes and none disappears.\<close>

definition sessions_kept :: "'key sessionsModule \<Rightarrow> 'key sessionsModule \<Rightarrow> bool" where
  "sessions_kept m m' \<longleftrightarrow> (\<forall>sid s. getSession m sid = Some s \<longrightarrow>
     (\<exists>s'. getSession m' sid = Some s' \<and> ss_operator_did s' = ss_operator_did s \<and>
        ss_robot_id s' = ss_robot_id s))"

lemma sessions_kept_refl [simp]: "sessions_kept m m"
  by (simp add: sessions_kept_def)

lemma owned_kept: "owned g a b c \<Longrightarrow> sessions_kept (gw_sessions g) (gw_sessions g') \<Longrightarrow> owned g' a b c"
  by (fastforce simp: owned_def sessions_kept_def)

lemma gw_ok_step:
  assumes "gw_ok g" and "sessions_kept (gw_sessions g) (gw_sessions g')"
    and "registry_ok (gw_registry g')" and "sig_ok (gw_signaling g')"
    and "\<And>j e. reg_get (gw_registry g') j = Some e \<Longrightarrow> reg_get (gw_registry g) j = Some e \<or>
      owned g' (te_sessionId e) (te_operatorDid e) (te_robotId e)"
    and "\<And>p. p \<in> set (gw_refreshes g') \<Longrightarrow> p \<in> set (gw_refreshes g) \<or>
      owned g' (pf_sessionId p) (pf_operatorDid p) (pf_robotId p)"
    and "distinct (map pc_sessionId (gw_creates g'))"
    and "\<And>q. q \<in> set (gw_creates g') \<Longrightarrow> getSession (gw_sessions g') (pc_sessionId q) = None"
  shows "gw_ok g'"
  using assms(3-8) gw_okD(3,4) [OF assms(1)] owned_kept [OF _ assms(2)]
  unfolding gw_ok_def by blast

subsection \<open>What each handler changes\<close>

lemma finish_create_effect:
  assumes "post_session_finish config m (Some r) p now = (reply, m', Some r')"
  shows "r' = reg_register r \<lparr>te_jti = gr_tokenId (pc_tokenResult p), te_sessionId = pc_sessionId p,
      te_operatorDid = pc_operatorDid p, te_robotId = pc_robotId p,
      te_expiresAt = gr_expiresAt (pc_tokenResult p)\<rparr>"
    and "getSession m' sid = (if sid = pc_sessionId p then Some \<lparr>ss_session_id = pc_sessionId p,
        ss_robot_id = pc_robotId p, ss_operator_did = pc_operatorDid p, ss_state = Pending,
        ss_created_at = toISOString now, ss_expires_at = toISOString (gr_expiresAt (pc_tokenResult p)),
        ss_effective_scope = pc_effectiveScope p\<rparr> else getSession m sid)"
  using assms
  by (auto simp: post_session_finish_def Let_def registerToken_def getSession_def createSession_def
      jm.get_put)

lemma delete_effect:
  assumes "delete_session_handler m (Some r) sid now = (reply, m', Some r')" and "registry_ok r"
  shows "getSession m' i = (if i = sid then map_option (\<lambda>s. s\<lparr>ss_state := Terminated\<rparr>) (getSession m sid)
      else getSession m i)" and "registry_ok r'"
    and "reg_get r' j = Some e \<Longrightarrow> reg_get r j = Some e"
    and "getSession m sid \<noteq> None \<Longrightarrow> reg_get r' j = Some e \<Longrightarrow> te_sessionId e \<noteq> sid"
  using assms revokeBySession_get [OF assms(2)] revokeBySession_ok [OF assms(2)]
  by (auto simp: delete_session_handler_def getSession_def jm.get_put Let_def case_prod_unfold
      revoke_session_tokens_def split: option.splits if_splits)

lemma finish_refresh_effect:
  assumes "refresh_finish m (Some r) p = (reply, m', Some r')"
  shows "r' = reg_register r \<lparr>te_jti = gr_tokenId (pf_tokenResult p), te_sessionId = pf_sessionId p,
      te_operatorDid = pf_operatorDid p, te_robotId = pf_robotId p,
      te_expiresAt = gr_expiresAt (pf_tokenResult p)\<rparr>"
    and "getSession m' sid = (if sid = pf_sessionId p then map_option
        (\<lambda>s. s\<lparr>ss_expires_at := toISOString (gr_expiresAt (pf_tokenResult p))\<rparr>) (getSession m sid)
      else getSession m sid)"
  using assms
  by (auto simp: refresh_finish_def Let_def registerToken_def getSession_def jm.get_put
      split: option.splits)

lemma isTokenValid_tokens:
  assumes "snd (isTokenValidForSession token sid (Some r) now) = Some r'" "registry_ok r"
  shows "reg_get r' j = reg_get r j" and "registry_ok r'"
  using assms isTokenValid_registry(2) [of token sid r now] isTokenValid_registry_ok
  by (auto simp: reg_get_def)

lemma refresh_registry:
  "\<exists>token. snd (refresh_begin config m registry sid auth ev) \<in>
     {registry, snd (isTokenValidForSession token sid registry (ev_now ev)),
      snd (revoke_session_tokens (snd (isTokenValidForSession token sid registry (ev_now ev)))
        sid (ev_now ev))}"
  by (auto simp: refresh_begin_def Let_def case_prod_unfold split: option.splits)

lemma refresh_effect:
  assumes "refresh_begin config m (Some r) sid auth ev = (result, Some r')" and "registry_ok r"
  shows "registry_ok r' \<and> (\<forall>j e. reg_get r' j = Some e \<longrightarrow> reg_get r j = Some e)"
proof -
  obtain token where cases: "Some r' \<in> {Some r,
      snd (isTokenValidForSession token sid (Some r) (ev_now ev)),
      snd (revoke_session_tokens (snd (isTokenValidForSession token sid (Some r) (ev_now ev)))
        sid (ev_now ev))}"
    using refresh_registry [of config m "Some r" sid auth ev] assms(1) by auto
  obtain r1 where r1: "snd (isTokenValidForSession token sid (Some r) (ev_now ev)) = Some r1"
    using isTokenValid_None_iff [of token sid "Some r" "ev_now ev"] by auto
  have ok: "registry_ok r1" "\<And>j. reg_get r1 j = reg_get r j"
    using isTokenValid_tokens [OF r1 assms(2)] by auto
  from cases consider "r' = r" | "r' = r1" | "r' = snd (revokeBySession r1 sid None (ev_now ev))"
    by (auto simp: r1 revoke_session_tokens_def case_prod_unfold Let_def)
  then show ?thesis
    using ok assms(2) by cases (auto simp: revokeBySession_get revokeBySession_ok split: option.splits)
qed

lemma mark_all_signaling:
  "sig_ok (rc_signaling c) \<Longrightarrow> sig_ok (rc_signaling (foldl (mark_revoked reason) c sids))"
  by (induction sids arbitrary: c) (simp_all add: mark_revoked_def notify_ok)

lemma revocation_signaling:
  assumes "sig_ok (rc_signaling c)"
  shows "sig_ok (rc_signaling (snd (snd (post_revocation config rs c headers body rid now))))"
proof -
  have one: "sig_ok (rc_signaling (snd (revokeSession c sid reason now)))" for sid reason
    using assms by (simp add: revokeSession_def Let_def case_prod_unfold notify_ok)
  have two: "sig_ok (rc_signaling (snd (revokeOperatorSessions d did reason now)))"
    if "sig_ok (rc_signaling d)" for d :: "'a revocationCtx" and did reason
    using that by (simp add: revokeOperatorSessions_def Let_def case_prod_unfold mark_all_signaling
        split: option.splits)
  show ?thesis
    using assms one two [OF assms] two [OF one]
    by (simp add: post_revocation_def Let_def case_prod_unfold split: option.splits)
qed

lemma revocation_step_effect:
  assumes "post_revocation config rs (gw_ctx g) headers body rid now = (reply, rs', c')"
    and "rc_registry c' = Some r'" and "registry_ok (gw_registry g)"
  shows "sessions_kept (gw_sessions g) (rc_sessions c') \<and> registry_ok r' \<and>
    (\<forall>j e. reg_get r' j = Some e \<longrightarrow> reg_get (gw_registry g) j = Some e) \<and>
    (sig_ok (gw_signaling g) \<longrightarrow> sig_ok (rc_signaling c')) \<and>
    (\<forall>sid. getSession (rc_sessions c') sid = getSession (gw_sessions g) sid \<or>
      getSession (rc_sessions c') sid =
        map_option (\<lambda>s. s\<lparr>ss_state := Revoked\<rparr>) (getSession (gw_sessions g) sid))"
proof -
  have sig: "sig_ok (gw_signaling g) \<longrightarrow> sig_ok (rc_signaling c')"
    using revocation_signaling [of "gw_ctx g" config rs headers body rid now] assms(1)
    by (simp add: gw_ctx_def)
  show ?thesis
  proof (cases "requireAdminAuth headers config = None \<and>
      (given (rq_session_id body) \<noteq> None \<or> given (rq_operator_did body) \<noteq> None)")
    case True
    have "registered_ok (rc_registry (gw_ctx g))"
      using assms(3) by (simp add: registered_ok_def gw_ctx_def)
    with True assms(1) obtain A P where "sessions_revoked A (gw_ctx g) c'"
      "tokens_removed P (rc_registry (gw_ctx g)) (rc_registry c')"
      using revocation_effect by blast
    with sig assms(2) show ?thesis
      by (auto simp: sessions_revoked_def tokens_removed_def gw_ctx_def sessions_kept_def
          split: option.splits)
  next
    case False
    then have "c' = gw_ctx g"
      using untargeted_unchanged [OF False] assms(1) by (metis snd_conv)
    with sig assms(2,3) show ?thesis by (simp add: gw_ctx_def)
  qed
qed

subsection \<open>Preservation\<close>

lemma begin_create_session:
  "post_session_begin config m body host ev = Inr p \<Longrightarrow> pc_sessionId p = ev_sessionId ev"
  by (auto simp: post_session_begin_def Let_def split: option.splits sum.splits)

lemma create_finishes_ok:
  assumes "gw_ok g" and "p \<in> set (gw_creates g)"
    and "post_session_finish (gw_config g) (gw_sessions g) (Some (gw_registry g)) p now
      = (reply, m', Some r')"
  shows "gw_ok (g\<lparr>gw_creates := remove1 p (gw_creates g), gw_sessions := m', gw_registry := r'\<rparr>)"
proof (rule gw_ok_step [OF assms(1)])
  note eff = finish_create_effect [OF assms(3)]
  note ok = gw_okD [OF assms(1)]
  have d: "distinct (map pc_sessionId (remove1 p (gw_creates g)))"
    using ok(5) by (simp add: distinct_map distinct_remove1 inj_on_def)
  have ne: "pc_sessionId q \<noteq> pc_sessionId p" if "q \<in> set (remove1 p (gw_creates g))" for q
    using that ok(5) assms(2) by (auto simp: distinct_map inj_on_def)
  let ?g' = "g\<lparr>gw_creates := remove1 p (gw_creates g), gw_sessions := m', gw_registry := r'\<rparr>"
  show "sessions_kept (gw_sessions g) (gw_sessions ?g')"
    using ok(6) [OF assms(2)] by (auto simp: sessions_kept_def eff(2))
  show "registry_ok (gw_registry ?g')" using register_ok [OF ok(1)] by (simp add: eff(1))
  show "distinct (map pc_sessionId (gw_creates ?g'))" using d by simp
  show "getSession (gw_sessions ?g') (pc_sessionId q) = None" if "q \<in> set (gw_creates ?g')" for q
    using that ne [of q] ok(6) [of q] by (auto simp: eff(2) dest: notin_set_remove1)
  show "reg_get (gw_registry g) j = Some e \<or>
      owned ?g' (te_sessionId e) (te_operatorDid e) (te_robotId e)"
    if "reg_get (gw_registry ?g') j = Some e" for j e
    using that by (auto simp: eff register_get owned_def split: if_splits)
qed (use gw_okD(2) [OF assms(1)] in auto)

lemma refresh_finishes_ok:
  assumes "gw_ok g" and "p \<in> set (gw_refreshes g)"
    and "refresh_finish (gw_sessions g) (Some (gw_registry g)) p = (reply, m', Some r')"
  shows "gw_ok (g\<lparr>gw_refreshes := remove1 p (gw_refreshes g), gw_sessions := m', gw_registry := r'\<rparr>)"
proof (rule gw_ok_step [OF assms(1)])
  note eff = finish_refresh_effect [OF assms(3)]
  note ok = gw_okD [OF assms(1)]
  let ?g' = "g\<lparr>gw_refreshes := remove1 p (gw_refreshes g), gw_sessions := m', gw_registry := r'\<rparr>"
  show "sessions_kept (gw_sessions g) (gw_sessions ?g')"
    by (auto simp: sessions_kept_def eff(2))
  show "registry_ok (gw_registry ?g')" using register_ok [OF ok(1)] by (simp add: eff(1))
  show "getSession (gw_sessions ?g') (pc_sessionId q) = None" if "q \<in> set (gw_creates ?g')" for q
    using that ok(6) [of q] by (auto simp: eff(2))
  show "reg_get (gw_registry g) j = Some e \<or>
      owned ?g' (te_sessionId e) (te_operatorDid e) (te_robotId e)"
    if "reg_get (gw_registry ?g') j = Some e" for j e
    using that ok(4) [OF assms(2)]
    by (auto simp: eff register_get owned_def split: if_splits)
  show "distinct (map pc_sessionId (gw_creates ?g'))" using ok(5) by simp
  show "q \<in> set (gw_refreshes g) \<or> owned ?g' (pf_sessionId q) (pf_operatorDid q) (pf_robotId q)"
    if "q \<in> set (gw_refreshes ?g')" for q
    using that set_remove1_subset [of p "gw_refreshes g"] by auto
qed (use gw_okD(2) [OF assms(1)] in simp)

lemma revokes_ok:
  assumes "gw_ok g" and "post_revocation (gw_config g) (gw_revocations g) (gw_ctx g) headers body rid now
      = (reply, rs', c')" and "rc_registry c' = Some r'"
  shows "gw_ok (g\<lparr>gw_revocations := rs', gw_sessions := rc_sessions c', gw_registry := r',
    gw_signaling := rc_signaling c'\<rparr>)"
proof (rule gw_ok_step [OF assms(1)])
  note ok = gw_okD [OF assms(1)]
  note eff = revocation_step_effect [OF assms(2,3) ok(1)]
  let ?g' = "g\<lparr>gw_revocations := rs', gw_sessions := rc_sessions c', gw_registry := r',
    gw_signaling := rc_signaling c'\<rparr>"
  show "getSession (gw_sessions ?g') (pc_sessionId q) = None" if "q \<in> set (gw_creates ?g')" for q
  proof -
    have "getSession (gw_sessions g) (pc_sessionId q) = None" using that ok(6) by simp
    moreover have "getSession (rc_sessions c') (pc_sessionId q) \<in>
        {getSession (gw_sessions g) (pc_sessionId q),
         map_option (\<lambda>s. s\<lparr>ss_state := Revoked\<rparr>) (getSession (gw_sessions g) (pc_sessionId q))}"
      using eff by blast
    ultimately show ?thesis by auto
  qed
qed (use revocation_step_effect [OF assms(2,3) gw_okD(1) [OF assms(1)]] gw_okD [OF assms(1)] in auto)

lemma unchanged_store_ok:
  assumes "gw_ok g" and "registry_ok r'" and "\<And>j e. reg_get r' j = Some e \<Longrightarrow> reg_get (gw_registry g) j = Some e"
  shows "gw_ok (g\<lparr>gw_registry := r'\<rparr>)"
  by (rule gw_ok_step [OF assms(1)]) (use assms(2,3) gw_okD [OF assms(1)] in auto)

lemma deletes_ok:
  assumes "gw_ok g" and "delete_session_handler (gw_sessions g) (Some (gw_registry g)) sid now
      = (reply, m', Some r')"
  shows "gw_ok (g\<lparr>gw_sessions := m', gw_registry := r'\<rparr>)"
proof (rule gw_ok_step [OF assms(1)])
  note ok = gw_okD [OF assms(1)]
  note eff = delete_effect [OF assms(2) ok(1)]
  let ?g' = "g\<lparr>gw_sessions := m', gw_registry := r'\<rparr>"
  show "sessions_kept (gw_sessions g) (gw_sessions ?g')" by (auto simp: sessions_kept_def eff(1))
  show "getSession (gw_sessions ?g') (pc_sessionId q) = None" if "q \<in> set (gw_creates ?g')" for q
    using that ok(6) [of q] by (auto simp: eff(1))
qed (use delete_effect(2,3) [OF assms(2) gw_okD(1) [OF assms(1)]] gw_okD [OF assms(1)] in auto)

lemma refresh_begins_ok:
  assumes "gw_ok g" and "refresh_begin (gw_config g) (gw_sessions g) (Some (gw_registry g)) sid auth ev
      = (Inr p, Some r')"
  shows "gw_ok (g\<lparr>gw_refreshes := gw_refreshes g @ [p], gw_registry := r'\<rparr>)"
proof (rule gw_ok_step [OF assms(1)])
  let ?g' = "g\<lparr>gw_refreshes := gw_refreshes g @ [p], gw_registry := r'\<rparr>"
  note eff = refresh_effect [OF assms(2) gw_okD(1) [OF assms(1)]]
  show "q \<in> set (gw_refreshes g) \<or> owned ?g' (pf_sessionId q) (pf_operatorDid q) (pf_robotId q)"
    if "q \<in> set (gw_refreshes ?g')" for q
    using that refresh_begin_pending [OF assms(2)] by (auto simp: owned_def getSession_def)
  show "registry_ok (gw_registry ?g')" using eff by simp
  show "reg_get (gw_registry g) j = Some e \<or> owned ?g' (te_sessionId e) (te_operatorDid e) (te_robotId e)"
    if "reg_get (gw_registry ?g') j = Some e" for j e using that eff by auto
qed (use gw_okD [OF assms(1)] in auto)

lemma create_begins_ok:
  assumes "gw_ok g" and "post_session_begin (gw_config g) (gw_sessions g) body host ev = Inr p"
    and "\<not> session_known g (ev_sessionId ev)"
  shows "gw_ok (g\<lparr>gw_creates := gw_creates g @ [p]\<rparr>)"
  by (rule gw_ok_step [OF assms(1)])
     (use assms(3) gw_okD [OF assms(1)] begin_create_session [OF assms(2)] in
       \<open>auto simp: session_known_def\<close>)

lemma cleanup_lookup:
  "registry_ok r \<Longrightarrow> reg_get (snd (reg_cleanup r now)) j = Some e \<Longrightarrow> reg_get r j = Some e"
  by (rule cleanup_get_some)

lemma gw_step_ok: "gw_step g e g' \<Longrightarrow> gw_ok g \<Longrightarrow> gw_ok g'"
proof (induction rule: gw_step.induct)
  case (create_refused g body host ev reply)
  then show ?case by simp
next
  case (create_begins g body host ev p)
  then show ?case using create_begins_ok by blast
next
  case (create_finishes p g now reply m' r')
  then show ?case using create_finishes_ok by blast
next
  case (deletes g sid now reply m' r')
  then show ?case using deletes_ok by blast
next
  case (refresh_refused g sid auth ev reply r')
  from refresh_effect [OF refresh_refused(1) gw_okD(1) [OF refresh_refused(2)]] show ?case
    by (blast intro: unchanged_store_ok [OF refresh_refused(2)])
next
  case (refresh_begins g sid auth ev p r')
  then show ?case using refresh_begins_ok by blast
next
  case (refresh_finishes p g reply m' r')
  then show ?case using refresh_finishes_ok by blast
next
  case (revokes g headers body rid now reply rs' c' r')
  then show ?case using revokes_ok by blast
next
  case (cleans g now)
  then show ?case using unchanged_store_ok reg_cleanup_ok cleanup_lookup gw_okD(1) by blast
next
  case (monitors g options now)
  then show ?case by (simp add: gw_ok_def owned_def)
next
  case (signals e g s' registry')
  then have "sig_ok s'" using sig_step_ok [OF signals(2)] by (simp add: gw_ok_def)
  with signals(3) show ?case by (simp add: gw_ok_def owned_def)
qed

interpretation gateway_inv: step_invariant gw_step gw_ok "\<lambda>e. True"
  by unfold_locales (rule gw_step_ok)

lemma boot_registry:
  assumes "boot env key jwk revocationFile sha256 now = Inr g"
  obtains persisted where "store_load revocationFile = Inr persisted"
    and "gw_registry g = startCleanup (setRevocationStore (setRevocationCache createTokenRegistry
      (loadFromStore (createRevocationCache (Some (cf_maxRevocationCacheSize (loadConfig env))))
        persisted now))) CLEANUP_INTERVAL_MS"
    and "gw_signaling g = empty_signaling" "gw_creates g = []" "gw_refreshes g = []"
    and "sx_sessions (gw_sessions g) = []"
  using assms
  by (auto simp: boot_def Let_def setPolicyStore_def setPolicyEvaluator_def setTokenGenerator_def
      split: sum.splits)

lemma boot_ok:
  assumes "boot env key jwk revocationFile sha256 now = Inr g"
  shows "gw_ok g"
proof -
  obtain persisted where b: "gw_registry g = startCleanup (setRevocationStore
      (setRevocationCache createTokenRegistry
      (loadFromStore (createRevocationCache (Some (cf_maxRevocationCacheSize (loadConfig env))))
        persisted now))) CLEANUP_INTERVAL_MS"
    "gw_signaling g = empty_signaling" "gw_creates g = []" "gw_refreshes g = []"
    using boot_registry [OF assms] .
  have "registry_ok (gw_registry g)"
    by (simp add: b(1) minor_ops_ok create_registry_ok load_ok create_ok)
  moreover have "reg_get (gw_registry g) j = None" for j
    by (simp add: b(1) reg_get_def createTokenRegistry_def)
  ultimately show ?thesis using empty_sig_ok by (simp add: gw_ok_def b)
qed

end
