(* ===== verification/Refinement.thy ===== *)
theory Refinement
  imports Prelude
begin

text \<open>
  Functional refinement of step relations. A concrete system refines an abstract one under a view
  of its states when, from every state that satisfies its invariant, each concrete step is a step
  of the abstract system between the views, with an event that \<open>serves\<close> allows for the concrete
  one. What the abstract system keeps, the concrete one then keeps as well.
\<close>

locale refinement =
  fixes cstep :: "'s \<Rightarrow> 'e \<Rightarrow> 's \<Rightarrow> bool"
    and astep :: "'a \<Rightarrow> 'x \<Rightarrow> 'a \<Rightarrow> bool"
    and view :: "'s \<Rightarrow> 'a"
    and serves :: "'e \<Rightarrow> 'x \<Rightarrow> bool"
    and inv :: "'s \<Rightarrow> bool"
  assumes inv_step: "inv s \<Longrightarrow> cstep s e t \<Longrightarrow> inv t"
    and simulates: "inv s \<Longrightarrow> cstep s e t \<Longrightarrow> \<exists>x. serves e x \<and> astep (view s) x (view t)"
begin

lemma run_inv: "runs cstep s es t \<Longrightarrow> inv s \<Longrightarrow> inv t"
  by (induction rule: runs.induct) (auto intro: inv_step)

lemma run_simulates:
  "runs cstep s es t \<Longrightarrow> inv s \<Longrightarrow> \<exists>xs. list_all2 serves es xs \<and> runs astep (view s) xs (view t)"
proof (induction rule: runs.induct)
  case (runs_Nil s)
  then show ?case by simp
next
  case (runs_Cons s e t es u)
  obtain x where "serves e x" "astep (view s) x (view t)" using simulates runs_Cons.prems runs_Cons.hyps(1) by blast
  moreover obtain xs where "list_all2 serves es xs" "runs astep (view t) xs (view u)"
    using runs_Cons.IH inv_step runs_Cons.prems runs_Cons.hyps(1) by blast
  ultimately show ?case by (intro exI [of _ "x # xs"]) auto
qed

text \<open>An invariant of the abstract system, read through the view.\<close>

lemma transfer:
  assumes "\<And>a x b. P a \<Longrightarrow> astep a x b \<Longrightarrow> P b"
  shows "inv s \<Longrightarrow> P (view s) \<Longrightarrow> cstep s e t \<Longrightarrow> P (view t)"
  using assms simulates by blast

lemma run_transfer:
  assumes "\<And>a x b. P a \<Longrightarrow> astep a x b \<Longrightarrow> P b"
  shows "runs cstep s es t \<Longrightarrow> inv s \<Longrightarrow> P (view s) \<Longrightarrow> P (view t)"
proof (induction rule: runs.induct)
  case (runs_Nil s)
  then show ?case by simp
next
  case (runs_Cons s e t es u)
  have "P (view t)" using assms runs_Cons.prems runs_Cons.hyps(1) by (rule transfer)
  with runs_Cons inv_step show ?case by blast
qed

end

sublocale refinement \<subseteq> step_invariant cstep inv "\<lambda>e. True"
  by unfold_locales (rule inv_step)

end
