(* ===== verification/Authority.thy ===== *)
theory Authority
  imports Refinement
begin

text \<open>
  What the gateway promises about sessions and their tokens, without its data structures: an
  authority that opens sessions, keeps at most one grant for each, renews a grant in two steps and
  withdraws grants when a session is closed, revoked or its time is over. A grant that is being
  renewed is owed: it is in no one's hands until it is settled.

  The theory states the step relation \<open>au_step\<close>, its invariant \<open>au_ok\<close>, and the two promises that
  follow: a session that is over stays over once nothing is owed for it, and no session ever has
  two grants. \<open>GatewayRefinement\<close> shows that the gateway's step relation implements it.
\<close>

section \<open>States and steps\<close>

datatype standing = Live | Over

record grant =
  gt_session :: string
  gt_operator :: string
  gt_expires :: ms

record authority =
  au_sessions :: "string \<Rightarrow> (string \<times> standing) option"
  au_grants :: "string \<Rightarrow> grant option"
  au_owed :: "(string \<times> grant) multiset"

definition no_authority :: authority where
  "no_authority = \<lparr>au_sessions = (\<lambda>sid. None), au_grants = (\<lambda>jti. None), au_owed = {#}\<rparr>"

definition held :: "authority \<Rightarrow> string \<Rightarrow> string \<Rightarrow> bool" where
  "held a sid jti \<longleftrightarrow> (\<exists>g. au_grants a jti = Some g \<and> gt_session g = sid)"

definition owed_for :: "authority \<Rightarrow> string \<Rightarrow> (string \<times> grant) multiset" where
  "owed_for a sid = filter_mset (\<lambda>x. gt_session (snd x) = sid) (au_owed a)"

definition admits :: "authority \<Rightarrow> string \<Rightarrow> ms \<Rightarrow> bool" where
  "admits a sid now \<longleftrightarrow> (\<exists>jti g. au_grants a jti = Some g \<and> gt_session g = sid \<and> now < gt_expires g)"

definition drop_grants :: "(grant \<Rightarrow> bool) \<Rightarrow> (string \<Rightarrow> grant option) \<Rightarrow> string \<Rightarrow> grant option" where
  "drop_grants P m jti = (case m jti of None \<Rightarrow> None | Some g \<Rightarrow> if P g then None else Some g)"

definition over :: "(string \<times> standing) option \<Rightarrow> (string \<times> standing) option" where
  "over x = map_option (\<lambda>(did, st). (did, Over)) x"

text \<open>The sessions a revocation ends: the one named, and those with a grant of the operator named.\<close>

definition revoked_by :: "authority \<Rightarrow> string option \<Rightarrow> string option \<Rightarrow> string \<Rightarrow> bool" where
  "revoked_by a so d sid \<longleftrightarrow> so = Some sid \<or>
     (\<exists>jti g. au_grants a jti = Some g \<and> gt_session g = sid \<and> d = Some (gt_operator g))"

datatype authEvent =
    Quiet
  | Open string grant
  | Close string
  | Renew ms string grant
  | Strand ms string
  | Settle string grant
  | Bar "string option" "string option"
  | Expire ms

inductive au_step :: "authority \<Rightarrow> authEvent \<Rightarrow> authority \<Rightarrow> bool" where
  quiet: "au_step a Quiet a"
| opens:
    "au_sessions a (gt_session g) = None \<Longrightarrow> au_grants a jti = None \<Longrightarrow>
     au_step a (Open jti g)
       (a\<lparr>au_sessions := (au_sessions a)(gt_session g \<mapsto> (gt_operator g, Live)),
          au_grants := (au_grants a)(jti \<mapsto> g)\<rparr>)"
| closes:
    "au_sessions a sid \<noteq> None \<Longrightarrow>
     au_step a (Close sid)
       (a\<lparr>au_sessions := (au_sessions a)(sid := over (au_sessions a sid)),
          au_grants := drop_grants (\<lambda>g. gt_session g = sid) (au_grants a)\<rparr>)"
| renews:
    "au_sessions a (gt_session g) = Some (gt_operator g, Live) \<Longrightarrow> admits a (gt_session g) now \<Longrightarrow>
     au_grants a jti = None \<Longrightarrow>
     au_step a (Renew now jti g)
       (a\<lparr>au_grants := drop_grants (\<lambda>h. gt_session h = gt_session g) (au_grants a),
          au_owed := add_mset (jti, g) (au_owed a)\<rparr>)"
| strands:
    "au_sessions a sid = Some (did, Live) \<Longrightarrow> admits a sid now \<Longrightarrow>
     au_step a (Strand now sid) (a\<lparr>au_grants := drop_grants (\<lambda>h. gt_session h = sid) (au_grants a)\<rparr>)"
| settles:
    "(jti, g) \<in># au_owed a \<Longrightarrow> au_grants a jti = None \<Longrightarrow>
     au_step a (Settle jti g)
       (a\<lparr>au_grants := (au_grants a)(jti \<mapsto> g), au_owed := au_owed a - {#(jti, g)#}\<rparr>)"
| bars:
    "au_step a (Bar so d)
       (a\<lparr>au_sessions := (\<lambda>sid. if revoked_by a so d sid then over (au_sessions a sid)
            else au_sessions a sid),
          au_grants := drop_grants (\<lambda>g. so = Some (gt_session g) \<or> d = Some (gt_operator g))
            (au_grants a)\<rparr>)"
| expires:
    "au_step a (Expire now) (a\<lparr>au_grants := drop_grants (\<lambda>g. gt_expires g \<le> now) (au_grants a)\<rparr>)"

inductive_cases au_stepE: "au_step a x b"

lemma over_Some [simp]: "over x = Some (did, st) \<longleftrightarrow> st = Over \<and> (\<exists>st'. x = Some (did, st'))"
  by (auto simp: over_def)

lemma over_None [simp]: "over x = None \<longleftrightarrow> x = None"
  by (simp add: over_def)

lemma drop_grants_Some [simp]: "drop_grants P m jti = Some g \<longleftrightarrow> m jti = Some g \<and> \<not> P g"
  by (auto simp: drop_grants_def split: option.splits)

section \<open>The invariant\<close>

text \<open>
  Every grant, held or owed, names the operator of a session that exists; and a session has at most
  one grant, counting the one it is owed.
\<close>

definition granted :: "authority \<Rightarrow> grant \<Rightarrow> bool" where
  "granted a g \<longleftrightarrow> (\<exists>st. au_sessions a (gt_session g) = Some (gt_operator g, st))"

definition lone :: "authority \<Rightarrow> string \<Rightarrow> bool" where
  "lone a sid \<longleftrightarrow> (\<forall>i j. held a sid i \<longrightarrow> held a sid j \<longrightarrow> i = j) \<and>
     (owed_for a sid = {#} \<or> size (owed_for a sid) = 1 \<and> (\<forall>j. \<not> held a sid j))"

definition au_ok :: "authority \<Rightarrow> bool" where
  "au_ok a \<longleftrightarrow> (\<forall>jti g. au_grants a jti = Some g \<longrightarrow> granted a g) \<and>
     (\<forall>x \<in># au_owed a. granted a (snd x)) \<and> (\<forall>sid. lone a sid)"

lemma au_okD:
  assumes "au_ok a"
  shows "au_grants a jti = Some g \<Longrightarrow> granted a g" and "(jti, g) \<in># au_owed a \<Longrightarrow> granted a g"
    and "lone a sid"
  using assms by (auto simp: au_ok_def)

text \<open>Steps that only withdraw grants or end sessions.\<close>

lemma au_ok_less:
  assumes "au_ok a"
    and "\<And>sid did st. au_sessions a sid = Some (did, st) \<Longrightarrow> \<exists>st'. au_sessions b sid = Some (did, st')"
    and "\<And>jti g. au_grants b jti = Some g \<Longrightarrow> au_grants a jti = Some g" and "au_owed b = au_owed a"
  shows "au_ok b"
proof -
  have "granted b g" if "granted a g" for g using that assms(2) by (auto simp: granted_def)
  moreover have "held a sid j" if "held b sid j" for sid j using that assms(3) by (auto simp: held_def)
  moreover have "owed_for b sid = owed_for a sid" for sid by (simp add: owed_for_def assms(4))
  ultimately show ?thesis
    using assms(1,3) unfolding au_ok_def lone_def assms(4) by metis
qed

lemma no_grants_of_unknown:
  assumes "au_ok a" and "au_sessions a sid = None"
  shows "\<not> held a sid jti" and "owed_for a sid = {#}"
proof -
  show "\<not> held a sid jti"
    using au_okD(1) [OF assms(1), of jti] assms(2) by (auto simp: held_def granted_def)
  show "owed_for a sid = {#}"
    using au_okD(2) [OF assms(1)] assms(2) by (fastforce simp: owed_for_def granted_def)
qed
lemma opens_ok:
  assumes "au_ok a" and "au_sessions a (gt_session g) = None" and "au_grants a jti = None"
  shows "au_ok (a\<lparr>au_sessions := (au_sessions a)(gt_session g \<mapsto> (gt_operator g, Live)),
    au_grants := (au_grants a)(jti \<mapsto> g)\<rparr>)" (is "au_ok ?b")
proof -
  have "granted ?b h" if "granted a h" for h using that assms(2) by (auto simp: granted_def)
  moreover have "granted ?b g" by (simp add: granted_def)
  moreover have "lone ?b sid" for sid
  proof (cases "sid = gt_session g")
    case True
    then show ?thesis
      using no_grants_of_unknown [OF assms(1,2)] by (auto simp: lone_def held_def owed_for_def)
  next
    case False
    then have "held ?b sid j \<longleftrightarrow> held a sid j" "owed_for ?b sid = owed_for a sid" for j
      using assms(3) by (auto simp: held_def owed_for_def)
    then show ?thesis using au_okD(3) [OF assms(1), of sid] by (simp add: lone_def)
  qed
  ultimately show ?thesis using assms(1) by (auto simp: au_ok_def)
qed

lemma renews_ok:
  assumes "au_ok a" and "au_sessions a (gt_session g) = Some (gt_operator g, Live)"
    and "admits a (gt_session g) now"
  shows "au_ok (a\<lparr>au_grants := drop_grants (\<lambda>h. gt_session h = gt_session g) (au_grants a),
    au_owed := add_mset (jti, g) (au_owed a)\<rparr>)" (is "au_ok ?b")
proof -
  have "\<exists>j. held a (gt_session g) j" using assms(3) by (auto simp: admits_def held_def)
  then have none: "owed_for a (gt_session g) = {#}"
    using au_okD(3) [OF assms(1), of "gt_session g"] by (auto simp: lone_def)
  have "lone ?b sid" for sid
  proof (cases "sid = gt_session g")
    case True
    then show ?thesis using none by (auto simp: lone_def held_def owed_for_def)
  next
    case False
    then have "held ?b sid j \<longleftrightarrow> held a sid j" "owed_for ?b sid = owed_for a sid" for j
      by (auto simp: held_def owed_for_def)
    then show ?thesis using au_okD(3) [OF assms(1), of sid] by (simp add: lone_def)
  qed
  moreover have "granted ?b h = granted a h" for h by (simp add: granted_def)
  ultimately show ?thesis using assms(1,2) by (auto simp: au_ok_def granted_def)
qed

lemma settles_ok:
  assumes "au_ok a" and "(jti, g) \<in># au_owed a" and "au_grants a jti = None"
  shows "au_ok (a\<lparr>au_grants := (au_grants a)(jti \<mapsto> g), au_owed := au_owed a - {#(jti, g)#}\<rparr>)"
    (is "au_ok ?b")
proof -
  have "(jti, g) \<in># owed_for a (gt_session g)" using assms(2) by (simp add: owed_for_def)
  then obtain rest where rest: "owed_for a (gt_session g) = add_mset (jti, g) rest"
    by (metis insert_DiffM)
  then have one: "rest = {#}" "\<not> held a (gt_session g) j" for j
    using au_okD(3) [OF assms(1), of "gt_session g"] by (auto simp: lone_def)
  have "lone ?b sid" for sid
  proof (cases "sid = gt_session g")
    case True
    have "owed_for ?b (gt_session g) = owed_for a (gt_session g) - {#(jti, g)#}"
      by (simp add: owed_for_def)
    then have "owed_for ?b sid = {#}" using True rest one(1) by simp
    moreover have "held ?b sid j \<longleftrightarrow> j = jti" for j
      using True one(2) by (auto simp: held_def)
    ultimately show ?thesis by (simp add: lone_def)
  next
    case False
    then have "held ?b sid j \<longleftrightarrow> held a sid j" "owed_for ?b sid = owed_for a sid" for j
      using assms(3) by (auto simp: held_def owed_for_def)
    then show ?thesis using au_okD(3) [OF assms(1), of sid] by (simp add: lone_def)
  qed
  moreover have "granted ?b h = granted a h" for h by (simp add: granted_def)
  ultimately show ?thesis
    using assms(1) au_okD(2) [OF assms(1,2)] by (auto simp: au_ok_def dest: in_diffD)
qed

lemma au_step_ok: "au_ok a \<Longrightarrow> au_step a x b \<Longrightarrow> au_ok b"
proof (erule au_step.cases, goal_cases)
  case (2 a g jti)
  then show ?case using opens_ok by blast
next
  case (4 a g now jti)
  then show ?case using renews_ok by blast
next
  case (6 jti g a)
  then show ?case using settles_ok by blast
qed (rule au_ok_less, assumption, auto simp: over_def split: if_splits)+

interpretation authority_inv: step_invariant au_step au_ok "\<lambda>x. True"
  by unfold_locales (rule au_step_ok)

lemma no_authority_ok: "au_ok no_authority"
  by (simp add: au_ok_def no_authority_def lone_def held_def owed_for_def)

section \<open>What an authority promises\<close>

text \<open>A session that is over, has no grant and is owed none stays so.\<close>

definition finished :: "string \<Rightarrow> authority \<Rightarrow> bool" where
  "finished sid a \<longleftrightarrow> (\<exists>did. au_sessions a sid = Some (did, Over)) \<and>
     (\<forall>j. \<not> held a sid j) \<and> owed_for a sid = {#}"

lemma finished_step: "finished sid a \<Longrightarrow> au_step a x b \<Longrightarrow> finished sid b"
proof (erule au_step.cases, goal_cases)
  case (6 jti g a')
  then have "gt_session g \<noteq> sid" by (auto simp: finished_def owed_for_def)
  with 6 show ?case by (auto simp: finished_def held_def owed_for_def)
qed (auto simp: finished_def held_def owed_for_def)

lemma finished_admits: "finished sid a \<Longrightarrow> \<not> admits a sid now"
  by (auto simp: finished_def held_def admits_def)

lemma lone_admits:
  "au_ok a \<Longrightarrow> au_grants a i = Some g \<Longrightarrow> au_grants a j = Some h \<Longrightarrow> gt_session g = gt_session h \<Longrightarrow> i = j"
  using au_okD(3) [of a "gt_session h"] by (auto simp: lone_def held_def)

lemma owed_not_held: "au_ok a \<Longrightarrow> (i, g) \<in># au_owed a \<Longrightarrow> \<not> held a (gt_session g) j"
  using au_okD(3) [of a "gt_session g"] by (auto simp: lone_def owed_for_def)

end
