(* ===== verification/GatewayRefinement.thy ===== *)
theory GatewayRefinement
  imports Gateway Authority
begin

text \<open>
  The running gateway implements the authority: every step of \<open>gw_step\<close>, from a state that satisfies
  its invariant, is a step of \<open>au_step\<close> between the views of the two states. A session's standing is
  read off its state, its grants are the registered tokens, and what it is owed are the refreshes in
  flight. The invariant is \<open>gw_ok\<close> together with the freshness of the token ids in flight.
\<close>

section \<open>The view\<close>

definition standing_of :: "sessionStatus \<Rightarrow> standing" where
  "standing_of s = (case s of Pending \<Rightarrow> Live | Active \<Rightarrow> Live | Terminated \<Rightarrow> Over | Revoked \<Rightarrow> Over)"

definition grant_of :: "tokenEntry \<Rightarrow> grant" where
  "grant_of e = \<lparr>gt_session = te_sessionId e, gt_operator = te_operatorDid e,
     gt_expires = te_expiresAt e\<rparr>"

definition owed_grant :: "pendingRefresh \<Rightarrow> string \<times> grant" where
  "owed_grant p = (gr_tokenId (pf_tokenResult p), \<lparr>gt_session = pf_sessionId p,
     gt_operator = pf_operatorDid p, gt_expires = gr_expiresAt (pf_tokenResult p)\<rparr>)"

definition view :: "'key gateway \<Rightarrow> authority" where
  "view g = \<lparr>au_sessions = (\<lambda>sid. map_option (\<lambda>s. (ss_operator_did s, standing_of (ss_state s)))
       (getSession (gw_sessions g) sid)),
     au_grants = (\<lambda>jti. map_option grant_of (reg_get (gw_registry g) jti)),
     au_owed = mset (map owed_grant (gw_refreshes g))\<rparr>"

lemma standing_simps [simp]:
  "standing_of Pending = Live" "standing_of Active = Live" "standing_of Terminated = Over"
  "standing_of Revoked = Over" "standing_of s = Live \<longleftrightarrow> s \<in> {Pending, Active}"
  "standing_of s = Over \<longleftrightarrow> s \<in> {Terminated, Revoked}"
  by (cases s; simp add: standing_of_def)+

lemma grant_of_simps [simp]:
  "gt_session (grant_of e) = te_sessionId e" "gt_operator (grant_of e) = te_operatorDid e"
  "gt_expires (grant_of e) = te_expiresAt e"
  by (simp_all add: grant_of_def)

lemma view_sessions [simp]:
  "au_sessions (view g) sid =
     map_option (\<lambda>s. (ss_operator_did s, standing_of (ss_state s))) (getSession (gw_sessions g) sid)"
  by (simp add: view_def)

lemma view_grants [simp]: "au_grants (view g) jti = map_option grant_of (reg_get (gw_registry g) jti)"
  by (simp add: view_def)

lemma view_owed [simp]: "au_owed (view g) = mset (map owed_grant (gw_refreshes g))"
  by (simp add: view_def)

lemma view_eqI:
  assumes "\<And>sid. au_sessions (view g) sid = au_sessions a sid"
    and "\<And>jti. au_grants (view g) jti = au_grants a jti" and "au_owed (view g) = au_owed a"
  shows "view g = a"
  using assms by (intro authority.equality) (auto simp: fun_eq_iff)

lemma view_admits:
  "admits (view g) sid now \<longleftrightarrow>
     (\<exists>jti e. reg_get (gw_registry g) jti = Some e \<and> te_sessionId e = sid \<and> now < te_expiresAt e)"
  by (fastforce simp: admits_def)

lemma accepted_is_admitted:
  assumes "fst (isTokenValidForSession token sid (Some (gw_registry g)) now)"
  shows "admits (view g) sid now"
  using token_valid_registered [OF assms] by (auto simp: view_admits)

section \<open>Fresh token ids\<close>

definition pending_jtis :: "'key gateway \<Rightarrow> string list" where
  "pending_jtis g = map (gr_tokenId \<circ> pc_tokenResult) (gw_creates g)
     @ map (gr_tokenId \<circ> pf_tokenResult) (gw_refreshes g)"

definition ids_ok :: "'key gateway \<Rightarrow> bool" where
  "ids_ok g \<longleftrightarrow> distinct (pending_jtis g) \<and>
     (\<forall>jti \<in> set (pending_jtis g). reg_get (gw_registry g) jti = None)"

definition gw_inv :: "'key gateway \<Rightarrow> bool" where
  "gw_inv g \<longleftrightarrow> gw_ok g \<and> ids_ok g"

lemma gw_invD: "gw_inv g \<Longrightarrow> gw_ok g" "gw_inv g \<Longrightarrow> ids_ok g"
  by (simp_all add: gw_inv_def)

lemma token_known_iff:
  "token_known g jti \<longleftrightarrow> reg_get (gw_registry g) jti \<noteq> None \<or> jti \<in> set (pending_jtis g)"
  by (auto simp: token_known_def pending_jtis_def)

lemma create_token_id:
  "post_session_begin config m body host ev = Inr p \<Longrightarrow> gr_tokenId (pc_tokenResult p) = new_jti ev"
  by (auto simp: post_session_begin_def generate_def new_jti_def Let_def split: option.splits sum.splits)

lemma refresh_begin_token:
  assumes "refresh_begin config m registry sid auth ev = (Inr p, registry')"
  shows "\<exists>gen input. pf_tokenResult p =
    generate (ev_sign ev) gen input (ev_now ev) (ev_jtiUuid ev) (ev_nonceUuid ev)"
proof -
  obtain h gen where "sx_tokenGenerator m = Some gen" "extractBearerToken auth = Some h"
    using assms by (auto simp: refresh_begin_def Let_def case_prod_unfold split: option.splits if_splits)
  then show ?thesis
    using assms by (auto simp: refresh_begin_def Let_def case_prod_unfold split: option.splits if_splits
        intro!: exI [of _ gen])
qed

lemma refresh_token_id:
  assumes "refresh_begin config m registry sid auth ev = (Inr p, registry')"
  shows "gr_tokenId (pf_tokenResult p) = new_jti ev"
  using refresh_begin_token [OF assms] by (auto simp: generate_def new_jti_def Let_def)

lemma ids_ok_less:
  assumes "ids_ok g" and "pending_jtis g' = pending_jtis g"
    and "\<And>jti. reg_get (gw_registry g) jti = None \<Longrightarrow> reg_get (gw_registry g') jti = None"
  shows "ids_ok g'"
  using assms by (simp add: ids_ok_def)

lemma ids_ok_issue:
  assumes "ids_ok g" and "mset (pending_jtis g') = add_mset jti (mset (pending_jtis g))"
    and "\<not> token_known g jti"
    and "\<And>j. reg_get (gw_registry g) j = None \<Longrightarrow> reg_get (gw_registry g') j = None"
  shows "ids_ok g'"
proof -
  have "set (pending_jtis g') = insert jti (set (pending_jtis g))"
    using arg_cong [OF assms(2), of set_mset] by simp
  moreover have "distinct (pending_jtis g') = distinct (jti # pending_jtis g)"
    using assms(2) by (metis mset.simps(2) mset_eq_imp_distinct_iff)
  ultimately show ?thesis using assms(1,3,4) by (simp add: ids_ok_def token_known_iff)
qed

lemma ids_ok_register:
  assumes "ids_ok g" and "mset (pending_jtis g) = add_mset jti (mset (pending_jtis g'))"
    and "\<And>j. j \<noteq> jti \<Longrightarrow> reg_get (gw_registry g) j = None \<Longrightarrow> reg_get (gw_registry g') j = None"
  shows "ids_ok g'"
proof -
  have "set (pending_jtis g) = insert jti (set (pending_jtis g'))"
    using arg_cong [OF assms(2), of set_mset] by simp
  moreover have "distinct (pending_jtis g) = distinct (jti # pending_jtis g')"
    using assms(2) by (metis mset.simps(2) mset_eq_imp_distinct_iff)
  ultimately show ?thesis using assms(1,3) by (fastforce simp: ids_ok_def)
qed

lemma remove1_split: "x \<in> set xs \<Longrightarrow> \<exists>ys zs. xs = ys @ x # zs \<and> remove1 x xs = ys @ zs"
  by (metis remove1_append remove1.simps(2) split_list_first)

lemma mset_pending:
  "p \<in> set (gw_creates g) \<Longrightarrow> gw_refreshes g' = gw_refreshes g \<Longrightarrow>
     gw_creates g' = remove1 p (gw_creates g) \<Longrightarrow>
     mset (pending_jtis g) = add_mset (gr_tokenId (pc_tokenResult p)) (mset (pending_jtis g'))"
  "q \<in> set (gw_refreshes g) \<Longrightarrow> gw_creates g' = gw_creates g \<Longrightarrow>
     gw_refreshes g' = remove1 q (gw_refreshes g) \<Longrightarrow>
     mset (pending_jtis g) = add_mset (gr_tokenId (pf_tokenResult q)) (mset (pending_jtis g'))"
  using remove1_split [of p "gw_creates g"] remove1_split [of q "gw_refreshes g"]
  by (auto simp: pending_jtis_def)

section \<open>What the handlers do to the registry\<close>

lemma reg_cleanup_get:
  assumes "registry_ok r"
  shows "reg_get (snd (reg_cleanup r now)) jti =
    (case reg_get r jti of None \<Rightarrow> None | Some e \<Rightarrow> if te_expiresAt e \<le> now then None else Some e)"
proof -
  have filt: "map_of (filter (\<lambda>kv. P (snd kv)) xs) k = (case map_of xs k of None \<Rightarrow> None | Some v \<Rightarrow>
      if P v then Some v else None)" if "distinct (map fst xs)" for P :: "tokenEntry \<Rightarrow> bool" and xs and k :: string
    using that by (induction xs) (auto simp: map_of_eq_None_iff split: option.splits)
  from filt [OF registry_ok_wf [OF assms], of "\<lambda>e. \<not> te_expiresAt e \<le> now" jti] show ?thesis
    by (simp add: reg_get_def reg_cleanup_result(1) [OF assms] isExpired_def split: option.splits)
qed

lemma refused_refresh_registry:
  assumes "refresh_begin config m (Some r) sid auth ev = (Inl reply, Some r')" and "registry_ok r"
  shows "(\<forall>j. reg_get r' j = reg_get r j) \<or>
    (\<exists>s token. getSession m sid = Some s \<and> ss_state s \<in> {Pending, Active} \<and>
      fst (isTokenValidForSession token sid (Some r) (ev_now ev)) \<and>
      (\<forall>j. reg_get r' j = (case reg_get r j of None \<Rightarrow> None
        | Some e \<Rightarrow> if te_sessionId e = sid then None else Some e)))"
proof -
  let ?check = "\<lambda>token. isTokenValidForSession token sid (Some r) (ev_now ev)"
  have "r' = r \<or> (\<exists>s token. getSession m sid = Some s \<and> ss_state s \<in> {Pending, Active} \<and>
        (snd (?check token) = Some r' \<or> fst (?check token) \<and>
         snd (revoke_session_tokens (snd (?check token)) sid (ev_now ev)) = Some r'))"
    using assms(1)
    by (auto simp: refresh_begin_def getSession_def Let_def case_prod_unfold
        split: option.splits if_splits)
  then consider "r' = r"
    | (checked) s token where "getSession m sid = Some s" "ss_state s \<in> {Pending, Active}"
        "snd (?check token) = Some r' \<or> fst (?check token) \<and>
         snd (revoke_session_tokens (snd (?check token)) sid (ev_now ev)) = Some r'"
    by blast
  then show ?thesis
  proof cases
    case checked
    obtain r1 where r1: "snd (?check token) = Some r1"
      using isTokenValid_None_iff [of token sid "Some r" "ev_now ev"] by auto
    note same = isTokenValid_tokens [OF r1 assms(2)]
    have "\<forall>j. reg_get (snd (revokeBySession r1 sid reason t)) j = (case reg_get r j of None \<Rightarrow> None
        | Some e \<Rightarrow> if te_sessionId e = sid then None else Some e)" for reason t
      using revokeBySession_get [OF same(2)] same(1) by simp
    then show ?thesis
      using checked same(1) by (auto simp: r1 revoke_session_tokens_def case_prod_unfold Let_def)
  qed simp
qed

lemma registry_shrinks:
  "(\<And>j e. reg_get r' j = Some e \<Longrightarrow> reg_get r j = Some e) \<Longrightarrow> reg_get r j = None \<Longrightarrow> reg_get r' j = None"
  by (metis option.exhaust)

lemma ids_step:
  assumes "gw_step g e g'" and "gw_ok g" and "ids_ok g"
  shows "ids_ok g'"
  using assms(1)
proof cases
  case (create_begins body host ev p)
  then show ?thesis
    using create_token_id [OF create_begins(3)]
    by (intro ids_ok_issue [OF assms(3), of _ "new_jti ev"]) (simp_all add: pending_jtis_def)
next
  case (create_finishes p now reply m' r')
  then show ?thesis
    by (intro ids_ok_register [OF assms(3) mset_pending(1) [OF create_finishes(3)]])
       (simp_all add: finish_create_effect(1) [OF create_finishes(4)] register_get)
next
  case (deletes sid now reply m' r')
  have "reg_get r' j = Some e \<Longrightarrow> reg_get (gw_registry g) j = Some e" for j e
    using delete_effect(3) [OF deletes(3) gw_okD(1) [OF assms(2)]] .
  from registry_shrinks [OF this] show ?thesis
    by (intro ids_ok_less [OF assms(3)]) (simp_all add: deletes pending_jtis_def)
next
  case (refresh_refused sid auth ev reply r')
  have "reg_get r' j = Some e \<Longrightarrow> reg_get (gw_registry g) j = Some e" for j e
    using refresh_effect [OF refresh_refused(3) gw_okD(1) [OF assms(2)]] by blast
  from registry_shrinks [OF this] show ?thesis
    by (intro ids_ok_less [OF assms(3)]) (simp_all add: refresh_refused pending_jtis_def)
next
  case (refresh_begins sid auth ev p r')
  have "reg_get r' j = Some e \<Longrightarrow> reg_get (gw_registry g) j = Some e" for j e
    using refresh_effect [OF refresh_begins(3) gw_okD(1) [OF assms(2)]] by blast
  from registry_shrinks [OF this] refresh_begins show ?thesis
    using refresh_token_id [OF refresh_begins(3)]
    by (intro ids_ok_issue [OF assms(3), of _ "new_jti ev"]) (simp_all add: pending_jtis_def)
next
  case (refresh_finishes p reply m' r')
  then show ?thesis
    by (intro ids_ok_register [OF assms(3) mset_pending(2) [OF refresh_finishes(3)]])
       (simp_all add: finish_refresh_effect(1) [OF refresh_finishes(4)] register_get)
next
  case (revokes headers body rid now reply rs' c' r')
  have "reg_get r' j = Some e \<Longrightarrow> reg_get (gw_registry g) j = Some e" for j e
    using revocation_step_effect [OF revokes(3,4) gw_okD(1) [OF assms(2)]] by blast
  from registry_shrinks [OF this] show ?thesis
    by (intro ids_ok_less [OF assms(3)]) (simp_all add: revokes pending_jtis_def)
next
  case (cleans now)
  have "reg_get (snd (reg_cleanup (gw_registry g) now)) j = Some e \<Longrightarrow> reg_get (gw_registry g) j = Some e"
    for j e by (rule cleanup_get_some)
  from registry_shrinks [OF this] show ?thesis
    by (intro ids_ok_less [OF assms(3)]) (simp_all add: cleans pending_jtis_def)
qed (use assms(3) in \<open>simp_all add: ids_ok_def pending_jtis_def\<close>)

lemma gw_inv_step: "gw_inv g \<Longrightarrow> gw_step g e g' \<Longrightarrow> gw_inv g'"
  using gw_step_ok ids_step by (auto simp: gw_inv_def)

section \<open>The simulation\<close>

text \<open>What an event of the gateway may be to the authority.\<close>

definition create_grant :: "pendingCreate \<Rightarrow> string \<times> grant" where
  "create_grant p = (gr_tokenId (pc_tokenResult p), \<lparr>gt_session = pc_sessionId p,
     gt_operator = pc_operatorDid p, gt_expires = gr_expiresAt (pc_tokenResult p)\<rparr>)"

fun serves :: "'key gwEvent \<Rightarrow> authEvent \<Rightarrow> bool" where
  "serves (FinishCreate p now) x \<longleftrightarrow> x = Open (fst (create_grant p)) (snd (create_grant p))"
| "serves (DeleteSession sid now) x \<longleftrightarrow> x \<in> {Quiet, Close sid}"
| "serves (Refresh sid auth ev) x \<longleftrightarrow> x = Quiet \<or> x = Strand (ev_now ev) sid \<or>
     (\<exists>g. x = Renew (ev_now ev) (new_jti ev) g \<and> gt_session g = sid)"
| "serves (FinishRefresh p) x \<longleftrightarrow> x = Settle (fst (owed_grant p)) (snd (owed_grant p))"
| "serves (PostRevocation headers body rid now) x \<longleftrightarrow>
     x \<in> {Quiet, Bar (given (rq_session_id body)) (given (rq_operator_did body))}"
| "serves (CleanupTick now) x \<longleftrightarrow> x = Expire now"
| "serves (PostSession body host ev) x \<longleftrightarrow> x = Quiet"
| "serves (MonitorTick now) x \<longleftrightarrow> x = Quiet"
| "serves (Signal e) x \<longleftrightarrow> x = Quiet"

lemma finish_create_view:
  assumes "gw_inv g" and "p \<in> set (gw_creates g)"
    and "post_session_finish (gw_config g) (gw_sessions g) (Some (gw_registry g)) p now
      = (reply, m', Some r')"
  shows "au_step (view g) (Open (fst (create_grant p)) (snd (create_grant p)))
    (view (g\<lparr>gw_creates := remove1 p (gw_creates g), gw_sessions := m', gw_registry := r'\<rparr>))"
    (is "au_step _ _ (view ?g')")
proof -
  let ?jti = "fst (create_grant p)" and ?gr = "snd (create_grant p)"
  note eff = finish_create_effect [OF assms(3)]
  have eq: "view ?g' = (view g)\<lparr>au_sessions := (au_sessions (view g))(gt_session ?gr \<mapsto> (gt_operator ?gr, Live)),
      au_grants := (au_grants (view g))(?jti \<mapsto> ?gr)\<rparr>"
    by (rule view_eqI) (simp_all add: eff register_get grant_of_def create_grant_def)
  have "au_sessions (view g) (gt_session ?gr) = None" "au_grants (view g) ?jti = None"
    using gw_okD(6) [OF gw_invD(1) [OF assms(1)] assms(2)] gw_invD(2) [OF assms(1)] assms(2)
    by (simp_all add: ids_ok_def pending_jtis_def create_grant_def)
  then show ?thesis unfolding eq by (rule opens)
qed

lemma delete_view:
  assumes "gw_inv g"
    and "delete_session_handler (gw_sessions g) (Some (gw_registry g)) sid now = (reply, m', Some r')"
  shows "\<exists>x \<in> {Quiet, Close sid}. au_step (view g) x (view (g\<lparr>gw_sessions := m', gw_registry := r'\<rparr>))"
    (is "\<exists>x \<in> _. au_step _ x (view ?g')")
proof (cases "getSession (gw_sessions g) sid")
  case None
  then have "m' = gw_sessions g \<and> r' = gw_registry g"
    using assms(2) by (auto simp: delete_session_handler_def getSession_def)
  then show ?thesis using quiet by force
next
  case (Some s)
  note ok = gw_okD(1) [OF gw_invD(1) [OF assms(1)]]
  note eff = delete_effect [OF assms(2) ok]
  have "reg_get r' j = (case reg_get (gw_registry g) j of None \<Rightarrow> None
      | Some e \<Rightarrow> if te_sessionId e = sid then None else Some e)" for j
    using assms(2) Some revokeBySession_get [OF ok]
    by (auto simp: delete_session_handler_def getSession_def Let_def case_prod_unfold
        revoke_session_tokens_def split: option.splits)
  then have eq: "view ?g' = (view g)\<lparr>au_sessions := (au_sessions (view g))(sid := over (au_sessions (view g) sid)),
      au_grants := drop_grants (\<lambda>g. gt_session g = sid) (au_grants (view g))\<rparr>"
    by (intro view_eqI)
       (simp_all add: eff(1) over_def option.map_comp drop_grants_def comp_def split: option.splits)
  have "au_step (view g) (Close sid) (view ?g')" unfolding eq by (rule closes) (use Some in simp)
  then show ?thesis by simp
qed

text \<open>A registry that has lost exactly the tokens of one session.\<close>

lemma without_session:
  assumes "\<And>j. reg_get r' j = (case reg_get (gw_registry g) j of None \<Rightarrow> None
      | Some e \<Rightarrow> if te_sessionId e = sid then None else Some e)"
  shows "au_grants (view (g\<lparr>gw_registry := r'\<rparr>)) =
    drop_grants (\<lambda>h. gt_session h = sid) (au_grants (view g))"
  by (rule ext) (simp add: assms drop_grants_def split: option.splits)

lemma refused_refresh_view:
  assumes "gw_inv g"
    and "refresh_begin (gw_config g) (gw_sessions g) (Some (gw_registry g)) sid auth ev
      = (Inl reply, Some r')"
  shows "\<exists>x \<in> {Quiet, Strand (ev_now ev) sid}. au_step (view g) x (view (g\<lparr>gw_registry := r'\<rparr>))"
  using refused_refresh_registry [OF assms(2) gw_okD(1) [OF gw_invD(1) [OF assms(1)]]]
proof (elim disjE exE conjE)
  assume "\<forall>j. reg_get r' j = reg_get (gw_registry g) j"
  then have "view (g\<lparr>gw_registry := r'\<rparr>) = view g" by (intro view_eqI) simp_all
  then show ?thesis using quiet by force
next
  fix s token
  assume s: "getSession (gw_sessions g) sid = Some s" "ss_state s \<in> {Pending, Active}"
    and valid: "fst (isTokenValidForSession token sid (Some (gw_registry g)) (ev_now ev))"
    and reg: "\<forall>j. reg_get r' j = (case reg_get (gw_registry g) j of None \<Rightarrow> None
      | Some e \<Rightarrow> if te_sessionId e = sid then None else Some e)"
  have eq: "view (g\<lparr>gw_registry := r'\<rparr>) = (view g)\<lparr>au_grants :=
      drop_grants (\<lambda>h. gt_session h = sid) (au_grants (view g))\<rparr>"
    using without_session [where r' = r' and g = g and sid = sid] reg by (intro view_eqI) (simp_all del: view_grants)
  have "au_step (view g) (Strand (ev_now ev) sid) (view (g\<lparr>gw_registry := r'\<rparr>))"
    unfolding eq by (rule strands [OF _ accepted_is_admitted [OF valid]]) (use s in simp)
  then show ?thesis by simp
qed

lemma begun_refresh_registry:
  assumes "refresh_begin config m (Some r) sid auth ev = (Inr p, Some r')" and "registry_ok r"
  shows "reg_get r' j = (case reg_get r j of None \<Rightarrow> None
    | Some e \<Rightarrow> if te_sessionId e = sid then None else Some e)"
proof -
  obtain tok r1 where r1: "snd (isTokenValidForSession tok sid (Some r) (ev_now ev)) = Some r1"
    and r': "r' = snd (revokeBySession r1 sid None (ev_now ev))"
    using refresh_begin_pending [OF assms(1)] by auto
  show ?thesis
    unfolding r' using isTokenValid_tokens [OF r1 assms(2)] by (simp add: revokeBySession_get)
qed

lemma begun_refresh_view:
  assumes "gw_inv g"
    and "refresh_begin (gw_config g) (gw_sessions g) (Some (gw_registry g)) sid auth ev
      = (Inr p, Some r')" and "\<not> token_known g (new_jti ev)"
  shows "\<exists>h. gt_session h = sid \<and> au_step (view g) (Renew (ev_now ev) (new_jti ev) h)
    (view (g\<lparr>gw_refreshes := gw_refreshes g @ [p], gw_registry := r'\<rparr>))"
    (is "\<exists>h. _ \<and> au_step _ _ (view ?g')")
proof -
  note ok = gw_okD(1) [OF gw_invD(1) [OF assms(1)]]
  obtain s tok where s: "getSession (gw_sessions g) sid = Some s" "ss_state s \<in> {Pending, Active}"
    and valid: "fst (isTokenValidForSession tok sid (Some (gw_registry g)) (ev_now ev))"
    and p: "pf_sessionId p = sid" "pf_operatorDid p = ss_operator_did s"
    using refresh_begin_pending [OF assms(2)] by (auto simp: getSession_def)
  let ?jti = "fst (owed_grant p)" and ?gr = "snd (owed_grant p)"
  have gr: "gt_session ?gr = sid" "gt_operator ?gr = ss_operator_did s" "?jti = new_jti ev"
    using p refresh_token_id [OF assms(2)] by (simp_all add: owed_grant_def)
  have eq: "view ?g' = (view g)\<lparr>au_grants := drop_grants (\<lambda>h. gt_session h = gt_session ?gr) (au_grants (view g)),
      au_owed := add_mset (?jti, ?gr) (au_owed (view g))\<rparr>"
    using without_session [where r' = r' and g = g and sid = sid, OF begun_refresh_registry [OF assms(2) ok]]
    by (intro view_eqI) (simp_all add: gr(1) fun_eq_iff)
  have "au_step (view g) (Renew (ev_now ev) ?jti ?gr) (view ?g')"
    unfolding eq
  proof (rule renews)
    show "admits (view g) (gt_session ?gr) (ev_now ev)"
      using accepted_is_admitted [OF valid] by (simp add: gr)
    show "au_grants (view g) ?jti = None" using assms(3) by (simp add: gr token_known_def)
  qed (use s gr in simp)
  then show ?thesis using gr(1,3) by metis
qed

lemma finish_refresh_view:
  assumes "gw_inv g" and "p \<in> set (gw_refreshes g)"
    and "refresh_finish (gw_sessions g) (Some (gw_registry g)) p = (reply, m', Some r')"
  shows "au_step (view g) (Settle (fst (owed_grant p)) (snd (owed_grant p)))
    (view (g\<lparr>gw_refreshes := remove1 p (gw_refreshes g), gw_sessions := m', gw_registry := r'\<rparr>))"
    (is "au_step _ _ (view ?g')")
proof -
  let ?jti = "fst (owed_grant p)" and ?gr = "snd (owed_grant p)"
  note eff = finish_refresh_effect [OF assms(3)]
  obtain ys zs where parts: "gw_refreshes g = ys @ p # zs" "remove1 p (gw_refreshes g) = ys @ zs"
    using remove1_split [OF assms(2)] by blast
  have eq: "view ?g' = (view g)\<lparr>au_grants := (au_grants (view g))(?jti \<mapsto> ?gr),
      au_owed := au_owed (view g) - {#(?jti, ?gr)#}\<rparr>"
  proof (rule view_eqI)
    show "au_sessions (view ?g') sid = au_sessions ((view g)\<lparr>au_grants := (au_grants (view g))(?jti \<mapsto> ?gr),
      au_owed := au_owed (view g) - {#(?jti, ?gr)#}\<rparr>) sid" for sid
      by (simp add: eff(2) option.map_comp comp_def)
    show "au_grants (view ?g') j = au_grants ((view g)\<lparr>au_grants := (au_grants (view g))(?jti \<mapsto> ?gr),
      au_owed := au_owed (view g) - {#(?jti, ?gr)#}\<rparr>) j" for j
      by (simp add: eff(1) register_get grant_of_def owed_grant_def)
  qed (simp add: parts)
  show ?thesis
    unfolding eq
  proof (rule settles)
    show "(?jti, ?gr) \<in># au_owed (view g)" using assms(2) by simp
    show "au_grants (view g) ?jti = None"
      using gw_invD(2) [OF assms(1)] assms(2) by (auto simp: ids_ok_def pending_jtis_def owed_grant_def)
  qed
qed

lemma revoked_by_view:
  "revoked_by (view g) so d sid \<longleftrightarrow> so = Some sid \<or> (\<exists>jti e. reg_get (gw_registry g) jti = Some e \<and>
     te_sessionId e = sid \<and> d = Some (te_operatorDid e))"
  by (fastforce simp: revoked_by_def)

text \<open>A revocation is exact: the sessions barred are those the authority would bar.\<close>

lemma barred_view:
  assumes "gw_inv g"
    and "sessions_revoked (revocation_targets (gw_ctx g) body) (gw_ctx g) c'"
    and "tokens_removed (\<lambda>e. given (rq_session_id body) = Some (te_sessionId e) \<or>
      given (rq_operator_did body) = Some (te_operatorDid e)) (rc_registry (gw_ctx g)) (Some r')"
  shows "au_step (view g) (Bar (given (rq_session_id body)) (given (rq_operator_did body)))
    (view (g\<lparr>gw_revocations := rs', gw_sessions := rc_sessions c', gw_registry := r',
      gw_signaling := rc_signaling c'\<rparr>))" (is "au_step _ _ (view ?g')")
proof -
  let ?so = "given (rq_session_id body)" and ?d = "given (rq_operator_did body)"
  let ?A = "revocation_targets (gw_ctx g) body"
  have hit: "revoked_by (view g) ?so ?d sid \<longleftrightarrow> sid \<in> ?A"
    if "getSession (gw_sessions g) sid \<noteq> None" for sid
    using that by (auto simp: revoked_by_view revocation_targets_def has_token_def gw_ctx_def)
  have eq: "view ?g' = (view g)\<lparr>au_sessions := (\<lambda>sid. if revoked_by (view g) ?so ?d sid
        then over (au_sessions (view g) sid) else au_sessions (view g) sid),
      au_grants := drop_grants (\<lambda>g. ?so = Some (gt_session g) \<or> ?d = Some (gt_operator g))
        (au_grants (view g))\<rparr>"
  proof (rule view_eqI, goal_cases)
    case (1 sid)
    show ?case
      using assms(2) hit [of sid]
      by (cases "getSession (gw_sessions g) sid")
         (auto simp: sessions_revoked_def gw_ctx_def over_def)
  next
    case (2 jti)
    show ?case
      using assms(3)
      by (auto simp: tokens_removed_def gw_ctx_def drop_grants_def split: option.splits)
  qed simp
  show ?thesis unfolding eq by (rule bars)
qed

lemma revocation_view:
  assumes "gw_inv g" and "post_revocation (gw_config g) (gw_revocations g) (gw_ctx g) headers body rid now
      = (reply, rs', c')" and "rc_registry c' = Some r'"
  shows "\<exists>x \<in> {Quiet, Bar (given (rq_session_id body)) (given (rq_operator_did body))}.
    au_step (view g) x (view (g\<lparr>gw_revocations := rs', gw_sessions := rc_sessions c',
      gw_registry := r', gw_signaling := rc_signaling c'\<rparr>))"
proof (cases "requireAdminAuth headers (gw_config g) = None \<and>
      (given (rq_session_id body) \<noteq> None \<or> given (rq_operator_did body) \<noteq> None)")
  case True
  have reg: "registered_ok (rc_registry (gw_ctx g))"
    using gw_okD(1) [OF gw_invD(1) [OF assms(1)]] by (simp add: registered_ok_def gw_ctx_def)
  obtain affected where "set affected = revocation_targets (gw_ctx g) body"
      "sessions_revoked (set affected) (gw_ctx g) c'"
      "tokens_removed (\<lambda>e. given (rq_session_id body) = Some (te_sessionId e) \<or>
        given (rq_operator_did body) = Some (te_operatorDid e)) (rc_registry (gw_ctx g)) (rc_registry c')"
    using revocation_effect [OF reg conjunct1 [OF True] conjunct2 [OF True] assms(2)]
    by (elim exE conjE)
  then show ?thesis using barred_view [OF assms(1), of body c' r' rs'] assms(3) by simp
next
  case False
  then have "c' = gw_ctx g" using untargeted_unchanged [OF False] assms(2) by (metis snd_conv)
  then have "view (g\<lparr>gw_revocations := rs', gw_sessions := rc_sessions c', gw_registry := r',
      gw_signaling := rc_signaling c'\<rparr>) = view g"
    using assms(3) by (intro view_eqI) (simp_all add: gw_ctx_def)
  then show ?thesis using quiet by force
qed

lemma cleanup_view:
  assumes "gw_inv g"
  shows "au_step (view g) (Expire now) (view (g\<lparr>gw_registry := snd (reg_cleanup (gw_registry g) now)\<rparr>))"
    (is "au_step _ _ (view ?g')")
proof -
  have eq: "view ?g' = (view g)\<lparr>au_grants := drop_grants (\<lambda>g. gt_expires g \<le> now) (au_grants (view g))\<rparr>"
    by (rule view_eqI)
       (simp_all add: reg_cleanup_get [OF gw_okD(1) [OF gw_invD(1) [OF assms]]] drop_grants_def
         split: option.splits)
  show ?thesis unfolding eq by (rule expires)
qed

lemma gw_step_simulates:
  assumes "gw_inv g" and "gw_step g e g'"
  shows "\<exists>x. serves e x \<and> au_step (view g) x (view g')"
  using assms(2)
proof cases
  case (create_refused body host ev reply)
  then show ?thesis using quiet by force
next
  case (create_begins body host ev p)
  then have "view g' = view g" by (intro view_eqI) simp_all
  then show ?thesis using create_begins(1) quiet by force
next
  case (create_finishes p now reply m' r')
  then show ?thesis using finish_create_view [OF assms(1)] by simp
next
  case (deletes sid now reply m' r')
  then show ?thesis using delete_view [OF assms(1) deletes(3)] by auto
next
  case (refresh_refused sid auth ev reply r')
  then show ?thesis using refused_refresh_view [OF assms(1) refresh_refused(3)] by auto
next
  case (refresh_begins sid auth ev p r')
  then show ?thesis using begun_refresh_view [OF assms(1) refresh_begins(3,4)] by auto
next
  case (refresh_finishes p reply m' r')
  then show ?thesis using finish_refresh_view [OF assms(1)] by simp
next
  case (revokes headers body rid now reply rs' c' r')
  then show ?thesis using revocation_view [OF assms(1) revokes(3,4)] by auto
next
  case (cleans now)
  then show ?thesis using cleanup_view [OF assms(1), of now] by simp
next
  case (monitors options now)
  then have "view g' = view g" by (intro view_eqI) simp_all
  then show ?thesis using monitors(1) quiet by force
next
  case (signals e s' registry')
  then have "view g' = view g" by (intro view_eqI) simp_all
  then show ?thesis using signals(1) quiet by force
qed

interpretation gateway: refinement gw_step au_step view serves gw_inv
  by unfold_locales (rule gw_inv_step gw_step_simulates; assumption)+

lemma boot_inv:
  assumes "boot env key jwk revocationFile sha256 now = Inr g"
  shows "gw_inv g" and "view g = no_authority"
proof -
  obtain persisted where b: "gw_registry g = startCleanup (setRevocationStore
      (setRevocationCache createTokenRegistry
      (loadFromStore (createRevocationCache (Some (cf_maxRevocationCacheSize (loadConfig env))))
        persisted now))) CLEANUP_INTERVAL_MS"
    "gw_creates g = []" "gw_refreshes g = []" "sx_sessions (gw_sessions g) = []"
    using boot_registry [OF assms] .
  show "gw_inv g" using boot_ok [OF assms] by (simp add: gw_inv_def ids_ok_def pending_jtis_def b)
  show "view g = no_authority"
    by (rule view_eqI)
       (simp_all add: no_authority_def getSession_def b reg_get_def createTokenRegistry_def)
qed

section \<open>Sessions that are over\<close>

text \<open>
  A session is over when it is terminated or revoked, none of its tokens is registered and no refresh
  of it is in flight. The authority keeps such a session finished, so the gateway does.
\<close>

definition session_over :: "string \<Rightarrow> 'key gateway \<Rightarrow> bool" where
  "session_over sid g \<longleftrightarrow> gw_inv g \<and> finished sid (view g)"

lemma session_over_state:
  "session_over sid g \<Longrightarrow> \<exists>s. getSession (gw_sessions g) sid = Some s \<and> ss_state s \<in> {Terminated, Revoked}"
  by (auto simp: session_over_def finished_def)

lemma session_overI:
  assumes "gw_inv g" and "getSession (gw_sessions g) sid = Some s" and "ss_state s \<in> {Terminated, Revoked}"
    and "\<forall>j e. reg_get (gw_registry g) j = Some e \<longrightarrow> te_sessionId e \<noteq> sid"
    and "\<forall>p \<in> set (gw_refreshes g). pf_sessionId p \<noteq> sid"
  shows "session_over sid g"
proof -
  have "\<not> held (view g) sid j" for j
  proof
    assume "held (view g) sid j"
    then obtain e where "reg_get (gw_registry g) j = Some e" "te_sessionId e = sid"
      by (auto simp: held_def)
    with assms(4) show False by blast
  qed
  moreover have "owed_for (view g) sid = {#}"
    using assms(5) by (auto simp: owed_for_def owed_grant_def)
  ultimately show ?thesis using assms(1-3) by (simp add: session_over_def finished_def)
qed

lemma session_over_preserved: "session_over sid g \<Longrightarrow> gw_step g e g' \<Longrightarrow> session_over sid g'"
  using gateway.transfer [of "finished sid" g e g'] finished_step gw_inv_step
  unfolding session_over_def by blast

interpretation over: step_invariant gw_step "session_over sid" "\<lambda>e. True" for sid
  by unfold_locales (rule session_over_preserved)

lemma over_refuses:
  assumes "session_over sid g"
  shows "\<not> fst (isTokenValidForSession token sid (Some (gw_registry g)) now)"
    and "\<exists>reply. fst (refresh_begin (gw_config g) (gw_sessions g) (Some (gw_registry g)) sid auth ev)
      = Inl reply"
proof -
  show no: "\<not> fst (isTokenValidForSession token sid (Some (gw_registry g)) now)" for token now
    using assms accepted_is_admitted [of token sid g now] finished_admits [of sid "view g" now]
    by (auto simp: session_over_def)
  show "\<exists>reply. fst (refresh_begin (gw_config g) (gw_sessions g) (Some (gw_registry g)) sid auth ev)
      = Inl reply"
  proof (cases "refresh_begin (gw_config g) (gw_sessions g) (Some (gw_registry g)) sid auth ev")
    case (Pair result r')
    then show ?thesis
      using refresh_begin_pending [of "gw_config g" "gw_sessions g" "gw_registry g" sid auth ev] no
      by (cases result) auto
  qed
qed

lemma revocation_ends_session:
  assumes "gw_inv g" and "gw_step g (PostRevocation headers body rid now) g'"
    and "requireAdminAuth headers (gw_config g) = None" and "given (rq_session_id body) = Some sid"
    and "getSession (gw_sessions g) sid \<noteq> None"
    and "\<forall>p \<in> set (gw_refreshes g). pf_sessionId p \<noteq> sid"
  shows "session_over sid g'"
proof -
  obtain reply rs' c' r' where post: "post_revocation (gw_config g) (gw_revocations g) (gw_ctx g)
      headers body rid now = (reply, rs', c')" "rc_registry c' = Some r'"
    and g': "g' = g\<lparr>gw_revocations := rs', gw_sessions := rc_sessions c', gw_registry := r',
      gw_signaling := rc_signaling c'\<rparr>"
    using assms(2) by (cases rule: PostRevocationE) blast
  have reg: "registered_ok (rc_registry (gw_ctx g))"
    using gw_okD(1) [OF gw_invD(1) [OF assms(1)]] by (simp add: gw_ctx_def registered_ok_def)
  have hit: "given (rq_session_id body) \<noteq> None \<or> given (rq_operator_did body) \<noteq> None"
    using assms(4) by simp
  obtain affected where eff: "set affected = revocation_targets (gw_ctx g) body"
      "sessions_revoked (set affected) (gw_ctx g) c'"
      "tokens_removed (\<lambda>e. given (rq_session_id body) = Some (te_sessionId e) \<or>
        given (rq_operator_did body) = Some (te_operatorDid e)) (rc_registry (gw_ctx g)) (rc_registry c')"
    using revocation_effect [OF reg assms(3) hit post(1)] by blast
  have "sid \<in> set affected"
    using assms(4,5) by (simp add: eff(1) revocation_targets_def gw_ctx_def)
  then obtain s where "getSession (rc_sessions c') sid = Some s" "ss_state s = Revoked"
    using eff(2) assms(5) by (auto simp: sessions_revoked_def gw_ctx_def)
  moreover have "te_sessionId e \<noteq> sid" if "reg_get r' j = Some e" for j e
    using that eff(3) assms(4) by (auto simp: tokens_removed_def gw_ctx_def post(2) split: option.splits if_splits)
  ultimately show ?thesis
    using assms(6) by (intro session_overI [OF gw_inv_step [OF assms(1,2)], of sid s]) (auto simp: g')
qed

lemma termination_ends_session:
  assumes "gw_inv g" and "gw_step g (DeleteSession sid now) g'"
    and "getSession (gw_sessions g) sid \<noteq> None"
    and "\<forall>p \<in> set (gw_refreshes g). pf_sessionId p \<noteq> sid"
  shows "session_over sid g'"
proof -
  obtain reply m' r' where d: "delete_session_handler (gw_sessions g) (Some (gw_registry g)) sid now
      = (reply, m', Some r')" and g': "g' = g\<lparr>gw_sessions := m', gw_registry := r'\<rparr>"
    using assms(2) by (cases rule: gw_step.cases) auto
  note eff = delete_effect [OF d gw_okD(1) [OF gw_invD(1) [OF assms(1)]]]
  obtain s where "getSession m' sid = Some s" "ss_state s = Terminated"
    using assms(3) eff(1) [of sid] by auto
  moreover have "\<forall>j e. reg_get r' j = Some e \<longrightarrow> te_sessionId e \<noteq> sid"
    using eff(4) [OF assms(3)] by blast
  ultimately show ?thesis
    using assms(4) by (intro session_overI [OF gw_inv_step [OF assms(1,2)], of sid s]) (auto simp: g')
qed

end
