(* ===== verification/GatewayLifecycle.thy ===== *)
theory GatewayLifecycle
  imports GatewayRefinement
begin

text \<open>
  What the running gateway guarantees about the life of a session and its tokens, over any
  interleaving of requests, timers and socket events from the start of the process; and the one
  interleaving where a revocation comes too late. The concrete runs show that the statements apply.
\<close>

section \<open>Ids that were never revoked\<close>

text \<open>The revocation cache holds only ids of tokens that were registered when they were revoked.\<close>

definition cache_free :: "string \<Rightarrow> tokenRegistry \<Rightarrow> bool" where
  "cache_free j r \<longleftrightarrow> (\<forall>c. tr_revocationCache r = Some c \<longrightarrow> jm_get (rc_cache c) j = None)"

lemma register_cache: "tr_revocationCache (reg_register r e) = tr_revocationCache r"
  by (simp add: reg_register_def)

lemma isRevoked_absent:
  "jm_get (rc_cache c) j = None \<Longrightarrow> jm_get (rc_cache (snd (cache_isRevoked c i now))) j = None"
  by (simp add: cache_isRevoked_def Let_def jm.get_del split: option.splits)

lemma cache_free_check: "cache_free j r \<Longrightarrow> cache_free j (snd (reg_isValid r i now))"
  by (auto simp: cache_free_def isValid_cache isRevoked_absent)

lemma evict_absent: "jm_get (rc_cache c) j = None \<Longrightarrow> jm_get (rc_cache (evictIfNeeded c)) j = None"
  by (simp add: evictIfNeeded_def Let_def jm.get_del_all)

lemma cache_free_entry:
  "cache_free j r \<Longrightarrow> te_jti e \<noteq> j \<Longrightarrow> cache_free j (revoke_entry reason now r e)"
  by (auto simp: cache_free_def revoke_entry_def addToRevocationCache_def cache_add_def Let_def
      jm.get_put evict_absent split: option.splits)

lemma cache_free_entries:
  "cache_free j r \<Longrightarrow> j \<notin> te_jti ` set es \<Longrightarrow> cache_free j (foldl (revoke_entry reason now) r es)"
  by (induction es arbitrary: r) (auto simp: cache_free_entry)

lemma registered_jti:
  assumes "registry_ok r" and "reg_get r j = None"
  shows "j \<notin> te_jti ` set (filter P (jm_values (tr_tokens r)))"
proof
  assume "j \<in> te_jti ` set (filter P (jm_values (tr_tokens r)))"
  then obtain e where "e \<in> set (jm_values (tr_tokens r))" "te_jti e = j" by (auto simp del: set_map)
  then obtain k where "reg_get r k = Some e" "te_jti e = j"
    using jm_value_iff [OF registry_ok_wf [OF assms(1)]] unfolding reg_get_def by blast
  then show False
    using assms tokens_ok_get [of "tr_tokens r" k e] by (simp add: reg_get_def registry_ok_def)
qed

lemma cache_free_revoke:
  assumes "registry_ok r" and "reg_get r j = None" and "cache_free j r"
  shows "cache_free j (snd (revokeBySession r sid reason now))"
    and "cache_free j (snd (revokeByOperator r did reason now))"
  using assms(3) registered_jti [OF assms(1,2)]
  by (simp_all add: revokeBySession_def revokeByOperator_def getBySession_def getByOperator_def Let_def
      cache_free_entries)

lemma cache_free_valid:
  assumes "snd (isTokenValidForSession token sid (Some r) now) = Some r'" and "cache_free j r"
  shows "cache_free j r'"
  using assms
  by (auto simp: isTokenValidForSession_def Let_def case_prod_unfold cache_free_check
      split: jsval.splits if_splits option.splits)

lemma refresh_cache_free:
  assumes "refresh_begin config m (Some r) sid auth ev = (Inr p, Some r')" and "registry_ok r"
    and "reg_get r j = None" and "cache_free j r"
  shows "cache_free j r'"
proof -
  obtain token r1 where r1: "snd (isTokenValidForSession token sid (Some r) (ev_now ev)) = Some r1"
    and r': "r' = snd (revokeBySession r1 sid None (ev_now ev))"
    using refresh_begin_pending [OF assms(1)] by auto
  have "reg_get r1 j = None" using isTokenValid_tokens(1) [OF r1 assms(2)] assms(3) by simp
  then show ?thesis
    unfolding r' by (intro cache_free_revoke(1) isTokenValid_tokens(2) [OF r1 assms(2)]
        cache_free_valid [OF r1 assms(4)])
qed

lemma revokeSession_registry:
  "rc_registry (snd (revokeSession c sid reason now)) =
     snd (revoke_session_tokens (rc_registry c) sid now)"
  by (simp add: revokeSession_def Let_def case_prod_unfold)

lemma revocation_cache_free:
  assumes "post_revocation config rs (gw_ctx g) headers body rid now = (reply, rs', c')"
    and "rc_registry c' = Some r'" and "gw_ok g" and "reg_get (gw_registry g) j = None"
    and "cache_free j (gw_registry g)"
  shows "cache_free j r'"
proof -
  note ok = gw_okD(1) [OF assms(3)]
  have one: "\<exists>r. rc_registry (snd (revokeSession (gw_ctx g) sid reason now)) = Some r \<and> registry_ok r \<and>
      reg_get r j = None \<and> cache_free j r" for sid reason
    using cache_free_revoke(1) [OF ok assms(4,5)] revokeBySession_ok [OF ok] assms(4)
    by (simp add: revokeSession_registry gw_ctx_def revoke_session_tokens_def Let_def case_prod_unfold
        revokeBySession_get [OF ok])
  have two: "\<exists>r'. rc_registry (snd (revokeOperatorSessions d did reason now)) = Some r' \<and> cache_free j r'"
    if "rc_registry d = Some r" "registry_ok r" "reg_get r j = None" "cache_free j r"
    for d :: "'a revocationCtx" and r did reason
    using cache_free_revoke(2) [OF that(2-4)]
    by (simp add: revokeOperatorSessions_def that(1) Let_def case_prod_unfold mark_all_revoked(2))
  have g: "rc_registry (gw_ctx g) = Some (gw_registry g)" by (simp add: gw_ctx_def)
  have "\<exists>r''. rc_registry c' = Some r'' \<and> cache_free j r''"
    using assms(1) one two [OF g ok assms(4,5)] two g assms(5)
    by (auto simp: post_revocation_def Let_def case_prod_unfold split: option.splits if_splits) blast+
  then show ?thesis using assms(2) by simp
qed

lemma refresh_in_flight_facts:
  assumes "gw_ok g" and "gw_step g (Refresh sid auth ev) g1" and "gw_refreshes g1 = gw_refreshes g @ [p]"
    and "signs_compact (ev_sign ev)" and "cache_free (new_jti ev) (gw_registry g)"
  shows "extractJtiFromToken (gr_token (pf_tokenResult p)) = JStr (gr_tokenId (pf_tokenResult p))"
    and "gr_tokenId (pf_tokenResult p) \<noteq> []" and "pf_sessionId p = sid"
    and "getSession (gw_sessions g1) sid \<noteq> None" and "gw_config g1 = gw_config g"
    and "reg_get (gw_registry g1) (gr_tokenId (pf_tokenResult p)) = None"
    and "cache_free (gr_tokenId (pf_tokenResult p)) (gw_registry g1)"
proof -
  obtain r1 where b: "refresh_begin (gw_config g) (gw_sessions g) (Some (gw_registry g)) sid auth ev
      = (Inr p, Some r1)" and fresh: "\<not> token_known g (new_jti ev)"
    and g1: "g1 = g\<lparr>gw_refreshes := gw_refreshes g @ [p], gw_registry := r1\<rparr>"
    using assms(2,3) by (cases rule: gw_step.cases) auto
  obtain gen input where tok: "pf_tokenResult p =
      generate (ev_sign ev) gen input (ev_now ev) (ev_jtiUuid ev) (ev_nonceUuid ev)"
    using refresh_begin_token [OF b] by blast
  then have jti: "gr_tokenId (pf_tokenResult p) = new_jti ev"
    by (simp add: generate_def Let_def new_jti_def)
  then show "gr_tokenId (pf_tokenResult p) \<noteq> []" by (simp add: new_jti_def)
  show "extractJtiFromToken (gr_token (pf_tokenResult p)) = JStr (gr_tokenId (pf_tokenResult p))"
    unfolding tok by (rule extract_generated [OF assms(4)])
  show "pf_sessionId p = sid" "getSession (gw_sessions g1) sid \<noteq> None"
    using refresh_begin_pending [OF b] by (auto simp: getSession_def g1)
  show "gw_config g1 = gw_config g" by (simp add: g1)
  note ok = gw_okD(1) [OF assms(1)]
  have new0: "reg_get (gw_registry g) (new_jti ev) = None" using fresh by (simp add: token_known_def)
  then have "reg_get r1 (new_jti ev) = None"
    using refresh_effect [OF b ok] by (cases "reg_get r1 (new_jti ev)") auto
  then show "reg_get (gw_registry g1) (gr_tokenId (pf_tokenResult p)) = None" by (simp add: g1 jti)
  show "cache_free (gr_tokenId (pf_tokenResult p)) (gw_registry g1)"
    using refresh_cache_free [OF b ok new0 assms(5)] by (simp add: g1 jti)
qed

lemma revocation_passes_unregistered:
  assumes "gw_ok g" and "gw_step g (PostRevocation headers body rid now) g'"
    and "requireAdminAuth headers (gw_config g) = None" and "given (rq_session_id body) = Some sid"
    and "getSession (gw_sessions g) sid \<noteq> None"
    and "reg_get (gw_registry g) jti = None" and "cache_free jti (gw_registry g)"
  shows "\<exists>s. getSession (gw_sessions g') sid = Some s \<and> ss_state s = Revoked"
    and "cache_free jti (gw_registry g')"
proof -
  obtain reply rs' c' r' where post: "post_revocation (gw_config g) (gw_revocations g) (gw_ctx g)
      headers body rid now = (reply, rs', c')" "rc_registry c' = Some r'"
    and g': "g' = g\<lparr>gw_revocations := rs', gw_sessions := rc_sessions c', gw_registry := r',
      gw_signaling := rc_signaling c'\<rparr>"
    using assms(2) by (cases rule: PostRevocationE) blast
  have reg: "registered_ok (rc_registry (gw_ctx g))"
    and hit: "given (rq_session_id body) \<noteq> None \<or> given (rq_operator_did body) \<noteq> None"
    using gw_okD(1) [OF assms(1)] assms(4) by (simp_all add: gw_ctx_def registered_ok_def)
  obtain A where A: "set A = revocation_targets (gw_ctx g) body" "sessions_revoked (set A) (gw_ctx g) c'"
    using revocation_effect [OF reg assms(3) hit post(1)] by blast
  have "sid \<in> set A" using assms(4,5) by (simp add: A(1) revocation_targets_def gw_ctx_def)
  then show "\<exists>s. getSession (gw_sessions g') sid = Some s \<and> ss_state s = Revoked"
    using A(2) assms(5) by (auto simp: sessions_revoked_def gw_ctx_def g')
  show "cache_free jti (gw_registry g')"
    using revocation_cache_free [OF post assms(1,6,7)] by (simp add: g')
qed

lemma race:
  assumes "gw_ok g" and "gw_step g (Refresh sid auth ev) g1" and "gw_refreshes g1 = gw_refreshes g @ [p]"
    and "gw_step g1 (PostRevocation headers body rid now) g2"
    and "requireAdminAuth headers (gw_config g) = None" and "given (rq_session_id body) = Some sid"
    and "gw_step g2 (FinishRefresh p) g3"
    and "signs_compact (ev_sign ev)" and "cache_free (new_jti ev) (gw_registry g)"
  shows "\<exists>s. getSession (gw_sessions g3) sid = Some s \<and> ss_state s = Revoked \<and>
    (\<forall>t < gr_expiresAt (pf_tokenResult p).
      fst (isTokenValidForSession (gr_token (pf_tokenResult p)) sid (Some (gw_registry g3)) t))"
proof -
  note F = refresh_in_flight_facts [OF assms(1-3,8,9)]
  have auth: "requireAdminAuth headers (gw_config g1) = None" using assms(5) by (simp add: F(5))
  note R = revocation_passes_unregistered [OF gw_step_ok [OF assms(2,1)] assms(4) auth assms(6) F(4,6,7)]
  obtain reply m' r3 where f: "refresh_finish (gw_sessions g2) (Some (gw_registry g2)) p
      = (reply, m', Some r3)" and g3: "g3 = g2\<lparr>gw_refreshes := remove1 p (gw_refreshes g2),
      gw_sessions := m', gw_registry := r3\<rparr>"
    using assms(7) by (cases rule: FinishRefreshE) blast
  note eff = finish_refresh_effect [OF f]
  have "\<exists>s. getSession m' sid = Some s \<and> ss_state s = Revoked"
    using R(1) by (auto simp: eff(2) F(3))
  moreover have "fst (isTokenValidForSession (gr_token (pf_tokenResult p)) sid (Some r3) t)"
    if "t < gr_expiresAt (pf_tokenResult p)" for t
    using that R(2) F(2)
    by (auto simp: isTokenValidForSession_def F(1) eff(1) register_get Let_def case_prod_unfold
        isValid_answer F(3) cache_free_def register_cache is_revoked_at_def split: option.splits)
  ultimately show ?thesis by (auto simp: g3)
qed

lemma live_session_refreshes:
  assumes "gw_inv g" and "getSession (gw_sessions g) sid = Some s" and "ss_state s \<in> {Pending, Active}"
    and valid: "fst (isTokenValidForSession token sid (Some (gw_registry g)) (ev_now ev))"
    and "sx_tokenGenerator (gw_sessions g) = Some gen" and "cf_sessionTtlSeconds (gw_config g) = Some ttl"
    and fresh: "\<not> token_known g (new_jti ev)"
  shows "\<exists>p g1. gw_step g (Refresh sid (Some (''Bearer '' @ token)) ev) g1 \<and>
    gw_refreshes g1 = gw_refreshes g @ [p] \<and>
    (\<forall>j. reg_get (gw_registry g1) j = (case reg_get (gw_registry g) j of None \<Rightarrow> None
      | Some e \<Rightarrow> if te_sessionId e = sid then None else Some e))"
proof -
  have "token \<noteq> []" using valid by (auto simp: isTokenValidForSession_def extractJtiFromToken_def)
  then obtain p r1 where b: "refresh_begin (gw_config g) (gw_sessions g) (Some (gw_registry g)) sid
      (Some (''Bearer '' @ token)) ev = (Inr p, Some r1)"
    using assms(2-6) isTokenValid_None_iff [of token sid "Some (gw_registry g)" "ev_now ev"]
    by (auto simp: refresh_begin_def extractBearerToken_def starts_with_append Let_def
        case_prod_unfold getSession_def revoke_session_tokens_def)
  let ?g1 = "g\<lparr>gw_refreshes := gw_refreshes g @ [p], gw_registry := r1\<rparr>"
  have "gw_step g (Refresh sid (Some (''Bearer '' @ token)) ev) ?g1"
    by (rule refresh_begins [OF b fresh])
  then show ?thesis
    using begun_refresh_registry [OF b gw_okD(1) [OF gw_invD(1) [OF assms(1)]]]
    by (intro exI [of _ p] exI [of _ ?g1]) simp
qed

lemma refresh_settles:
  assumes "gw_inv g" and "gw_step g (Refresh sid auth ev) g1" and "gw_refreshes g1 = gw_refreshes g @ [p]"
    and "signs_compact (ev_sign ev)" and "cache_free (new_jti ev) (gw_registry g)"
  shows "\<exists>g2. gw_step g1 (FinishRefresh p) g2 \<and>
    (\<forall>j. j \<noteq> new_jti ev \<longrightarrow> reg_get (gw_registry g2) j = reg_get (gw_registry g1) j) \<and>
    (\<forall>t < gr_expiresAt (pf_tokenResult p).
      fst (isTokenValidForSession (gr_token (pf_tokenResult p)) sid (Some (gw_registry g2)) t))"
proof -
  note F = refresh_in_flight_facts [OF gw_invD(1) [OF assms(1)] assms(2-5)]
  obtain r1 where "refresh_begin (gw_config g) (gw_sessions g) (Some (gw_registry g)) sid auth ev
      = (Inr p, Some r1)"
    using assms(2,3) by (cases rule: gw_step.cases) auto
  then have jti: "gr_tokenId (pf_tokenResult p) = new_jti ev" by (rule refresh_token_id)
  obtain reply m' r2 where f: "refresh_finish (gw_sessions g1) (Some (gw_registry g1)) p
      = (reply, m', Some r2)" by (simp add: refresh_finish_def Let_def registerToken_def)
  note eff = finish_refresh_effect [OF f]
  let ?g2 = "g1\<lparr>gw_refreshes := remove1 p (gw_refreshes g1), gw_sessions := m', gw_registry := r2\<rparr>"
  have "gw_step g1 (FinishRefresh p) ?g2" by (rule refresh_finishes [OF _ f]) (simp add: assms(3))
  moreover have "fst (isTokenValidForSession (gr_token (pf_tokenResult p)) sid (Some r2) t)"
    if "t < gr_expiresAt (pf_tokenResult p)" for t
    using that F(2,3,7)
    by (auto simp: isTokenValidForSession_def F(1) eff(1) register_get Let_def case_prod_unfold
        isValid_answer cache_free_def register_cache is_revoked_at_def split: option.splits)
  ultimately show ?thesis
    by (intro exI [of _ ?g2]) (simp add: eff(1) register_get jti)
qed

section \<open>A concrete run\<close>

text \<open>
  A gateway started with the default configuration and no stored revocations: an operator creates
  the session \<open>s1\<close> and asks for a refresh; while the refresh waits for the token generator, the
  administrator revokes the session.
\<close>

definition sample_gateway :: "unit gateway" where
  "sample_gateway = projr (boot (\<lambda>v. None) () [] Absent id 0)"

lemma sample_gateway_boot: "boot (\<lambda>v. None) () [] Absent id 0 = Inr sample_gateway"
  by (simp add: sample_gateway_def boot_def store_load_def Let_def)

lemma sample_gateway_facts:
  "gw_config sample_gateway = sample_config" "gw_sessions sample_gateway = sample_module"
  "gw_creates sample_gateway = []" "gw_refreshes sample_gateway = []"
  "reg_get (gw_registry sample_gateway) j = None"
  "\<exists>c. tr_revocationCache (gw_registry sample_gateway) = Some c \<and> rc_cache c = []"
  by (simp_all add: sample_gateway_def boot_def store_load_def Let_def sample_config_def
      sample_module_def sample_generator_def setTokenGenerator_def setPolicyEvaluator_def
      setPolicyStore_def createDevKeyManager_def reg_get_def createTokenRegistry_def
      startCleanup_def setRevocationStore_def setRevocationCache_def loadFromStore_def
      createRevocationCache_def)

lemma sample_gateway_ok: "gw_ok sample_gateway"
  by (rule boot_ok [OF sample_gateway_boot])

lemma sample_creation_begins:
  obtains p where "post_session_begin sample_config sample_module sample_body ''host''
      (sample_ev 5000 ''s1'' ''u'') = Inr p"
    and "pc_sessionId p = ''s1''" and "gr_expiresAt (pc_tokenResult p) = 3605000"
    and "gr_tokenId (pc_tokenResult p) = ''tok_u''"
    and "gw_step sample_gateway (PostSession sample_body ''host'' (sample_ev 5000 ''s1'' ''u''))
      (sample_gateway\<lparr>gw_creates := [p]\<rparr>)"
proof -
  let ?ev = "sample_ev 5000 ''s1'' ''u''"
  note facts = sample_gateway_facts
  obtain p where p: "post_session_begin sample_config sample_module sample_body ''host'' ?ev = Inr p"
    "pc_sessionId p = ''s1''" "gr_expiresAt (pc_tokenResult p) = 3605000"
    using sample_begin by blast
  have jti: "gr_tokenId (pc_tokenResult p) = ''tok_u''"
    using p(1) by (auto simp: post_session_begin_def Let_def generate_def sample_ev_def
        split: option.splits sum.splits)
  have "\<not> session_known sample_gateway (ev_sessionId ?ev)" "\<not> token_known sample_gateway (new_jti ?ev)"
    by (simp_all add: session_known_def token_known_def facts getSession_def sample_module_def)
  with p(1) have "gw_step sample_gateway (PostSession sample_body ''host'' ?ev)
      (sample_gateway\<lparr>gw_creates := [p]\<rparr>)"
    using create_begins [of sample_gateway sample_body "''host''" ?ev p] by (simp add: facts)
  with p jti show thesis by (rule that)
qed

lemma sample_session_run:
  "\<exists>p (g :: unit gateway). runs gw_step sample_gateway
      [PostSession sample_body ''host'' (sample_ev 5000 ''s1'' ''u''), FinishCreate p 5001] g \<and>
    gw_config g = sample_config \<and> gw_refreshes g = [] \<and> gw_creates g = [] \<and>
    sx_tokenGenerator (gw_sessions g) = Some sample_generator \<and>
    (\<exists>s. getSession (gw_sessions g) ''s1'' = Some s \<and> ss_state s = Pending) \<and>
    (\<forall>j. j \<noteq> ''tok_u'' \<longrightarrow> reg_get (gw_registry g) j = None) \<and>
    (\<forall>j. cache_free j (gw_registry g)) \<and>
    (\<forall>now. 5000 \<le> now \<longrightarrow> now < 3605000 \<longrightarrow>
      fst (isTokenValidForSession (gr_token (pc_tokenResult p)) ''s1'' (Some (gw_registry g)) now))"
proof -
  let ?ev = "sample_ev 5000 ''s1'' ''u''"
  note facts = sample_gateway_facts
  obtain p where p: "post_session_begin sample_config sample_module sample_body ''host'' ?ev = Inr p"
    "pc_sessionId p = ''s1''" "gr_expiresAt (pc_tokenResult p) = 3605000"
    and jti: "gr_tokenId (pc_tokenResult p) = ''tok_u''"
    and one: "gw_step sample_gateway (PostSession sample_body ''host'' ?ev)
      (sample_gateway\<lparr>gw_creates := [p]\<rparr>)"
    using sample_creation_begins .
  let ?g1 = "sample_gateway\<lparr>gw_creates := [p]\<rparr>"
  obtain reply m' r' where f: "post_session_finish (gw_config ?g1) (gw_sessions ?g1)
      (Some (gw_registry ?g1)) p 5001 = (reply, m', Some r')"
    by (simp add: post_session_finish_def Let_def registerToken_def)
  let ?g2 = "?g1\<lparr>gw_creates := remove1 p (gw_creates ?g1), gw_sessions := m', gw_registry := r'\<rparr>"
  have two: "gw_step ?g1 (FinishCreate p 5001) ?g2"
    by (rule create_finishes [OF _ f]) simp
  have signs: "signs_compact (ev_sign ?ev)" by (simp add: sample_ev_def stub_signs_compact)
  have f': "post_session_finish sample_config sample_module (Some (gw_registry sample_gateway)) p 5001
      = (reply, m', Some r')" using f by (simp add: facts)
  have valid: "fst (isTokenValidForSession (gr_token (pc_tokenResult p)) ''s1'' (Some r') now)"
    if "now < 3605000" for now
    using issued_token_iff [OF signs p(1) f', of now "''s1''"] p(2,3) that facts(6)
    by (auto simp: is_revoked_at_def)
  have sess: "\<exists>s. getSession m' ''s1'' = Some s \<and> ss_state s = Pending"
    using finish_create_effect(2) [OF f'] p(2) by simp
  have gen: "sx_tokenGenerator m' = Some sample_generator"
    using f' by (auto simp: post_session_finish_def Let_def createSession_def sample_module_def)
  have reg: "reg_get r' j = None" if "j \<noteq> ''tok_u''" for j
    using that facts(5) by (simp add: finish_create_effect(1) [OF f'] register_get jti)
  have free: "cache_free j r'" for j
    using facts(6) by (auto simp: finish_create_effect(1) [OF f'] cache_free_def reg_register_def)
  have "runs gw_step sample_gateway [PostSession sample_body ''host'' ?ev, FinishCreate p 5001] ?g2"
    using one two by auto
  with valid sess gen reg free show ?thesis by (intro exI [of _ p] exI [of _ ?g2]) (auto simp: facts)
qed

definition revoke_s1 :: createRevocationRequest where
  "revoke_s1 = JObj [(''session_id'', JStr ''s1''), (''reason'', JStr ''x'')]"

lemma revoke_s1_given [simp]: "given (rq_session_id revoke_s1) = Some ''s1''"
  by (simp add: revoke_s1_def)

lemma revocation_enabled:
  assumes "gw_ok g" and "gw_config g = sample_config"
  shows "\<exists>g1. gw_step g (PostRevocation admin_headers revoke_s1 rid now) g1 \<and>
    gw_refreshes g1 = gw_refreshes g"
proof -
  obtain reply rs' c' where post: "post_revocation (gw_config g) (gw_revocations g) (gw_ctx g)
      admin_headers revoke_s1 rid now = (reply, rs', c')" by (metis prod_cases3)
  have reg: "registered_ok (rc_registry (gw_ctx g))"
    using gw_okD(1) [OF assms(1)] by (simp add: gw_ctx_def registered_ok_def)
  have auth: "requireAdminAuth admin_headers (gw_config g) = None"
    and hit: "given (rq_session_id revoke_s1) \<noteq> None \<or> given (rq_operator_did revoke_s1) \<noteq> None"
    by (simp_all add: admin_headers_ok assms(2))
  obtain P where "tokens_removed P (rc_registry (gw_ctx g)) (rc_registry c')"
    using revocation_effect [OF reg auth hit post] by blast
  then obtain r where "rc_registry c' = Some r" by (auto simp: tokens_removed_def gw_ctx_def)
  from revokes [OF post this] show ?thesis by fastforce
qed

lemma deletion_enabled: "\<exists>g1. gw_step g (DeleteSession sid now) g1"
proof -
  obtain reply m' r where "delete_session_handler (gw_sessions g) (Some (gw_registry g)) sid now
      = (reply, m', Some r)"
    by (cases "jm_get (sx_sessions (gw_sessions g)) sid")
       (auto simp: delete_session_handler_def Let_def case_prod_unfold revoke_session_tokens_def)
  from deletes [OF this] show ?thesis by blast
qed

lemma sample_refresh_begins:
  assumes "gw_config g = sample_config" and "gw_refreshes g = []" and "gw_creates g = []"
    and "sx_tokenGenerator (gw_sessions g) = Some sample_generator"
    and "\<exists>s. getSession (gw_sessions g) ''s1'' = Some s \<and> ss_state s = Pending"
    and "reg_get (gw_registry g) ''tok_v'' = None"
    and "fst (isTokenValidForSession token ''s1'' (Some (gw_registry g)) 6000)"
  shows "\<exists>p' r'. gw_step g (Refresh ''s1'' (Some (''Bearer '' @ token)) (sample_ev 6000 ''x'' ''v''))
    (g\<lparr>gw_refreshes := gw_refreshes g @ [p'], gw_registry := r'\<rparr>)"
proof -
  let ?ev = "sample_ev 6000 ''x'' ''v''"
  have "token \<noteq> []" using assms(7) by (auto simp: isTokenValidForSession_def extractJtiFromToken_def)
  then obtain p' r' where "refresh_begin (gw_config g) (gw_sessions g) (Some (gw_registry g)) ''s1''
      (Some (''Bearer '' @ token)) ?ev = (Inr p', Some r')"
    using assms(1,4,5,7) isTokenValid_None_iff [of token "''s1''" "Some (gw_registry g)" 6000]
    by (auto simp: refresh_begin_def extractBearerToken_def starts_with_append sample_config_ttl
        Let_def case_prod_unfold sample_ev_def getSession_def revoke_session_tokens_def)
  from refresh_begins [OF this] show ?thesis
    using assms(2,3,6) by (auto simp: token_known_def new_jti_def sample_ev_def)
qed

lemma sample_race_run:
  "\<exists>p token p' (g :: unit gateway) g1 g2 g3. runs gw_step sample_gateway
      [PostSession sample_body ''host'' (sample_ev 5000 ''s1'' ''u''), FinishCreate p 5001] g \<and>
    gw_step g (Refresh ''s1'' (Some (''Bearer '' @ token)) (sample_ev 6000 ''x'' ''v'')) g1 \<and>
    gw_refreshes g = [] \<and> gw_refreshes g1 = gw_refreshes g @ [p'] \<and>
    gw_step g1 (PostRevocation admin_headers revoke_s1 ''rev'' 6001) g2 \<and>
    gw_step g2 (FinishRefresh p') g3 \<and> gw_config g = sample_config \<and>
    cache_free ''tok_v'' (gw_registry g)"
proof -
  obtain p :: pendingCreate and g :: "unit gateway" where run: "runs gw_step sample_gateway
      [PostSession sample_body ''host'' (sample_ev 5000 ''s1'' ''u''), FinishCreate p 5001] g"
    and g: "gw_config g = sample_config" "gw_refreshes g = []" "gw_creates g = []"
      "sx_tokenGenerator (gw_sessions g) = Some sample_generator"
      "\<exists>s. getSession (gw_sessions g) ''s1'' = Some s \<and> ss_state s = Pending"
      "\<forall>j. j \<noteq> ''tok_u'' \<longrightarrow> reg_get (gw_registry g) j = None"
      "\<forall>j. cache_free j (gw_registry g)"
      "\<forall>now. 5000 \<le> now \<longrightarrow> now < 3605000 \<longrightarrow> fst (isTokenValidForSession
        (gr_token (pc_tokenResult p)) ''s1'' (Some (gw_registry g)) now)"
    using sample_session_run by blast
  let ?token = "gr_token (pc_tokenResult p)" and ?ev = "sample_ev 6000 ''x'' ''v''"
  have unregistered: "reg_get (gw_registry g) ''tok_v'' = None" using g(6) by simp
  have valid: "fst (isTokenValidForSession ?token ''s1'' (Some (gw_registry g)) 6000)" using g(8) by simp
  obtain p' r' where one: "gw_step g (Refresh ''s1'' (Some (''Bearer '' @ ?token)) ?ev)
      (g\<lparr>gw_refreshes := gw_refreshes g @ [p'], gw_registry := r'\<rparr>)"
    using sample_refresh_begins [OF g(1-5) unregistered valid] by blast
  let ?g1 = "g\<lparr>gw_refreshes := gw_refreshes g @ [p'], gw_registry := r'\<rparr>"
  have "gw_ok g" using gateway_inv.run_good [OF run sample_gateway_ok] by (simp add: list_all_iff)
  then have "gw_ok ?g1" using gw_step_ok [OF one] by simp
  then obtain g2 where two: "gw_step ?g1 (PostRevocation admin_headers revoke_s1 ''rev'' 6001) g2"
    and keep2: "gw_refreshes g2 = gw_refreshes ?g1"
    using revocation_enabled [of ?g1] g(1) by auto
  obtain reply' m' r3 where f: "refresh_finish (gw_sessions g2) (Some (gw_registry g2)) p'
      = (reply', m', Some r3)"
    by (simp add: refresh_finish_def Let_def registerToken_def)
  have three: "\<exists>g3. gw_step g2 (FinishRefresh p') g3"
    using refresh_finishes [OF _ f] keep2 by auto
  have keep: "gw_refreshes ?g1 = gw_refreshes g @ [p']" by simp
  have free: "cache_free ''tok_v'' (gw_registry g)" using g(7) by blast
  from run one g(2) keep two three g(1) free show ?thesis by blast
qed

section \<open>Properties\<close>

lemma reachable_view_ok:
  assumes "boot env key jwk revocationFile sha256 now = Inr g0" and "runs gw_step g0 es g"
  shows "gw_inv g" and "au_ok (view g)"
proof -
  show "gw_inv g" by (rule gateway.run_inv [OF assms(2) boot_inv(1) [OF assms(1)]])
  show "au_ok (view g)"
    by (rule gateway.run_transfer [OF au_step_ok assms(2) boot_inv(1) [OF assms(1)]])
       (simp_all add: boot_inv(2) [OF assms(1)] no_authority_ok)
qed

lemma distinct_by_key:
  "(\<And>k. size (filter_mset (\<lambda>x. f x = k) (mset xs)) \<le> 1) \<Longrightarrow> distinct (map f xs)"
proof (induction xs)
  case Nil
  then show ?case by simp
next
  case (Cons x xs)
  have le: "size (filter_mset (\<lambda>y. f y = k) (mset xs)) \<le> 1" for k
    by (rule order_trans [OF _ Cons.prems [of k]]) simp
  have "filter_mset (\<lambda>y. f y = f x) (mset xs) = {#}" using Cons.prems [of "f x"] by simp
  then have "f x \<notin> f ` set xs" by auto
  with Cons.IH [OF le] show ?case by simp
qed

text \<open>
  (C2) The gateway implements the authority of theory \<open>Authority\<close>: every run from its start is a run
  of the authority from nothing, event by event what \<open>serves\<close> allows, ending in the view of the
  gateway's state; and a token is accepted for a session only if the authority admits it then.
\<close>

theorem gateway_refines_authority:
  assumes "boot env key jwk revocationFile sha256 now = Inr g0" and "runs gw_step g0 es g"
  shows "(\<exists>xs. list_all2 serves es xs \<and> runs au_step no_authority xs (view g)) \<and>
    (\<forall>token sid t. fst (isTokenValidForSession token sid (Some (gw_registry g)) t) \<longrightarrow>
      admits (view g) sid t)"
  using gateway.run_simulates [OF assms(2) boot_inv(1) [OF assms(1)]] accepted_is_admitted
  by (auto simp: boot_inv(2) [OF assms(1)])

theorem gateway_refines_authority_witness:
  "\<exists>p (g :: unit gateway) xs. runs gw_step sample_gateway
      [PostSession sample_body ''host'' (sample_ev 5000 ''s1'' ''u''), FinishCreate p 5001] g \<and>
    list_all2 serves [PostSession sample_body ''host'' (sample_ev 5000 ''s1'' ''u''), FinishCreate p 5001] xs \<and>
    runs au_step no_authority xs (view g) \<and> admits (view g) ''s1'' 6000"
proof -
  obtain p and g :: "unit gateway" where run: "runs gw_step sample_gateway
      [PostSession sample_body ''host'' (sample_ev 5000 ''s1'' ''u''), FinishCreate p 5001] g"
    and valid: "\<forall>now. 5000 \<le> now \<longrightarrow> now < 3605000 \<longrightarrow>
      fst (isTokenValidForSession (gr_token (pc_tokenResult p)) ''s1'' (Some (gw_registry g)) now)"
    using sample_session_run by blast
  have "fst (isTokenValidForSession (gr_token (pc_tokenResult p)) ''s1'' (Some (gw_registry g)) 6000)"
    using valid by simp
  with run gateway_refines_authority [OF sample_gateway_boot run] show ?thesis by blast
qed

text \<open>
  (C3) In every state the gateway can reach, a session has at most one registered token; while a
  refresh of it is in flight it has none, and only one refresh of it is in flight. The ids of the
  tokens in flight are distinct and none is registered.
\<close>

theorem one_token_per_session:
  assumes "boot env key jwk revocationFile sha256 now = Inr g0" and "runs gw_step g0 es g"
  shows "(\<forall>i j d e. reg_get (gw_registry g) i = Some d \<and> reg_get (gw_registry g) j = Some e \<and>
      te_sessionId d = te_sessionId e \<longrightarrow> i = j) \<and>
    (\<forall>p \<in> set (gw_refreshes g). \<forall>j e. reg_get (gw_registry g) j = Some e \<longrightarrow>
      te_sessionId e \<noteq> pf_sessionId p) \<and>
    distinct (map pf_sessionId (gw_refreshes g)) \<and>
    distinct (map (gr_tokenId \<circ> pc_tokenResult) (gw_creates g) @
      map (gr_tokenId \<circ> pf_tokenResult) (gw_refreshes g))"
proof (intro conjI ballI allI impI)
  note ok = reachable_view_ok [OF assms]
  show "i = j" if "reg_get (gw_registry g) i = Some d \<and> reg_get (gw_registry g) j = Some e \<and>
      te_sessionId d = te_sessionId e" for i j d e
    using lone_admits [OF ok(2), of i "grant_of d" j "grant_of e"] that by simp
  show "te_sessionId e \<noteq> pf_sessionId p"
    if "p \<in> set (gw_refreshes g)" and "reg_get (gw_registry g) j = Some e" for p j e
    using owed_not_held [OF ok(2), of "fst (owed_grant p)" "snd (owed_grant p)" j] that
    by (auto simp: held_def owed_grant_def)
  have "size (owed_for (view g) sid) \<le> 1" for sid
    using au_okD(3) [OF ok(2), of sid] by (auto simp: lone_def)
  then have "distinct (map (\<lambda>x. gt_session (snd x)) (map owed_grant (gw_refreshes g)))"
    by (intro distinct_by_key) (simp add: owed_for_def del: mset_map)
  then show "distinct (map pf_sessionId (gw_refreshes g))" by (simp add: owed_grant_def comp_def)
  show "distinct (map (gr_tokenId \<circ> pc_tokenResult) (gw_creates g) @
      map (gr_tokenId \<circ> pf_tokenResult) (gw_refreshes g))"
    using gw_invD(2) [OF ok(1)] by (simp add: ids_ok_def pending_jtis_def)
qed

theorem one_token_per_session_witness:
  "\<exists>p (g1 :: unit gateway) es. runs gw_step sample_gateway es g1 \<and> gw_refreshes g1 = [p] \<and>
    (\<forall>j e. reg_get (gw_registry g1) j = Some e \<longrightarrow> te_sessionId e \<noteq> pf_sessionId p)"
proof -
  obtain p token p' and g g1 :: "unit gateway" where run: "runs gw_step sample_gateway
      [PostSession sample_body ''host'' (sample_ev 5000 ''s1'' ''u''), FinishCreate p 5001] g"
    and step: "gw_step g (Refresh ''s1'' (Some (''Bearer '' @ token)) (sample_ev 6000 ''x'' ''v'')) g1"
      "gw_refreshes g = []" "gw_refreshes g1 = gw_refreshes g @ [p']"
    using sample_race_run by blast
  have "runs gw_step g [Refresh ''s1'' (Some (''Bearer '' @ token)) (sample_ev 6000 ''x'' ''v'')] g1"
    using step(1) by auto
  with run have more: "runs gw_step sample_gateway
      ([PostSession sample_body ''host'' (sample_ev 5000 ''s1'' ''u''), FinishCreate p 5001] @
       [Refresh ''s1'' (Some (''Bearer '' @ token)) (sample_ev 6000 ''x'' ''v'')]) g1"
    unfolding runs_append by blast
  have "gw_refreshes g1 = [p']" using step(2,3) by simp
  moreover from this have "\<forall>j e. reg_get (gw_registry g1) j = Some e \<longrightarrow> te_sessionId e \<noteq> pf_sessionId p'"
    using one_token_per_session [OF sample_gateway_boot more] by (metis list.set_intros(1))
  ultimately show ?thesis using more by blast
qed

text \<open>
  (C20) A refresh succeeds and rotates: in every state the gateway can reach, an operator who presents an
  accepted token of a pending or active session gets a new one, which is accepted until it expires,
  while the token presented is not accepted any more.
\<close>

theorem refresh_rotates_token:
  assumes "boot env key jwk revocationFile sha256 now = Inr g0" and "runs gw_step g0 es g"
    and "getSession (gw_sessions g) sid = Some s" and "ss_state s \<in> {Pending, Active}"
    and "fst (isTokenValidForSession token sid (Some (gw_registry g)) (ev_now ev))"
    and "sx_tokenGenerator (gw_sessions g) = Some gen" and "cf_sessionTtlSeconds (gw_config g) = Some ttl"
    and "\<not> token_known g (new_jti ev)" and "cache_free (new_jti ev) (gw_registry g)"
    and "signs_compact (ev_sign ev)"
  shows "\<exists>p g2. runs gw_step g [Refresh sid (Some (''Bearer '' @ token)) ev, FinishRefresh p] g2 \<and>
    (\<forall>t < gr_expiresAt (pf_tokenResult p).
      fst (isTokenValidForSession (gr_token (pf_tokenResult p)) sid (Some (gw_registry g2)) t)) \<and>
    (\<forall>t. \<not> fst (isTokenValidForSession token sid (Some (gw_registry g2)) t))"
proof -
  have inv: "gw_inv g" using assms(1,2) by (rule reachable_view_ok)
  obtain p g1 where one: "gw_step g (Refresh sid (Some (''Bearer '' @ token)) ev) g1"
    "gw_refreshes g1 = gw_refreshes g @ [p]"
    and reg: "\<forall>j. reg_get (gw_registry g1) j = (case reg_get (gw_registry g) j of None \<Rightarrow> None
      | Some e \<Rightarrow> if te_sessionId e = sid then None else Some e)"
    using live_session_refreshes [OF inv assms(3-8)] by blast
  obtain g2 where two: "gw_step g1 (FinishRefresh p) g2"
    and same: "\<forall>j. j \<noteq> new_jti ev \<longrightarrow> reg_get (gw_registry g2) j = reg_get (gw_registry g1) j"
    and new: "\<forall>t < gr_expiresAt (pf_tokenResult p).
      fst (isTokenValidForSession (gr_token (pf_tokenResult p)) sid (Some (gw_registry g2)) t)"
    using refresh_settles [OF inv one assms(10,9)] by blast
  obtain jti e where old: "extractJtiFromToken token = JStr jti" "reg_get (gw_registry g) jti = Some e"
    "te_sessionId e = sid"
    using token_valid_registered [OF assms(5)] by blast
  then have "jti \<noteq> new_jti ev" using assms(8) by (auto simp: token_known_def)
  then have "reg_get (gw_registry g2) jti = None" using same reg old(2,3) by simp
  then have "\<not> fst (isTokenValidForSession token sid (Some (gw_registry g2)) t)" for t
    using token_valid_registered [of token sid "gw_registry g2" t] old(1) by auto
  with one(1) two new show ?thesis by (intro exI [of _ p] exI [of _ g2]) auto
qed

theorem refresh_rotates_token_witness:
  "\<exists>(g :: unit gateway) es token. runs gw_step sample_gateway es g \<and>
    (\<exists>p :: pendingRefresh. \<forall>t < gr_expiresAt (pf_tokenResult p).
      fst (isTokenValidForSession (gr_token (pf_tokenResult p)) ''s1'' (Some (gw_registry g)) t)) \<and>
    (\<forall>t. \<not> fst (isTokenValidForSession token ''s1'' (Some (gw_registry g)) t))"
proof -
  obtain p and g :: "unit gateway" where run: "runs gw_step sample_gateway
      [PostSession sample_body ''host'' (sample_ev 5000 ''s1'' ''u''), FinishCreate p 5001] g"
    and g: "gw_config g = sample_config" "gw_refreshes g = []" "gw_creates g = []"
      "sx_tokenGenerator (gw_sessions g) = Some sample_generator"
      "\<exists>s. getSession (gw_sessions g) ''s1'' = Some s \<and> ss_state s = Pending"
      "\<forall>j. j \<noteq> ''tok_u'' \<longrightarrow> reg_get (gw_registry g) j = None"
      "\<forall>j. cache_free j (gw_registry g)"
      "\<forall>now. 5000 \<le> now \<longrightarrow> now < 3605000 \<longrightarrow> fst (isTokenValidForSession
        (gr_token (pc_tokenResult p)) ''s1'' (Some (gw_registry g)) now)"
    using sample_session_run by blast
  let ?ev = "sample_ev 6000 ''x'' ''v''"
  obtain s where s: "getSession (gw_sessions g) ''s1'' = Some s" "ss_state s \<in> {Pending, Active}"
    using g(5) by auto
  have valid: "fst (isTokenValidForSession (gr_token (pc_tokenResult p)) ''s1''
      (Some (gw_registry g)) (ev_now ?ev))"
    using g(8) by (simp add: sample_ev_def)
  have ttl: "cf_sessionTtlSeconds (gw_config g) = Some 3600" by (simp add: g(1) sample_config_ttl)
  have fresh: "\<not> token_known g (new_jti ?ev)" and signs: "signs_compact (ev_sign ?ev)"
    using g(2,3,6) by (simp_all add: token_known_def new_jti_def sample_ev_def stub_signs_compact)
  obtain p' g2 where "runs gw_step g [Refresh ''s1'' (Some (''Bearer '' @ gr_token (pc_tokenResult p))) ?ev,
      FinishRefresh p'] g2"
    and "\<forall>t < gr_expiresAt (pf_tokenResult p').
      fst (isTokenValidForSession (gr_token (pf_tokenResult p')) ''s1'' (Some (gw_registry g2)) t)"
    and "\<forall>t. \<not> fst (isTokenValidForSession (gr_token (pc_tokenResult p)) ''s1'' (Some (gw_registry g2)) t)"
    using refresh_rotates_token [OF sample_gateway_boot run s valid g(4) ttl fresh spec [OF g(7)] signs]
    by blast
  with run show ?thesis by (metis runs_append)
qed

text \<open>
  (C5) In every state the gateway can reach after its start, each registered token belongs to a
  session that exists and names the same operator and robot, each refresh in flight likewise, and no
  creation in flight has the id of an existing session.
\<close>

theorem reachable_tokens_owned:
  assumes "boot env key jwk revocationFile sha256 now = Inr g0" and "runs gw_step g0 es g"
  shows "(\<forall>j e. reg_get (gw_registry g) j = Some e \<longrightarrow> te_jti e = j \<and>
      (\<exists>s. getSession (gw_sessions g) (te_sessionId e) = Some s \<and>
        ss_operator_did s = te_operatorDid e \<and> ss_robot_id s = te_robotId e))
    \<and> (\<forall>p \<in> set (gw_refreshes g). \<exists>s. getSession (gw_sessions g) (pf_sessionId p) = Some s \<and>
        ss_operator_did s = pf_operatorDid p \<and> ss_robot_id s = pf_robotId p)
    \<and> (\<forall>p \<in> set (gw_creates g). getSession (gw_sessions g) (pc_sessionId p) = None)"
proof -
  have ok: "gw_ok g"
    by (rule gateway_inv.run_good [OF assms(2) boot_ok [OF assms(1)]]) (simp add: list_all_iff)
  have "te_jti e = j" if "reg_get (gw_registry g) j = Some e" for j e
    using that tokens_ok_get [of "tr_tokens (gw_registry g)" j e] gw_okD(1) [OF ok] by (simp add: reg_get_def registry_ok_def)
  with gw_okD(3,4,6) [OF ok] show ?thesis unfolding owned_def by blast
qed

theorem reachable_tokens_owned_witness:
  "\<exists>p (g :: unit gateway). runs gw_step sample_gateway
      [PostSession sample_body ''host'' (sample_ev 5000 ''s1'' ''u''), FinishCreate p 5001] g \<and>
    (\<forall>j e. reg_get (gw_registry g) j = Some e \<longrightarrow>
      (\<exists>s. getSession (gw_sessions g) (te_sessionId e) = Some s \<and> ss_operator_did s = te_operatorDid e))"
proof -
  obtain p and g :: "unit gateway" where run: "runs gw_step sample_gateway
      [PostSession sample_body ''host'' (sample_ev 5000 ''s1'' ''u''), FinishCreate p 5001] g"
    using sample_session_run by blast
  from run reachable_tokens_owned [OF sample_gateway_boot run] show ?thesis by blast
qed

text \<open>
  (C1) A revocation by session id is final when no refresh of that session is in flight: whatever
  happens afterwards, no token is ever accepted for the session and no refresh of it goes ahead.
\<close>

theorem revoked_session_stays_revoked:
  assumes "boot env key jwk revocationFile sha256 now = Inr g0" and "runs gw_step g0 es g"
    and "gw_step g (PostRevocation headers body rid t) g1"
    and "requireAdminAuth headers (gw_config g) = None" and "given (rq_session_id body) = Some sid"
    and "getSession (gw_sessions g) sid \<noteq> None" and "\<forall>p \<in> set (gw_refreshes g). pf_sessionId p \<noteq> sid"
    and "runs gw_step g1 es' g2"
  shows "\<not> fst (isTokenValidForSession token sid (Some (gw_registry g2)) t2)
    \<and> (\<exists>reply. fst (refresh_begin (gw_config g2) (gw_sessions g2) (Some (gw_registry g2)) sid auth ev)
        = Inl reply)
    \<and> (\<exists>s. getSession (gw_sessions g2) sid = Some s \<and> ss_state s \<in> {Terminated, Revoked})"
proof -
  have "gw_inv g" by (rule gateway.run_inv [OF assms(2) boot_inv(1) [OF assms(1)]])
  from revocation_ends_session [OF this assms(3-7)] have "session_over sid g2"
    by (rule over.run_good [OF assms(8)]) (simp add: list_all_iff)
  with over_refuses [OF this] session_over_state [OF this] show ?thesis by blast
qed

theorem revoked_session_stays_revoked_witness:
  "\<exists>(g2 :: unit gateway) es. runs gw_step sample_gateway es g2 \<and>
     (\<exists>s. getSession (gw_sessions g2) ''s1'' = Some s \<and> ss_state s \<in> {Terminated, Revoked}) \<and>
     (\<forall>token. \<not> fst (isTokenValidForSession token ''s1'' (Some (gw_registry g2)) 7000))"
proof -
  obtain p and g :: "unit gateway" where run: "runs gw_step sample_gateway
      [PostSession sample_body ''host'' (sample_ev 5000 ''s1'' ''u''), FinishCreate p 5001] g"
    and g: "gw_config g = sample_config" "gw_refreshes g = []"
      "getSession (gw_sessions g) ''s1'' \<noteq> None"
    using sample_session_run by blast
  have "gw_ok g" using gateway_inv.run_good [OF run sample_gateway_ok] by (simp add: list_all_iff)
  then obtain g1 where one: "gw_step g (PostRevocation admin_headers revoke_s1 ''rev'' 6001) g1"
    using revocation_enabled g(1) by blast
  obtain g2 where two: "gw_step g1 (DeleteSession ''s1'' 6002) g2" using deletion_enabled by blast
  have auth: "requireAdminAuth admin_headers (gw_config g) = None"
    and sid: "given (rq_session_id revoke_s1) = Some ''s1''"
    and idle: "\<forall>p \<in> set (gw_refreshes g). pf_sessionId p \<noteq> ''s1''"
    and last: "runs gw_step g1 [DeleteSession ''s1'' 6002] g2"
    using two by (simp_all add: g admin_headers_ok)
  have "runs gw_step g [PostRevocation admin_headers revoke_s1 ''rev'' 6001, DeleteSession ''s1'' 6002] g2"
    using one two by auto
  with run have "\<exists>es. runs gw_step sample_gateway es g2" by (metis runs_append)
  with revoked_session_stays_revoked [OF sample_gateway_boot run one auth sid g(3) idle last]
  show ?thesis by blast
qed

text \<open>
  Terminating a session is final in the same way when no refresh of it is in flight.
\<close>

theorem terminated_session_stays_terminated:
  assumes "boot env key jwk revocationFile sha256 now = Inr g0" and "runs gw_step g0 es g"
    and "gw_step g (DeleteSession sid t) g1"
    and "getSession (gw_sessions g) sid \<noteq> None" and "\<forall>p \<in> set (gw_refreshes g). pf_sessionId p \<noteq> sid"
    and "runs gw_step g1 es' g2"
  shows "\<not> fst (isTokenValidForSession token sid (Some (gw_registry g2)) t2)
    \<and> (\<exists>reply. fst (refresh_begin (gw_config g2) (gw_sessions g2) (Some (gw_registry g2)) sid auth ev)
        = Inl reply)"
proof -
  have "gw_inv g" by (rule gateway.run_inv [OF assms(2) boot_inv(1) [OF assms(1)]])
  from termination_ends_session [OF this assms(3-5)] have "session_over sid g2"
    by (rule over.run_good [OF assms(6)]) (simp add: list_all_iff)
  with over_refuses [OF this] show ?thesis by blast
qed

theorem terminated_session_stays_terminated_witness:
  "\<exists>(g1 :: unit gateway) es. runs gw_step sample_gateway (es @ [DeleteSession ''s1'' 6002]) g1 \<and>
     (\<forall>token. \<not> fst (isTokenValidForSession token ''s1'' (Some (gw_registry g1)) 7000))"
proof -
  obtain p and g :: "unit gateway" where run: "runs gw_step sample_gateway
      [PostSession sample_body ''host'' (sample_ev 5000 ''s1'' ''u''), FinishCreate p 5001] g"
    and g: "gw_refreshes g = []" "getSession (gw_sessions g) ''s1'' \<noteq> None"
    using sample_session_run by blast
  obtain g1 where one: "gw_step g (DeleteSession ''s1'' 6002) g1" using deletion_enabled by blast
  have idle: "\<forall>p \<in> set (gw_refreshes g). pf_sessionId p \<noteq> ''s1''" and last: "runs gw_step g1 [] g1"
    by (simp_all add: g)
  have "runs gw_step sample_gateway
      ([PostSession sample_body ''host'' (sample_ev 5000 ''s1'' ''u''), FinishCreate p 5001] @
       [DeleteSession ''s1'' 6002]) g1"
    unfolding runs_append using run one by auto
  with terminated_session_stays_terminated [OF sample_gateway_boot run one g(2) idle last]
  show ?thesis by blast
qed

text \<open>
  (C11) A revocation that arrives while a refresh of the session waits for the token generator does
  not stop it: when the refresh finishes, the session is revoked and yet a new token of it is
  registered and accepted until it expires.
\<close>

theorem refresh_in_flight_survives_revocation:
  assumes "gw_ok g" and "gw_step g (Refresh sid auth ev) g1" and "gw_refreshes g1 = gw_refreshes g @ [p]"
    and "gw_step g1 (PostRevocation headers body rid now) g2"
    and "requireAdminAuth headers (gw_config g) = None" and "given (rq_session_id body) = Some sid"
    and "gw_step g2 (FinishRefresh p) g3"
    and "signs_compact (ev_sign ev)" and "cache_free (new_jti ev) (gw_registry g)"
  shows "\<exists>s. getSession (gw_sessions g3) sid = Some s \<and> ss_state s = Revoked \<and>
    (\<forall>t < gr_expiresAt (pf_tokenResult p).
      fst (isTokenValidForSession (gr_token (pf_tokenResult p)) sid (Some (gw_registry g3)) t))"
  using assms by (rule race)

theorem refresh_in_flight_survives_revocation_witness:
  "\<exists>es (g :: unit gateway) s. runs gw_step sample_gateway es g \<and>
     getSession (gw_sessions g) ''s1'' = Some s \<and> ss_state s = Revoked \<and>
     (\<exists>p :: pendingRefresh. \<forall>t < gr_expiresAt (pf_tokenResult p).
       fst (isTokenValidForSession (gr_token (pf_tokenResult p)) ''s1'' (Some (gw_registry g)) t))"
proof -
  obtain p token p' and g g1 g2 g3 :: "unit gateway" where run: "runs gw_step sample_gateway
      [PostSession sample_body ''host'' (sample_ev 5000 ''s1'' ''u''), FinishCreate p 5001] g"
    and steps: "gw_step g (Refresh ''s1'' (Some (''Bearer '' @ token)) (sample_ev 6000 ''x'' ''v'')) g1"
      "gw_refreshes g1 = gw_refreshes g @ [p']"
      "gw_step g1 (PostRevocation admin_headers revoke_s1 ''rev'' 6001) g2"
      "gw_step g2 (FinishRefresh p') g3" "gw_config g = sample_config"
      "cache_free ''tok_v'' (gw_registry g)"
    using sample_race_run by blast
  have ok: "gw_ok g" using gateway_inv.run_good [OF run sample_gateway_ok] by (simp add: list_all_iff)
  have auth: "requireAdminAuth admin_headers (gw_config g) = None"
    by (simp add: steps(5) admin_headers_ok)
  have signs: "signs_compact (ev_sign (sample_ev 6000 ''x'' ''v''))"
    by (simp add: sample_ev_def stub_signs_compact)
  have free: "cache_free (new_jti (sample_ev 6000 ''x'' ''v'')) (gw_registry g)"
    using steps(6) by (simp add: new_jti_def sample_ev_def)
  have sid: "given (rq_session_id revoke_s1) = Some ''s1''" by simp
  have more: "runs gw_step g [Refresh ''s1'' (Some (''Bearer '' @ token)) (sample_ev 6000 ''x'' ''v''),
      PostRevocation admin_headers revoke_s1 ''rev'' 6001,
      FinishRefresh p'] g3"
    using steps(1,3,4) by auto
  have "\<exists>es. runs gw_step sample_gateway es g3"
    by (rule exI, rule runs_append [THEN iffD2], rule exI, rule conjI [OF run more])
  with refresh_in_flight_survives_revocation [OF ok steps(1-3) auth sid steps(4) signs free]
  show ?thesis by blast
qed

text \<open>
  (C10) Revocations survive a restart: after an entry has been appended to a readable store, a gateway
  started from that file starts, and its revocation cache answers that the token is revoked for as
  long as the token would have been valid.
\<close>

theorem revocation_survives_restart:
  assumes "store_load fl = Inr es" and "list_all storable (es @ [e])"
    and "re_expiresAt e = Some x" and "now < x" and "now \<le> t" and "t < x"
  shows "\<exists>g c. boot env key jwk (snd (store_append True e fl)) sha256 now = Inr g \<and>
    tr_revocationCache (gw_registry g) = Some c \<and> fst (cache_isRevoked c (re_jti e) t)"
proof -
  have load: "store_load (snd (store_append True e fl)) = Inr (es @ [e])"
    using append_then_load [OF assms(1,2)] by blast
  let ?c = "loadFromStore (createRevocationCache (Some (cf_maxRevocationCacheSize (loadConfig env))))
    (es @ [e]) now"
  have "jm_get (rc_cache ?c) (re_jti e) = Some e"
    using assms(3,4) by (simp add: loadFromStore_def Let_def jm.get_put)
  then have "is_revoked_at ?c (re_jti e) t" using assms(3,6) by (simp add: is_revoked_at_def)
  moreover have "\<exists>g. boot env key jwk (snd (store_append True e fl)) sha256 now = Inr g \<and>
      tr_revocationCache (gw_registry g) = Some ?c"
    by (simp add: boot_def load Let_def startCleanup_def setRevocationStore_def setRevocationCache_def)
  ultimately show ?thesis by (auto simp: isRevoked_answer)
qed

theorem revocation_survives_restart_witness:
  "\<exists>g c. boot (\<lambda>v. None) () [] (snd (store_append True (sample_entry ''a'') Absent)) id 5 = Inr g \<and>
    tr_revocationCache (gw_registry g) = Some c \<and> fst (cache_isRevoked c ''a'' 5)"
proof -
  have load: "store_load Absent = Inr []" and st: "list_all storable ([] @ [sample_entry ''a''])"
    and e: "re_expiresAt (sample_entry ''a'') = Some 2000" and j: "re_jti (sample_entry ''a'') = ''a''"
    by (simp_all add: store_load_def sample_storable) (simp_all add: sample_entry_def)
  have lt: "(5::int) < 2000" and le: "(5::int) \<le> 5" by simp_all
  show ?thesis
    using revocation_survives_restart [OF load st e lt le lt, of "\<lambda>v. None" "()" "[]" id]
    unfolding j .
qed

end
