(* ===== verification/Provenance.thy ===== *)
theory Provenance
  imports GatewayLifecycle
begin

text \<open>
  Where the state of the running gateway comes from: every session and every token goes back to a
  request of the run that passed the default policy, and every change of a session's state to a
  request that asked for it. The statement is an invariant relative to a set of events, which the
  run's own events instantiate.
\<close>

section \<open>What a request must have been\<close>

text \<open>The scope of a session creation: as requested, or viewing and controlling.\<close>

definition asked_scope :: "createSessionRequest \<Rightarrow> string list" where
  "asked_scope body =
     (case cr_requested_scope body of None \<Rightarrow> [''teleop:view'', ''teleop:control''] | Some sc \<Rightarrow> sc)"

definition operator_credential :: "(string \<Rightarrow> jsval option) \<Rightarrow> string \<Rightarrow> bool" where
  "operator_credential decodeJwt token \<longleftrightarrow>
     (case extractCredentialForPolicy decodeJwt token of
        Inl e \<Rightarrow> False
      | Inr credential \<Rightarrow> member_or_undef credential ''role'' \<in> {JStr ''operator'', JStr ''admin''})"

text \<open>A request for the session, with an operator's credential and a teleoperation action in its scope.\<close>

definition admitted :: "'key gwEvent set \<Rightarrow> string \<Rightarrow> string \<Rightarrow> string \<Rightarrow> string list \<Rightarrow> bool" where
  "admitted H sid robot did scope \<longleftrightarrow>
     (\<exists>body host ev. PostSession body host ev \<in> H \<and> ev_sessionId ev = sid \<and> cr_robot_id body = robot \<and>
        cr_operator_did body = did \<and> asked_scope body = scope \<and>
        operator_credential (ev_decodeJwt ev) (cr_vc_or_vp body)) \<and>
     set scope \<inter> {''teleop:view'', ''teleop:control'', ''teleop:estop''} \<noteq> {}"

text \<open>A revocation by the administrator that names the session or its operator.\<close>

definition withdrawn :: "config \<Rightarrow> 'key gwEvent set \<Rightarrow> string \<Rightarrow> string \<Rightarrow> bool" where
  "withdrawn config H sid did \<longleftrightarrow>
     (\<exists>headers body rid now. PostRevocation headers body rid now \<in> H \<and>
        requireAdminAuth headers config = None \<and>
        (given (rq_session_id body) = Some sid \<or> given (rq_operator_did body) = Some did))"

definition explained :: "config \<Rightarrow> 'key gwEvent set \<Rightarrow> string \<Rightarrow> sessionState \<Rightarrow> bool" where
  "explained config H sid s \<longleftrightarrow>
     admitted H sid (ss_robot_id s) (ss_operator_did s) (ss_effective_scope s) \<and>
     (case ss_state s of
        Pending \<Rightarrow> True
      | Active \<Rightarrow> False
      | Terminated \<Rightarrow> \<exists>now. DeleteSession sid now \<in> H
      | Revoked \<Rightarrow> withdrawn config H sid (ss_operator_did s))"

section \<open>The invariant\<close>

definition default_engine :: "(string \<Rightarrow> string) \<Rightarrow> ms \<Rightarrow> 'key sessionsModule \<Rightarrow> bool" where
  "default_engine sha256 t0 m \<longleftrightarrow>
     sx_evaluatorSet m \<and> sx_policyStore m = Some (defaultPolicyStore sha256 t0)"

definition recorded ::
    "(string \<Rightarrow> string) \<Rightarrow> ms \<Rightarrow> config \<Rightarrow> 'key gwEvent set \<Rightarrow> 'key gateway \<Rightarrow> bool" where
  "recorded sha256 t0 config H g \<longleftrightarrow>
     gw_ok g \<and> gw_config g = config \<and> default_engine sha256 t0 (gw_sessions g) \<and>
     (\<forall>p \<in> set (gw_creates g).
        admitted H (pc_sessionId p) (pc_robotId p) (pc_operatorDid p) (pc_effectiveScope p)) \<and>
     (\<forall>sid s. getSession (gw_sessions g) sid = Some s \<longrightarrow> explained config H sid s)"

lemma recordedD:
  assumes "recorded sha256 t0 config H g"
  shows "gw_ok g" "gw_config g = config" "default_engine sha256 t0 (gw_sessions g)"
    and "p \<in> set (gw_creates g) \<Longrightarrow>
      admitted H (pc_sessionId p) (pc_robotId p) (pc_operatorDid p) (pc_effectiveScope p)"
    and "getSession (gw_sessions g) sid = Some s \<Longrightarrow> explained config H sid s"
  using assms by (simp_all add: recorded_def)

lemma recorded_step:
  assumes "recorded sha256 t0 config H g" and "gw_step g e g'"
    and "gw_config g' = gw_config g"
    and "default_engine sha256 t0 (gw_sessions g) \<Longrightarrow> default_engine sha256 t0 (gw_sessions g')"
    and "\<And>p. p \<in> set (gw_creates g') \<Longrightarrow> p \<in> set (gw_creates g) \<or>
      admitted H (pc_sessionId p) (pc_robotId p) (pc_operatorDid p) (pc_effectiveScope p)"
    and "\<And>sid s. getSession (gw_sessions g') sid = Some s \<Longrightarrow>
      getSession (gw_sessions g) sid = Some s \<or> explained config H sid s"
  shows "recorded sha256 t0 config H g'"
  using gw_step_ok [OF assms(2) recordedD(1) [OF assms(1)]] assms(3-6) recordedD [OF assms(1)]
  unfolding recorded_def by blast

lemma recorded_same:
  assumes "recorded sha256 t0 config H g" and "gw_step g e g'" and "gw_config g' = gw_config g"
    and "gw_sessions g' = gw_sessions g" and "gw_creates g' = gw_creates g"
  shows "recorded sha256 t0 config H g'"
  by (rule recorded_step [OF assms(1-3)]) (simp_all add: assms(4,5))

lemma explained_expiry [simp]:
  "explained config H sid (s\<lparr>ss_expires_at := x\<rparr>) = explained config H sid s"
  by (simp add: explained_def cong: sessionStatus.case_cong)

subsection \<open>Admission\<close>

lemma begin_admits:
  assumes "post_session_begin config m body host ev = Inr p" and "default_engine sha256 t0 m"
    and "PostSession body host ev \<in> H"
  shows "admitted H (pc_sessionId p) (pc_robotId p) (pc_operatorDid p) (pc_effectiveScope p)"
proof -
  let ?input = "\<lparr>pi_vcOrVp = cr_vc_or_vp body, pi_robotId = cr_robot_id body,
    pi_requestedScope = asked_scope body\<rparr>"
  have p: "pc_sessionId p = ev_sessionId ev" "pc_robotId p = cr_robot_id body"
    "pc_operatorDid p = cr_operator_did body" "pc_effectiveScope p = asked_scope body"
    and pass: "\<exists>info. evaluateSessionPolicy (ev_decodeJwt ev) ?input True
      (Some (defaultPolicyStore sha256 t0)) (ev_now ev) (ev_duration ev) = Inr info"
    using assms(1,2)
    by (auto simp: post_session_begin_def default_engine_def asked_scope_def Let_def
        split: option.splits sum.splits)
  show ?thesis
    using pass assms(3) unfolding default_policy_passes admitted_def p
    by (fastforce simp: operator_credential_def)
qed

lemma finish_keeps_engine:
  assumes "post_session_finish config m registry p now = (reply, m', registry')"
  shows "default_engine sha256 t0 m' = default_engine sha256 t0 m"
  using assms by (auto simp: post_session_finish_def Let_def createSession_def default_engine_def)

subsection \<open>The other steps\<close>

lemma delete_keeps_engine:
  assumes "delete_session_handler m registry sid now = (reply, m', registry')"
  shows "default_engine sha256 t0 m' = default_engine sha256 t0 m"
  using assms
  by (auto simp: delete_session_handler_def Let_def case_prod_unfold default_engine_def split: option.splits)

lemma refresh_keeps_engine:
  assumes "refresh_finish m registry p = (reply, m', registry')"
  shows "default_engine sha256 t0 m' = default_engine sha256 t0 m"
  using assms by (auto simp: refresh_finish_def Let_def default_engine_def split: option.splits)

lemma target_named:
  assumes "sid \<in> revocation_targets (gw_ctx g) body" and "gw_ok g"
    and "getSession (gw_sessions g) sid = Some s"
  shows "given (rq_session_id body) = Some sid \<or> given (rq_operator_did body) = Some (ss_operator_did s)"
  using assms(1,3) gw_okD(3) [OF assms(2)]
  by (fastforce simp: revocation_targets_def has_token_def gw_ctx_def owned_def)

lemma revocation_outcome:
  assumes "post_revocation (gw_config g) rs (gw_ctx g) headers body rid now = (reply, rs', c')"
    and "gw_ok g"
  shows "c' = gw_ctx g \<or> requireAdminAuth headers (gw_config g) = None \<and>
    sessions_revoked (revocation_targets (gw_ctx g) body) (gw_ctx g) c'"
proof (cases "requireAdminAuth headers (gw_config g) = None \<and>
    (given (rq_session_id body) \<noteq> None \<or> given (rq_operator_did body) \<noteq> None)")
  case True
  have "registered_ok (rc_registry (gw_ctx g))"
    using gw_okD(1) [OF assms(2)] by (simp add: registered_ok_def gw_ctx_def)
  with True assms(1) show ?thesis by (metis revocation_effect)
next
  case False
  then show ?thesis using untargeted_unchanged [OF False] assms(1) by (metis snd_conv)
qed

lemma revocation_keeps_engine:
  assumes "post_revocation (gw_config g) rs (gw_ctx g) headers body rid now = (reply, rs', c')"
    and "gw_ok g"
  shows "default_engine sha256 t0 (rc_sessions c') = default_engine sha256 t0 (gw_sessions g)"
  using revocation_outcome [OF assms] by (auto simp: sessions_revoked_def default_engine_def gw_ctx_def)

lemma revocation_explained:
  assumes "recorded sha256 t0 config H g" and "PostRevocation headers body rid now \<in> H"
    and "post_revocation (gw_config g) rs (gw_ctx g) headers body rid now = (reply, rs', c')"
    and "getSession (rc_sessions c') sid = Some s'"
  shows "getSession (gw_sessions g) sid = Some s' \<or> explained config H sid s'"
proof -
  note rec = recordedD [OF assms(1)]
  from revocation_outcome [OF assms(3) rec(1)] show ?thesis
  proof
    assume "c' = gw_ctx g"
    with assms(4) show ?thesis by (simp add: gw_ctx_def)
  next
    assume *: "requireAdminAuth headers (gw_config g) = None \<and>
      sessions_revoked (revocation_targets (gw_ctx g) body) (gw_ctx g) c'"
    show ?thesis
    proof (cases "sid \<in> revocation_targets (gw_ctx g) body")
      case True
      then obtain s where s: "getSession (gw_sessions g) sid = Some s" "s' = s\<lparr>ss_state := Revoked\<rparr>"
        using * assms(4) by (auto simp: sessions_revoked_def gw_ctx_def)
      have "withdrawn config H sid (ss_operator_did s)"
        unfolding withdrawn_def using * assms(2) rec(2) target_named [OF True rec(1) s(1)] by blast
      then show ?thesis using rec(5) [OF s(1)] by (simp add: explained_def s(2))
    next
      case False
      then show ?thesis using * assms(4) by (simp add: sessions_revoked_def gw_ctx_def)
    qed
  qed
qed

lemma recorded_kept:
  assumes "recorded sha256 t0 config H g" and "e \<in> H" and "gw_step g e g'"
  shows "recorded sha256 t0 config H g'"
  using assms(3)
proof cases
  case (create_begins body host ev p)
  then show ?thesis
    using begin_admits [OF create_begins(3) recordedD(3) [OF assms(1)]] assms(2)
    by (intro recorded_step [OF assms(1,3)]) auto
next
  case (create_finishes p reply now m' r')
  note new = recordedD(4) [OF assms(1) create_finishes(3)]
  have "explained config H sid s \<or> getSession (gw_sessions g) sid = Some s"
    if "getSession m' sid = Some s" for sid s
    using that new by (auto simp: finish_create_effect(2) [OF create_finishes(4)] explained_def
        split: if_splits)
  then show ?thesis
    using create_finishes finish_keeps_engine [OF create_finishes(4)] set_remove1_subset [of p "gw_creates g"]
    by (intro recorded_step [OF assms(1,3)]) auto
next
  case (deletes sid now reply m' r')
  have "explained config H i s \<or> getSession (gw_sessions g) i = Some s"
    if "getSession m' i = Some s" for i s
    using that assms(2) deletes(1) recordedD(5) [OF assms(1)]
    by (auto simp: delete_effect(1) [OF deletes(3) gw_okD(1) [OF recordedD(1) [OF assms(1)]]]
        explained_def split: if_splits)
  then show ?thesis
    using deletes delete_keeps_engine [OF deletes(3)] by (intro recorded_step [OF assms(1,3)]) auto
next
  case (refresh_finishes p reply m' r')
  have "explained config H i s \<or> getSession (gw_sessions g) i = Some s"
    if "getSession m' i = Some s" for i s
    using that recordedD(5) [OF assms(1)]
    by (auto simp: finish_refresh_effect(2) [OF refresh_finishes(4)] split: if_splits)
  then show ?thesis
    using refresh_finishes refresh_keeps_engine [OF refresh_finishes(4)]
    by (intro recorded_step [OF assms(1,3)]) auto
next
  case (revokes headers body rid now reply rs' c' r')
  then show ?thesis
    using revocation_explained [OF assms(1) _ revokes(3)] assms(2)
      revocation_keeps_engine [OF revokes(3) recordedD(1) [OF assms(1)]]
    by (intro recorded_step [OF assms(1,3)]) auto
qed (rule recorded_same [OF assms(1,3)]; simp)+

interpretation history: step_invariant gw_step "recorded sha256 t0 config H" "\<lambda>e. e \<in> H"
  for sha256 t0 config H
  by unfold_locales (rule recorded_kept)

lemma boot_recorded:
  assumes "boot env key jwk revocationFile sha256 t0 = Inr g"
  shows "recorded sha256 t0 (loadConfig env) H g"
proof -
  have "gw_config g = loadConfig env" "default_engine sha256 t0 (gw_sessions g)"
    using assms
    by (auto simp: boot_def Let_def default_engine_def setPolicyStore_def setPolicyEvaluator_def
        split: sum.splits)
  moreover obtain "gw_creates g = []" "sx_sessions (gw_sessions g) = []"
    using boot_registry [OF assms] .
  ultimately show ?thesis using boot_ok [OF assms] by (simp add: recorded_def getSession_def)
qed

lemma reachable_recorded:
  assumes "boot env key jwk revocationFile sha256 t0 = Inr g0" and "runs gw_step g0 es g"
  shows "recorded sha256 t0 (loadConfig env) (set es) g"
  by (rule history.run_good [OF assms(2) boot_recorded [OF assms(1)]]) (simp add: list_all_iff)

lemma sample_creation:
  obtains p and g :: "unit gateway" and s where "runs gw_step sample_gateway
      [PostSession sample_body ''host'' (sample_ev 5000 ''s1'' ''u''), FinishCreate p 5001] g"
    and "gw_config g = sample_config" and "getSession (gw_sessions g) ''s1'' = Some s"
    and "reg_get (gw_registry g) [] = None" and "\<forall>j. cache_free j (gw_registry g)"
  using sample_session_run by (metis list.distinct(1))

section \<open>Properties\<close>

text \<open>
  (C4) Whatever happens after the start, every session and every registered token goes back to a
  session creation of the run, for the same operator and robot, whose credential had the role
  \<open>operator\<close> or \<open>admin\<close> and whose scope contained a teleoperation action; a session has the scope that
  was asked for.
\<close>

theorem sessions_and_tokens_admitted:
  assumes "boot env key jwk revocationFile sha256 t0 = Inr g0" and "runs gw_step g0 es g"
  shows "(\<forall>sid s. getSession (gw_sessions g) sid = Some s \<longrightarrow>
      admitted (set es) sid (ss_robot_id s) (ss_operator_did s) (ss_effective_scope s)) \<and>
    (\<forall>jti e. reg_get (gw_registry g) jti = Some e \<longrightarrow>
      (\<exists>scope. admitted (set es) (te_sessionId e) (te_robotId e) (te_operatorDid e) scope))"
proof -
  note rec = reachable_recorded [OF assms]
  have "admitted (set es) sid (ss_robot_id s) (ss_operator_did s) (ss_effective_scope s)"
    if "getSession (gw_sessions g) sid = Some s" for sid s
    using recordedD(5) [OF rec that] by (simp add: explained_def)
  with gw_okD(3) [OF recordedD(1) [OF rec]] show ?thesis unfolding owned_def by metis
qed

theorem sessions_and_tokens_admitted_witness:
  "\<exists>p (g :: unit gateway) s. runs gw_step sample_gateway
      [PostSession sample_body ''host'' (sample_ev 5000 ''s1'' ''u''), FinishCreate p 5001] g \<and>
    getSession (gw_sessions g) ''s1'' = Some s \<and>
    operator_credential (ev_decodeJwt (sample_ev 5000 ''s1'' ''u'')) (cr_vc_or_vp sample_body) \<and>
    ss_effective_scope s = asked_scope sample_body"
proof -
  obtain p and g :: "unit gateway" and s where run: "runs gw_step sample_gateway
      [PostSession sample_body ''host'' (sample_ev 5000 ''s1'' ''u''), FinishCreate p 5001] g"
    and s: "getSession (gw_sessions g) ''s1'' = Some s"
    using sample_creation .
  from sessions_and_tokens_admitted [OF sample_gateway_boot run] s
  have "admitted (set [PostSession sample_body ''host'' (sample_ev 5000 ''s1'' ''u''), FinishCreate p 5001 ::
      unit gwEvent]) ''s1'' (ss_robot_id s) (ss_operator_did s) (ss_effective_scope s)"
    by blast
  with run s show ?thesis by (auto simp: admitted_def)
qed

text \<open>
  (C6) A session changes state only on request: in every state the gateway can reach, a terminated
  session was deleted by its id, and a revoked one was named, itself or its operator, in a revocation
  with the administrator's key. None is ever active.
\<close>

theorem session_states_explained:
  assumes "boot env key jwk revocationFile sha256 t0 = Inr g0" and "runs gw_step g0 es g"
    and "getSession (gw_sessions g) sid = Some s"
  shows "ss_state s \<noteq> Active
    \<and> (ss_state s = Terminated \<longrightarrow> (\<exists>now. DeleteSession sid now \<in> set es))
    \<and> (ss_state s = Revoked \<longrightarrow> withdrawn (loadConfig env) (set es) sid (ss_operator_did s))"
  using recordedD(5) [OF reachable_recorded [OF assms(1,2)] assms(3)]
  by (auto simp: explained_def)

theorem session_states_explained_witness:
  "\<exists>(g :: unit gateway) es s. runs gw_step sample_gateway es g \<and>
    getSession (gw_sessions g) ''s1'' = Some s \<and> ss_state s = Revoked \<and>
    withdrawn (loadConfig (\<lambda>v. None)) (set es) ''s1'' (ss_operator_did s)"
proof -
  obtain p and g :: "unit gateway" and s where run: "runs gw_step sample_gateway
      [PostSession sample_body ''host'' (sample_ev 5000 ''s1'' ''u''), FinishCreate p 5001] g"
    and g: "gw_config g = sample_config" "getSession (gw_sessions g) ''s1'' = Some s"
      "reg_get (gw_registry g) [] = None" "\<forall>j. cache_free j (gw_registry g)"
    using sample_creation .
  have ok: "gw_ok g" using gateway_inv.run_good [OF run sample_gateway_ok] by (simp add: list_all_iff)
  then obtain g1 where one: "gw_step g (PostRevocation admin_headers revoke_s1 ''rev'' 6001) g1"
    using revocation_enabled g(1) by blast
  have auth: "requireAdminAuth admin_headers (gw_config g) = None" by (simp add: g(1) admin_headers_ok)
  have named: "given (rq_session_id revoke_s1) = Some ''s1''" by simp
  obtain s' where s': "getSession (gw_sessions g1) ''s1'' = Some s'" "ss_state s' = Revoked"
    using revocation_passes_unregistered(1) [OF ok one auth named _ g(3) spec [OF g(4)]] g(2) by auto
  have "\<exists>es. runs gw_step sample_gateway es g1"
    using run one by (metis runs_append runs_Nil runs_Cons)
  then obtain es where es: "runs gw_step sample_gateway es g1" by blast
  from session_states_explained [OF sample_gateway_boot es s'(1)] s'(2)
  have "withdrawn (loadConfig (\<lambda>v. None)) (set es) ''s1'' (ss_operator_did s')" by blast
  with es s' show ?thesis by blast
qed

end
