(* ===== verification/PolicyValidator.thy ===== *)
theory PolicyValidator
  imports PolicyStore
begin

text \<open>
  \<open>policy/policy-validator.ts\<close>: validation of an untyped value as a policy rule or a policy input,
  with the exact list of error messages. \<open>rule_of_json\<close> reads a value as a rule; the lemmas relate
  what the validator accepts to the values that can be read.
\<close>

section \<open>Operations\<close>

record validationResult =
  vr_valid :: bool
  vr_errors :: "string list"

definition VALID_OPERATORS :: "string list" where
  "VALID_OPERATORS = [''eq'', ''neq'', ''in'', ''gt'', ''lt'', ''gte'', ''lte'', ''contains'']"

definition is_lower :: "char \<Rightarrow> bool" where
  "is_lower c = (let n = of_char c :: nat in 97 \<le> n \<and> n \<le> 122)"

definition action_segment :: "string \<Rightarrow> bool" where
  "action_segment s =
     (case s of [] \<Rightarrow> False
      | c # cs \<Rightarrow> is_lower c \<and>
          list_all (\<lambda>d. is_lower d \<or> is_digit d \<or> d = CHR ''_'' \<or> d = CHR ''-'') cs)"

text \<open>\<open>/^[a-z][a-z0-9_-]*:[a-z][a-z0-9_-]*$/\<close>\<close>

definition ACTION_PATTERN :: "string \<Rightarrow> bool" where
  "ACTION_PATTERN s =
     (case str_split CHR '':'' s of [a, b] \<Rightarrow> action_segment a \<and> action_segment b | _ \<Rightarrow> False)"

definition nonempty_string :: "jsval \<Rightarrow> bool" where
  "nonempty_string v = (case v of JStr s \<Rightarrow> s \<noteq> [] | _ \<Rightarrow> False)"

definition unless :: "bool \<Rightarrow> string \<Rightarrow> string list" where
  "unless b e = (if b then [] else [e])"

lemma unless_simps [simp]: "unless True e = []" "unless False e = [e]" "unless b e = [] \<longleftrightarrow> b"
  by (simp_all add: unless_def)

definition validateCondition :: "jsval \<Rightarrow> nat \<Rightarrow> string list" where
  "validateCondition c index =
     (let prefix = ''condition['' @ nat_to_dec index @ '']'' in
      if \<not> truthy c \<or> \<not> is_object_type c then [prefix @ '': must be an object'']
      else
        unless (nonempty_string (get_prop c ''field''))
          (prefix @ ''.field: must be a non-empty string'') @
        unless (arr_includes (map JStr VALID_OPERATORS) (get_prop c ''operator''))
          (prefix @ ''.operator: must be one of '' @ str_join '', '' VALID_OPERATORS) @
        unless (get_prop c ''value'' \<noteq> JUndef \<and> get_prop c ''value'' \<noteq> JNull)
          (prefix @ ''.value: is required''))"

definition validateRule :: "jsval \<Rightarrow> nat \<Rightarrow> string list" where
  "validateRule r index =
     (let prefix = ''rule['' @ nat_to_dec index @ '']'' in
      if \<not> truthy r \<or> \<not> is_object_type r then [prefix @ '': must be an object'']
      else
        unless (nonempty_string (get_prop r ''id''))
          (prefix @ ''.id: must be a non-empty string'') @
        unless (get_prop r ''effect'' = JStr ''allow'' \<or> get_prop r ''effect'' = JStr ''deny'')
          (prefix @ ''.effect: must be '' @ [CHR 0x27] @ ''allow'' @ [CHR 0x27] @ '' or '' @
             [CHR 0x27] @ ''deny'' @ [CHR 0x27]) @
        (case get_prop r ''conditions'' of
           JArr cs \<Rightarrow> concat (map (\<lambda>(i, c). map (\<lambda>e. prefix @ ''.'' @ e) (validateCondition c i))
                       (enumerate 0 cs))
         | _ \<Rightarrow> [prefix @ ''.conditions: must be an array'']) @
        (case get_prop r ''actions'' of
           JArr as \<Rightarrow>
             (if as = [] then [prefix @ ''.actions: must be a non-empty array'']
              else concat (map (\<lambda>(i, a).
                unless (case a of JStr s \<Rightarrow> ACTION_PATTERN s | _ \<Rightarrow> False)
                  (prefix @ ''.actions['' @ nat_to_dec i @ '']: must match pattern '' @
                     [CHR 0x27] @ ''namespace:action'' @ [CHR 0x27])) (enumerate 0 as)))
         | _ \<Rightarrow> [prefix @ ''.actions: must be a non-empty array'']) @
        unless (case get_prop r ''priority'' of JNum n \<Rightarrow> rat_is_int n | _ \<Rightarrow> False)
          (prefix @ ''.priority: must be an integer''))"

definition validatePolicyInput :: "jsval \<Rightarrow> validationResult" where
  "validatePolicyInput p =
     (if \<not> truthy p \<or> \<not> is_object_type p
      then \<lparr>vr_valid = False, vr_errors = [''policy must be an object'']\<rparr>
      else
        (let errors =
           unless (nonempty_string (get_prop p ''id'')) ''id: must be a non-empty string'' @
           unless (nonempty_string (get_prop p ''name'')) ''name: must be a non-empty string'' @
           (case get_prop p ''rules'' of
              JArr rs \<Rightarrow>
                (if rs = [] then [''rules: must have at least one rule'']
                 else concat (map (\<lambda>(i, r). validateRule r i) (enumerate 0 rs)))
            | _ \<Rightarrow> [''rules: must be an array''])
         in \<lparr>vr_valid = (errors = []), vr_errors = errors\<rparr>))"

definition validateRules :: "jsval \<Rightarrow> validationResult" where
  "validateRules rules =
     (case rules of
        JArr rs \<Rightarrow>
          (let errors = concat (map (\<lambda>(i, r). validateRule r i) (enumerate 0 rs))
           in \<lparr>vr_valid = (errors = []), vr_errors = errors\<rparr>)
      | _ \<Rightarrow> \<lparr>vr_valid = False, vr_errors = [''rules must be an array'']\<rparr>)"

section \<open>Reading a value as a rule\<close>

definition operator_of_text :: "string \<Rightarrow> conditionOperator option" where
  "operator_of_text s = map_of (map (\<lambda>c. (operator_text c, c))
     [OpEq, OpNeq, OpIn, OpGt, OpLt, OpGte, OpLte, OpContains]) s"

definition condition_of_json :: "jsval \<Rightarrow> policyCondition option" where
  "condition_of_json c =
     (case (get_prop c ''field'', get_prop c ''operator'') of
        (JStr f, JStr t) \<Rightarrow> map_option
          (\<lambda>x. \<lparr>pc_field = f, pc_operator = x, pc_value = get_prop c ''value''\<rparr>) (operator_of_text t)
      | _ \<Rightarrow> None)"

definition effect_of_json :: "jsval \<Rightarrow> policyEffect option" where
  "effect_of_json v =
     (if v = JStr ''allow'' then Some Allow else if v = JStr ''deny'' then Some Deny else None)"

definition string_of_json :: "jsval \<Rightarrow> string option" where
  "string_of_json v = (case v of JStr s \<Rightarrow> Some s | _ \<Rightarrow> None)"

definition list_of_json :: "(jsval \<Rightarrow> 'a option) \<Rightarrow> jsval \<Rightarrow> 'a list option" where
  "list_of_json f v = (case v of JArr vs \<Rightarrow> those (map f vs) | _ \<Rightarrow> None)"

definition rule_of_json :: "jsval \<Rightarrow> policyRule option" where
  "rule_of_json r =
     (case (string_of_json (get_prop r ''id''), effect_of_json (get_prop r ''effect''),
            list_of_json condition_of_json (get_prop r ''conditions''),
            list_of_json string_of_json (get_prop r ''actions''), get_prop r ''priority'') of
        (Some i, Some e, Some cs, Some as, JNum n) \<Rightarrow>
          Some \<lparr>pr_id = i, pr_effect = e, pr_conditions = cs, pr_actions = as, pr_priority = n,
                pr_description = string_of_json (get_prop r ''description'')\<rparr>
      | _ \<Rightarrow> None)"

text \<open>What the validator demands of a rule, stated on the rule itself.\<close>

definition condition_valid :: "policyCondition \<Rightarrow> bool" where
  "condition_valid c \<longleftrightarrow> pc_field c \<noteq> [] \<and> pc_value c \<noteq> JUndef \<and> pc_value c \<noteq> JNull"

definition rule_valid :: "policyRule \<Rightarrow> bool" where
  "rule_valid r \<longleftrightarrow> pr_id r \<noteq> [] \<and> list_all condition_valid (pr_conditions r) \<and>
     pr_actions r \<noteq> [] \<and> list_all ACTION_PATTERN (pr_actions r) \<and> rat_is_int (pr_priority r)"

lemma enumerate_all_iff:
  "concat (map (\<lambda>(i, x). f i x) (enumerate n xs)) = [] \<longleftrightarrow>
     (\<forall>i < length xs. f (n + i) (xs ! i) = [])"
proof (induction xs arbitrary: n)
  case Nil
  then show ?case by simp
next
  case (Cons x xs)
  then show ?case by (auto simp: less_Suc_eq_0_disj)
qed

lemma those_Some_iff: "those xs = Some ys \<longleftrightarrow> map Some ys = xs"
  by (induction xs arbitrary: ys) (auto split: option.splits)

lemma operator_of_operator_text [simp]: "operator_of_text (operator_text c) = Some c"
  by (cases c) (simp_all add: operator_of_text_def operator_text_def)

lemma operator_text_iff:
  "arr_includes (map JStr VALID_OPERATORS) v \<longleftrightarrow> (\<exists>c. v = JStr (operator_text c))"
proof
  assume "arr_includes (map JStr VALID_OPERATORS) v"
  then have "\<exists>s \<in> set VALID_OPERATORS. v = JStr s"
    by (auto simp: arr_includes_def list_ex_iff dest: strict_eq_imp_eq)
  moreover have "\<exists>c. s = operator_text c" if "s \<in> set VALID_OPERATORS" for s
    using that unfolding VALID_OPERATORS_def
    by (auto intro: exI [of _ OpEq] exI [of _ OpNeq] exI [of _ OpIn] exI [of _ OpGt]
        exI [of _ OpLt] exI [of _ OpGte] exI [of _ OpLte] exI [of _ OpContains]
        simp: operator_text_def)
  ultimately show "\<exists>c. v = JStr (operator_text c)" by blast
next
  assume "\<exists>c. v = JStr (operator_text c)"
  then obtain c where "v = JStr (operator_text c)" ..
  then show "arr_includes (map JStr VALID_OPERATORS) v"
    by (cases c) (simp_all add: arr_includes_def VALID_OPERATORS_def operator_text_def)
qed

lemma validateCondition_iff:
  "validateCondition v i = [] \<longleftrightarrow> (\<exists>c. condition_of_json v = Some c \<and> condition_valid c)"
proof
  assume ok: "validateCondition v i = []"
  then obtain f c where "get_prop v ''field'' = JStr f" "f \<noteq> []"
    "get_prop v ''operator'' = JStr (operator_text c)" "get_prop v ''value'' \<noteq> JUndef"
    "get_prop v ''value'' \<noteq> JNull"
    by (auto simp: validateCondition_def Let_def operator_text_iff nonempty_string_def
        split: if_splits jsval.splits)
  then show "\<exists>c. condition_of_json v = Some c \<and> condition_valid c"
    by (auto simp: condition_of_json_def condition_valid_def)
next
  assume "\<exists>c. condition_of_json v = Some c \<and> condition_valid c"
  then obtain f t x where *: "get_prop v ''field'' = JStr f" "f \<noteq> []" "get_prop v ''operator'' = JStr t"
    "operator_of_text t = Some x" "get_prop v ''value'' \<noteq> JUndef" "get_prop v ''value'' \<noteq> JNull"
    by (auto simp: condition_of_json_def condition_valid_def split: jsval.splits)
  have "t = operator_text x" using *(4)
    by (auto simp: operator_of_text_def operator_text_def split: if_splits)
  moreover have "truthy v" "is_object_type v" using *(1) by (cases v; simp)+
  ultimately show "validateCondition v i = []"
    using * by (auto simp: validateCondition_def Let_def operator_text_iff nonempty_string_def)
qed

lemma those_all_iff:
  "(\<exists>ys. those (map f xs) = Some ys \<and> list_all P ys) \<longleftrightarrow> (\<forall>x \<in> set xs. \<exists>y. f x = Some y \<and> P y)"
proof (induction xs)
  case Nil
  then show ?case by simp
next
  case (Cons x xs)
  show ?case
  proof (cases "f x")
    case (Some y)
    have "(\<exists>ys. those (map f (x # xs)) = Some ys \<and> list_all P ys) \<longleftrightarrow>
        P y \<and> (\<exists>ys. those (map f xs) = Some ys \<and> list_all P ys)"
      using Some by (auto simp: map_option_case split: option.splits)
    with Cons Some show ?thesis by simp
  qed simp
qed

lemma conditions_iff:
  "concat (map (\<lambda>(i, c). map (\<lambda>e. p @ e) (validateCondition c i)) (enumerate 0 vs)) = [] \<longleftrightarrow>
     (\<exists>cs. those (map condition_of_json vs) = Some cs \<and> list_all condition_valid cs)"
  unfolding those_all_iff enumerate_all_iff
  by (simp add: validateCondition_iff all_set_conv_all_nth)

lemma actions_iff:
  "concat (map (\<lambda>(i, a). unless (case a of JStr s \<Rightarrow> ACTION_PATTERN s | _ \<Rightarrow> False) (e i))
       (enumerate 0 vs)) = [] \<longleftrightarrow>
     (\<exists>as. those (map string_of_json vs) = Some as \<and> list_all ACTION_PATTERN as)"
  unfolding those_all_iff enumerate_all_iff
  by (auto simp: all_set_conv_all_nth string_of_json_def split: jsval.splits)

lemma effect_iff:
  "v = JStr ''allow'' \<or> v = JStr ''deny'' \<longleftrightarrow> (\<exists>e. effect_of_json v = Some e)"
  by (simp add: effect_of_json_def)

lemma those_length: "those xs = Some ys \<Longrightarrow> length ys = length xs"
  by (auto simp: those_Some_iff)

lemma rule_of_json_Some:
  "rule_of_json v = Some r \<longleftrightarrow>
     get_prop v ''id'' = JStr (pr_id r) \<and>
     effect_of_json (get_prop v ''effect'') = Some (pr_effect r) \<and>
     list_of_json condition_of_json (get_prop v ''conditions'') = Some (pr_conditions r) \<and>
     list_of_json string_of_json (get_prop v ''actions'') = Some (pr_actions r) \<and>
     get_prop v ''priority'' = JNum (pr_priority r) \<and>
     pr_description r = string_of_json (get_prop v ''description'')"
  by (cases r) (auto simp: rule_of_json_def string_of_json_def split: option.splits jsval.splits)

lemma list_of_json_Some:
  "list_of_json f v = Some ys \<longleftrightarrow> (\<exists>vs. v = JArr vs \<and> those (map f vs) = Some ys)"
  by (auto simp: list_of_json_def split: jsval.splits)

lemma validated_rule_reads:
  assumes "validateRule v i = []"
  shows "\<exists>r. rule_of_json v = Some r \<and> rule_valid r"
proof -
  from assms obtain s e vs as n where
    "get_prop v ''id'' = JStr s" "s \<noteq> []" and e: "effect_of_json (get_prop v ''effect'') = Some e"
    and cs: "get_prop v ''conditions'' = JArr vs"
      "concat (map (\<lambda>(j, c). map (\<lambda>e. (''rule['' @ nat_to_dec i @ '']'') @ ''.'' @ e) (validateCondition c j))
        (enumerate 0 vs)) = []"
    and acts: "get_prop v ''actions'' = JArr as" "as \<noteq> []"
      "concat (map (\<lambda>(j, a). unless (case a of JStr s \<Rightarrow> ACTION_PATTERN s | _ \<Rightarrow> False)
        ((''rule['' @ nat_to_dec i @ '']'') @ ''.actions['' @ nat_to_dec j @ '']: must match pattern '' @
                     [CHR 0x27] @ ''namespace:action'' @ [CHR 0x27])) (enumerate 0 as)) = []"
    and "get_prop v ''priority'' = JNum n" "rat_is_int n"
    unfolding validateRule_def Let_def effect_iff
    by (simp add: nonempty_string_def split: if_splits jsval.splits) blast
  moreover obtain xs where "those (map condition_of_json vs) = Some xs" "list_all condition_valid xs"
    using cs(2) conditions_iff [of "(''rule['' @ nat_to_dec i @ '']'') @ ''.''" vs] by auto
  moreover obtain ys where "those (map string_of_json as) = Some ys" "list_all ACTION_PATTERN ys"
    using acts(3) unfolding actions_iff by blast
  moreover have "ys \<noteq> []" using calculation acts(2) those_length by fastforce
  ultimately show ?thesis
    by (intro exI [of _ "\<lparr>pr_id = s, pr_effect = e, pr_conditions = xs, pr_actions = ys,
        pr_priority = n, pr_description = string_of_json (get_prop v ''description'')\<rparr>"])
       (simp add: rule_of_json_Some list_of_json_Some rule_valid_def)
qed

lemma valid_rule_accepted:
  assumes "rule_of_json v = Some r" and "rule_valid r"
  shows "validateRule v i = []"
proof -
  note parts = assms(1) [unfolded rule_of_json_Some list_of_json_Some]
  obtain vs where vs: "get_prop v ''conditions'' = JArr vs"
    "those (map condition_of_json vs) = Some (pr_conditions r)" using parts by blast
  obtain as where as: "get_prop v ''actions'' = JArr as"
    "those (map string_of_json as) = Some (pr_actions r)" using parts by blast
  have r: "get_prop v ''id'' = JStr (pr_id r)" "pr_id r \<noteq> []"
    "effect_of_json (get_prop v ''effect'') = Some (pr_effect r)"
    "list_all condition_valid (pr_conditions r)"
    "pr_actions r \<noteq> []" "list_all ACTION_PATTERN (pr_actions r)"
    "get_prop v ''priority'' = JNum (pr_priority r)" "rat_is_int (pr_priority r)"
    using parts assms(2) by (auto simp: rule_valid_def)
  have "truthy v" "is_object_type v" using r(1) by (cases v; simp)+
  moreover have "as \<noteq> []" using as(2) r(5) by auto
  moreover have "get_prop v ''effect'' = JStr ''allow'' \<or> get_prop v ''effect'' = JStr ''deny''"
    using r(3) effect_iff by blast
  moreover have "concat (map (\<lambda>(j, c). map (\<lambda>e. (''rule['' @ nat_to_dec i @ '']'') @ ''.'' @ e)
      (validateCondition c j)) (enumerate 0 vs)) = []"
    using conditions_iff [of "(''rule['' @ nat_to_dec i @ '']'') @ ''.''" vs] vs(2) r(4) by auto
  moreover have "concat (map (\<lambda>(j, a). unless (case a of JStr s \<Rightarrow> ACTION_PATTERN s | _ \<Rightarrow> False)
      (g j)) (enumerate 0 as)) = []" for g
    unfolding actions_iff using as(2) r(6) by blast
  ultimately show ?thesis
    using r(1,2,7,8) vs(1) as(1) by (simp add: validateRule_def Let_def nonempty_string_def)
qed

lemma validateRule_iff:
  "validateRule v i = [] \<longleftrightarrow> (\<exists>r. rule_of_json v = Some r \<and> rule_valid r)"
  using validated_rule_reads valid_rule_accepted by blast

section \<open>Properties\<close>

lemma string_of_JStr [simp]: "those (map (\<lambda>x. string_of_json (JStr x)) xs) = Some xs"
  by (induction xs) (simp_all add: string_of_json_def)

lemma condition_of_json_json: "condition_of_json (condition_json c) = Some c"
  by (simp add: condition_of_json_def condition_json_def)

lemma rule_of_json_json: "rule_of_json (rule_json r) = Some r"
proof -
  have "those (map (condition_of_json \<circ> condition_json) cs) = Some cs" for cs
    by (induction cs) (simp_all add: condition_of_json_json)
  moreover have "effect_of_json (JStr (effect_text e)) = Some e" for e
    by (cases e) (simp_all add: effect_of_json_def effect_text_def)
  ultimately show ?thesis
    by (simp add: rule_of_json_Some list_of_json_Some rule_json_def comp_def)
       (simp add: string_of_json_def split: option.splits)
qed

text \<open>
  The validator accepts a list of rules exactly when every element can be read as a rule that
  has an id, at least one action, only actions of the form \<open>namespace:action\<close>, an integer priority,
  and conditions with a field, a known operator and a value.
\<close>

theorem validateRules_exact:
  "vr_valid (validateRules (JArr vs)) \<longleftrightarrow>
     (\<exists>rs. those (map rule_of_json vs) = Some rs \<and> list_all rule_valid rs)"
  unfolding those_all_iff
  by (simp add: validateRules_def Let_def enumerate_all_iff validateRule_iff all_set_conv_all_nth
      del: concat_eq_Nil_conv)

text \<open>
  Printing a rule as JSON and validating it asks exactly for a well-formed rule, and reading it
  back gives the rule itself, so the hash of a stored policy depends on nothing but its rules: rules
  with the same JSON value are the same rules.
\<close>

theorem rule_json_validates:
  "(validateRule (rule_json r) i = [] \<longleftrightarrow> rule_valid r) \<and> rule_of_json (rule_json r) = Some r
    \<and> (rule_json r = rule_json r' \<longleftrightarrow> r = r')"
proof (intro conjI)
  show "validateRule (rule_json r) i = [] \<longleftrightarrow> rule_valid r"
    unfolding validateRule_iff rule_of_json_json by simp
  have "inj rule_json"
    by (rule inj_on_inverseI [where g = "the \<circ> rule_of_json"]) (simp add: rule_of_json_json)
  then show "rule_json r = rule_json r' \<longleftrightarrow> r = r'" by (rule inj_eq)
qed (rule rule_of_json_json)

text \<open>
  The validator does not relate the operator to the type of the value: it accepts an \<open>in\<close>
  condition whose value is not a list, which then holds in no context.
\<close>

theorem validator_accepts_dead_condition:
  "validateCondition (condition_json \<lparr>pc_field = ''credential.role'', pc_operator = OpIn,
      pc_value = JStr ''operator''\<rparr>) 0 = []
    \<and> (\<forall>ctx. \<not> evaluateCondition \<lparr>pc_field = ''credential.role'', pc_operator = OpIn,
      pc_value = JStr ''operator''\<rparr> ctx)"
  by (auto simp: validateCondition_iff condition_of_json_json condition_valid_def
      evaluateCondition_def Let_def)

end
