(* ===== verification/PolicyLog.thy ===== *)
theory PolicyLog
  imports PolicyStore Refinement
begin

text \<open>
  What the policy store promises (\<open>policy/policy-store.ts\<close>), without its two maps: a log of drafts for
  each policy id, which creation begins, an update extends and a deletion empties. Version numbers,
  creation dates and hashes are not part of it; they are computed from the log when a policy is
  published. The store implements it under the view that forgets them.
\<close>

section \<open>The log\<close>

record draft =
  dr_name :: string
  dr_description :: "string option"
  dr_rules :: "policyRule list"
  dr_time :: ms

record policyLog =
  lg_max :: int
  lg_drafts :: "string \<Rightarrow> draft list"

definition log_ids :: "policyLog \<Rightarrow> string set" where
  "log_ids l = {i. lg_drafts l i \<noteq> []}"

definition revise :: "updatePolicyInput \<Rightarrow> ms \<Rightarrow> draft \<Rightarrow> draft" where
  "revise u now d =
     \<lparr>dr_name = (case ui_name u of None \<Rightarrow> dr_name d | Some n \<Rightarrow> n),
      dr_description = (case ui_description u of None \<Rightarrow> dr_description d | Some t \<Rightarrow> Some t),
      dr_rules = (case ui_rules u of None \<Rightarrow> dr_rules d | Some rs \<Rightarrow> rs), dr_time = now\<rparr>"

fun log_error :: "policyLog \<Rightarrow> store_op \<Rightarrow> policyError option" where
  "log_error l (PolCreate input now) =
     (if ci_id input \<in> log_ids l then Some (PolicyAlreadyExists (ci_id input))
      else if lg_max l \<le> int (card (log_ids l)) then Some (MaxPoliciesExceeded (lg_max l)) else None)"
| "log_error l (PolUpdate i u now) = (if i \<in> log_ids l then None else Some (PolicyNotFound i))"
| "log_error l x = None"

definition put_drafts :: "string \<Rightarrow> draft list \<Rightarrow> policyLog \<Rightarrow> policyLog" where
  "put_drafts i ds l = l\<lparr>lg_drafts := (lg_drafts l)(i := ds)\<rparr>"

fun log_effect :: "store_op \<Rightarrow> policyLog \<Rightarrow> policyLog" where
  "log_effect (PolCreate input now) l =
     put_drafts (ci_id input) [\<lparr>dr_name = ci_name input, dr_description = ci_description input,
       dr_rules = ci_rules input, dr_time = now\<rparr>] l"
| "log_effect (PolUpdate i u now) l =
     put_drafts i (lg_drafts l i @ [revise u now (last (lg_drafts l i))]) l"
| "log_effect (PolDelete i) l = put_drafts i [] l"
| "log_effect PolClear l = l\<lparr>lg_drafts := \<lambda>i. []\<rparr>"

definition log_step :: "policyLog \<Rightarrow> store_op \<Rightarrow> policyLog" where
  "log_step l x = (if log_error l x = None then log_effect x l else l)"

definition empty_log :: "int option \<Rightarrow> policyLog" where
  "empty_log config = \<lparr>lg_max = (case config of None \<Rightarrow> 10000 | Some n \<Rightarrow> n), lg_drafts = \<lambda>i. []\<rparr>"

text \<open>The policies that a log stands for.\<close>

definition publish1 :: "(string \<Rightarrow> string) \<Rightarrow> string \<Rightarrow> ms \<Rightarrow> nat \<Rightarrow> draft \<Rightarrow> policy" where
  "publish1 h i created k d =
     \<lparr>po_id = i, po_version = k, po_name = dr_name d, po_description = dr_description d,
      po_rules = dr_rules d, po_createdAt = created, po_updatedAt = dr_time d,
      po_hash = computeRulesHash h (dr_rules d)\<rparr>"

definition published :: "(string \<Rightarrow> string) \<Rightarrow> string \<Rightarrow> draft list \<Rightarrow> policy list" where
  "published h i ds = map2 (publish1 h i (dr_time (hd ds))) [1..<Suc (length ds)] ds"

section \<open>The view\<close>

definition draft_of :: "policy \<Rightarrow> draft" where
  "draft_of p = \<lparr>dr_name = po_name p, dr_description = po_description p, dr_rules = po_rules p,
     dr_time = po_updatedAt p\<rparr>"

definition log_view :: "policyStore \<Rightarrow> policyLog" where
  "log_view s = \<lparr>lg_max = ps_maxPolicies s, lg_drafts = \<lambda>i. map draft_of (getVersionHistory s i)\<rparr>"

lemma draft_publish1 [simp]: "draft_of (publish1 h i c k d) = d"
  by (simp add: draft_of_def publish1_def)

lemma length_published [simp]: "length (published h i ds) = length ds"
  by (simp add: published_def del: upt_Suc)

lemma published_Nil_iff [simp]: "published h i ds = [] \<longleftrightarrow> ds = []" "published h i [] = []"
  by (simp_all flip: length_0_conv)

lemma nth_published:
  "k < length ds \<Longrightarrow> published h i ds ! k = publish1 h i (dr_time (hd ds)) (Suc k) (ds ! k)"
  by (simp add: published_def del: upt_Suc)

lemma drafts_published [simp]: "map draft_of (published h i ds) = ds"
  by (simp add: list_eq_iff_nth_eq nth_published)

lemma published_snoc:
  assumes "ds \<noteq> []"
  shows "published h i (ds @ [d]) =
    published h i ds @ [publish1 h i (dr_time (hd ds)) (Suc (length ds)) d]"
proof -
  have "[1..<Suc (length (ds @ [d]))] = [1..<Suc (length ds)] @ [Suc (length ds)]" by simp
  then show ?thesis using assms by (simp add: published_def del: upt_Suc)
qed

lemma published_single: "published h i [d] = [publish1 h i (dr_time d) 1 d]"
  by (simp add: published_def)

lemma last_published:
  "ds \<noteq> [] \<Longrightarrow> last (published h i ds) = publish1 h i (dr_time (hd ds)) (length ds) (last ds)"
  by (simp add: last_conv_nth nth_published)

text \<open>The two maps of the store agree with its log.\<close>

definition is_log :: "(string \<Rightarrow> string) \<Rightarrow> policyStore \<Rightarrow> (string \<Rightarrow> draft list) \<Rightarrow> bool" where
  "is_log h s ds \<longleftrightarrow> jm_wf (ps_policies s) \<and>
     (\<forall>i. jm_get (ps_history s) i = (if ds i = [] then None else Some (published h i (ds i))) \<and>
          jm_get (ps_policies s) i = (if ds i = [] then None else Some (last (published h i (ds i)))))"

definition log_ok :: "(string \<Rightarrow> string) \<Rightarrow> policyStore \<Rightarrow> bool" where
  "log_ok h s \<longleftrightarrow> is_log h s (lg_drafts (log_view s))"

lemma is_log_view:
  assumes "is_log h s ds"
  shows "lg_drafts (log_view s) = ds"
  using assms by (auto simp: is_log_def log_view_def getVersionHistory_def fun_eq_iff)

lemma is_log_ok: "is_log h s ds \<Longrightarrow> log_ok h s"
  by (simp add: log_ok_def is_log_view)

lemma log_ids_view:
  assumes "log_ok h s"
  shows "i \<in> log_ids (log_view s) \<longleftrightarrow> jm_has (ps_policies s) i"
    and "card (log_ids (log_view s)) = jm_size (ps_policies s)"
proof -
  show has: "i \<in> log_ids (log_view s) \<longleftrightarrow> jm_has (ps_policies s) i" for i
    using assms by (simp add: log_ok_def is_log_def log_ids_def)
  then have "log_ids (log_view s) = set (jm_keys (ps_policies s))"
    by (auto simp: map_of_eq_None_iff)
  then show "card (log_ids (log_view s)) = jm_size (ps_policies s)"
    using assms distinct_card [of "jm_keys (ps_policies s)"] by (simp add: log_ok_def is_log_def)
qed

lemma is_log_put:
  assumes "log_ok h s" and "ds \<noteq> []"
  shows "is_log h (s\<lparr>ps_policies := jm_set (ps_policies s) i (last (published h i ds)),
      ps_history := jm_set (ps_history s) i (published h i ds)\<rparr>) ((lg_drafts (log_view s))(i := ds))"
  using assms by (simp add: log_ok_def is_log_def jm.wf_put jm.get_put)

lemma log_view_max [simp]: "lg_max (log_view s) = ps_maxPolicies s"
  by (simp add: log_view_def)

lemma create_is_log:
  assumes "log_ok h s" and "policy_create h s input now = Inr (p, t)"
  shows "log_error (log_view s) (PolCreate input now) = None \<and>
    is_log h t (lg_drafts (log_effect (PolCreate input now) (log_view s))) \<and>
    ps_maxPolicies t = ps_maxPolicies s \<and>
    p = last (published h (ci_id input) (lg_drafts (log_effect (PolCreate input now) (log_view s)) (ci_id input)))"
proof -
  let ?d = "\<lparr>dr_name = ci_name input, dr_description = ci_description input, dr_rules = ci_rules input,
    dr_time = now\<rparr>"
  have p: "published h (ci_id input) [?d] = [p]"
    and t: "t = s\<lparr>ps_policies := jm_set (ps_policies s) (ci_id input) p,
      ps_history := jm_set (ps_history s) (ci_id input) [p]\<rparr>"
    and ok: "\<not> jm_has (ps_policies s) (ci_id input)" "int (jm_size (ps_policies s)) < ps_maxPolicies s"
    using assms(2)
    by (auto simp: policy_create_def Let_def published_single publish1_def split: if_splits)
  show ?thesis
    using is_log_put [OF assms(1), of "[?d]" "ci_id input"] ok
    by (simp add: p t log_ids_view [OF assms(1)] put_drafts_def)
qed

lemma update_is_log:
  assumes "log_ok h s" and "policy_update h s i u now = Inr (p, t)"
  shows "log_error (log_view s) (PolUpdate i u now) = None \<and>
    is_log h t (lg_drafts (log_effect (PolUpdate i u now) (log_view s))) \<and>
    ps_maxPolicies t = ps_maxPolicies s \<and>
    p = last (published h i (lg_drafts (log_effect (PolUpdate i u now) (log_view s)) i))"
proof -
  define ds where "ds = lg_drafts (log_view s) i"
  let ?d = "revise u now (last ds)"
  obtain q where q: "jm_get (ps_policies s) i = Some q"
    using assms(2) by (auto simp: policy_update_def split: option.splits)
  with assms(1) have ds: "ds \<noteq> []" and last: "q = last (published h i ds)"
    and hist: "jm_get (ps_history s) i = Some (published h i ds)"
    by (auto simp: log_ok_def is_log_def ds_def split: if_splits)
  have pub: "published h i (ds @ [?d]) = published h i ds @ [p]"
    and t: "t = s\<lparr>ps_policies := jm_set (ps_policies s) i p,
      ps_history := jm_set (ps_history s) i (published h i ds @ [p])\<rparr>"
    using assms(2) q hist last ds
    by (auto simp: policy_update_def Let_def published_snoc last_published publish1_def revise_def
        split: option.splits)
  show ?thesis
    using is_log_put [OF assms(1), of "ds @ [?d]" i] q
    by (simp add: pub t log_ids_view [OF assms(1)] put_drafts_def flip: ds_def)
qed

lemma delete_is_log:
  "log_ok h s \<Longrightarrow> is_log h (snd (policy_delete s i)) (lg_drafts (log_effect (PolDelete i) (log_view s)))"
  by (simp add: log_ok_def is_log_def policy_delete_def put_drafts_def jm.wf_del jm.get_del)

lemma clear_is_log: "is_log h (policy_clear s) (\<lambda>i. [])"
  by (simp add: is_log_def policy_clear_def)

lemma create_error:
  assumes "log_ok h s" and "policy_create h s input now = Inl e"
  shows "log_error (log_view s) (PolCreate input now) = Some e"
  using assms(2) by (auto simp: policy_create_def Let_def log_ids_view [OF assms(1)] split: if_splits)

lemma update_error:
  assumes "log_ok h s" and "policy_update h s i u now = Inl e"
  shows "log_error (log_view s) (PolUpdate i u now) = Some e"
  using assms(2) by (auto simp: policy_update_def Let_def log_ids_view [OF assms(1)] split: option.splits)

lemma viewI:
  "is_log h t ds \<Longrightarrow> ps_maxPolicies t = lg_max l \<Longrightarrow> lg_drafts l = ds \<Longrightarrow> log_ok h t \<and> log_view t = l"
  using is_log_view [of h t ds] is_log_ok [of h t ds] by (simp add: log_view_def)

lemma effect_max [simp]: "lg_max (log_effect x l) = lg_max l"
  by (cases x) (simp_all add: put_drafts_def)

lemma policy_simulates:
  assumes "log_ok h s"
  shows "log_ok h (policy_step h s x) \<and> log_view (policy_step h s x) = log_step (log_view s) x"
proof (cases x)
  case (PolCreate input now)
  show ?thesis
  proof (cases "policy_create h s input now")
    case (Inl e)
    with assms create_error show ?thesis by (simp add: PolCreate log_step_def)
  next
    case (Inr r)
    obtain p t where r: "r = (p, t)" by (cases r)
    with Inr have step: "policy_create h s input now = Inr (p, t)" by simp
    note made = create_is_log [OF assms step]
    have "log_ok h t \<and> log_view t = log_effect x (log_view s)"
      by (rule viewI [OF _ _ refl]) (use made in \<open>simp_all only: PolCreate effect_max log_view_max\<close>)
    with step made show ?thesis by (simp only: PolCreate log_step_def policy_step.simps) simp
  qed
next
  case (PolUpdate i u now)
  show ?thesis
  proof (cases "policy_update h s i u now")
    case (Inl e)
    with assms update_error show ?thesis by (simp add: PolUpdate log_step_def)
  next
    case (Inr r)
    obtain p t where r: "r = (p, t)" by (cases r)
    with Inr have step: "policy_update h s i u now = Inr (p, t)" by simp
    note made = update_is_log [OF assms step]
    have "log_ok h t \<and> log_view t = log_effect x (log_view s)"
      by (rule viewI [OF _ _ refl]) (use made in \<open>simp_all only: PolUpdate effect_max log_view_max\<close>)
    with step made show ?thesis by (simp only: PolUpdate log_step_def policy_step.simps) simp
  qed
next
  case (PolDelete i)
  have "log_ok h (snd (policy_delete s i)) \<and> log_view (snd (policy_delete s i)) =
      log_effect (PolDelete i) (log_view s)"
    by (rule viewI [OF delete_is_log [OF assms] _ refl]) (simp add: policy_delete_def put_drafts_def)
  then show ?thesis by (simp add: PolDelete log_step_def)
next
  case PolClear
  have "log_ok h (policy_clear s) \<and> log_view (policy_clear s) = log_effect PolClear (log_view s)"
    by (rule viewI [OF clear_is_log _]) (simp_all add: policy_clear_def)
  then show ?thesis by (simp add: PolClear log_step_def)
qed

interpretation policy_refinement:
  refinement "\<lambda>s x t. t = policy_step h s x" "\<lambda>l x m. m = log_step l x" log_view "(=)" "log_ok h" for h
  by unfold_locales (simp_all add: policy_simulates)

lemma runs_foldl: "runs (\<lambda>s x t. t = f s x) s xs t \<longleftrightarrow> t = foldl f s xs"
  by (induction xs arbitrary: s) auto

lemma initial_log: "log_ok h (createPolicyStore config) \<and> log_view (createPolicyStore config) = empty_log config"
  by (rule viewI [OF _ _ refl])
     (simp_all add: is_log_def createPolicyStore_def empty_log_def DEFAULT_MAX_POLICIES_def split: option.split)

lemma reached_log:
  assumes "s = foldl (policy_step h) (createPolicyStore config) ops"
  shows "log_ok h s" and "log_view s = foldl log_step (empty_log config) ops"
proof -
  have run: "runs (\<lambda>s x t. t = policy_step h s x) (createPolicyStore config) ops s"
    by (simp add: runs_foldl assms)
  show "log_ok h s" using policy_refinement.run_inv [OF run] initial_log by simp
  show "log_view s = foldl log_step (empty_log config) ops"
    using policy_refinement.run_simulates [OF run] initial_log by (auto simp: runs_foldl list.rel_eq)
qed

lemma versions_published: "map po_version (published h i ds) = [1..<Suc (length ds)]"
  by (rule nth_equalityI) (simp_all add: nth_published publish1_def nth_upt del: upt_Suc)

lemma log_reads:
  assumes "log_ok h s" and "ds = lg_drafts (log_view s) i"
  shows "getVersionHistory s i = published h i ds"
    and "policy_get s i = (if ds = [] then None else Some (last (published h i ds)))"
    and "getByVersion s i k = (if 1 \<le> k \<and> k \<le> length ds then Some (published h i ds ! (k - 1)) else None)"
proof -
  have hist: "jm_get (ps_history s) i = (if ds = [] then None else Some (published h i ds))"
    and cur: "jm_get (ps_policies s) i = (if ds = [] then None else Some (last (published h i ds)))"
    using assms by (simp_all only: log_ok_def is_log_def)
  show "getVersionHistory s i = published h i ds" by (simp add: getVersionHistory_def hist)
  show "policy_get s i = (if ds = [] then None else Some (last (published h i ds)))"
    by (simp add: policy_get_def cur)
  have find: "List.find (\<lambda>p. po_version p = k) (published h i ds) =
      (if 1 \<le> k \<and> k \<le> length ds then Some (published h i ds ! (k - 1)) else None)"
    using find_version [of "published h i ds" k] by (simp only: versions_published length_published)
  show "getByVersion s i k = (if 1 \<le> k \<and> k \<le> length ds then Some (published h i ds ! (k - 1)) else None)"
    by (cases "ds = []") (simp_all add: getByVersion_def hist find)
qed

lemma create_outcome:
  assumes "log_ok h s"
  shows "case policy_create h s input now of
      Inl e \<Rightarrow> log_error (log_view s) (PolCreate input now) = Some e
    | Inr (p, t) \<Rightarrow> log_error (log_view s) (PolCreate input now) = None \<and>
        p = last (published h (ci_id input) (lg_drafts (log_step (log_view s) (PolCreate input now)) (ci_id input)))"
proof (cases "policy_create h s input now")
  case (Inl e)
  with create_error [OF assms] show ?thesis by simp
next
  case (Inr r)
  then obtain p t where r: "policy_create h s input now = Inr (p, t)" by (cases r) simp
  from create_is_log [OF assms this] show ?thesis by (simp only: r sum.case prod.case log_step_def simp_thms if_True)
qed

lemma update_outcome:
  assumes "log_ok h s"
  shows "case policy_update h s i u now of
      Inl e \<Rightarrow> log_error (log_view s) (PolUpdate i u now) = Some e
    | Inr (p, t) \<Rightarrow> log_error (log_view s) (PolUpdate i u now) = None \<and>
        p = last (published h i (lg_drafts (log_step (log_view s) (PolUpdate i u now)) i))"
proof (cases "policy_update h s i u now")
  case (Inl e)
  with update_error [OF assms] show ?thesis by simp
next
  case (Inr r)
  then obtain p t where r: "policy_update h s i u now = Inr (p, t)" by (cases r) simp
  from update_is_log [OF assms this] show ?thesis by (simp only: r sum.case prod.case log_step_def simp_thms if_True)
qed

section \<open>Property\<close>

text \<open>
  (C32) The policy store is its log: after any operations, its history of an id is what the log of drafts
  publishes, the current policy is the last of it, a version is looked up by its position, and the
  next creation, update or deletion fails or succeeds as the log says, with the policy the log
  publishes. Version numbers, dates and hashes are thus determined by the drafts alone.
\<close>

theorem policy_store_refines_log:
  assumes "s = foldl (policy_step h) (createPolicyStore config) ops"
    and "l = foldl log_step (empty_log config) ops" and "ds = lg_drafts l i"
  shows "getVersionHistory s i = published h i ds \<and>
    policy_get s i = (if ds = [] then None else Some (last (published h i ds))) \<and>
    getByVersion s i k = (if 1 \<le> k \<and> k \<le> length ds then Some (published h i ds ! (k - 1)) else None) \<and>
    length (policy_list s) = card (log_ids l) \<and> (fst (policy_delete s i) \<longleftrightarrow> i \<in> log_ids l) \<and>
    (case policy_create h s input now of
       Inl e \<Rightarrow> log_error l (PolCreate input now) = Some e
     | Inr (p, t) \<Rightarrow> log_error l (PolCreate input now) = None \<and>
         p = last (published h (ci_id input) (lg_drafts (log_step l (PolCreate input now)) (ci_id input)))) \<and>
    (case policy_update h s i u now of
       Inl e \<Rightarrow> log_error l (PolUpdate i u now) = Some e
     | Inr (p, t) \<Rightarrow> log_error l (PolUpdate i u now) = None \<and>
         p = last (published h i (lg_drafts (log_step l (PolUpdate i u now)) i)))"
proof -
  note ok = reached_log(1) [OF assms(1)]
  have view: "log_view s = l" using reached_log(2) [OF assms(1)] assms(2) by simp
  note reads = log_reads [OF ok, unfolded view, OF assms(3)]
  show ?thesis
    using create_outcome [OF ok] update_outcome [OF ok] log_ids_view [OF ok] unfolding view
    by (intro conjI reads) (simp_all add: policy_list_def policy_delete_def)
qed

theorem policy_store_refines_log_witness:
  "getVersionHistory sample_store ''p'' =
     published id ''p'' (lg_drafts (foldl log_step (empty_log None) sample_store_ops) ''p'') \<and>
   length (lg_drafts (foldl log_step (empty_log None) sample_store_ops) ''p'') = 2"
  using policy_store_refines_log [OF sample_store_def refl refl, of "''p''"]
  by (simp add: sample_store_ops_def log_step_def empty_log_def log_ids_def put_drafts_def)

end
