(* ===== verification/AuditRoutes.thy ===== *)
theory AuditRoutes
  imports Config JsJson
begin

text \<open>
  \<open>routes/audit.ts\<close>: the query endpoint over the stub audit events, \<open>routes/metrics.ts\<close> and
  \<open>metrics/logger.ts\<close>: the ingestion of client metrics.

  The values of a query string are strings, whatever the declared type says, so \<open>page\<close> and
  \<open>page_size\<close> are \<open>string option\<close> and the arithmetic on them coerces: \<open>-\<close> and \<open>*\<close> read a
  number, \<open>+\<close> with a string operand concatenates. \<open>new Date(text)\<close> on an arbitrary text is the
  parameter \<open>parseDate\<close>. Log lines are listed in the order the code issues them.
\<close>

section \<open>Arithmetic with coercion\<close>

fun num_mul :: "jsnum \<Rightarrow> jsnum \<Rightarrow> jsnum" where
  "num_mul NotANumber m = NotANumber"
| "num_mul n NotANumber = NotANumber"
| "num_mul (Fin a) (Fin b) = Fin (a * b)"
| "num_mul (Fin a) PosInf = (if a = 0 then NotANumber else if 0 < a then PosInf else NegInf)"
| "num_mul (Fin a) NegInf = (if a = 0 then NotANumber else if 0 < a then NegInf else PosInf)"
| "num_mul PosInf (Fin b) = (if b = 0 then NotANumber else if 0 < b then PosInf else NegInf)"
| "num_mul NegInf (Fin b) = (if b = 0 then NotANumber else if 0 < b then NegInf else PosInf)"
| "num_mul PosInf PosInf = PosInf"
| "num_mul NegInf NegInf = PosInf"
| "num_mul PosInf NegInf = NegInf"
| "num_mul NegInf PosInf = NegInf"

fun num_plus_rat :: "jsnum \<Rightarrow> rat \<Rightarrow> jsnum" where
  "num_plus_rat (Fin a) b = Fin (a + b)"
| "num_plus_rat n b = n"

fun num_text :: "jsnum \<Rightarrow> string" where
  "num_text NotANumber = ''NaN''"
| "num_text NegInf = ''-Infinity''"
| "num_text PosInf = ''Infinity''"
| "num_text (Fin r) = num_to_string r"

text \<open>\<open>ToIntegerOrInfinity\<close> and the clamping of \<open>Array.prototype.slice\<close>.\<close>

definition rat_trunc :: "rat \<Rightarrow> int" where
  "rat_trunc r = (if r < 0 then - rat_floor (- r) else rat_floor r)"

fun slice_index :: "nat \<Rightarrow> jsnum \<Rightarrow> nat" where
  "slice_index len NotANumber = 0"
| "slice_index len NegInf = 0"
| "slice_index len PosInf = len"
| "slice_index len (Fin r) =
     (let k = rat_trunc r in
      if k < 0 then nat (max 0 (int len + k)) else nat (min k (int len)))"

definition js_slice :: "'a list \<Rightarrow> jsnum \<Rightarrow> jsnum \<Rightarrow> 'a list" where
  "js_slice xs start stop =
     (let i = slice_index (length xs) start; j = slice_index (length xs) stop
      in take (j - i) (drop i xs))"

section \<open>Audit events\<close>

record auditEvent =
  ae_event_id :: string
  ae_timestamp :: string
  ae_robot_id :: string
  ae_operator_did :: string
  ae_session_id :: string
  ae_event_type :: string
  ae_metadata :: jsval

record auditQuery =
  aq_session_id :: "string option"
  aq_robot_id :: "string option"
  aq_actor_did :: "string option"
  aq_event_type :: "string option"
  aq_from :: "string option"
  aq_to :: "string option"
  aq_page :: "string option"
  aq_page_size :: "string option"

definition STUB_OPERATOR :: string where
  "STUB_OPERATOR = ''did:key:z6MkhaXgBZDvotDkL5257faiztiGiC2QtKLGpbnnEGta2doK''"

text \<open>The events are created when the module is loaded, at \<open>t0\<close>.\<close>

definition stubEvents :: "ms \<Rightarrow> auditEvent list" where
  "stubEvents t0 =
     [\<lparr>ae_event_id = ''evt_stub_001'', ae_timestamp = toISOString (t0 - 3600000),
       ae_robot_id = ''robot-001'', ae_operator_did = STUB_OPERATOR,
       ae_session_id = ''ses_stub_001'', ae_event_type = ''SESSION_GRANTED'',
       ae_metadata = JObj [(''policy_id'', JStr ''default-policy''),
         (''policy_version'', JStr ''1.0.0''),
         (''effective_scope'', JArr [JStr ''teleop:view'', JStr ''teleop:control''])]\<rparr>,
      \<lparr>ae_event_id = ''evt_stub_002'', ae_timestamp = toISOString (t0 - 3500000),
       ae_robot_id = ''robot-001'', ae_operator_did = STUB_OPERATOR,
       ae_session_id = ''ses_stub_001'', ae_event_type = ''SESSION_STARTED'',
       ae_metadata = JObj []\<rparr>,
      \<lparr>ae_event_id = ''evt_stub_003'', ae_timestamp = toISOString (t0 - 1800000),
       ae_robot_id = ''robot-001'', ae_operator_did = STUB_OPERATOR,
       ae_session_id = ''ses_stub_001'', ae_event_type = ''PRIVILEGED_ACTION'',
       ae_metadata = JObj [(''action'', JStr ''E_STOP''),
         (''reason'', JStr ''Operator initiated emergency stop'')]\<rparr>]"

definition event_json :: "auditEvent \<Rightarrow> jsval" where
  "event_json e =
     JObj [(''event_id'', JStr (ae_event_id e)), (''timestamp'', JStr (ae_timestamp e)),
       (''robot_id'', JStr (ae_robot_id e)), (''operator_did'', JStr (ae_operator_did e)),
       (''session_id'', JStr (ae_session_id e)), (''event_type'', JStr (ae_event_type e)),
       (''metadata'', ae_metadata e)]"

text \<open>One \<open>if (x) filtered = filtered.filter(...)\<close>: an absent or empty parameter does not filter.\<close>

definition filter_given :: "string option \<Rightarrow> (string \<Rightarrow> 'a \<Rightarrow> bool) \<Rightarrow> 'a list \<Rightarrow> 'a list" where
  "filter_given param P xs =
     (case param of None \<Rightarrow> xs | Some v \<Rightarrow> if v = [] then xs else filter (P v) xs)"

definition date_ge :: "jsdate \<Rightarrow> jsdate \<Rightarrow> bool" where
  "date_ge a b = (case (a, b) of (Some x, Some y) \<Rightarrow> y \<le> x | _ \<Rightarrow> False)"

definition filter_events :: "(string \<Rightarrow> jsdate) \<Rightarrow> auditQuery \<Rightarrow> auditEvent list \<Rightarrow> auditEvent list" where
  "filter_events parseDate q events =
     filter_given (aq_to q) (\<lambda>v e. date_ge (parseDate v) (parseDate (ae_timestamp e)))
     (filter_given (aq_from q) (\<lambda>v e. date_ge (parseDate (ae_timestamp e)) (parseDate v))
     (filter_given (aq_event_type q) (\<lambda>v e. ae_event_type e = v)
     (filter_given (aq_actor_did q) (\<lambda>v e. ae_operator_did e = v)
     (filter_given (aq_robot_id q) (\<lambda>v e. ae_robot_id e = v)
     (filter_given (aq_session_id q) (\<lambda>v e. ae_session_id e = v) events)))))"

definition query_number :: "rat \<Rightarrow> string option \<Rightarrow> jsnum" where
  "query_number dflt v = (case v of None \<Rightarrow> Fin dflt | Some s \<Rightarrow> string_to_number s)"

definition query_json :: "rat \<Rightarrow> string option \<Rightarrow> jsval" where
  "query_json dflt v = (case v of None \<Rightarrow> JNum dflt | Some s \<Rightarrow> JStr s)"

text \<open>\<open>startIdx = (page - 1) * page_size\<close>, and \<open>startIdx + page_size\<close> as \<open>slice\<close> reads it.\<close>

definition start_index :: "auditQuery \<Rightarrow> jsnum" where
  "start_index q =
     num_mul (num_plus_rat (query_number 1 (aq_page q)) (-1)) (query_number 20 (aq_page_size q))"

definition stop_index :: "auditQuery \<Rightarrow> jsnum" where
  "stop_index q =
     (case aq_page_size q of
        None \<Rightarrow> num_plus_rat (start_index q) 20
      | Some s \<Rightarrow> string_to_number (num_text (start_index q) @ s))"

definition get_audit_events :: "(string \<Rightarrow> jsdate) \<Rightarrow> auditEvent list \<Rightarrow> auditQuery \<Rightarrow> httpReply" where
  "get_audit_events parseDate events q =
     (let filtered = filter_events parseDate q events;
          paginated = js_slice filtered (start_index q) (stop_index q)
      in Reply 200 (JObj [(''events'', JArr (map event_json paginated)),
           (''total'', JNum (of_nat (length filtered))), (''page'', query_json 1 (aq_page q)),
           (''page_size'', query_json 20 (aq_page_size q))]))"

definition get_audit_event :: "auditEvent list \<Rightarrow> string \<Rightarrow> httpReply" where
  "get_audit_event events event_id =
     (case List.find (\<lambda>e. ae_event_id e = event_id) events of
        None \<Rightarrow> Reply 404 (error_body ''event_not_found'' ''Audit event not found'')
      | Some event \<Rightarrow> Reply 200 (event_json event))"

section \<open>Metrics\<close>

record metricsLogger =
  ml_logPath :: "string option"

definition createMetricsLogger :: "string option \<Rightarrow> metricsLogger" where
  "createMetricsLogger logPath =
     \<lparr>ml_logPath = (case logPath of None \<Rightarrow> None
        | Some p \<Rightarrow> (let trimmed = trim p in if trimmed = [] then None else Some trimmed))\<rparr>"

definition metrics_enabled :: "metricsLogger \<Rightarrow> bool" where
  "metrics_enabled m = (ml_logPath m \<noteq> None)"

text \<open>The text that \<open>log\<close> appends; a failure to append is ignored.\<close>

definition metrics_log :: "metricsLogger \<Rightarrow> jsval \<Rightarrow> string list" where
  "metrics_log m event = (if ml_logPath m = None then [] else [json_stringify event @ [CHR 0x0A]])"

definition normalizeEvent :: "jsval \<Rightarrow> string \<Rightarrow> jsval option" where
  "normalizeEvent event fallbackTimestamp =
     (if \<not> truthy event \<or> \<not> is_string (get_prop event ''metric'')
         \<or> \<not> is_number (get_prop event ''value'') then None
      else
        (let ts = get_prop event ''ts'';
             ts' = (if ts = JUndef \<or> ts = JNull then JStr fallbackTimestamp else ts)
         in case event of
              JObj ms \<Rightarrow> Some (JObj (jm_set ms ''ts'' ts'))
            | _ \<Rightarrow> Some (JObj [(''ts'', ts')])))"

fun ingest_loop :: "metricsLogger \<Rightarrow> string \<Rightarrow> jsval list \<Rightarrow> nat \<Rightarrow> nat \<times> string list" where
  "ingest_loop m fallback [] accepted = (accepted, [])"
| "ingest_loop m fallback (event # rest) accepted =
     (case normalizeEvent event fallback of
        None \<Rightarrow> ingest_loop m fallback rest accepted
      | Some normalized \<Rightarrow>
          (let (n, lines) = ingest_loop m fallback rest (accepted + 1)
           in (n, metrics_log m normalized @ lines)))"

definition post_metrics :: "metricsLogger \<Rightarrow> jsval \<Rightarrow> ms \<Rightarrow> httpReply \<times> string list" where
  "post_metrics m body now =
     (if \<not> metrics_enabled m
      then (Reply 503 (error_body ''metrics_disabled'' ''Metrics logging is disabled''), [])
      else
        (case get_prop body ''events'' of
           JArr events \<Rightarrow>
             if events = []
             then (Reply 400 (error_body ''invalid_request'' ''events must be a non-empty array''), [])
             else (let (accepted, lines) = ingest_loop m (toISOString now) events 0
                   in (Reply 202 (JObj [(''accepted'', JNum (of_nat accepted))]), lines))
         | _ \<Rightarrow> (Reply 400 (error_body ''invalid_request'' ''events must be a non-empty array''), [])))"

section \<open>Properties\<close>

definition wanted :: "(string \<Rightarrow> 'a \<Rightarrow> bool) \<Rightarrow> string option \<Rightarrow> 'a \<Rightarrow> bool" where
  "wanted P param x \<longleftrightarrow> (\<forall>v. param = Some v \<longrightarrow> v \<noteq> [] \<longrightarrow> P v x)"

lemma filter_given_eq: "filter_given param P xs = filter (wanted P param) xs"
  by (auto simp: filter_given_def wanted_def [abs_def] split: option.splits)

text \<open>What a query asks for.\<close>

definition matches_query :: "(string \<Rightarrow> jsdate) \<Rightarrow> auditQuery \<Rightarrow> auditEvent \<Rightarrow> bool" where
  "matches_query parseDate q e \<longleftrightarrow>
     wanted (\<lambda>v e. ae_session_id e = v) (aq_session_id q) e \<and>
     wanted (\<lambda>v e. ae_robot_id e = v) (aq_robot_id q) e \<and>
     wanted (\<lambda>v e. ae_operator_did e = v) (aq_actor_did q) e \<and>
     wanted (\<lambda>v e. ae_event_type e = v) (aq_event_type q) e \<and>
     wanted (\<lambda>v e. date_ge (parseDate (ae_timestamp e)) (parseDate v)) (aq_from q) e \<and>
     wanted (\<lambda>v e. date_ge (parseDate v) (parseDate (ae_timestamp e))) (aq_to q) e"

lemma filter_events_eq: "filter_events parseDate q events = filter (matches_query parseDate q) events"
  by (simp add: filter_events_def filter_given_eq matches_query_def conj_ac cong: filter_cong)

lemma string_to_number_digits:
  assumes "s \<noteq> []" and "list_all is_digit s"
  shows "string_to_number s = Fin (of_nat (dec_value s))"
proof -
  have ws: "\<not> is_space c" "c \<noteq> CHR ''-''" "c \<noteq> CHR ''+''" "c \<noteq> CHR ''I''" if "is_digit c" for c
    using that by (auto simp: is_digit_def is_space_def Let_def)
  have hd: "is_digit (hd s)" "is_digit (last s)" using assms by (auto simp: list_all_iff)
  then have "dropWhile is_space s = s" "dropWhile is_space (rev s) = rev s"
    using assms(1) ws(1) by (simp_all add: dropWhile_eq_self_iff hd_rev)
  then have "trim s = s" by (simp add: trim_def)
  moreover have span: "span_digits s = (s, [])"
    using assms(2) by (simp add: span_digits_def list_all_iff takeWhile_eq_all_conv)
  moreover have "s \<noteq> ''Infinity''" using hd(1) ws(4) [OF hd(1)] by auto
  then have "unsigned_to_number s = Fin (of_nat (dec_value s))"
    using assms(1) by (simp add: unsigned_to_number_def span exp_part_def decimal_def scale10_def)
  ultimately show ?thesis
    using assms(1) hd(1) ws(2,3) by (cases s) (auto simp: string_to_number_def)
qed

text \<open>
  An audit query without paging parameters returns the first twenty events that match every
  given criterion, in their order, and the number of all that match.
\<close>

theorem audit_query_exact:
  assumes "aq_page q = None" and "aq_page_size q = None"
  shows "get_audit_events parseDate events q = Reply 200 (JObj
    [(''events'', JArr (map event_json (take 20 (filter (matches_query parseDate q) events)))),
     (''total'', JNum (of_nat (length (filter (matches_query parseDate q) events)))),
     (''page'', JNum 1), (''page_size'', JNum 20)])"
proof -
  have "rat_trunc 20 = 20" "rat_trunc 0 = 0"
    using quotient_of_int [of 20] quotient_of_int [of 0]
    by (simp_all add: rat_trunc_def rat_floor_def)
  then have "js_slice xs (Fin 0) (Fin 20) = take 20 xs" for xs :: "auditEvent list"
    by (simp add: js_slice_def Let_def min_def)
  then show ?thesis
    using assms
    by (simp add: get_audit_events_def start_index_def stop_index_def query_number_def query_json_def
        filter_events_eq Let_def)
qed

theorem audit_query_exact_witness:
  "get_audit_events (\<lambda>v. None) (stubEvents 0)
     \<lparr>aq_session_id = Some ''ses_stub_001'', aq_robot_id = None, aq_actor_did = None,
      aq_event_type = Some ''SESSION_STARTED'', aq_from = None, aq_to = None, aq_page = None,
      aq_page_size = None\<rparr> =
   Reply 200 (JObj [(''events'', JArr [event_json (stubEvents 0 ! 1)]), (''total'', JNum 1),
     (''page'', JNum 1), (''page_size'', JNum 20)])"
  by (subst audit_query_exact) (simp_all add: stubEvents_def matches_query_def wanted_def)

text \<open>
  Asking for the second page of size one over three matching events returns two events, not
  one: the page size of a query is a string, and adding it to the start index concatenates.
\<close>

theorem audit_page_size_concatenates:
  "get_audit_events parseDate (stubEvents t0)
     \<lparr>aq_session_id = None, aq_robot_id = None, aq_actor_did = None, aq_event_type = None,
      aq_from = None, aq_to = None, aq_page = Some ''2'', aq_page_size = Some ''1''\<rparr> =
   Reply 200 (JObj [(''events'', JArr (map event_json (drop 1 (stubEvents t0)))),
     (''total'', JNum 3), (''page'', JStr ''2''), (''page_size'', JStr ''1'')])"
proof -
  let ?q = "\<lparr>aq_session_id = None, aq_robot_id = None, aq_actor_did = None, aq_event_type = None,
      aq_from = None, aq_to = None, aq_page = Some ''2'', aq_page_size = Some ''1''\<rparr> :: auditQuery"
  have n: "string_to_number ''2'' = Fin 2" "string_to_number ''1'' = Fin 1"
    "string_to_number ''11'' = Fin 11"
    by (simp_all add: string_to_number_digits is_digit_def dec_value_def digit_val_def)
  have one: "num_to_string 1 = ''1''"
  proof -
    have "digit_char 1 = CHR ''1''" by code_simp
    then show ?thesis
      using quotient_of_int [of 1] by (simp add: num_to_string_def nat_to_dec.simps Let_def)
  qed
  have start: "start_index ?q = Fin 1"
    by (simp add: start_index_def query_number_def n)
  have stop: "stop_index ?q = Fin 11"
    by (simp add: stop_index_def start one n)
  have "matches_query parseDate ?q e" for e by (simp add: matches_query_def wanted_def)
  moreover have "rat_trunc 1 = 1" "rat_trunc 11 = 11"
    using quotient_of_int [of 1] quotient_of_int [of 11]
    by (simp_all add: rat_trunc_def rat_floor_def)
  ultimately show ?thesis
    by (simp add: get_audit_events_def start stop filter_events_eq js_slice_def Let_def query_json_def
        stubEvents_def)
qed

lemma set_map_filter_iff: "v \<in> set (List.map_filter f xs) \<longleftrightarrow> (\<exists>x \<in> set xs. f x = Some v)"
  by (induction xs) (auto simp: map_filter_simps split: option.splits)

lemma normalizeEvent_object:
  assumes "normalizeEvent event ts = Some v"
  shows "\<exists>ms w. event = JObj ms \<and> v = JObj (jm_set ms ''ts'' w) \<and> w \<notin> {JUndef, JNull}"
proof -
  define w where "w = (if get_prop event ''ts'' = JUndef \<or> get_prop event ''ts'' = JNull then JStr ts
    else get_prop event ''ts'')"
  have "is_string (get_prop event ''metric'')" using assms by (auto simp: normalizeEvent_def split: if_splits)
  then obtain ms where ms: "event = JObj ms"
    by (cases event) (auto simp: array_index_def is_digit_def split: if_splits)
  then have "v = JObj (jm_set ms ''ts'' w)"
    using assms unfolding w_def normalizeEvent_def Let_def
    by (auto simp del: get_prop.simps split: if_splits)
  moreover have "w \<notin> {JUndef, JNull}" by (auto simp: w_def)
  ultimately show ?thesis using ms by blast
qed

lemma ingest_loop_eq:
  assumes "ml_logPath m = Some path"
  shows "ingest_loop m ts events n =
    (n + length (List.map_filter (\<lambda>e. normalizeEvent e ts) events),
     map (\<lambda>v. json_stringify v @ [CHR 0x0A]) (List.map_filter (\<lambda>e. normalizeEvent e ts) events))"
  using assms
  by (induction events arbitrary: n)
     (auto simp: map_filter_simps metrics_log_def split: option.splits)

text \<open>
  A metrics request is answered with the number of its events that have a metric name and a
  numeric value, and exactly those are logged, in order, one line each, with a time stamp.
\<close>

theorem metrics_ingest_exact:
  assumes "ml_logPath m = Some path" and "get_prop body ''events'' = JArr events" and "events \<noteq> []"
  shows "\<exists>normalized. normalized = List.map_filter (\<lambda>e. normalizeEvent e (toISOString now)) events \<and>
    post_metrics m body now =
      (Reply 202 (JObj [(''accepted'', JNum (of_nat (length normalized)))]),
       map (\<lambda>v. json_stringify v @ [CHR 0x0A]) normalized) \<and>
    (\<forall>v \<in> set normalized. get_prop v ''ts'' \<notin> {JUndef, JNull})"
proof -
  let ?n = "List.map_filter (\<lambda>e. normalizeEvent e (toISOString now)) events"
  have "get_prop v ''ts'' \<notin> {JUndef, JNull}" if v: "v \<in> set ?n" for v
  proof -
    obtain e where "normalizeEvent e (toISOString now) = Some v"
      using v by (auto simp: set_map_filter_iff)
    from normalizeEvent_object [OF this] show ?thesis by (auto simp: jm.get_put)
  qed
  moreover have "post_metrics m body now = (Reply 202 (JObj [(''accepted'', JNum (of_nat (length ?n)))]),
      map (\<lambda>v. json_stringify v @ [CHR 0x0A]) ?n)"
    using assms by (simp add: post_metrics_def metrics_enabled_def ingest_loop_eq [OF assms(1)])
  ultimately show ?thesis by blast
qed

theorem metrics_ingest_exact_witness:
  "fst (post_metrics (createMetricsLogger (Some '' m.log ''))
     (JObj [(''events'', JArr [JObj [(''metric'', JStr ''rtt''), (''value'', JNum 5)], JNull])]) 0)
   = Reply 202 (JObj [(''accepted'', JNum 1)])"
proof -
  have p: "ml_logPath (createMetricsLogger (Some '' m.log '')) = Some ''m.log''"
    by (simp add: createMetricsLogger_def trim_def is_space_def)
  have g: "get_prop (JObj [(''events'', JArr [JObj [(''metric'', JStr ''rtt''), (''value'', JNum 5)], JNull])])
      ''events'' = JArr [JObj [(''metric'', JStr ''rtt''), (''value'', JNum 5)], JNull]" by simp
  show ?thesis
    using metrics_ingest_exact [OF p g, of 0]
    by (auto simp: map_filter_simps normalizeEvent_def)
qed

end
