(* ===== verification/ApiTypes.thy ===== *)
theory ApiTypes
  imports Revocations AuditRoutes
begin

text \<open>
  The declared types of the gateway's HTTP interface (\<open>types.ts\<close>, and the error bodies declared in
  \<open>routes/admin-auth.ts\<close> and \<open>routes/session-policy.ts\<close>), as data, and what it is for a value to have
  one: structurally, as the compiler checks it, an optional property being absent or of its type.
  Against them, the replies of the handlers as they are on the wire, where \<open>NaN\<close> has become \<open>null\<close> and
  a query parameter is the text it was.
\<close>

section \<open>Types\<close>

datatype tsType =
    TsString
  | TsNumber
  | TsBoolean
  | TsDate
  | TsNull
  | TsUnknown
  | TsLiteral "string list"
  | TsArray tsType
  | TsUnion tsType tsType
  | TsRecord
  | TsObject "(string \<times> bool \<times> tsType) list"

abbreviation property :: "string \<Rightarrow> tsType \<Rightarrow> string \<times> bool \<times> tsType" where
  "property n t \<equiv> (n, False, t)"

abbreviation optional :: "string \<Rightarrow> tsType \<Rightarrow> string \<times> bool \<times> tsType" where
  "optional n t \<equiv> (n, True, t)"

fun conforms :: "tsType \<Rightarrow> jsval \<Rightarrow> bool" where
  "conforms TsString v = is_string v"
| "conforms TsNumber v = is_number v"
| "conforms TsBoolean v = (case v of JBool b \<Rightarrow> True | _ \<Rightarrow> False)"
| "conforms TsDate v = (case v of JDate d \<Rightarrow> True | _ \<Rightarrow> False)"
| "conforms TsNull v = (v = JNull)"
| "conforms TsUnknown v = True"
| "conforms (TsLiteral ls) v = (case v of JStr s \<Rightarrow> List.member ls s | _ \<Rightarrow> False)"
| "conforms (TsArray t) v = (case v of JArr vs \<Rightarrow> list_all (conforms t) vs | _ \<Rightarrow> False)"
| "conforms (TsUnion a b) v = (conforms a v \<or> conforms b v)"
| "conforms TsRecord v = (case v of JObj ms \<Rightarrow> True | _ \<Rightarrow> False)"
| "conforms (TsObject ps) v =
     (case v of
        JObj ms \<Rightarrow> list_all (\<lambda>(n, opt, t). let w = get_prop v n in if w = JUndef then opt else conforms t w) ps
      | _ \<Rightarrow> False)"

text \<open>What a property of an object type says of an object that has it.\<close>

lemma conforms_member:
  assumes "conforms (TsObject ps) v" and "(n, opt, t) \<in> set ps"
  shows "conforms t (get_prop v n) \<or> opt \<and> get_prop v n = JUndef"
proof -
  obtain ms where "v = JObj ms" using assms(1) by (auto split: jsval.splits)
  with assms show ?thesis by (auto simp: list_all_iff Let_def simp del: get_prop.simps split: if_splits)
qed

lemma truthy_member:
  assumes "conforms (TsObject ps) v" and "(n, opt, t) \<in> set ps" and "truthy (get_prop v n)"
  shows "conforms t (get_prop v n)"
  using conforms_member [OF assms(1,2)] assms(3) by auto

section \<open>The declared types\<close>

definition IceServer :: tsType where
  "IceServer = TsObject [property ''urls'' (TsUnion TsString (TsArray TsString)),
     optional ''username'' TsString, optional ''credential'' TsString]"

definition SessionLimits :: tsType where
  "SessionLimits = TsObject [property ''max_control_rate_hz'' TsNumber,
     property ''max_video_bitrate_kbps'' TsNumber]"

definition PolicyInfo :: tsType where
  "PolicyInfo = TsObject [property ''policy_id'' TsString, property ''version'' TsString,
     property ''hash'' TsString]"

definition CreateSessionResponse :: tsType where
  "CreateSessionResponse = TsObject [property ''session_id'' TsString, property ''capability_token'' TsString,
     property ''signaling_url'' TsString, property ''ice_servers'' (TsArray IceServer),
     property ''expires_at'' TsString, property ''effective_scope'' (TsArray TsString),
     property ''limits'' SessionLimits, property ''policy'' PolicyInfo]"

definition SessionState :: tsType where
  "SessionState = TsObject [property ''session_id'' TsString, property ''robot_id'' TsString,
     property ''operator_did'' TsString,
     property ''state'' (TsLiteral [''pending'', ''active'', ''terminated'', ''revoked'']),
     property ''created_at'' TsString, property ''expires_at'' TsString,
     property ''effective_scope'' (TsArray TsString)]"

definition RefreshTokenResponse :: tsType where
  "RefreshTokenResponse = TsObject [property ''session_id'' TsString,
     property ''capability_token'' TsString, property ''expires_at'' TsString]"

definition CreateRevocationResponse :: tsType where
  "CreateRevocationResponse = TsObject [property ''revocation_id'' TsString,
     property ''affected_sessions'' (TsArray TsString), property ''timestamp'' TsString]"

definition AuditEventType :: tsType where
  "AuditEventType = TsLiteral [''SESSION_REQUESTED'', ''SESSION_GRANTED'', ''SESSION_STARTED'',
     ''SESSION_ENDED'', ''SESSION_REVOKED'', ''PRIVILEGED_ACTION'']"

definition AuditEvent :: tsType where
  "AuditEvent = TsObject [property ''event_id'' TsString, property ''timestamp'' TsString,
     property ''robot_id'' TsString, property ''operator_did'' TsString, property ''session_id'' TsString,
     property ''event_type'' AuditEventType, property ''metadata'' TsRecord]"

definition AuditEventsResponse :: tsType where
  "AuditEventsResponse = TsObject [property ''events'' (TsArray AuditEvent), property ''total'' TsNumber,
     property ''page'' TsNumber, property ''page_size'' TsNumber]"

definition JWK :: tsType where
  "JWK = TsObject [property ''kty'' TsString, property ''crv'' TsString, property ''x'' TsString,
     property ''kid'' TsString, property ''use'' TsString, property ''alg'' TsString]"

definition JWKS :: tsType where
  "JWKS = TsObject [property ''keys'' (TsArray JWK)]"

definition AdminAuthError :: tsType where
  "AdminAuthError = TsObject [property ''error'' (TsLiteral [''missing_admin_key'', ''invalid_admin_key'']),
     property ''message'' TsString]"

text \<open>The body of \<open>PolicyEvaluationFailure\<close>; the other error replies of the routes have it too.\<close>

definition ErrorBody :: tsType where
  "ErrorBody = TsObject [property ''error'' TsString, optional ''message'' TsString,
     optional ''reason'' TsString, optional ''matched_rule'' TsString]"

text \<open>A reply has its type when it is successful, and the error type otherwise.\<close>

definition reply_conforms :: "tsType \<Rightarrow> httpReply \<Rightarrow> bool" where
  "reply_conforms t reply =
     (case reply of
        Reply status body \<Rightarrow> if status < 400 then conforms t body else conforms ErrorBody body
      | HandlerError \<Rightarrow> True)"

lemma reply_conforms_simps [simp]:
  "reply_conforms t (Reply status body) \<longleftrightarrow>
     (if status < 400 then conforms t body else conforms ErrorBody body)"
  "reply_conforms t HandlerError"
  by (simp_all add: reply_conforms_def)

section \<open>The replies\<close>

lemma strings_conform [simp]: "list_all (conforms TsString) (map JStr ss)"
  by (simp add: list_all_iff)

lemma error_body_conforms [simp]: "conforms ErrorBody (error_body code message)"
  by (simp add: ErrorBody_def error_body_def)

lemma denied_conforms [simp]: "reply_conforms t (createPolicyDeniedError reason rule)"
  by (simp add: createPolicyDeniedError_def ErrorBody_def opt_str_def split: option.split)

lemma policy_check_conforms:
  "evaluateSessionPolicy decodeJwt input ev store now d = Inl reply \<Longrightarrow> reply_conforms t reply"
  by (auto simp: evaluateSessionPolicy_def Let_def
      split: option.splits if_splits sum.splits extractionError.splits)

lemma admin_reply_conforms:
  "requireAdminAuth headers config = Some reply \<Longrightarrow>
     reply_conforms t reply \<and> (\<exists>status body. reply = Reply status body \<and> conforms AdminAuthError body)"
  by (auto simp: requireAdminAuth_def Let_def AdminAuthError_def error_body_def
      ErrorBody_def split: if_splits)

lemma session_response_conforms:
  "conforms CreateSessionResponse (buildSessionResponse sid result host config scope info) \<longleftrightarrow>
     cf_maxControlRateHz config \<noteq> None \<and> cf_maxVideoBitrateKbps config \<noteq> None"
  by (auto simp: CreateSessionResponse_def buildSessionResponse_def IceServer_def SessionLimits_def
      PolicyInfo_def json_num_def split: option.split)

lemma session_json_conforms [simp]: "conforms SessionState (session_json s)"
  by (cases "ss_state s") (simp_all add: SessionState_def session_json_def status_text_def)

definition early_conforms :: "tsType \<Rightarrow> httpReply + 'a \<Rightarrow> bool" where
  "early_conforms t r = (case r of Inl reply \<Rightarrow> reply_conforms t reply | Inr p \<Rightarrow> True)"

lemma begin_conforms: "early_conforms t (post_session_begin config m body host ev)"
  by (auto simp: early_conforms_def post_session_begin_def Let_def policy_check_conforms
      split: option.split sum.split)

lemma refresh_begin_conforms: "early_conforms t (fst (refresh_begin config m registry sid h ev))"
  by (auto simp: early_conforms_def refresh_begin_def Let_def session_not_found_def
      case_prod_unfold split: option.split)

lemma post_revocation_conforms:
  "reply_conforms CreateRevocationResponse (fst (post_revocation config rvs c headers body rid now))"
  by (auto simp: post_revocation_def Let_def case_prod_unfold storeRevocation_def
      CreateRevocationResponse_def admin_reply_conforms split: option.split)

lemma get_session_conforms: "reply_conforms SessionState (get_session_handler m sid)"
  by (simp add: get_session_handler_def session_not_found_def split: option.split)

lemma refresh_finish_conforms: "reply_conforms RefreshTokenResponse (fst (refresh_finish m registry p))"
  by (simp add: refresh_finish_def RefreshTokenResponse_def Let_def)

lemma query_json_number: "is_number (query_json d v) \<longleftrightarrow> v = None"
  by (simp add: query_json_def split: option.split)

lemma set_js_slice: "set (js_slice xs a b) \<subseteq> set xs"
  unfolding js_slice_def Let_def by (meson set_drop_subset set_take_subset subset_trans)

lemma set_filter_given: "set (filter_given param P xs) \<subseteq> set xs"
  by (auto simp: filter_given_def split: option.split)

lemma set_filter_events: "set (filter_events parseDate q events) \<subseteq> set events"
  unfolding filter_events_def by (meson set_filter_given subset_trans)

lemma stub_events_conform: "list_all (\<lambda>e. conforms AuditEvent (event_json e)) (stubEvents t0)"
  by (simp add: stubEvents_def AuditEvent_def AuditEventType_def event_json_def)

lemma get_prop_set: "get_prop (JObj (jm_set ms k v)) k' = (if k' = k then v else get_prop (JObj ms) k')"
  by (simp add: jm.get_put)

lemma string_defined: "is_string v \<Longrightarrow> v \<noteq> JUndef"
  by auto

lemma public_jwk_conforms:
  assumes "list_all (\<lambda>n. is_string (get_prop (JObj (km_publicJwk k)) n)) [''kty'', ''crv'', ''x'']"
  shows "conforms JWK (getPublicJwk k)"
  using assms by (simp add: JWK_def getPublicJwk_def Let_def get_prop_set string_defined del: get_prop.simps)

section \<open>Properties\<close>

text \<open>
  The answer to a session creation, from a request of the declared type, has its declared type exactly when
  both limits were configured as numbers: another value is \<open>NaN\<close>, which is sent as \<open>null\<close>.
\<close>

theorem session_limits_typed:
  "reply_conforms CreateSessionResponse (fst (post_session_finish config m registry p now)) \<longleftrightarrow>
     cf_maxControlRateHz config \<noteq> None \<and> cf_maxVideoBitrateKbps config \<noteq> None"
  by (simp add: post_session_finish_def session_response_conforms Let_def)

text \<open>
  The answer to an audit query has its declared type exactly when the request names neither a page
  nor a page size: both are answered as the text they came as, where the type has numbers.
\<close>

theorem audit_reply_untyped:
  assumes "list_all (\<lambda>e. conforms AuditEvent (event_json e)) events"
  shows "reply_conforms AuditEventsResponse (get_audit_events parseDate events q) \<longleftrightarrow>
    aq_page q = None \<and> aq_page_size q = None"
proof -
  have "list_all (conforms AuditEvent \<circ> event_json)
      (js_slice (filter_events parseDate q events) (start_index q) (stop_index q))"
    using assms set_js_slice [of "filter_events parseDate q events"] set_filter_events
    by (fastforce simp: list_all_iff)
  then show ?thesis
    by (simp add: get_audit_events_def AuditEventsResponse_def query_json_number Let_def list.pred_map
        query_json_def split: option.split)
qed

theorem audit_reply_untyped_witness:
  "\<not> reply_conforms AuditEventsResponse (get_audit_events (\<lambda>s. None) (stubEvents 0)
     \<lparr>aq_session_id = None, aq_robot_id = None, aq_actor_did = None, aq_event_type = None, aq_from = None,
      aq_to = None, aq_page = Some ''2'', aq_page_size = None\<rparr>)"
  using audit_reply_untyped [OF stub_events_conform] by simp

text \<open>
  The published key set has its declared type, provided the key that \<open>jose\<close> exported has the
  parameters of an octet key pair.
\<close>

theorem jwks_typed:
  assumes "\<And>k. km = Some k \<Longrightarrow>
    list_all (\<lambda>n. is_string (get_prop (JObj (km_publicJwk k)) n)) [''kty'', ''crv'', ''x'']"
  shows "conforms JWKS (buildJWKS km)"
proof (cases km)
  case None
  then show ?thesis by (simp add: buildJWKS_def JWKS_def JWK_def FALLBACK_KEY_def)
next
  case (Some k)
  then show ?thesis by (simp add: buildJWKS_def JWKS_def public_jwk_conforms [OF assms [OF Some]])
qed

theorem jwks_typed_witness:
  "conforms JWKS (buildJWKS (Some (createDevKeyManager ()
     [(''kty'', JStr ''OKP''), (''crv'', JStr ''Ed25519''), (''x'', JStr ''AAAA'')])))"
  by (rule jwks_typed) (simp add: createDevKeyManager_def)

end
