(* ===== verification/CredentialTypes.thy ===== *)
theory CredentialTypes
  imports ApiTypes
begin

text \<open>
  The declared types of credentials (\<open>credentials/types.ts\<close>) and of policy evaluation
  (\<open>policy/evaluation-types.ts\<close>), as data, against the values that the code gives these types. The
  payload of a token is cast to its type without a check, so what the types promise holds exactly as
  far as the issuer's payload keeps to it.
\<close>

section \<open>Credentials\<close>

text \<open>An index signature of \<open>unknown\<close> asks nothing of the other members.\<close>

definition CredentialSubject :: tsType where
  "CredentialSubject = TsObject [optional ''id'' TsString]"

definition VerifiableCredential :: tsType where
  "VerifiableCredential = TsObject [property ''@context'' (TsArray TsString),
     property ''type'' (TsArray TsString),
     property ''issuer'' (TsUnion TsString (TsObject [property ''id'' TsString])),
     property ''issuanceDate'' TsString, optional ''expirationDate'' TsString,
     property ''credentialSubject'' CredentialSubject]"

definition JwtVcPayload :: tsType where
  "JwtVcPayload = TsObject [property ''iss'' TsString, optional ''sub'' TsString, optional ''jti'' TsString,
     property ''vc'' VerifiableCredential, optional ''exp'' TsNumber, optional ''iat'' TsNumber,
     optional ''nbf'' TsNumber]"

definition SupportedAlgorithm :: tsType where
  "SupportedAlgorithm = TsLiteral [''EdDSA'', ''ES256'']"

definition VCVerificationResult :: tsType where
  "VCVerificationResult = TsObject [property ''valid'' TsBoolean,
     property ''credential'' VerifiableCredential, property ''issuer'' TsString,
     optional ''subject'' TsString, optional ''expiresAt'' TsDate, optional ''issuedAt'' TsDate]"

text \<open>The object that a result is.\<close>

definition opt_date :: "jsdate option \<Rightarrow> jsval" where
  "opt_date d = (case d of None \<Rightarrow> JUndef | Some t \<Rightarrow> JDate t)"

definition result_object :: "vcVerificationResult \<Rightarrow> jsval" where
  "result_object res = JObj [(''valid'', JBool True), (''credential'', vc_credential res),
     (''issuer'', vc_issuer res), (''subject'', vc_subject res),
     (''expiresAt'', opt_date (vc_expiresAt res)), (''issuedAt'', opt_date (vc_issuedAt res))]"

section \<open>Policy evaluation\<close>

definition EvaluationCredential :: tsType where
  "EvaluationCredential = TsObject [property ''issuer'' TsString, property ''subject'' TsString,
     optional ''role'' TsString]"

definition EvaluationRuntimeContext :: tsType where
  "EvaluationRuntimeContext = TsObject [property ''time'' TsDate, property ''resource'' TsString,
     property ''action'' TsString]"

definition EvaluationContext :: tsType where
  "EvaluationContext = TsObject [property ''credential'' EvaluationCredential,
     property ''context'' EvaluationRuntimeContext]"

definition EvaluationInput :: tsType where
  "EvaluationInput = TsObject [property ''requestedActions'' (TsArray TsString),
     property ''context'' EvaluationContext]"

section \<open>Facts\<close>

abbreviation opt_string :: "jsval \<Rightarrow> bool" where
  "opt_string v \<equiv> v = JUndef \<or> is_string v"

lemma algorithm_conforms: "conforms SupportedAlgorithm v \<longleftrightarrow> (\<exists>a \<in> set SUPPORTED_ALGORITHMS. v = JStr a)"
  by (auto simp: SupportedAlgorithm_def SUPPORTED_ALGORITHMS_def split: jsval.splits)

lemma validated_algorithm: "validateAlgorithm header = Inr u \<longleftrightarrow> conforms SupportedAlgorithm (get_prop header ''alg'')"
  by (auto simp: validateAlgorithm_def algorithm_conforms arr_includes_strings Let_def split: if_splits)

lemma opt_date_conforms [simp]: "opt_date d = JUndef \<or> conforms TsDate (opt_date d)"
  by (simp add: opt_date_def split: option.split)

lemma conforms_opt [simp]: "(if v = JUndef then True else conforms TsString v) \<longleftrightarrow> opt_string v"
  "(if v = JUndef then False else conforms TsString v) \<longleftrightarrow> is_string v"
  by auto

lemma credential_defined [simp]: "\<not> conforms VerifiableCredential JUndef"
  by (simp add: VerifiableCredential_def)

lemma result_conforms:
  "conforms VCVerificationResult (result_object (buildResult p)) \<longleftrightarrow>
     conforms VerifiableCredential (get_prop p ''vc'') \<and> is_string (get_prop p ''iss'') \<and>
     opt_string (get_prop p ''sub'')"
  by (auto simp: VCVerificationResult_def result_object_def buildResult_def opt_date_def Let_def)

text \<open>The claim of a credential's subject; where a name occurs twice, the last one counts.\<close>

definition claim :: "jsval \<Rightarrow> string \<Rightarrow> jsval option" where
  "claim credentialSubject k = jm_get (rev (object_entries credentialSubject)) k"

lemma claims_copied:
  assumes "k \<noteq> ''id''" and "k \<noteq> ''role''"
  shows "jm_get (foldl (\<lambda>m (key, v). if key \<noteq> ''id'' \<and> key \<noteq> ''role'' then jm_set m key v else m) m es) k =
    (case jm_get (rev es) k of None \<Rightarrow> jm_get m k | Some v \<Rightarrow> Some v)"
  using assms
  by (induction es rule: rev_induct) (auto simp: jm.get_put split: option.split)

lemma credential_member:
  "jm_get (buildEvaluationCredential issuer subject cs) ''issuer'' =
     (case claim cs ''issuer'' of None \<Rightarrow> Some issuer | Some v \<Rightarrow> Some v)"
  "jm_get (buildEvaluationCredential issuer subject cs) ''subject'' =
     (case claim cs ''subject'' of None \<Rightarrow> Some subject | Some v \<Rightarrow> Some v)"
  "jm_get (buildEvaluationCredential issuer subject cs) ''role'' =
     (if is_string (get_prop cs ''role'') then Some (get_prop cs ''role'') else None)"
  by (simp_all add: buildEvaluationCredential_def Let_def claims_copied copied_claims claim_def jm.get_put
      split: option.split)

lemma credential_conforms:
  "conforms EvaluationCredential (JObj (buildEvaluationCredential issuer subject cs)) \<longleftrightarrow>
     is_string (case claim cs ''issuer'' of None \<Rightarrow> issuer | Some v \<Rightarrow> v) \<and>
     is_string (case claim cs ''subject'' of None \<Rightarrow> subject | Some v \<Rightarrow> v)"
  using credential_member [of issuer subject cs]
  by (auto simp: EvaluationCredential_def Let_def split: option.splits)

lemma context_conforms:
  "conforms EvaluationContext (buildEvaluationContext credential input now) \<longleftrightarrow>
     conforms EvaluationCredential (JObj credential) \<and> pi_requestedScope input \<noteq> []"
  by (auto simp: EvaluationContext_def EvaluationCredential_def EvaluationRuntimeContext_def
      buildEvaluationContext_def member_or_undef_def Let_def split: list.splits option.splits)

text \<open>What extraction takes from a payload of the declared type.\<close>

lemma payload_members:
  assumes "conforms JwtVcPayload p"
  shows "is_string (get_prop p ''iss'')" and "opt_string (get_prop p ''sub'')"
    and "conforms CredentialSubject (get_prop (get_prop p ''vc'') ''credentialSubject'')"
proof -
  note member = conforms_member [OF assms [unfolded JwtVcPayload_def]]
  show "is_string (get_prop p ''iss'')" "opt_string (get_prop p ''sub'')"
    using member [of "''iss''" False TsString] member [of "''sub''" True TsString] by auto
  have "conforms VerifiableCredential (get_prop p ''vc'')"
    using member [of "''vc''" False VerifiableCredential] by simp
  from conforms_member [OF this [unfolded VerifiableCredential_def],
      of "''credentialSubject''" False CredentialSubject]
  show "conforms CredentialSubject (get_prop (get_prop p ''vc'') ''credentialSubject'')" by simp
qed

lemma subject_object:
  assumes "conforms CredentialSubject cs"
  shows "truthy cs" and "opt_string (get_prop cs ''id'')"
  using conforms_member [OF assms [unfolded CredentialSubject_def], of "''id''" True TsString] assms
  by (auto simp: CredentialSubject_def split: jsval.splits)

section \<open>Properties\<close>

text \<open>
  The context that policies are evaluated in: from a payload of its declared type it has its declared
  type exactly when no claim of the credential's subject named \<open>issuer\<close> or \<open>subject\<close> is something
  else than a string, and at least one action is requested.
\<close>

theorem evaluation_context_typed:
  assumes "decodeJwt jwt = Some p" and "conforms JwtVcPayload p"
    and "extractCredentialForPolicy decodeJwt jwt = Inr credential"
  shows "conforms EvaluationContext (buildEvaluationContext credential input now) \<longleftrightarrow>
    (\<forall>k \<in> {''issuer'', ''subject''}. \<forall>v.
       claim (get_prop (get_prop p ''vc'') ''credentialSubject'') k = Some v \<longrightarrow> is_string v) \<and>
    pi_requestedScope input \<noteq> []"
proof -
  let ?cs = "get_prop (get_prop p ''vc'') ''credentialSubject''"
  obtain subject where c: "credential = buildEvaluationCredential (get_prop p ''iss'') subject ?cs"
    and subject: "subject = get_prop p ''sub'' \<or> subject = get_prop ?cs ''id''" "truthy subject"
    using assms(1,3) subject_object(1) [OF payload_members(3) [OF assms(2)]]
    by (auto simp: extractCredentialForPolicy_def Let_def split: if_splits)
  have "is_string (get_prop p ''iss'')" "is_string subject"
    using payload_members(1,2) [OF assms(2)] subject_object(2) [OF payload_members(3) [OF assms(2)]] subject
    by auto
  then show ?thesis
    unfolding context_conforms c credential_conforms by (auto split: option.split)
qed

definition typed_payload :: jsval where
  "typed_payload = JObj [(''iss'', JStr ''did:key:zA''), (''sub'', JStr ''did:key:m''),
     (''vc'', JObj [(''@context'', JArr []), (''type'', JArr []), (''issuer'', JStr ''did:key:zA''),
       (''issuanceDate'', JStr ''2026-01-01T00:00:00Z''),
       (''credentialSubject'', JObj [(''issuer'', JNum 1)])])]"

theorem evaluation_context_typed_witness:
  "\<exists>credential. extractCredentialForPolicy (\<lambda>t. Some typed_payload) ''jwt'' = Inr credential \<and>
    \<not> conforms EvaluationContext (buildEvaluationContext credential sample_request 0)"
proof -
  have typed: "conforms JwtVcPayload typed_payload"
    by (simp add: typed_payload_def JwtVcPayload_def VerifiableCredential_def CredentialSubject_def)
  obtain credential where c: "extractCredentialForPolicy (\<lambda>t. Some typed_payload) ''jwt'' = Inr credential"
    by (simp add: extractCredentialForPolicy_def typed_payload_def Let_def)
  have "claim (get_prop (get_prop typed_payload ''vc'') ''credentialSubject'') ''issuer'' = Some (JNum 1)"
    by (simp add: claim_def typed_payload_def)
  with evaluation_context_typed [OF refl typed c, of sample_request 0] c show ?thesis by auto
qed

text \<open>
  A successful verification checks the signature over the payload and that it has some \<open>vc\<close>: the
  result has its declared type exactly when the signer gave the credential its type, and the issuer
  and the subject theirs. Anything truthy passes for a credential.
\<close>

theorem verification_result_typed:
  assumes "fst (vc_verify env resolver jwtVc now d) = Inr res"
  shows "\<exists>key p. ve_jwtVerify env jwtVc key SUPPORTED_ALGORITHMS (- ((- vc_clockSkewMs env) div 1000))
      = JwtVerified p \<and> res = buildResult p \<and> truthy (get_prop p ''vc'') \<and>
    (conforms VCVerificationResult (result_object res) \<longleftrightarrow>
       conforms VerifiableCredential (get_prop p ''vc'') \<and> is_string (get_prop p ''iss'') \<and>
       opt_string (get_prop p ''sub''))"
  by (rule vc_verify_Inr [OF assms], erule vc_check_Inr) (metis result_conforms)

theorem verification_result_typed_witness:
  "\<exists>res. fst (vc_verify sample_env (createDIDKeyResolver 10 2) ''jwt'' 0 0) = Inr res \<and>
    \<not> conforms VCVerificationResult (result_object res)"
proof -
  obtain p where p: "buildResult sample_payload = buildResult p"
    "conforms VCVerificationResult (result_object (buildResult sample_payload)) \<longleftrightarrow>
       conforms VerifiableCredential (get_prop p ''vc'') \<and> is_string (get_prop p ''iss'') \<and>
       opt_string (get_prop p ''sub'')"
    using verification_result_typed [OF sample_verify] by blast
  then have "get_prop p ''vc'' = get_prop sample_payload ''vc''" by (simp add: buildResult_def)
  with p(2) sample_verify show ?thesis
    by (auto simp: VerifiableCredential_def sample_payload_def)
qed

end
