(* ===== verification/SignalingClient.thy ===== *)
theory SignalingClient
  imports Signaling
begin

text \<open>
  The console's end of the signaling connection (\<open>hooks/useSignaling.ts\<close>), and what the two ends do
  together: what the client sends is what the gateway's handlers expect, an offer crosses the gateway
  unchanged, and a revocation reaches the client's state.

  A socket is a number, new for each connection, with its ready state; the events of a socket that
  was replaced still arrive. What is sent on a socket are texts. A message's members come from the
  other side unchecked and are passed to the handlers as they are. Handlers are modelled by the
  calls made to them.
\<close>

section \<open>State\<close>

datatype connectionStatus = StDisconnected | StConnecting | StConnected | StError

record signalingClient =
  sc_ws :: "(nat \<times> nat) option"
  sc_nextSocket :: nat
  sc_status :: connectionStatus
  sc_revocationReason :: "jsval option"

datatype signalingCall =
    OnOffer jsval jsval
  | OnAnswer jsval jsval
  | OnIceCandidate jsval jsval
  | OnSessionState jsval jsval
  | OnRevoked jsval jsval
  | OnError jsval jsval

definition useSignaling :: signalingClient where
  "useSignaling = \<lparr>sc_ws = None, sc_nextSocket = 1, sc_status = StDisconnected, sc_revocationReason = None\<rparr>"

section \<open>Receiving\<close>

text \<open>\<open>a || b\<close>.\<close>

definition js_or :: "jsval \<Rightarrow> jsval \<Rightarrow> jsval" where
  "js_or a b = (if truthy a then a else b)"

definition received ::
    "jsval \<Rightarrow> signalingClient \<Rightarrow> signalingClient \<times> signalingCall list" where
  "received msg sc =
     (let t = get_prop msg ''type''; session_id = get_prop msg ''session_id'' in
      if t = JStr ''offer'' then
        (sc, if truthy session_id \<and> truthy (get_prop msg ''sdp'')
             then [OnOffer session_id (get_prop msg ''sdp'')] else [])
      else if t = JStr ''answer'' then
        (sc, if truthy session_id \<and> truthy (get_prop msg ''sdp'')
             then [OnAnswer session_id (get_prop msg ''sdp'')] else [])
      else if t = JStr ''ice'' then
        (sc, if truthy session_id \<and> truthy (get_prop msg ''candidate'')
             then [OnIceCandidate session_id (get_prop msg ''candidate'')] else [])
      else if t = JStr ''session_state'' then
        (sc, if truthy session_id \<and> truthy (get_prop msg ''state'')
             then [OnSessionState session_id (get_prop msg ''state'')] else [])
      else if t = JStr ''revoked'' then
        (let reason = js_or (get_prop msg ''reason'') (JStr ''Unknown reason'')
         in (sc\<lparr>sc_revocationReason := Some reason\<rparr>,
             [OnRevoked (js_or session_id (JStr [])) reason]))
      else if t = JStr ''error'' then
        (sc, [OnError (js_or (get_prop msg ''code'') (JStr ''UNKNOWN''))
                (js_or (get_prop msg ''message'') (JStr ''Unknown error''))])
      else (sc, []))"

definition handleSignal ::
    "string \<Rightarrow> signalingClient \<Rightarrow> jsException + signalingClient \<times> signalingCall list" where
  "handleSignal data sc =
     (case json_parse data of
        None \<Rightarrow> Inr (sc, [])
      | Some msg \<Rightarrow> if msg = JNull then Inl TypeError else Inr (received msg sc))"

section \<open>The connection\<close>

text \<open>The effect: cleanup closes the last socket, then a new one is opened when enabled.\<close>

definition client_effect :: "bool \<Rightarrow> signalingClient \<Rightarrow> signalingClient" where
  "client_effect enabled sc =
     (let sc1 = sc\<lparr>sc_ws := None\<rparr>
      in if enabled
         then sc1\<lparr>sc_ws := Some (sc_nextSocket sc, 0), sc_nextSocket := Suc (sc_nextSocket sc),
                  sc_status := StConnecting, sc_revocationReason := None\<rparr>
         else sc1)"

definition set_ready :: "nat \<Rightarrow> nat \<Rightarrow> signalingClient \<Rightarrow> signalingClient" where
  "set_ready ws readyState sc =
     (case sc_ws sc of
        None \<Rightarrow> sc
      | Some (cur, r) \<Rightarrow> if cur = ws then sc\<lparr>sc_ws := Some (cur, readyState)\<rparr> else sc)"

definition client_onopen :: "nat \<Rightarrow> signalingClient \<Rightarrow> signalingClient" where
  "client_onopen ws sc = (set_ready ws 1 sc)\<lparr>sc_status := StConnected\<rparr>"

definition client_onclose :: "nat \<Rightarrow> signalingClient \<Rightarrow> signalingClient" where
  "client_onclose ws sc = (set_ready ws 3 sc)\<lparr>sc_status := StDisconnected\<rparr>"

definition client_onerror :: "signalingClient \<Rightarrow> signalingClient" where
  "client_onerror sc = sc\<lparr>sc_status := StError\<rparr>"

definition client_disconnect :: "signalingClient \<Rightarrow> signalingClient" where
  "client_disconnect sc = sc\<lparr>sc_ws := None, sc_status := StDisconnected\<rparr>"

section \<open>Sending\<close>

definition client_send :: "jsval \<Rightarrow> signalingClient \<Rightarrow> string list" where
  "client_send msg sc =
     (case sc_ws sc of
        None \<Rightarrow> []
      | Some (ws, readyState) \<Rightarrow> if readyState = 1 then [json_stringify msg] else [])"

definition sendJoin :: "string \<Rightarrow> string \<Rightarrow> string \<Rightarrow> signalingClient \<Rightarrow> string list" where
  "sendJoin sessionId role token =
     client_send (JObj [(''type'', JStr ''join''), (''session_id'', JStr sessionId),
       (''role'', JStr role), (''token'', JStr token)])"

definition sendOffer :: "string \<Rightarrow> jsval \<Rightarrow> signalingClient \<Rightarrow> string list" where
  "sendOffer sessionId sdp =
     client_send (JObj [(''type'', JStr ''offer''), (''session_id'', JStr sessionId), (''sdp'', sdp)])"

definition sendAnswer :: "string \<Rightarrow> jsval \<Rightarrow> signalingClient \<Rightarrow> string list" where
  "sendAnswer sessionId sdp =
     client_send (JObj [(''type'', JStr ''answer''), (''session_id'', JStr sessionId), (''sdp'', sdp)])"

definition sendIce :: "string \<Rightarrow> jsval \<Rightarrow> signalingClient \<Rightarrow> string list" where
  "sendIce sessionId candidate =
     client_send (JObj [(''type'', JStr ''ice''), (''session_id'', JStr sessionId),
       (''candidate'', candidate)])"

definition sendLeave :: "signalingClient \<Rightarrow> string list" where
  "sendLeave = client_send (JObj [(''type'', JStr ''leave'')])"

section \<open>The texts and their readings\<close>

lemmas client_send_defs = sendJoin_def sendOffer_def sendAnswer_def sendIce_def sendLeave_def
  client_send_def

lemma client_send_parse:
  "plain msg \<Longrightarrow> wire \<in> set (client_send msg sc) \<Longrightarrow> json_parse wire = Some msg"
  by (auto simp: client_send_def json_roundtrip_compact split: if_splits option.splits prod.splits)

text \<open>A message that a peer may send through the gateway: its type and the call it leads to.\<close>

fun relayed_call :: "string \<Rightarrow> string \<Rightarrow> jsval \<Rightarrow> signalingCall option" where
  "relayed_call t sid v =
     (if t = ''offer'' then Some (OnOffer (JStr sid) v)
      else if t = ''answer'' then Some (OnAnswer (JStr sid) v)
      else if t = ''ice'' then Some (OnIceCandidate (JStr sid) v)
      else None)"

definition relayed_wire :: "string \<Rightarrow> string \<Rightarrow> jsval \<Rightarrow> signalingClient \<Rightarrow> string list" where
  "relayed_wire t sid v =
     (if t = ''offer'' then sendOffer sid v else if t = ''answer'' then sendAnswer sid v else sendIce sid v)"

definition relayed_message :: "string \<Rightarrow> string \<Rightarrow> jsval \<Rightarrow> jsval" where
  "relayed_message t sid v =
     JObj [(''type'', JStr t), (''session_id'', JStr sid),
       (if t = ''ice'' then ''candidate'' else ''sdp'', v)]"

lemma relayed_wire_parse:
  assumes "relayed_call t sid v = Some call" and "plain v" and "wire \<in> set (relayed_wire t sid v sc)"
  shows "json_parse wire = Some (relayed_message t sid v)"
  using assms client_send_parse [of "relayed_message t sid v" wire sc]
  by (auto simp: relayed_wire_def sendOffer_def sendAnswer_def sendIce_def relayed_message_def
      split: if_splits)

lemma relayed_received:
  assumes "relayed_call t sid v = Some call" and "plain v" and "truthy v" and "sid \<noteq> []"
  shows "handleSignal (json_stringify (relayed_message t sid v)) sc = Inr (sc, [call])"
proof -
  have "json_parse (json_stringify (relayed_message t sid v)) = Some (relayed_message t sid v)"
    using assms(2) by (intro json_roundtrip_compact) (simp add: relayed_message_def)
  then show ?thesis
    using assms by (auto simp: handleSignal_def relayed_message_def received_def Let_def split: if_splits)
qed

text \<open>Handling a message opens and closes no socket of the gateway.\<close>

lemma set_state_open [simp]: "socket_open (set_state s ws sid r) w = socket_open s w"
  by (auto simp: set_state_def socket_open_def jm.get_put split: option.splits)

lemma socket_open_conns: "sg_conns s = sg_conns t \<Longrightarrow> socket_open s w = socket_open t w"
  by (simp add: socket_open_def)

lemma onMessage_open:
  "onMessage s registry ws c data now = Inr (s', registry') \<Longrightarrow> socket_open s' w = socket_open s w"
  by (auto simp: onMessage_def handleJoin_def handleLeave_def Let_def
      socket_open_conns [OF sendError_frame(2)] socket_open_conns [OF broadcast_frame(2)]
      socket_open_conns [OF joinRoom_conns] socket_open_conns [OF leaveRoom_conns]
      split: option.splits if_splits sum.splits prod.splits)

section \<open>Properties\<close>

text \<open>
  The client keeps the last revocation: it is set exactly by a \<open>revoked\<close> message, to the reason
  given or a standing phrase, and no other message changes the client's state; a text that is not
  JSON is ignored, and only the text of JSON \<open>null\<close> makes the handler throw.
\<close>

theorem client_revocation_exact:
  "handleSignal data sc =
     (case json_parse data of
        None \<Rightarrow> Inr (sc, [])
      | Some msg \<Rightarrow>
          if msg = JNull then Inl TypeError
          else Inr (if get_prop msg ''type'' = JStr ''revoked''
                    then sc\<lparr>sc_revocationReason := Some (js_or (get_prop msg ''reason'')
                           (JStr ''Unknown reason''))\<rparr> else sc,
                    snd (received msg sc)))"
  by (auto simp: handleSignal_def received_def Let_def split: option.splits)

text \<open>
  A client's join with a token the registry accepts puts it into the room of its session: the
  gateway reads the join message the client writes, and the client is then a member under its own
  peer id with the role it asked for.
\<close>

theorem client_join_admitted:
  assumes "wire \<in> set (sendJoin sid role token sc)" and "token \<noteq> []"
    and "decodeTokenClaims token = Some \<lparr>tk_jti = jti, tk_sid = sid\<rparr>"
    and "case registry of None \<Rightarrow> True | Some r \<Rightarrow> fst (reg_isValid r jti now)"
  shows "\<exists>s' registry'. onMessage s registry ws c wire now = Inr (s', registry') \<and>
    room_get s' sid (cn_peerId c) = Some \<lparr>pe_ws = ws, pe_role = JStr role, pe_sessionId = sid\<rparr>"
proof -
  define msg where "msg = JObj [(''type'', JStr ''join''), (''session_id'', JStr sid),
      (''role'', JStr role), (''token'', JStr token)]"
  have "json_parse wire = Some msg"
    using assms(1) by (intro client_send_parse [of _ _ sc]) (simp_all add: sendJoin_def msg_def)
  then have on: "onMessage s registry ws c wire now = handleJoin s registry ws c msg now"
    by (simp add: onMessage_def msg_def)
  obtain registry1 where v: "validateJoinToken registry msg now =
      Inr (Inr \<lparr>tk_jti = jti, tk_sid = sid\<rparr>, registry1)"
    using assms(2-4) by (auto simp: validateJoinToken_def msg_def Let_def case_prod_unfold split: option.splits)
  then obtain s' registry' where h: "handleJoin s registry ws c msg now = Inr (s', registry')"
    by (simp add: handleJoin_def Let_def)
  have "get_prop msg ''role'' = JStr role" by (simp add: msg_def)
  with handleJoin_room_get(1) [OF h v, of sid "cn_peerId c"] on h show ?thesis by simp
qed

theorem client_join_admitted_witness:
  "\<exists>wire s' registry'. sendJoin ''s1'' ''operator'' (unsigned_token ''j'' ''s1'')
       (client_onopen 1 (client_effect True useSignaling)) = [wire] \<and>
     onMessage one_connection None 1 \<lparr>cn_peerId = ''p1'', cn_state = \<lparr>st_sessionId = None, st_role = JNull\<rparr>,
       cn_readyState = 1\<rparr> wire 5 = Inr (s', registry') \<and> room_get s' ''s1'' ''p1'' \<noteq> None"
proof -
  let ?sc = "client_onopen 1 (client_effect True useSignaling)"
  obtain wire where wire: "sendJoin ''s1'' ''operator'' (unsigned_token ''j'' ''s1'') ?sc = [wire]"
    by (simp add: sendJoin_def client_send_def client_onopen_def client_effect_def set_ready_def
        useSignaling_def Let_def)
  have "wire \<in> set (sendJoin ''s1'' ''operator'' (unsigned_token ''j'' ''s1'') ?sc)" unfolding wire by simp
  from client_join_admitted [OF this unsigned_token_not_Nil decode_unsigned, where registry = None and now = 5 and s = one_connection and ws = 1
      and c = "\<lparr>cn_peerId = ''p1'', cn_state = \<lparr>st_sessionId = None, st_role = JNull\<rparr>, cn_readyState = 1\<rparr>"] wire
  show ?thesis by fastforce
qed

text \<open>
  (C7) An offer, an answer or a candidate crosses the gateway unchanged: what one joined client
  sends makes exactly one call of the corresponding handler, with the same session and the same
  description, at each of the other open clients of its room, and nothing at any other client.
\<close>

theorem signaling_end_to_end:
  assumes "sig_ok s" and "jm_get (sg_conns s) ws = Some c" and "joined_session c = Some sid"
    and "relayed_call t sid v = Some call" and "plain v" and "truthy v"
    and "wire \<in> set (relayed_wire t sid v sender)"
  shows "\<exists>s' xs. onMessage s registry ws c wire now = Inr (s', registry) \<and>
    sg_sent s' = sg_sent s @ map (\<lambda>w. (w, relayed_message t sid v)) xs \<and> distinct xs \<and>
    set xs = {pe_ws p | pid p. room_get s sid pid = Some p \<and> pid \<noteq> cn_peerId c \<and> socket_open s (pe_ws p)} \<and>
    (\<forall>receiver. handleSignal (json_stringify (relayed_message t sid v)) receiver = Inr (receiver, [call]))"
proof -
  have "get_prop (relayed_message t sid v) ''type'' \<in> {JStr ''offer'', JStr ''answer'', JStr ''ice''}"
    using assms(4) by (auto simp: relayed_message_def split: if_splits)
  moreover have "sid \<noteq> []" using assms(3) by (simp add: joined_session_Some)
  ultimately show ?thesis
    using relay_exact [OF assms(1-3) relayed_wire_parse [OF assms(4,5,7)], of registry now]
      relayed_received [OF assms(4-6)]
    by blast
qed

theorem signaling_end_to_end_witness:
  "\<exists>wire s'. sendOffer ''s1'' (JObj [(''type'', JStr ''offer''), (''sdp'', JStr ''v=0'')])
       (client_onopen 1 (client_effect True useSignaling)) = [wire] \<and>
     (\<exists>c. onMessage joined_signaling None 1 c wire 9 = Inr (s', None))"
proof -
  let ?sc = "client_onopen 1 (client_effect True useSignaling)"
  let ?v = "JObj [(''type'', JStr ''offer''), (''sdp'', JStr ''v=0'')]"
  obtain c where c: "jm_get (sg_conns joined_signaling) 1 = Some c" "joined_session c = Some ''s1''"
    using joined_conn by blast
  obtain wire where wire: "sendOffer ''s1'' ?v ?sc = [wire]"
    by (simp add: sendOffer_def client_send_def client_onopen_def client_effect_def set_ready_def
        useSignaling_def Let_def)
  then have "wire \<in> set (relayed_wire ''offer'' ''s1'' ?v ?sc)" by (simp add: relayed_wire_def)
  from signaling_end_to_end [OF joined_signaling_ok c _ _ _ this, of "OnOffer (JStr ''s1'') ?v" None 9] wire
  show ?thesis by auto
qed

text \<open>
  (C12) A revocation by the gateway reaches every open client of the session's room: the message sent
  to it makes the client keep the reason and report the revoked session.
\<close>

theorem revocation_reaches_client:
  assumes "jm_get (sg_rooms s) sid = Some room" and "(pid, p) \<in> set room" and "socket_open s (pe_ws p)"
    and "sid \<noteq> []" and "reason \<noteq> []"
  shows "\<exists>msg. (pe_ws p, msg) \<in> set (sg_sent (notifyRevocation s sid (JStr reason))) \<and>
    (\<forall>sc. handleSignal (json_stringify msg) sc =
       Inr (sc\<lparr>sc_revocationReason := Some (JStr reason)\<rparr>, [OnRevoked (JStr sid) (JStr reason)]))"
proof -
  let ?msg = "JObj [(''type'', JStr ''revoked''), (''session_id'', JStr sid), (''reason'', JStr reason)]"
  have "json_parse (json_stringify ?msg) = Some ?msg" by (rule json_roundtrip_compact) simp
  then have "handleSignal (json_stringify ?msg) sc =
      Inr (sc\<lparr>sc_revocationReason := Some (JStr reason)\<rparr>, [OnRevoked (JStr sid) (JStr reason)])" for sc
    using assms(4,5) by (simp add: handleSignal_def received_def js_or_def Let_def)
  moreover have "(pe_ws p, ?msg) \<in> set (sg_sent (notifyRevocation s sid (JStr reason)))"
    using assms(2,3) by (force simp: revoked_sent [OF assms(1)])
  ultimately show ?thesis by blast
qed

theorem revocation_reaches_client_witness:
  "\<exists>msg. (1, msg) \<in> set (sg_sent (notifyRevocation joined_signaling ''s1'' (JStr ''bye''))) \<and>
     handleSignal (json_stringify msg) useSignaling =
       Inr (useSignaling\<lparr>sc_revocationReason := Some (JStr ''bye'')\<rparr>,
            [OnRevoked (JStr ''s1'') (JStr ''bye'')])"
proof -
  obtain room where room: "jm_get (sg_rooms joined_signaling) ''s1'' = Some room"
    "jm_get room ''p1'' = Some \<lparr>pe_ws = 1, pe_role = JStr ''operator'', pe_sessionId = ''s1''\<rparr>"
    using joined_signaling_facts(2) by (auto simp: room_get_def bind_eq_Some_conv)
  have member: "(''p1'', \<lparr>pe_ws = 1, pe_role = JStr ''operator'', pe_sessionId = ''s1''\<rparr>) \<in> set room"
    using map_of_SomeD [OF room(2)] .
  have "socket_open joined_signaling 1"
    using onMessage_open [OF joined_signaling_facts(1), of 1] one_connection_get
    by (simp add: socket_open_def)
  with revocation_reaches_client [OF room(1) member, of "''bye''"] show ?thesis by auto
qed

end
