(* ===== verification/SignalingTypes.thy ===== *)
theory SignalingTypes
  imports SignalingClient Revocations
begin

text \<open>
  The declared type of signaling messages (\<open>types.ts\<close>), against what the two ends send: the messages
  the gateway makes itself have it, save that the reason of a revocation is what the request had for it,
  of any type; a relayed one is what a peer sent, and the console's client sends some that do not have it.
\<close>

section \<open>The declared type\<close>

datatype peerRole = Operator | Robot

datatype signalingMessage =
    JoinMessage string peerRole string
  | OfferMessage string string
  | AnswerMessage string string
  | IceCandidateMessage string string
  | LeaveMessage string
  | SessionStateMessage string string
  | RevokedMessage string string
  | ErrorMessage string string

fun role_text :: "peerRole \<Rightarrow> string" where
  "role_text Operator = ''operator''"
| "role_text Robot = ''robot''"

fun message_json :: "signalingMessage \<Rightarrow> jsval" where
  "message_json (JoinMessage session_id role token) =
     JObj [(''type'', JStr ''join''), (''session_id'', JStr session_id),
       (''role'', JStr (role_text role)), (''token'', JStr token)]"
| "message_json (OfferMessage session_id sdp) =
     JObj [(''type'', JStr ''offer''), (''session_id'', JStr session_id), (''sdp'', JStr sdp)]"
| "message_json (AnswerMessage session_id sdp) =
     JObj [(''type'', JStr ''answer''), (''session_id'', JStr session_id), (''sdp'', JStr sdp)]"
| "message_json (IceCandidateMessage session_id candidate) =
     JObj [(''type'', JStr ''ice''), (''session_id'', JStr session_id), (''candidate'', JStr candidate)]"
| "message_json (LeaveMessage session_id) =
     JObj [(''type'', JStr ''leave''), (''session_id'', JStr session_id)]"
| "message_json (SessionStateMessage session_id state) =
     JObj [(''type'', JStr ''session_state''), (''session_id'', JStr session_id), (''state'', JStr state)]"
| "message_json (RevokedMessage session_id reason) =
     JObj [(''type'', JStr ''revoked''), (''session_id'', JStr session_id), (''reason'', JStr reason)]"
| "message_json (ErrorMessage code message) =
     JObj [(''type'', JStr ''error''), (''code'', JStr code), (''message'', JStr message)]"

definition well_typed :: "jsval \<Rightarrow> bool" where
  "well_typed v \<longleftrightarrow> (\<exists>m. v = message_json m)"

section \<open>What a step sends\<close>

definition sends :: "(jsval \<Rightarrow> bool) \<Rightarrow> signaling \<Rightarrow> signaling \<Rightarrow> bool" where
  "sends P s s' \<longleftrightarrow> (\<exists>new. sg_sent s' = sg_sent s @ new \<and> (\<forall>x \<in> set new. P (snd x)))"

lemma sends_refl [simp]: "sends P s s"
  by (simp add: sends_def)

lemma sends_trans: "sends P s t \<Longrightarrow> sends P t u \<Longrightarrow> sends P s u"
  by (fastforce simp: sends_def)

lemma sends_frame [simp]:
  "sends P s (t\<lparr>sg_rooms := x\<rparr>) \<longleftrightarrow> sends P s t" "sends P s (t\<lparr>sg_conns := y\<rparr>) \<longleftrightarrow> sends P s t"
  "sends P (s\<lparr>sg_rooms := x\<rparr>) t \<longleftrightarrow> sends P s t" "sends P (s\<lparr>sg_conns := y\<rparr>) t \<longleftrightarrow> sends P s t"
  by (simp_all add: sends_def)

lemma sends_send: "sends P s t \<Longrightarrow> P v \<Longrightarrow> sends P s (ws_send t ws v)"
  by (fastforce simp: sends_def ws_send_def)

lemma sends_broadcast: "sends P s t \<Longrightarrow> P v \<Longrightarrow> sends P s (broadcast t sid v ex)"
  by (erule sends_trans) (fastforce simp: sends_def broadcast_sent split: option.splits)

lemma sends_error: "sends P s t \<Longrightarrow> P (JObj [(''type'', JStr ''error''),
    (''code'', JStr code), (''message'', JStr m)]) \<Longrightarrow> sends P s (sendError t ws code m)"
  by (simp add: sendError_def sends_send)

lemma sends_leave: "sends P s t \<Longrightarrow> sends P s (leaveRoom t pid sid)"
  by (simp add: leaveRoom_def Let_def split: option.splits)

lemma sends_join: "sends P s t \<Longrightarrow> sends P s (joinRoom t pid sid ws role)"
  by (simp add: joinRoom_def Let_def)

lemma sends_state: "sends P s t \<Longrightarrow> sends P s (set_state t ws sid role)"
  by (simp add: set_state_def split: option.splits)

lemma typed_error [simp]:
  "well_typed (JObj [(''type'', JStr ''error''), (''code'', JStr code), (''message'', JStr m)])"
  unfolding well_typed_def by (rule exI [of _ "ErrorMessage code m"]) simp

lemma typed_session_state [simp]: "well_typed (session_state_msg sid state)"
  unfolding well_typed_def session_state_msg_def
  by (rule exI [of _ "SessionStateMessage sid state"]) simp

abbreviation revoked_msg :: "string \<Rightarrow> jsval \<Rightarrow> jsval" where
  "revoked_msg sid reason \<equiv> JObj [(''type'', JStr ''revoked''), (''session_id'', JStr sid), (''reason'', reason)]"

text \<open>A \<open>revoked\<close> message has its type exactly if the reason is a string.\<close>

lemma typed_revoked: "well_typed (revoked_msg sid reason) \<longleftrightarrow> is_string reason"
proof
  show "is_string reason" if "well_typed (revoked_msg sid reason)"
  proof -
    obtain m where "revoked_msg sid reason = message_json m" using \<open>well_typed _\<close> by (auto simp: well_typed_def)
    then show ?thesis by (cases m) auto
  qed
  show "well_typed (revoked_msg sid reason)" if string: "is_string reason"
  proof -
    obtain r where "reason = JStr r" using string by (cases reason) auto
    then show ?thesis unfolding well_typed_def by (intro exI [of _ "RevokedMessage sid r"]) simp
  qed
qed

lemmas sends_rules = sends_send sends_broadcast sends_error sends_leave sends_join sends_state

lemma join_sends:
  "handleJoin s registry ws c msg now = Inr (s', registry') \<Longrightarrow> sends well_typed s s'"
  by (auto simp: handleJoin_def Let_def intro!: sends_rules split: sum.splits prod.splits option.splits)

lemma leave_sends: "sends well_typed s (handleLeave s ws c)"
  by (auto simp: handleLeave_def Let_def intro!: sends_rules split: option.splits)

lemma disconnect_sends: "sends well_typed s (handleDisconnect s c)"
  by (auto simp: handleDisconnect_def Let_def intro!: sends_rules split: option.splits)

lemma notify_sends: "sends (\<lambda>v. v = revoked_msg sid reason) s (notifyRevocation s sid reason)"
proof (cases "jm_get (sg_rooms s) sid")
  case None
  then show ?thesis by (simp add: notifyRevocation_def broadcast_def)
next
  case (Some room)
  from revoked_sent [OF this, of reason] show ?thesis by (force simp: sends_def)
qed

text \<open>A message that the handler relays as it came.\<close>

definition relayable :: "string \<Rightarrow> jsval \<Rightarrow> bool" where
  "relayable data v \<longleftrightarrow> json_parse data = Some v \<and>
     get_prop v ''type'' \<in> {JStr ''offer'', JStr ''answer'', JStr ''ice''}"

lemma sends_mono: "sends P s t \<Longrightarrow> (\<And>v. P v \<Longrightarrow> Q v) \<Longrightarrow> sends Q s t"
  by (auto simp: sends_def)

lemma message_sends:
  assumes "onMessage s registry ws c data now = Inr (s', registry')"
  shows "sends (\<lambda>v. well_typed v \<or> relayable data v) s s'"
proof (cases "\<exists>msg sid. json_parse data = Some msg \<and> joined_session c = Some sid \<and>
    get_prop msg ''type'' \<in> {JStr ''offer'', JStr ''answer'', JStr ''ice''}")
  case True
  then obtain msg sid where m: "json_parse data = Some msg" "joined_session c = Some sid"
    "get_prop msg ''type'' \<in> {JStr ''offer'', JStr ''answer'', JStr ''ice''}" by blast
  then have "msg \<noteq> JNull" "msg \<noteq> JUndef" "get_prop msg ''type'' \<noteq> JStr ''join''" by auto
  with assms m have "s' = broadcast s sid msg (Some (cn_peerId c))"
    by (auto simp: onMessage_def Let_def)
  then show ?thesis using m by (auto simp: relayable_def intro: sends_broadcast)
next
  case False
  have "(\<exists>msg. handleJoin s registry ws c msg now = Inr (s', registry')) \<or> s' = handleLeave s ws c \<or>
      (\<exists>code m. s' = sendError s ws code m)"
  proof (cases "json_parse data")
    case None
    with assms show ?thesis by (auto simp: onMessage_def)
  next
    case (Some msg)
    let ?t = "get_prop msg ''type''"
    have "?t = JStr ''offer'' \<or> ?t = JStr ''answer'' \<or> ?t = JStr ''ice'' \<Longrightarrow> joined_session c = None"
      using False Some by (cases "joined_session c") auto
    with assms Some show ?thesis
      by (cases "?t = JStr ''join''"; cases "?t = JStr ''offer'' \<or> ?t = JStr ''answer'' \<or> ?t = JStr ''ice''";
          cases "?t = JStr ''leave''") (auto simp: onMessage_def Let_def split: if_splits)
  qed
  then have "sends well_typed s s'"
    by (elim disjE exE) (erule join_sends, simp add: leave_sends, simp add: sends_error)
  then show ?thesis by (rule sends_mono) blast
qed

section \<open>Properties\<close>

text \<open>
  (C28) Every message the gateway sends is of the declared type, with two exceptions: an offer, answer or
  candidate is relayed exactly as a peer sent it, and the \<open>revoked\<close> message carries the reason of the
  revocation as it is, which is not checked to be a string. Messages already sent are never altered.
\<close>

theorem gateway_messages_typed:
  assumes "sig_step (s, registry) e (s', registry')"
  shows "\<exists>new. sg_sent s' = sg_sent s @ new \<and> (\<forall>(ws, v) \<in> set new. (\<exists>m. v = message_json m) \<or>
     (\<exists>ws' data now. e = Message ws' data now \<and> json_parse data = Some v \<and>
        get_prop v ''type'' \<in> {JStr ''offer'', JStr ''answer'', JStr ''ice''}) \<or>
     (\<exists>sid reason. e = Revoke sid reason \<and> \<not> is_string reason \<and> v = revoked_msg sid reason))"
proof -
  let ?P = "\<lambda>v. well_typed v \<or> (\<exists>ws data now. e = Message ws data now \<and> relayable data v) \<or>
    (\<exists>sid reason. e = Revoke sid reason \<and> \<not> is_string reason \<and> v = revoked_msg sid reason)"
  have "sends ?P s s'" using assms
  proof (cases rule: sig_step.cases)
    case (connect ws peerId)
    then show ?thesis by (simp add: onConnect_def)
  next
    case (message ws c data now)
    show ?thesis by (rule sends_mono [OF message_sends [OF message(4)]]) (use message(1) in blast)
  next
    case (close ws c)
    have "sends well_typed s s'"
      using disconnect_sends [of "s\<lparr>sg_conns := jm_set (sg_conns s) ws (c\<lparr>cn_readyState := 3\<rparr>)\<rparr>" c] close(2)
      by (simp add: onClose_def Let_def)
    then show ?thesis by (rule sends_mono) blast
  next
    case (revoke sid reason)
    have "sends (\<lambda>v. v = revoked_msg sid reason) s s'" using revoke(2) notify_sends by simp
    then show ?thesis by (rule sends_mono) (use revoke(1) typed_revoked in blast)
  qed
  then obtain new where new: "sg_sent s' = sg_sent s @ new" "\<forall>x \<in> set new. ?P (snd x)"
    unfolding sends_def by blast
  then show ?thesis unfolding well_typed_def relayable_def case_prod_unfold by blast
qed

theorem gateway_messages_typed_witness:
  "\<exists>new. sg_sent joined_signaling = sg_sent one_connection @ new \<and>
     (\<forall>(ws, v) \<in> set new. (\<exists>m. v = message_json m) \<or> get_prop v ''type'' \<noteq> JStr ''join'')"
proof -
  have "sig_step (one_connection, None)
      (Message 1 (join_text ''s1'' (unsigned_token ''j'' ''s1'')) 5) (joined_signaling, None)"
    by (rule sig_step.message [OF one_connection_get _ joined_signaling_facts(1)]) simp
  from gateway_messages_typed [OF this] show ?thesis by fastforce
qed

text \<open>
  The second exception is real: a revocation request without a reason makes the gateway send each open member
  of the session's room a \<open>revoked\<close> message that is not of the declared type.
\<close>

theorem reasonless_revocation_untyped:
  assumes "jm_get (sg_rooms s) sid = Some room" and "(pid, p) \<in> set room" and "socket_open s (pe_ws p)"
    and "reason = rq_reason (JObj [(''session_id'', JStr sid)])"
  shows "\<exists>v. (pe_ws p, v) \<in> set (sg_sent (notifyRevocation s sid reason)) \<and> get_prop v ''type'' = JStr ''revoked'' \<and>
    (\<nexists>m. v = message_json m)"
proof -
  have "reason = JUndef" unfolding assms(4) by simp
  then have "\<nexists>m. revoked_msg sid reason = message_json m"
    using typed_revoked [of sid reason] by (auto simp: well_typed_def)
  moreover have "(pe_ws p, revoked_msg sid reason) \<in> set (sg_sent (notifyRevocation s sid reason))"
    using assms(2,3) by (force simp: revoked_sent [OF assms(1)])
  moreover have "get_prop (revoked_msg sid reason) ''type'' = JStr ''revoked''" by simp
  ultimately show ?thesis by blast
qed

theorem reasonless_revocation_untyped_witness:
  "\<exists>v. (1, v) \<in> set (sg_sent (notifyRevocation joined_signaling ''s1'' JUndef)) \<and> (\<nexists>m. v = message_json m)"
proof -
  obtain room where room: "jm_get (sg_rooms joined_signaling) ''s1'' = Some room"
    "jm_get room ''p1'' = Some \<lparr>pe_ws = 1, pe_role = JStr ''operator'', pe_sessionId = ''s1''\<rparr>"
    using joined_signaling_facts(2) by (auto simp: room_get_def bind_eq_Some_conv)
  have member: "(''p1'', \<lparr>pe_ws = 1, pe_role = JStr ''operator'', pe_sessionId = ''s1''\<rparr>) \<in> set room"
    using map_of_SomeD [OF room(2)] .
  have "socket_open joined_signaling 1"
    using onMessage_open [OF joined_signaling_facts(1), of 1] one_connection_get
    by (simp add: socket_open_def)
  with reasonless_revocation_untyped [OF room(1) member, of JUndef] show ?thesis by auto
qed

text \<open>
  The client does not keep to the declared type: its leave message names no session, and a
  session description it sends is an object where the type has a string.
\<close>

theorem client_messages_untyped:
  assumes "wire \<in> set (sendLeave sc) \<union> set (sendOffer sid (JObj ms) sc)" and "plain (JObj ms)"
  shows "\<exists>v. json_parse wire = Some v \<and> (\<nexists>m. v = message_json m)"
proof -
  let ?leave = "JObj [(''type'', JStr ''leave'')]"
  let ?offer = "JObj [(''type'', JStr ''offer''), (''session_id'', JStr sid), (''sdp'', JObj ms)]"
  have "json_parse wire = Some ?leave \<or> json_parse wire = Some ?offer"
    using assms client_send_parse [of ?leave wire sc] client_send_parse [of ?offer wire sc]
    by (auto simp: sendLeave_def sendOffer_def)
  moreover have "?leave \<noteq> message_json m" "?offer \<noteq> message_json m" for m by (cases m; simp)+
  ultimately show ?thesis by blast
qed

theorem client_messages_untyped_witness:
  "\<exists>wire v. sendLeave (client_onopen 1 (client_effect True useSignaling)) = [wire] \<and>
     json_parse wire = Some v \<and> (\<nexists>m. v = message_json m)"
proof -
  let ?sc = "client_onopen 1 (client_effect True useSignaling)"
  obtain wire where wire: "sendLeave ?sc = [wire]"
    by (simp add: sendLeave_def client_send_def client_onopen_def client_effect_def set_ready_def
        useSignaling_def Let_def)
  then have "wire \<in> set (sendLeave ?sc) \<union> set (sendOffer ''s'' (JObj []) ?sc)" by simp
  from client_messages_untyped [OF this] wire show ?thesis by auto
qed

end
