(* ===== verification/ClientTypes.thy ===== *)
theory ClientTypes
  imports SignalingTypes ApiTypes
begin

text \<open>
  The declared type of messages in the console's signaling client (\<open>hooks/useSignaling.ts\<close>), against
  what the client sends, what it passes to the handlers of its caller, and the type that the gateway
  declares for the same messages. The types of session descriptions and candidates are the browser's.
\<close>

section \<open>The declared types\<close>

definition RTCSessionDescriptionInit :: tsType where
  "RTCSessionDescriptionInit =
     TsObject [property ''type'' (TsLiteral [''answer'', ''offer'', ''pranswer'', ''rollback'']),
       optional ''sdp'' TsString]"

definition RTCIceCandidateInit :: tsType where
  "RTCIceCandidateInit =
     TsObject [optional ''candidate'' TsString, optional ''sdpMLineIndex'' (TsUnion TsNumber TsNull),
       optional ''sdpMid'' (TsUnion TsString TsNull), optional ''usernameFragment'' (TsUnion TsString TsNull)]"

definition SignalingMessageType :: tsType where
  "SignalingMessageType =
     TsLiteral [''join'', ''offer'', ''answer'', ''ice'', ''leave'', ''session_state'', ''revoked'', ''error'']"

definition SignalingMessage :: tsType where
  "SignalingMessage = TsObject [property ''type'' SignalingMessageType, optional ''session_id'' TsString,
     optional ''role'' (TsLiteral [''operator'', ''robot'']), optional ''token'' TsString,
     optional ''sdp'' RTCSessionDescriptionInit, optional ''candidate'' RTCIceCandidateInit,
     optional ''state'' TsString, optional ''reason'' TsString, optional ''code'' TsString,
     optional ''message'' TsString]"

text \<open>The arguments that the handlers of \<open>UseSignalingOptions\<close> take.\<close>

fun call_typed :: "signalingCall \<Rightarrow> bool" where
  "call_typed (OnOffer sid sdp) = (is_string sid \<and> conforms RTCSessionDescriptionInit sdp)"
| "call_typed (OnAnswer sid sdp) = (is_string sid \<and> conforms RTCSessionDescriptionInit sdp)"
| "call_typed (OnIceCandidate sid candidate) = (is_string sid \<and> conforms RTCIceCandidateInit candidate)"
| "call_typed (OnSessionState sid state) = (is_string sid \<and> is_string state)"
| "call_typed (OnRevoked sid reason) = (is_string sid \<and> is_string reason)"
| "call_typed (OnError code message) = (is_string code \<and> is_string message)"

section \<open>Facts\<close>

lemma message_member:
  assumes "conforms SignalingMessage v"
  shows "truthy (get_prop v ''session_id'') \<Longrightarrow> conforms TsString (get_prop v ''session_id'')"
    and "truthy (get_prop v ''state'') \<Longrightarrow> conforms TsString (get_prop v ''state'')"
    and "truthy (get_prop v ''reason'') \<Longrightarrow> conforms TsString (get_prop v ''reason'')"
    and "truthy (get_prop v ''code'') \<Longrightarrow> conforms TsString (get_prop v ''code'')"
    and "truthy (get_prop v ''message'') \<Longrightarrow> conforms TsString (get_prop v ''message'')"
    and "truthy (get_prop v ''sdp'') \<Longrightarrow> conforms RTCSessionDescriptionInit (get_prop v ''sdp'')"
    and "truthy (get_prop v ''candidate'') \<Longrightarrow> conforms RTCIceCandidateInit (get_prop v ''candidate'')"
  by (rule truthy_member [OF assms [unfolded SignalingMessage_def]]; simp)+

lemma string_not_description:
  "\<not> conforms RTCSessionDescriptionInit (JStr s)" "\<not> conforms RTCIceCandidateInit (JStr s)"
  by (simp_all add: RTCSessionDescriptionInit_def RTCIceCandidateInit_def)

lemma role_text_values: "role_text r \<in> {''operator'', ''robot''}"
  by (cases r) simp_all

lemma sent_conforms:
  "role \<in> {''operator'', ''robot''} \<Longrightarrow> conforms SignalingMessage (JObj [(''type'', JStr ''join''),
     (''session_id'', JStr sid), (''role'', JStr role), (''token'', JStr token)])"
  "conforms RTCSessionDescriptionInit v \<Longrightarrow> conforms SignalingMessage (JObj [(''type'', JStr ''offer''),
     (''session_id'', JStr sid), (''sdp'', v)])"
  "conforms RTCSessionDescriptionInit v \<Longrightarrow> conforms SignalingMessage (JObj [(''type'', JStr ''answer''),
     (''session_id'', JStr sid), (''sdp'', v)])"
  "conforms RTCIceCandidateInit v \<Longrightarrow> conforms SignalingMessage (JObj [(''type'', JStr ''ice''),
     (''session_id'', JStr sid), (''candidate'', v)])"
  "conforms SignalingMessage (JObj [(''type'', JStr ''leave'')])"
  by (auto simp: SignalingMessage_def SignalingMessageType_def)

section \<open>Properties\<close>

text \<open>
  From a message of the client's type, the handlers get arguments of their types, and the reason kept
  for a revocation is a string.
\<close>

theorem received_calls_typed:
  assumes "conforms SignalingMessage v"
  shows "list_all call_typed (snd (received v sc)) \<and>
    (\<forall>reason. sc_revocationReason (fst (received v sc)) = Some reason \<longrightarrow>
       sc_revocationReason sc = Some reason \<or> is_string reason)"
  using message_member [OF assms] by (simp add: received_def Let_def js_or_def)

theorem received_calls_typed_witness:
  "list_all call_typed (snd (received (JObj [(''type'', JStr ''revoked'')]) useSignaling))"
  using received_calls_typed [of "JObj [(''type'', JStr ''revoked'')]" useSignaling]
  by (simp add: SignalingMessage_def SignalingMessageType_def)

text \<open>What the client sends has the client's type, when its arguments have theirs.\<close>

theorem client_messages_typed:
  assumes "wire \<in> set (sendJoin sid role token sc) \<and> role \<in> {''operator'', ''robot''} \<or>
      wire \<in> set (sendOffer sid v sc) \<union> set (sendAnswer sid v sc) \<and> plain v \<and>
        conforms RTCSessionDescriptionInit v \<or>
      wire \<in> set (sendIce sid v sc) \<and> plain v \<and> conforms RTCIceCandidateInit v \<or>
      wire \<in> set (sendLeave sc)"
  shows "\<exists>msg. json_parse wire = Some msg \<and> conforms SignalingMessage msg"
proof -
  obtain m where "wire \<in> set (client_send m sc)" "plain m" "conforms SignalingMessage m"
    using assms
  proof (elim disjE conjE UnE)
    assume "wire \<in> set (sendLeave sc)"
    then show ?thesis using sent_conforms(5) by (intro that) (simp_all add: sendLeave_def)
  qed (auto simp: sendJoin_def sendOffer_def sendAnswer_def sendIce_def sent_conforms intro: that)
  then show ?thesis using client_send_parse by blast
qed

theorem client_messages_typed_witness:
  "\<exists>wire msg. sendLeave (client_onopen 1 (client_effect True useSignaling)) = [wire] \<and>
     json_parse wire = Some msg \<and> conforms SignalingMessage msg"
proof -
  let ?sc = "client_onopen 1 (client_effect True useSignaling)"
  obtain wire where wire: "sendLeave ?sc = [wire]"
    by (simp add: sendLeave_def client_send_def client_onopen_def client_effect_def set_ready_def
        useSignaling_def Let_def)
  then show ?thesis using client_messages_typed [of wire "[]" "[]" "[]" ?sc JNull] by simp
qed

text \<open>
  The two ends declare different types: a message of the gateway's type has the client's type exactly
  when it carries no session description or candidate, which are strings there and objects here.
\<close>

theorem declared_types_disagree:
  "conforms SignalingMessage (message_json m) \<longleftrightarrow>
     get_prop (message_json m) ''type'' \<notin> {JStr ''offer'', JStr ''answer'', JStr ''ice''}"
  using role_text_values
  by (cases m) (auto simp: SignalingMessage_def SignalingMessageType_def string_not_description)

end
