(* ===== verification/KeyboardInput.thy ===== *)
theory KeyboardInput
  imports Prelude
begin

text \<open>
  The keyboard of the operator console (\<open>hooks/useKeyboardInput.ts\<close>): the keys held down, the drive
  command they give, the emergency stop and the debouncing of repeated events.

  The hook's state is the set of pressed keys and the time of the last repeated event; \<open>enabled\<close> and
  \<open>debounceMs\<close> are its options. The event listeners are attached exactly while the hook is enabled.
  A handler of the caller is modelled by the call made to it: \<open>kb_step\<close> returns the calls in order.
  A key is named by its \<open>code\<close>; the codes that browsers report are not names of properties every
  JavaScript object inherits, so the lookup in \<open>DRIVE_KEYS\<close> finds only its own entries.
\<close>

section \<open>Keys\<close>

record driveCommand =
  dc_v :: int
  dc_w :: int

definition DRIVE_KEYS :: "(string \<times> driveCommand) list" where
  "DRIVE_KEYS =
     [(''KeyW'', \<lparr>dc_v = 1, dc_w = 0\<rparr>),
      (''KeyS'', \<lparr>dc_v = -1, dc_w = 0\<rparr>),
      (''KeyA'', \<lparr>dc_v = 0, dc_w = 1\<rparr>),
      (''KeyD'', \<lparr>dc_v = 0, dc_w = -1\<rparr>),
      (''ArrowUp'', \<lparr>dc_v = 1, dc_w = 0\<rparr>),
      (''ArrowDown'', \<lparr>dc_v = -1, dc_w = 0\<rparr>),
      (''ArrowLeft'', \<lparr>dc_v = 0, dc_w = 1\<rparr>),
      (''ArrowRight'', \<lparr>dc_v = 0, dc_w = -1\<rparr>)]"

definition ESTOP_KEYS :: "string list" where
  "ESTOP_KEYS = [''Space'', ''Escape'']"

definition is_drive_key :: "string \<Rightarrow> bool" where
  "is_drive_key code = (map_of DRIVE_KEYS code \<noteq> None)"

text \<open>\<open>Math.max(-1, Math.min(1, x))\<close>.\<close>

definition clamp :: "int \<Rightarrow> int" where
  "clamp x = max (-1) (min 1 x)"

fun sum_commands :: "(string \<times> driveCommand) list \<Rightarrow> string set \<Rightarrow> int \<times> int \<Rightarrow> int \<times> int" where
  "sum_commands [] keys acc = acc"
| "sum_commands ((code, command) # rest) keys (v, w) =
     sum_commands rest keys
       (if code \<in> keys then (v + dc_v command, w + dc_w command) else (v, w))"

definition calculateDriveCommand :: "string set \<Rightarrow> driveCommand" where
  "calculateDriveCommand keys =
     (let (v, w) = sum_commands DRIVE_KEYS keys (0, 0) in \<lparr>dc_v = clamp v, dc_w = clamp w\<rparr>)"

section \<open>The hook\<close>

record keyboard =
  kb_enabled :: bool
  kb_debounceMs :: ms
  kb_pressedKeys :: "string set"
  kb_lastCommandTime :: ms

record keyEvent =
  ke_code :: string
  ke_repeat :: bool

datatype kbCall =
    OnKeyDown keyEvent
  | OnKeyUp keyEvent
  | OnDriveCommand driveCommand
  | OnEStop

definition useKeyboardInput :: "bool \<Rightarrow> ms \<Rightarrow> keyboard" where
  "useKeyboardInput enabled debounceMs =
     \<lparr>kb_enabled = enabled, kb_debounceMs = debounceMs, kb_pressedKeys = {}, kb_lastCommandTime = 0\<rparr>"

text \<open>The part of the key-down handler after the debouncing.\<close>

definition accept_key :: "keyEvent \<Rightarrow> keyboard \<Rightarrow> keyboard \<times> kbCall list" where
  "accept_key event kb =
     (if is_drive_key (ke_code event)
      then (let next_keys = insert (ke_code event) (kb_pressedKeys kb)
            in (kb\<lparr>kb_pressedKeys := next_keys\<rparr>,
                [OnKeyDown event, OnDriveCommand (calculateDriveCommand next_keys)]))
      else (kb, [OnKeyDown event]))"

definition handleKeyDown :: "keyEvent \<Rightarrow> ms \<Rightarrow> keyboard \<Rightarrow> keyboard \<times> kbCall list" where
  "handleKeyDown event now kb =
     (if \<not> kb_enabled kb then (kb, [])
      else if ke_code event \<in> set ESTOP_KEYS then (kb, [OnEStop])
      else if ke_repeat event \<and> kb_debounceMs kb > 0 then
        (if now - kb_lastCommandTime kb < kb_debounceMs kb then (kb, [])
         else accept_key event (kb\<lparr>kb_lastCommandTime := now\<rparr>))
      else accept_key event kb)"

definition handleKeyUp :: "keyEvent \<Rightarrow> keyboard \<Rightarrow> keyboard \<times> kbCall list" where
  "handleKeyUp event kb =
     (if \<not> kb_enabled kb then (kb, [])
      else if is_drive_key (ke_code event)
      then (let next_keys = kb_pressedKeys kb - {ke_code event}
            in (kb\<lparr>kb_pressedKeys := next_keys\<rparr>,
                [OnKeyUp event, OnDriveCommand (calculateDriveCommand next_keys)]))
      else (kb, [OnKeyUp event]))"

text \<open>What the effects do when the hook is rendered with another value of \<open>enabled\<close>.\<close>

definition setEnabled :: "bool \<Rightarrow> keyboard \<Rightarrow> keyboard" where
  "setEnabled enabled kb =
     (if enabled then kb\<lparr>kb_enabled := True\<rparr>
      else kb\<lparr>kb_enabled := False, kb_pressedKeys := {}\<rparr>)"

datatype kbInput =
    KeyPress keyEvent ms
  | KeyRelease keyEvent
  | Enable bool

fun kb_step :: "keyboard \<Rightarrow> kbInput \<Rightarrow> keyboard \<times> kbCall list" where
  "kb_step kb (KeyPress event now) = handleKeyDown event now kb"
| "kb_step kb (KeyRelease event) = handleKeyUp event kb"
| "kb_step kb (Enable enabled) = (setEnabled enabled kb, [])"

fun kb_run :: "keyboard \<Rightarrow> kbInput list \<Rightarrow> keyboard \<times> kbCall list" where
  "kb_run kb [] = (kb, [])"
| "kb_run kb (x # xs) =
     (let (kb', calls) = kb_step kb x; (kb'', calls') = kb_run kb' xs in (kb'', calls @ calls'))"

section \<open>Facts\<close>

lemmas kb_defs = handleKeyDown_def handleKeyUp_def accept_key_def setEnabled_def Let_def

lemma kb_run_append:
  "kb_run kb (xs @ ys) = (let (kb', calls) = kb_run kb xs; (kb'', calls') = kb_run kb' ys
     in (kb'', calls @ calls'))"
  by (induction xs arbitrary: kb) (auto simp: Let_def split: prod.splits)

text \<open>A key that acts on one axis, and the direction it drives.\<close>

definition forward_keys :: "string set" where "forward_keys = {''KeyW'', ''ArrowUp''}"
definition backward_keys :: "string set" where "backward_keys = {''KeyS'', ''ArrowDown''}"
definition left_keys :: "string set" where "left_keys = {''KeyA'', ''ArrowLeft''}"
definition right_keys :: "string set" where "right_keys = {''KeyD'', ''ArrowRight''}"

lemmas direction_defs = forward_keys_def backward_keys_def left_keys_def right_keys_def

definition held :: "string set \<Rightarrow> string set \<Rightarrow> int" where
  "held ks keys = int (card (keys \<inter> ks))"

definition ind :: "string \<Rightarrow> string set \<Rightarrow> int" where
  "ind code keys = (if code \<in> keys then 1 else 0)"

lemma held_pair: "a \<noteq> b \<Longrightarrow> held {a, b} keys = ind a keys + ind b keys"
  by (auto simp: held_def ind_def Int_insert_right)

lemma sum_commands_ind:
  "sum_commands ((code, command) # rest) keys (v, w) =
     sum_commands rest keys (v + ind code keys * dc_v command, w + ind code keys * dc_w command)"
  by (simp add: ind_def)

lemma clamp_sgn: "clamp x = sgn x"
  by (simp add: clamp_def sgn_if)

lemma drive_held:
  "calculateDriveCommand keys = \<lparr>dc_v = sgn (held forward_keys keys - held backward_keys keys),
     dc_w = sgn (held left_keys keys - held right_keys keys)\<rparr>"
  unfolding calculateDriveCommand_def DRIVE_KEYS_def sum_commands_ind direction_defs Let_def
  by (simp add: clamp_sgn held_pair algebra_simps)

lemma drive_bounded:
  "\<bar>dc_v (calculateDriveCommand keys)\<bar> \<le> 1 \<and> \<bar>dc_w (calculateDriveCommand keys)\<bar> \<le> 1"
  by (simp add: drive_held sgn_if)


fun drives :: "kbCall list \<Rightarrow> driveCommand list" where
  "drives [] = []"
| "drives (OnDriveCommand c # calls) = c # drives calls"
| "drives (_ # calls) = drives calls"

lemma drives_append [simp]: "drives (xs @ ys) = drives xs @ drives ys"
  by (induction xs rule: drives.induct) auto

lemma drives_set: "c \<in> set (drives calls) \<longleftrightarrow> OnDriveCommand c \<in> set calls"
  by (induction calls rule: drives.induct) auto

fun no_enable :: "kbInput \<Rightarrow> bool" where
  "no_enable (Enable b) = False"
| "no_enable x = True"

fun estop_press :: "kbInput \<Rightarrow> bool" where
  "estop_press (KeyPress event now) = (ke_code event \<in> set ESTOP_KEYS)"
| "estop_press x = False"

lemma estop_not_drive: "code \<in> set ESTOP_KEYS \<Longrightarrow> \<not> is_drive_key code"
  by (auto simp: ESTOP_KEYS_def is_drive_key_def DRIVE_KEYS_def)

text \<open>The calls of one step that are drive commands name the keys held after it.\<close>

lemma step_drives:
  assumes "kb_step kb x = (kb', calls)" and "kb_enabled kb" and "no_enable x"
  shows "kb_enabled kb'"
    and "drives calls = [] \<and> kb_pressedKeys kb' = kb_pressedKeys kb
      \<or> drives calls = [calculateDriveCommand (kb_pressedKeys kb')]"
    and "length (filter (\<lambda>c. c = OnEStop) calls) = (if estop_press x then 1 else 0)"
  using assms by (cases x; auto simp: kb_defs split: if_splits)+

text \<open>
  The drive keys held down, read off the events alone: a press adds its key and a release removes
  it. A repeated event comes from a key that is already down, so a sequence of events is possible
  when each of its repeated presses of a drive key names a held one.
\<close>

fun down_step :: "string set \<Rightarrow> kbInput \<Rightarrow> string set" where
  "down_step keys (KeyPress event now) =
     (if is_drive_key (ke_code event) then insert (ke_code event) keys else keys)"
| "down_step keys (KeyRelease event) = keys - {ke_code event}"
| "down_step keys (Enable b) = keys"

definition keys_down :: "kbInput list \<Rightarrow> string set" where
  "keys_down xs = foldl down_step {} xs"

fun repeat_held :: "string set \<Rightarrow> kbInput \<Rightarrow> bool" where
  "repeat_held keys (KeyPress event now) =
     (ke_repeat event \<and> is_drive_key (ke_code event) \<longrightarrow> ke_code event \<in> keys)"
| "repeat_held keys x = True"

fun repeats_held :: "string set \<Rightarrow> kbInput list \<Rightarrow> bool" where
  "repeats_held keys [] = True"
| "repeats_held keys (x # xs) = (repeat_held keys x \<and> repeats_held (down_step keys x) xs)"

definition drive_keys_only :: "string set \<Rightarrow> bool" where
  "drive_keys_only keys \<longleftrightarrow> (\<forall>code \<in> keys. is_drive_key code)"

lemma down_step_drive_keys: "drive_keys_only keys \<Longrightarrow> drive_keys_only (down_step keys x)"
  by (cases x) (auto simp: drive_keys_only_def)

lemma step_pressed:
  assumes "kb_step kb x = (kb', calls)" and "kb_enabled kb" and "no_enable x"
    and "drive_keys_only (kb_pressedKeys kb)" and "repeat_held (kb_pressedKeys kb) x"
  shows "kb_pressedKeys kb' = down_step (kb_pressedKeys kb) x"
  using assms estop_not_drive
  by (cases x) (auto simp: kb_defs drive_keys_only_def split: if_splits)

text \<open>What a run keeps: the hook's set is that of the events, and the last command is its own.\<close>

definition current :: "string set \<Rightarrow> driveCommand list \<Rightarrow> bool" where
  "current keys commands =
     (if commands = [] then keys = {} else last commands = calculateDriveCommand keys)"

lemma run_current:
  assumes "kb_enabled kb" and "list_all no_enable xs" and "current (kb_pressedKeys kb) sent"
    and "drive_keys_only (kb_pressedKeys kb)" and "repeats_held (kb_pressedKeys kb) xs"
  shows "kb_pressedKeys (fst (kb_run kb xs)) = foldl down_step (kb_pressedKeys kb) xs \<and>
    current (foldl down_step (kb_pressedKeys kb) xs) (sent @ drives (snd (kb_run kb xs))) \<and>
    length (filter (\<lambda>c. c = OnEStop) (snd (kb_run kb xs))) = length (filter estop_press xs)"
  using assms
proof (induction xs arbitrary: kb sent)
  case Nil
  then show ?case by simp
next
  case (Cons x xs)
  obtain kb' calls where step: "kb_step kb x = (kb', calls)" by fastforce
  have x: "no_enable x" "list_all no_enable xs" "repeat_held (kb_pressedKeys kb) x"
    "repeats_held (down_step (kb_pressedKeys kb) x) xs"
    using Cons.prems(2,5) by simp_all
  note pressed = step_pressed [OF step Cons.prems(1) x(1) Cons.prems(4) x(3)]
  note one = step_drives [OF step Cons.prems(1) x(1)]
  have now: "current (kb_pressedKeys kb') (sent @ drives calls)"
    using one(2) Cons.prems(3) by (auto simp: current_def)
  from Cons.IH [OF one(1) x(2) now] pressed one(3) x(4) down_step_drive_keys [OF Cons.prems(4)]
  show ?case by (auto simp: step Let_def split: prod.splits)
qed

lemma step_bounded:
  "kb_step kb x = (kb', calls) \<Longrightarrow> c \<in> set (drives calls) \<Longrightarrow> \<bar>dc_v c\<bar> \<le> 1 \<and> \<bar>dc_w c\<bar> \<le> 1"
  using drive_bounded by (cases x) (auto simp: kb_defs split: if_splits)

lemma run_bounded: "c \<in> set (drives (snd (kb_run kb xs))) \<Longrightarrow> \<bar>dc_v c\<bar> \<le> 1 \<and> \<bar>dc_w c\<bar> \<le> 1"
proof (induction xs arbitrary: kb)
  case Nil
  then show ?case by simp
next
  case (Cons x xs)
  obtain kb' calls where step: "kb_step kb x = (kb', calls)" by fastforce
  with Cons.prems have "c \<in> set (drives calls) \<or> c \<in> set (drives (snd (kb_run kb' xs)))"
    by (auto simp: Let_def split: prod.splits)
  then show ?case using Cons.IH step_bounded [OF step] by blast
qed

lemma disabled_silent:
  "\<not> kb_enabled kb \<Longrightarrow> Enable True \<notin> set xs \<Longrightarrow> snd (kb_run kb xs) = []"
proof (induction xs arbitrary: kb)
  case Nil
  then show ?case by simp
next
  case (Cons x xs)
  then have "snd (kb_step kb x) = []" "\<not> kb_enabled (fst (kb_step kb x))"
    by (cases x; auto simp: kb_defs)+
  with Cons.IH [of "fst (kb_step kb x)"] Cons.prems(2) show ?case
    by (auto simp: Let_def split: prod.splits)
qed

section \<open>Properties\<close>

text \<open>
  The drive command of a set of held keys: forward, stop or backward as more forward or more
  backward keys are held, and in the same way left or right, so opposite keys cancel and no
  component ever exceeds one in size.
\<close>

theorem drive_command_direction:
  "calculateDriveCommand keys =
     \<lparr>dc_v = sgn (int (card (keys \<inter> forward_keys)) - int (card (keys \<inter> backward_keys))),
      dc_w = sgn (int (card (keys \<inter> left_keys)) - int (card (keys \<inter> right_keys)))\<rparr>"
  by (simp add: drive_held held_def)

text \<open>
  (C38) While the keyboard stays enabled, the last drive command sent is the one of the keys that
  the events leave down, those pressed and not released since, so releasing every key has sent a
  stop; none is sent only while no drive key is down, the hook's own set is the set of those keys,
  no component exceeds one, and the emergency stop is called once for every press of one of its
  keys, debounced or not.
\<close>

theorem keyboard_commands_current:
  assumes "kb_run (useKeyboardInput True debounceMs) xs = (kb', calls)"
    and "list_all no_enable xs" and "repeats_held {} xs"
  shows "(if drives calls = [] then keys_down xs = {}
          else last (drives calls) = calculateDriveCommand (keys_down xs)) \<and>
    kb_pressedKeys kb' = keys_down xs \<and>
    (\<forall>c \<in> set (drives calls). \<bar>dc_v c\<bar> \<le> 1 \<and> \<bar>dc_w c\<bar> \<le> 1) \<and>
    length (filter (\<lambda>c. c = OnEStop) calls) = length (filter estop_press xs)"
  using run_current [of "useKeyboardInput True debounceMs" xs "[]"] assms
    run_bounded [of _ "useKeyboardInput True debounceMs" xs]
  by (auto simp: current_def useKeyboardInput_def keys_down_def drive_keys_only_def)

theorem keyboard_commands_current_witness:
  "\<exists>kb' calls. kb_run (useKeyboardInput True 50)
     [KeyPress \<lparr>ke_code = ''KeyW'', ke_repeat = False\<rparr> 0,
      KeyPress \<lparr>ke_code = ''KeyA'', ke_repeat = False\<rparr> 5,
      KeyPress \<lparr>ke_code = ''KeyW'', ke_repeat = True\<rparr> 10,
      KeyPress \<lparr>ke_code = ''Space'', ke_repeat = True\<rparr> 11,
      KeyRelease \<lparr>ke_code = ''KeyW'', ke_repeat = False\<rparr>] = (kb', calls) \<and>
   drives calls \<noteq> [] \<and> last (drives calls) = calculateDriveCommand {''KeyA''}"
proof -
  let ?xs = "[KeyPress \<lparr>ke_code = ''KeyW'', ke_repeat = False\<rparr> 0,
      KeyPress \<lparr>ke_code = ''KeyA'', ke_repeat = False\<rparr> 5,
      KeyPress \<lparr>ke_code = ''KeyW'', ke_repeat = True\<rparr> 10,
      KeyPress \<lparr>ke_code = ''Space'', ke_repeat = True\<rparr> 11,
      KeyRelease \<lparr>ke_code = ''KeyW'', ke_repeat = False\<rparr>]"
  obtain kb' calls where run: "kb_run (useKeyboardInput True 50) ?xs = (kb', calls)" by fastforce
  have "keys_down ?xs = {''KeyA''}" "repeats_held {} ?xs"
    by (auto simp: keys_down_def is_drive_key_def DRIVE_KEYS_def)
  with keyboard_commands_current [OF run] run show ?thesis by (auto split: if_splits)
qed

text \<open>
  Disabling the keyboard while a drive key is held forgets the key without a stop: the forward
  command stays the last one sent, whatever keys are released, until the keyboard is enabled again.
\<close>

theorem disabling_sends_no_stop:
  assumes "Enable True \<notin> set xs"
  shows "snd (kb_run (useKeyboardInput True debounceMs)
       (KeyPress \<lparr>ke_code = ''KeyW'', ke_repeat = False\<rparr> now # Enable False # xs)) =
     [OnKeyDown \<lparr>ke_code = ''KeyW'', ke_repeat = False\<rparr>, OnDriveCommand \<lparr>dc_v = 1, dc_w = 0\<rparr>]"
proof -
  let ?kb = "\<lparr>kb_enabled = False, kb_debounceMs = debounceMs, kb_pressedKeys = {},
      kb_lastCommandTime = 0\<rparr>"
  obtain kb' where "kb_run ?kb xs = (kb', [])"
    using disabled_silent [of ?kb xs] assms by (cases "kb_run ?kb xs") auto
  moreover have "calculateDriveCommand {''KeyW''} = \<lparr>dc_v = 1, dc_w = 0\<rparr>"
    by (simp add: drive_held direction_defs held_pair ind_def)
  ultimately show ?thesis
    by (simp add: useKeyboardInput_def kb_defs ESTOP_KEYS_def is_drive_key_def DRIVE_KEYS_def)
qed

theorem disabling_sends_no_stop_witness:
  "OnDriveCommand \<lparr>dc_v = 0, dc_w = 0\<rparr> \<notin> set (snd (kb_run (useKeyboardInput True 0)
     [KeyPress \<lparr>ke_code = ''KeyW'', ke_repeat = False\<rparr> 0, Enable False,
      KeyRelease \<lparr>ke_code = ''KeyW'', ke_repeat = False\<rparr>]))"
  using disabling_sends_no_stop [of "[KeyRelease \<lparr>ke_code = ''KeyW'', ke_repeat = False\<rparr>]" 0 0]
  by simp

end
