(* ===== verification/MouseInput.thy ===== *)
theory MouseInput
  imports Prelude "HOL-Library.Word"
begin

text \<open>
  The mouse of the operator console (\<open>hooks/useMouseInput.ts\<close>): movement and scrolling are
  accumulated and sent in batches, with the mask of the buttons held down.

  The refs and the state of the hook are the fields of \<open>mouse\<close>. The set of pressed buttons is a
  list without repetitions, in insertion order. A pending batch timer keeps the \<open>flushBatch\<close> of the
  render that started it, and with it the buttons pressed then: it is \<open>Some\<close> of those buttons.
  Whenever a handler gets a new identity (a button changes the state, or the caller passes other
  callbacks) the effect removes and adds the listeners, and its cleanup cancels the pending timer.
  Distances are exact rationals.
\<close>

unbundle bit_operations_syntax

section \<open>Buttons\<close>

definition buttonToBitmask :: "int \<Rightarrow> 32 word" where
  "buttonToBitmask button =
     (if button = 0 then 1 else if button = 1 then 4 else if button = 2 then 2 else 0)"

definition buttonsToBitmask :: "int list \<Rightarrow> 32 word" where
  "buttonsToBitmask buttons = foldl (\<lambda>mask button. mask OR buttonToBitmask button) 0 buttons"

definition set_add :: "'a \<Rightarrow> 'a list \<Rightarrow> 'a list" where
  "set_add x xs = (if x \<in> set xs then xs else xs @ [x])"

section \<open>The hook\<close>

record kvmMouseCommand =
  mc_dx :: rat
  mc_dy :: rat
  mc_buttons :: "32 word"
  mc_scroll :: rat

datatype mouseCall =
    OnMouseMove rat rat
  | OnMouseDown int
  | OnMouseUp int
  | OnScroll rat
  | OnKVMMouseCommand kvmMouseCommand
  | RequestPointerLock
  | ExitPointerLock

record mouseOptions =
  mo_usePointerLock :: bool
  mo_batchMs :: int
  mo_hasKVM :: bool

record mouse =
  mi_enabled :: bool
  mi_target :: bool
  mi_pressed :: "int list"
  mi_dx :: rat
  mi_dy :: rat
  mi_scroll :: rat
  mi_batchTimer :: "int list option"
  mi_capturing :: bool

definition useMouseInput :: "bool \<Rightarrow> bool \<Rightarrow> mouse" where
  "useMouseInput enabled target =
     \<lparr>mi_enabled = enabled, mi_target = target, mi_pressed = [], mi_dx = 0, mi_dy = 0,
      mi_scroll = 0, mi_batchTimer = None, mi_capturing = False\<rparr>"

text \<open>\<open>flushBatch\<close> of the render in which the given buttons were pressed.\<close>

definition flushBatch :: "mouseOptions \<Rightarrow> int list \<Rightarrow> mouse \<Rightarrow> mouse \<times> mouseCall list" where
  "flushBatch opts pressedButtons m =
     (m\<lparr>mi_dx := 0, mi_dy := 0, mi_scroll := 0\<rparr>,
      if mi_dx m \<noteq> 0 \<or> mi_dy m \<noteq> 0
      then OnMouseMove (mi_dx m) (mi_dy m) #
        (if mo_hasKVM opts
         then [OnKVMMouseCommand \<lparr>mc_dx = mi_dx m, mc_dy = mi_dy m,
                 mc_buttons = buttonsToBitmask pressedButtons, mc_scroll = mi_scroll m\<rparr>]
         else [])
      else [])"

definition scheduleBatch :: "mouseOptions \<Rightarrow> mouse \<Rightarrow> mouse \<times> mouseCall list" where
  "scheduleBatch opts m =
     (if mo_batchMs opts \<le> 0 then flushBatch opts (mi_pressed m) m
      else if mi_batchTimer m = None then (m\<lparr>mi_batchTimer := Some (mi_pressed m)\<rparr>, [])
      else (m, []))"

text \<open>The timer fires: it flushes and then forgets itself.\<close>

definition batchTimerFires :: "mouseOptions \<Rightarrow> mouse \<Rightarrow> mouse \<times> mouseCall list" where
  "batchTimerFires opts m =
     (case mi_batchTimer m of
        None \<Rightarrow> (m, [])
      | Some pressedButtons \<Rightarrow>
          (let (m', calls) = flushBatch opts pressedButtons m in (m'\<lparr>mi_batchTimer := None\<rparr>, calls)))"

text \<open>The listeners are attached while the hook is enabled and the target element exists.\<close>

definition listening :: "mouse \<Rightarrow> bool" where
  "listening m \<longleftrightarrow> mi_enabled m \<and> mi_target m"

text \<open>The effect's cleanup, run when a handler changes identity.\<close>

definition reattach :: "mouse \<Rightarrow> mouse" where
  "reattach m = m\<lparr>mi_batchTimer := None\<rparr>"

definition handleMouseMove :: "mouseOptions \<Rightarrow> rat \<Rightarrow> rat \<Rightarrow> mouse \<Rightarrow> mouse \<times> mouseCall list" where
  "handleMouseMove opts movementX movementY m =
     scheduleBatch opts (m\<lparr>mi_dx := mi_dx m + movementX, mi_dy := mi_dy m + movementY\<rparr>)"

definition handleMouseDown :: "int \<Rightarrow> mouse \<Rightarrow> mouse \<times> mouseCall list" where
  "handleMouseDown button m =
     (reattach (m\<lparr>mi_pressed := set_add button (mi_pressed m)\<rparr>), [OnMouseDown button])"

definition handleMouseUp :: "int \<Rightarrow> mouse \<Rightarrow> mouse \<times> mouseCall list" where
  "handleMouseUp button m =
     (reattach (m\<lparr>mi_pressed := removeAll button (mi_pressed m)\<rparr>), [OnMouseUp button])"

definition handleWheel :: "rat \<Rightarrow> mouse \<Rightarrow> mouse \<times> mouseCall list" where
  "handleWheel deltaY m = (m\<lparr>mi_scroll := mi_scroll m + deltaY\<rparr>, [OnScroll deltaY])"

definition requestCapture :: "mouseOptions \<Rightarrow> mouse \<Rightarrow> mouse \<times> mouseCall list" where
  "requestCapture opts m =
     (if \<not> mo_usePointerLock opts \<or> \<not> mi_target m then (m, [])
      else (m\<lparr>mi_capturing := True\<rparr>, [RequestPointerLock]))"

definition releaseCapture :: "mouseOptions \<Rightarrow> mouse \<Rightarrow> mouse \<times> mouseCall list" where
  "releaseCapture opts m =
     (if \<not> mo_usePointerLock opts then (m, [])
      else (m\<lparr>mi_capturing := False\<rparr>, [ExitPointerLock]))"

text \<open>Rendering with another value of \<open>enabled\<close>: both effects run.\<close>

definition mouseEnabled :: "bool \<Rightarrow> mouse \<Rightarrow> mouse" where
  "mouseEnabled enabled m =
     (if enabled = mi_enabled m then m else let m1 = (reattach m)\<lparr>mi_enabled := enabled\<rparr>;
          m2 = (if \<not> enabled \<or> \<not> mi_target m1 then m1\<lparr>mi_pressed := []\<rparr> else m1)
      in if enabled then m2 else m2\<lparr>mi_pressed := [], mi_dx := 0, mi_dy := 0, mi_scroll := 0\<rparr>)"

datatype mouseInput =
    MouseMove rat rat
  | MouseDown int
  | MouseUp int
  | Wheel rat
  | BatchTimer
  | Rerender
  | MouseEnable bool
  | RequestCapture
  | ReleaseCapture

fun mouse_step :: "mouseOptions \<Rightarrow> mouse \<Rightarrow> mouseInput \<Rightarrow> mouse \<times> mouseCall list" where
  "mouse_step opts m (MouseMove x y) = (if listening m then handleMouseMove opts x y m else (m, []))"
| "mouse_step opts m (MouseDown b) = (if listening m then handleMouseDown b m else (m, []))"
| "mouse_step opts m (MouseUp b) = (if listening m then handleMouseUp b m else (m, []))"
| "mouse_step opts m (Wheel d) = (if listening m then handleWheel d m else (m, []))"
| "mouse_step opts m BatchTimer = batchTimerFires opts m"
| "mouse_step opts m Rerender = (reattach m, [])"
| "mouse_step opts m (MouseEnable b) = (mouseEnabled b m, [])"
| "mouse_step opts m RequestCapture = requestCapture opts m"
| "mouse_step opts m ReleaseCapture = releaseCapture opts m"

fun mouse_run :: "mouseOptions \<Rightarrow> mouse \<Rightarrow> mouseInput list \<Rightarrow> mouse \<times> mouseCall list" where
  "mouse_run opts m [] = (m, [])"
| "mouse_run opts m (x # xs) =
     (let (m', calls) = mouse_step opts m x; (m'', calls') = mouse_run opts m' xs
      in (m'', calls @ calls'))"

section \<open>The listener effect and rendering\<close>

text \<open>
  What decides how often the effect runs is the identity of the set of pressed buttons: the handlers,
  and so the effect, depend on it. An identity is a number, new for each set that is created.
  \<open>settle\<close> renders until no effect is due; it has no result if that never happens.
\<close>

record mouseRender =
  mr_enabled :: bool
  mr_target :: bool
  mr_pressedId :: nat
  mr_effectDeps :: "(bool \<times> nat) option"

definition effect_due :: "mouseRender \<Rightarrow> bool" where
  "effect_due r \<longleftrightarrow> mr_effectDeps r \<noteq> Some (mr_enabled r, mr_pressedId r)"

definition listener_effect :: "mouseRender \<Rightarrow> mouseRender" where
  "listener_effect r =
     (let r1 = r\<lparr>mr_effectDeps := Some (mr_enabled r, mr_pressedId r)\<rparr>
      in if \<not> mr_enabled r \<or> \<not> mr_target r then r1\<lparr>mr_pressedId := Suc (mr_pressedId r)\<rparr> else r1)"

partial_function (option) settle :: "mouseRender \<Rightarrow> mouseRender option" where
  "settle r = (if effect_due r then settle (listener_effect r) else Some r)"

section \<open>Facts\<close>

lemmas mouse_handler_defs = handleMouseMove_def handleMouseDown_def handleMouseUp_def
  handleWheel_def requestCapture_def releaseCapture_def scheduleBatch_def flushBatch_def
  batchTimerFires_def reattach_def mouseEnabled_def Let_def

lemma bits_1_2_4:
  "bit (1 :: 32 word) n \<longleftrightarrow> n = 0" "bit (4 :: 32 word) n \<longleftrightarrow> n = 2" "bit (2 :: 32 word) n \<longleftrightarrow> n = 1"
proof -
  have four: "(4 :: 32 word) = 2 ^ 2" and two: "(2 :: 32 word) = 2 ^ 1" by simp_all
  show "bit (4 :: 32 word) n \<longleftrightarrow> n = 2" unfolding four bit_exp_iff by auto
  show "bit (2 :: 32 word) n \<longleftrightarrow> n = 1" by (subst two, unfold bit_exp_iff) auto
qed (simp add: bit_1_iff)

lemma buttonToBitmask_bit:
  "bit (buttonToBitmask b) n \<longleftrightarrow> b = 0 \<and> n = 0 \<or> b = 1 \<and> n = 2 \<or> b = 2 \<and> n = 1"
  unfolding buttonToBitmask_def if_distrib [of "\<lambda>w. bit w n"] bits_1_2_4 by auto

lemma mask_bits:
  "bit (foldl (\<lambda>mask b. mask OR buttonToBitmask b) acc bs) n \<longleftrightarrow>
     bit acc n \<or> 0 \<in> set bs \<and> n = 0 \<or> 1 \<in> set bs \<and> n = 2 \<or> 2 \<in> set bs \<and> n = 1"
  by (induction bs arbitrary: acc) (auto simp: bit_or_iff buttonToBitmask_bit)

definition mouse_ok :: "mouse \<Rightarrow> bool" where
  "mouse_ok m \<longleftrightarrow> distinct (mi_pressed m) \<and>
     (\<forall>bs. mi_batchTimer m = Some bs \<longrightarrow> bs = mi_pressed m)"

lemma mouse_step_ok: "mouse_ok m \<Longrightarrow> mouse_ok (fst (mouse_step opts m x))"
  by (cases x)
     (auto simp: mouse_ok_def mouse_handler_defs set_add_def distinct_removeAll split: option.splits)

interpretation mouse_hook: invariant_system "\<lambda>m x. fst (mouse_step opts m x)" mouse_ok
  for opts
  by unfold_locales (rule mouse_step_ok)

lemma mouse_run_fst: "fst (mouse_run opts m xs) = foldl (\<lambda>m x. fst (mouse_step opts m x)) m xs"
  by (induction xs arbitrary: m) (simp_all add: Let_def case_prod_beta)

lemma mouse_run_ok: "mouse_ok m \<Longrightarrow> mouse_ok (fst (mouse_run opts m xs))"
  by (simp add: mouse_run_fst mouse_hook.run_good)

text \<open>
  The buttons held down, read off the events alone, and what a mask says of a set of buttons: bit 0
  is the left, bit 1 the right and bit 2 the middle button.
\<close>

fun button_step :: "int set \<Rightarrow> mouseInput \<Rightarrow> int set" where
  "button_step bs (MouseDown b) = insert b bs"
| "button_step bs (MouseUp b) = bs - {b}"
| "button_step bs x = bs"

definition buttons_down :: "mouseInput list \<Rightarrow> int set" where
  "buttons_down xs = foldl button_step {} xs"

definition mask_shows :: "32 word \<Rightarrow> int set \<Rightarrow> bool" where
  "mask_shows w bs \<longleftrightarrow>
     (\<forall>n. bit w n \<longleftrightarrow> n = 0 \<and> 0 \<in> bs \<or> n = 1 \<and> 2 \<in> bs \<or> n = 2 \<and> 1 \<in> bs)"

lemma mouse_step_buttons:
  "mouse_ok m \<Longrightarrow> OnKVMMouseCommand c \<in> set (snd (mouse_step opts m x)) \<Longrightarrow>
     mask_shows (mc_buttons c) (set (mi_pressed m))"
  by (cases x) (auto simp: mouse_ok_def mouse_handler_defs mask_shows_def buttonsToBitmask_def
      mask_bits split: option.splits if_splits)

text \<open>The distances that came in, and those that went out.\<close>

fun moved :: "mouseInput list \<Rightarrow> rat \<times> rat" where
  "moved [] = (0, 0)"
| "moved (MouseMove x y # xs) = (x + fst (moved xs), y + snd (moved xs))"
| "moved (_ # xs) = moved xs"

fun sent :: "mouseCall list \<Rightarrow> rat \<times> rat" where
  "sent [] = (0, 0)"
| "sent (OnMouseMove x y # calls) = (x + fst (sent calls), y + snd (sent calls))"
| "sent (_ # calls) = sent calls"

fun no_mouse_enable :: "mouseInput \<Rightarrow> bool" where
  "no_mouse_enable (MouseEnable b) = False"
| "no_mouse_enable x = True"

lemma mouse_step_listening:
  "listening m \<Longrightarrow> no_mouse_enable x \<Longrightarrow> listening (fst (mouse_step opts m x))"
  by (cases x) (auto simp: listening_def mouse_handler_defs split: option.splits)

lemma mouse_step_pressed:
  "listening m \<Longrightarrow> no_mouse_enable x \<Longrightarrow>
     set (mi_pressed (fst (mouse_step opts m x))) = button_step (set (mi_pressed m)) x"
  by (cases x) (auto simp: mouse_handler_defs set_add_def split: option.splits)

lemma mouse_run_pressed:
  "listening m \<Longrightarrow> list_all no_mouse_enable xs \<Longrightarrow>
     set (mi_pressed (fst (mouse_run opts m xs))) = foldl button_step (set (mi_pressed m)) xs"
  by (induction xs arbitrary: m)
     (simp_all add: Let_def case_prod_beta mouse_step_listening mouse_step_pressed)

text \<open>The movements of the batches and those of the KVM commands.\<close>

fun moves :: "mouseCall list \<Rightarrow> (rat \<times> rat) list" where
  "moves [] = []"
| "moves (OnMouseMove x y # calls) = (x, y) # moves calls"
| "moves (_ # calls) = moves calls"

fun kvm_moves :: "mouseCall list \<Rightarrow> (rat \<times> rat) list" where
  "kvm_moves [] = []"
| "kvm_moves (OnKVMMouseCommand c # calls) = (mc_dx c, mc_dy c) # kvm_moves calls"
| "kvm_moves (_ # calls) = kvm_moves calls"

lemma moves_append: "moves (xs @ ys) = moves xs @ moves ys"
  by (induction xs rule: moves.induct) auto

lemma kvm_moves_append: "kvm_moves (xs @ ys) = kvm_moves xs @ kvm_moves ys"
  by (induction xs rule: kvm_moves.induct) auto

lemma mouse_step_kvm:
  "kvm_moves (snd (mouse_step opts m x)) =
     (if mo_hasKVM opts then moves (snd (mouse_step opts m x)) else [])"
  by (cases x) (auto simp: mouse_handler_defs split: option.splits)

lemma mouse_run_kvm:
  "kvm_moves (snd (mouse_run opts m xs)) =
     (if mo_hasKVM opts then moves (snd (mouse_run opts m xs)) else [])"
  by (induction xs arbitrary: m)
     (simp_all add: Let_def case_prod_beta moves_append kvm_moves_append mouse_step_kvm)

lemma mouse_step_unbatched:
  "mo_batchMs opts \<le> 0 \<Longrightarrow> mi_dx m = 0 \<and> mi_dy m = 0 \<Longrightarrow>
     mi_dx (fst (mouse_step opts m x)) = 0 \<and> mi_dy (fst (mouse_step opts m x)) = 0"
  by (cases x) (auto simp: mouse_handler_defs split: option.splits)

lemma mouse_run_unbatched:
  "mo_batchMs opts \<le> 0 \<Longrightarrow> mi_dx m = 0 \<and> mi_dy m = 0 \<Longrightarrow>
     mi_dx (fst (mouse_run opts m xs)) = 0 \<and> mi_dy (fst (mouse_run opts m xs)) = 0"
proof (induction xs arbitrary: m)
  case (Cons x xs)
  from Cons.IH [OF Cons.prems(1) mouse_step_unbatched [OF Cons.prems]] show ?case
    by (simp add: Let_def case_prod_beta)
qed simp

lemma timer_empties:
  "mi_batchTimer m \<noteq> None \<Longrightarrow>
     mi_dx (fst (batchTimerFires opts m)) = 0 \<and> mi_dy (fst (batchTimerFires opts m)) = 0"
  by (auto simp: batchTimerFires_def flushBatch_def Let_def)

lemma sent_append:
  "sent (xs @ ys) = (fst (sent xs) + fst (sent ys), snd (sent xs) + snd (sent ys))"
  by (induction xs rule: sent.induct) auto

lemma mouse_step_conserves:
  assumes "listening m" and "no_mouse_enable x"
  shows "fst (sent (snd (mouse_step opts m x))) + mi_dx (fst (mouse_step opts m x))
      = mi_dx m + fst (moved [x])"
    and "snd (sent (snd (mouse_step opts m x))) + mi_dy (fst (mouse_step opts m x))
      = mi_dy m + snd (moved [x])"
  using assms by (cases x; auto simp: listening_def mouse_handler_defs split: option.splits)+

lemma moved_Cons: "moved (x # xs) = (fst (moved [x]) + fst (moved xs), snd (moved [x]) + snd (moved xs))"
  by (cases x) auto

lemma mouse_run_conserves:
  assumes "listening m" and "list_all no_mouse_enable xs"
  shows "fst (sent (snd (mouse_run opts m xs))) + mi_dx (fst (mouse_run opts m xs))
      = mi_dx m + fst (moved xs) \<and>
    snd (sent (snd (mouse_run opts m xs))) + mi_dy (fst (mouse_run opts m xs))
      = mi_dy m + snd (moved xs)"
  using assms
proof (induction xs arbitrary: m)
  case Nil
  then show ?case by simp
next
  case (Cons x xs)
  obtain m' calls where step: "mouse_step opts m x = (m', calls)" by fastforce
  have x: "no_mouse_enable x" "list_all no_mouse_enable xs" using Cons.prems(2) by simp_all
  note one = mouse_step_conserves [OF Cons.prems(1) x(1), of opts, unfolded step fst_conv snd_conv]
  have "listening m'" using mouse_step_listening [OF Cons.prems(1) x(1), of opts] step by simp
  from Cons.IH [OF this x(2)] one show ?case
    by (subst (1 2) moved_Cons) (auto simp: step Let_def sent_append split: prod.splits)
qed

lemma settle_stuck:
  assumes "settle r = Some r'"
  shows "effect_due r \<longrightarrow> mr_enabled r \<and> mr_target r"
proof (rule settle.raw_induct
    [where P = "\<lambda>r r'. effect_due r \<longrightarrow> mr_enabled r \<and> mr_target r", OF _ assms])
  fix f r r'
  assume IH: "\<And>r r'. f r = Some r' \<Longrightarrow> effect_due r \<longrightarrow> mr_enabled r \<and> mr_target r"
    and body: "(if effect_due r then f (listener_effect r) else Some r) = Some r'"
  show "effect_due r \<longrightarrow> mr_enabled r \<and> mr_target r"
  proof (rule impI, rule ccontr)
    assume due: "effect_due r" and off: "\<not> (mr_enabled r \<and> mr_target r)"
    then have "effect_due (listener_effect r)"
      "\<not> (mr_enabled (listener_effect r) \<and> mr_target (listener_effect r))"
      by (auto simp: effect_due_def listener_effect_def Let_def)
    with IH [of "listener_effect r" r'] body due show False by simp
  qed
qed

section \<open>Properties\<close>

text \<open>
  The button mask of a command: bit 0 is the left, bit 1 the right and bit 2 the middle
  button, and no other bit is ever set, whatever other buttons the mouse has.
\<close>

theorem button_mask_bits:
  "bit (buttonsToBitmask buttons) n \<longleftrightarrow>
     n = 0 \<and> 0 \<in> set buttons \<or> n = 1 \<and> 2 \<in> set buttons \<or> n = 2 \<and> 1 \<in> set buttons"
  unfolding buttonsToBitmask_def mask_bits by auto

text \<open>
  (C39) No movement is lost or invented while the mouse stays enabled: whatever the batching and
  however often a pending batch is cancelled, the movements sent add up to those received less what
  is still accumulated, and nothing stays accumulated without batching or once a batch timer has
  fired. The KVM commands repeat exactly these movements in order (and there are none without a
  handler for them), and the mask of each shows the buttons that the events so far leave down, which
  are those of the hook's own set.
\<close>

theorem mouse_movement_conserved:
  assumes "list_all no_mouse_enable xs" and "mouse_run opts (useMouseInput True True) xs = (m, calls)"
  shows "sent calls = (fst (moved xs) - mi_dx m, snd (moved xs) - mi_dy m) \<and>
    (mo_batchMs opts \<le> 0 \<longrightarrow> mi_dx m = 0 \<and> mi_dy m = 0) \<and>
    (mi_batchTimer m \<noteq> None \<longrightarrow> (let m' = fst (mouse_step opts m BatchTimer) in
       mi_dx m' = 0 \<and> mi_dy m' = 0)) \<and>
    kvm_moves calls = (if mo_hasKVM opts then moves calls else []) \<and>
    set (mi_pressed m) = buttons_down xs \<and>
    (\<forall>x c. OnKVMMouseCommand c \<in> set (snd (mouse_step opts m x)) \<longrightarrow>
       mask_shows (mc_buttons c) (buttons_down xs))"
proof -
  let ?m = "useMouseInput True True"
  have start: "listening ?m" "mouse_ok ?m" "mi_dx ?m = 0 \<and> mi_dy ?m = 0" "mi_pressed ?m = []"
    by (simp_all add: listening_def useMouseInput_def mouse_ok_def)
  have held: "set (mi_pressed m) = buttons_down xs"
    using mouse_run_pressed [OF start(1) assms(1), of opts] start(4) assms(2)
    by (simp add: buttons_down_def)
  have "mouse_ok m" using mouse_run_ok [OF start(2), of opts xs] assms(2) by simp
  from mouse_step_buttons [OF this] held have
    "\<forall>x c. OnKVMMouseCommand c \<in> set (snd (mouse_step opts m x)) \<longrightarrow>
       mask_shows (mc_buttons c) (buttons_down xs)" by simp
  with held mouse_run_conserves [OF start(1) assms(1), of opts] start(3) assms(2)
    mouse_run_unbatched [OF _ start(3), of opts xs] mouse_run_kvm [of opts ?m xs]
    timer_empties [of m opts]
  show ?thesis by (auto simp: prod_eq_iff algebra_simps Let_def)
qed

theorem mouse_movement_conserved_witness:
  "\<exists>m calls. mouse_run \<lparr>mo_usePointerLock = False, mo_batchMs = 16, mo_hasKVM = True\<rparr>
     (useMouseInput True True)
     [MouseMove 3 1, MouseDown 0, MouseDown 2, MouseUp 0, MouseMove 2 0, BatchTimer] = (m, calls) \<and>
   sent calls = (5, 1) \<and> kvm_moves calls = [(5, 1)] \<and> set (mi_pressed m) = {2}"
proof -
  let ?o = "\<lparr>mo_usePointerLock = False, mo_batchMs = 16, mo_hasKVM = True\<rparr>"
  let ?xs = "[MouseMove 3 1, MouseDown 0, MouseDown 2, MouseUp 0, MouseMove 2 0, BatchTimer]"
  obtain m calls where run: "mouse_run ?o (useMouseInput True True) ?xs = (m, calls)" by fastforce
  then have "mi_dx m = 0" "mi_dy m = 0" "moves calls = [(5, 1)]"
    by (auto simp: useMouseInput_def listening_def mouse_handler_defs set_add_def)
  moreover have "buttons_down ?xs = {2}" by (auto simp: buttons_down_def)
  ultimately show ?thesis using mouse_movement_conserved [OF _ run] run by simp
qed

text \<open>
  Disabling the mouse drops the movement of a pending batch: the batch is cancelled, and neither the
  timer nor enabling the mouse again sends what had been accumulated.
\<close>

theorem disabling_drops_movement:
  assumes "mo_batchMs opts > 0"
  shows "mouse_run opts (useMouseInput True True)
      [MouseMove x y, MouseEnable False, BatchTimer, MouseEnable True, BatchTimer] =
    (useMouseInput True True, [])"
  using assms by (simp add: useMouseInput_def listening_def mouse_handler_defs)

theorem disabling_drops_movement_witness:
  "sent (snd (mouse_run \<lparr>mo_usePointerLock = False, mo_batchMs = 16, mo_hasKVM = True\<rparr>
     (useMouseInput True True)
     [MouseMove 3 1, MouseEnable False, BatchTimer, MouseEnable True, BatchTimer])) \<noteq>
   moved [MouseMove 3 1]"
  by (subst disabling_drops_movement) simp_all

text \<open>
  Scrolling can be lost: it is only sent along with movement, and a batch whose movements
  cancel out is dropped together with the scrolling accumulated in it.
\<close>

theorem scroll_lost_without_movement:
  assumes "mo_batchMs opts > 0"
  shows "mouse_run opts (useMouseInput True True)
      [Wheel d, MouseMove x 0, MouseMove (- x) 0, BatchTimer] =
    (useMouseInput True True, [OnScroll d])"
  using assms by (simp add: useMouseInput_def listening_def mouse_handler_defs)

theorem scroll_lost_without_movement_witness:
  "snd (mouse_run \<lparr>mo_usePointerLock = False, mo_batchMs = 16, mo_hasKVM = True\<rparr>
     (useMouseInput True True) [Wheel 120, MouseMove 1 0, MouseMove (- 1) 0, BatchTimer]) =
   [OnScroll 120]"
  by (subst scroll_lost_without_movement) simp_all

text \<open>
  Rendering the mouse hook comes to rest when no effect is due, or after one run of the effect
  when it is enabled on an existing element, and otherwise never: while it is disabled, every run of
  the listener effect stores a new empty set, which changes the handlers and makes the effect due
  again, without end.
\<close>

theorem disabled_mouse_never_settles:
  "settle r =
     (if effect_due r then (if mr_enabled r \<and> mr_target r then Some (listener_effect r) else None)
      else Some r)"
proof (cases "effect_due r")
  case True
  show ?thesis
  proof (cases "mr_enabled r \<and> mr_target r")
    case on: True
    then have "\<not> effect_due (listener_effect r)"
      by (simp add: effect_due_def listener_effect_def Let_def)
    then have "settle (listener_effect r) = Some (listener_effect r)"
      by (subst settle.simps) simp
    with True on show ?thesis by (subst settle.simps) simp
  next
    case False
    with True settle_stuck [of r] show ?thesis by (cases "settle r") auto
  qed
next
  case False
  then show ?thesis by (subst settle.simps) simp
qed

end
