(* ===== verification/Reconnect.thy ===== *)
theory Reconnect
  imports Prelude
begin

text \<open>
  The reconnection hook of the console (\<open>hooks/useWebRTCReconnect.ts\<close>).

  Its refs are the fields of \<open>reconnect\<close>, with the number shown to the caller. \<open>setTimeout\<close> gives
  each timer a new positive id; \<open>rn_pending\<close> holds the ids of the timers that have neither fired nor
  been cancelled, oldest first. The options are those of one render: a timer keeps the options it
  was started with. \<open>onReconnectFailed\<close> is modelled by the calls made to it, and the answer of
  \<open>checkStillDisconnected\<close> at the time a timer fires is part of that event.
\<close>

record reconnectOptions =
  ro_enabled :: bool
  ro_maxAttempts :: int
  ro_delayMs :: ms

record reconnect =
  rn_timeoutRef :: "nat option"
  rn_pending :: "nat list"
  rn_nextTimer :: nat
  rn_wasConnected :: bool
  rn_attempts :: int
  rn_reconnectAttempts :: int

datatype reconnectCall = OnReconnectFailed

definition useWebRTCReconnect :: reconnect where
  "useWebRTCReconnect =
     \<lparr>rn_timeoutRef = None, rn_pending = [], rn_nextTimer = 1, rn_wasConnected = False,
      rn_attempts = 0, rn_reconnectAttempts = 0\<rparr>"

definition set_timeout :: "reconnect \<Rightarrow> reconnect" where
  "set_timeout r =
     r\<lparr>rn_timeoutRef := Some (rn_nextTimer r), rn_pending := rn_pending r @ [rn_nextTimer r],
       rn_nextTimer := Suc (rn_nextTimer r)\<rparr>"

definition clear_timeout :: "reconnect \<Rightarrow> reconnect" where
  "clear_timeout r =
     (case rn_timeoutRef r of
        None \<Rightarrow> r
      | Some t \<Rightarrow> r\<lparr>rn_timeoutRef := None, rn_pending := removeAll t (rn_pending r)\<rparr>)"

definition scheduleReconnect ::
    "reconnectOptions option \<Rightarrow> reconnect \<Rightarrow> reconnect \<times> reconnectCall list" where
  "scheduleReconnect config r =
     (case config of
        None \<Rightarrow> (r, [])
      | Some c \<Rightarrow>
          if \<not> ro_enabled c then (r, [])
          else if rn_attempts r \<ge> ro_maxAttempts c then (r, [OnReconnectFailed])
          else (set_timeout r, []))"

text \<open>The callback of a timer started with the options \<open>c\<close>.\<close>

definition reconnect_timer ::
    "reconnectOptions \<Rightarrow> bool \<Rightarrow> nat \<Rightarrow> reconnect \<Rightarrow> reconnect \<times> reconnectCall list" where
  "reconnect_timer c stillDisconnected t r =
     (if t \<notin> set (rn_pending r) then (r, [])
      else
        (let newAttempts = rn_attempts r + 1;
             r1 = r\<lparr>rn_pending := removeAll t (rn_pending r), rn_attempts := newAttempts,
                    rn_reconnectAttempts := newAttempts\<rparr>
         in if newAttempts \<ge> ro_maxAttempts c then (r1, [OnReconnectFailed])
            else if stillDisconnected then scheduleReconnect (Some c) r1
            else (r1, [])))"

definition handleConnected :: "reconnect \<Rightarrow> reconnect" where
  "handleConnected r =
     clear_timeout (r\<lparr>rn_wasConnected := True, rn_attempts := 0, rn_reconnectAttempts := 0\<rparr>)"

definition handleDisconnected ::
    "reconnectOptions option \<Rightarrow> reconnect \<Rightarrow> reconnect \<times> reconnectCall list" where
  "handleDisconnected config r =
     (if rn_wasConnected r \<and> (case config of None \<Rightarrow> False | Some c \<Rightarrow> ro_enabled c)
      then scheduleReconnect config r else (r, []))"

definition reconnect_cleanup :: "reconnect \<Rightarrow> reconnect" where
  "reconnect_cleanup r = clear_timeout r"

datatype reconnectInput =
    Connected
  | Disconnected
  | TimerFires nat bool
  | Cleanup

fun reconnect_step ::
    "reconnectOptions \<Rightarrow> reconnect \<Rightarrow> reconnectInput \<Rightarrow> reconnect \<times> reconnectCall list" where
  "reconnect_step c r Connected = (handleConnected r, [])"
| "reconnect_step c r Disconnected = handleDisconnected (Some c) r"
| "reconnect_step c r (TimerFires t still) = reconnect_timer c still t r"
| "reconnect_step c r Cleanup = (reconnect_cleanup r, [])"

fun reconnect_run ::
    "reconnectOptions \<Rightarrow> reconnect \<Rightarrow> reconnectInput list \<Rightarrow> reconnect \<times> reconnectCall list" where
  "reconnect_run c r [] = (r, [])"
| "reconnect_run c r (x # xs) =
     (let (r', calls) = reconnect_step c r x; (r'', calls') = reconnect_run c r' xs
      in (r'', calls @ calls'))"

lemmas reconnect_defs = scheduleReconnect_def reconnect_timer_def handleConnected_def
  handleDisconnected_def reconnect_cleanup_def clear_timeout_def set_timeout_def Let_def

section \<open>Running out of timers\<close>

text \<open>
  What happens when nothing but the timers takes place while the connection stays down: the pending
  timers fire, oldest first, until none is left. Each of them uses up an attempt or starts none.
\<close>

function drain_timers :: "reconnectOptions \<Rightarrow> reconnect \<Rightarrow> reconnect \<times> reconnectCall list" where
  "drain_timers c r =
     (case rn_pending r of
        [] \<Rightarrow> (r, [])
      | t # ts \<Rightarrow>
          (let (r', calls) = reconnect_timer c True t r; (r'', calls') = drain_timers c r'
           in (r'', calls @ calls')))"
  by pat_completeness auto

lemma timer_progress:
  assumes "rn_pending r = t # ts" and "reconnect_timer c True t r = (r', calls)"
  shows "rn_attempts r' = rn_attempts r + 1"
    and "ro_maxAttempts c \<le> rn_attempts r \<Longrightarrow> length (rn_pending r') < length (rn_pending r)"
  using assms length_removeAll_less_eq [of t ts]
  by (auto simp: reconnect_defs less_Suc_eq_le split: if_splits)

termination drain_timers
proof (relation "measures [\<lambda>(c, r). nat (ro_maxAttempts c - rn_attempts r), \<lambda>(c, r). length (rn_pending r)]")
  fix c :: reconnectOptions and r :: reconnect and t ts x r' calls
  assume p: "rn_pending r = t # ts" and x: "x = reconnect_timer c True t r" "(r', calls) = x"
  then have "reconnect_timer c True t r = (r', calls)" by simp
  note progress = timer_progress [OF p this]
  then show "((c, r'), c, r) \<in> measures
      [\<lambda>(c, r). nat (ro_maxAttempts c - rn_attempts r), \<lambda>(c, r). length (rn_pending r)]"
    by (cases "ro_maxAttempts c \<le> rn_attempts r") auto
qed simp

declare drain_timers.simps [simp del]

lemma drain_idle: "rn_pending r = [] \<Longrightarrow> drain_timers c r = (r, [])"
  by (simp add: drain_timers.simps)

lemma drain_leaves_none: "rn_pending (fst (drain_timers c r)) = []"
proof (induction c r rule: drain_timers.induct)
  case (1 c r)
  show ?case
  proof (cases "rn_pending r")
    case (Cons t ts)
    obtain r' calls where fire: "reconnect_timer c True t r = (r', calls)" by fastforce
    from 1 [OF Cons fire [symmetric] refl] show ?thesis
      by (subst drain_timers.simps) (simp add: Cons fire Let_def case_prod_beta)
  qed (simp add: drain_idle)
qed

section \<open>The invariant of orderly use\<close>

text \<open>
  The hook is used in order if the connection is not reported as disconnected again while a timer is
  pending. Then it has at most one timer, the one its ref names.
\<close>

fun in_order :: "reconnectOptions \<Rightarrow> reconnect \<Rightarrow> reconnectInput list \<Rightarrow> bool" where
  "in_order c r [] = True"
| "in_order c r (x # xs) =
     ((x = Disconnected \<longrightarrow> rn_pending r = []) \<and> in_order c (fst (reconnect_step c r x)) xs)"

definition reconnect_ok :: "reconnectOptions \<Rightarrow> reconnect \<Rightarrow> bool" where
  "reconnect_ok c r \<longleftrightarrow>
     (rn_pending r = [] \<or> (\<exists>t. rn_timeoutRef r = Some t \<and> rn_pending r = [t] \<and>
        rn_attempts r < ro_maxAttempts c)) \<and>
     (\<forall>t \<in> set (rn_pending r). t < rn_nextTimer r) \<and>
     0 \<le> rn_attempts r \<and> rn_attempts r \<le> max 0 (ro_maxAttempts c) \<and>
     rn_reconnectAttempts r = rn_attempts r"

lemma reconnect_step_ok:
  assumes "reconnect_ok c r" and "x = Disconnected \<Longrightarrow> rn_pending r = []"
  shows "reconnect_ok c (fst (reconnect_step c r x))"
  using assms
  by (cases x) (auto simp: reconnect_ok_def reconnect_defs split: option.splits if_splits)

lemma reconnect_run_ok:
  "reconnect_ok c r \<Longrightarrow> in_order c r xs \<Longrightarrow> reconnect_ok c (fst (reconnect_run c r xs))"
proof (induction xs arbitrary: r)
  case Nil
  then show ?case by simp
next
  case (Cons x xs)
  then have "reconnect_ok c (fst (reconnect_step c r x))" by (intro reconnect_step_ok) auto
  with Cons.IH Cons.prems(2) show ?case by (simp add: Let_def case_prod_beta)
qed

text \<open>Draining a single timer counts the attempts up to the maximum and reports the failure once.\<close>

lemma drain_single:
  assumes "ro_enabled c" and "rn_pending r = [t]" and "t < rn_nextTimer r"
    and "rn_attempts r < ro_maxAttempts c"
  shows "rn_attempts (fst (drain_timers c r)) = ro_maxAttempts c
    \<and> rn_reconnectAttempts (fst (drain_timers c r)) = ro_maxAttempts c
    \<and> snd (drain_timers c r) = [OnReconnectFailed]"
  using assms
proof (induction c r arbitrary: t rule: drain_timers.induct)
  case (1 c r)
  obtain r' calls where fire: "reconnect_timer c True t r = (r', calls)" by fastforce
  have unfold: "drain_timers c r =
      (fst (drain_timers c r'), calls @ snd (drain_timers c r'))"
    by (subst drain_timers.simps) (simp add: 1(3) fire Let_def case_prod_beta)
  show ?case
  proof (cases "rn_attempts r + 1 \<ge> ro_maxAttempts c")
    case True
    with fire 1(3,5) have "rn_pending r' = []" "calls = [OnReconnectFailed]"
      "rn_attempts r' = ro_maxAttempts c" "rn_reconnectAttempts r' = ro_maxAttempts c"
      by (auto simp: reconnect_defs)
    then show ?thesis by (simp add: unfold drain_idle)
  next
    case False
    with fire 1(2,3) have "rn_pending r' = [rn_nextTimer r]" "calls = []"
      "rn_attempts r' < ro_maxAttempts c" "rn_nextTimer r < rn_nextTimer r'"
      by (auto simp: reconnect_defs)
    with 1(1) [OF 1(3) fire [symmetric] refl] 1(2) show ?thesis by (simp add: unfold)
  qed
qed

section \<open>Properties\<close>

text \<open>
  As long as the connection is not reported lost again while a timer is pending, the hook keeps
  at most one timer and never counts more attempts than configured, whatever happens in between; the
  number it shows is the number it has counted.
\<close>

theorem reconnect_attempts_bounded:
  assumes "reconnect_run c useWebRTCReconnect xs = (r, calls)" and "in_order c useWebRTCReconnect xs"
  shows "length (rn_pending r) \<le> 1 \<and> 0 \<le> rn_attempts r \<and>
    rn_attempts r \<le> max 0 (ro_maxAttempts c) \<and> rn_reconnectAttempts r = rn_attempts r"
proof -
  have "reconnect_ok c useWebRTCReconnect" by (simp add: reconnect_ok_def useWebRTCReconnect_def)
  with reconnect_run_ok [of c useWebRTCReconnect xs] assms have "reconnect_ok c r" by simp
  then show ?thesis by (auto simp: reconnect_ok_def)
qed

theorem reconnect_attempts_bounded_witness:
  "rn_attempts (fst (reconnect_run \<lparr>ro_enabled = True, ro_maxAttempts = 3, ro_delayMs = 100\<rparr>
     useWebRTCReconnect [Connected, Disconnected, TimerFires 1 True, TimerFires 2 True])) \<le> 3"
proof -
  let ?c = "\<lparr>ro_enabled = True, ro_maxAttempts = 3, ro_delayMs = 100\<rparr>"
  let ?xs = "[Connected, Disconnected, TimerFires 1 True, TimerFires 2 True]"
  obtain r calls where run: "reconnect_run ?c useWebRTCReconnect ?xs = (r, calls)" by fastforce
  have "in_order ?c useWebRTCReconnect ?xs"
    by (simp add: useWebRTCReconnect_def reconnect_defs)
  from reconnect_attempts_bounded [OF run this] run show ?thesis by simp
qed

text \<open>
  (C37) After a connection is lost and stays down, the retrying always ends: the timers run out,
  exactly the configured number of attempts has been counted, and the failure has been reported
  exactly once.
\<close>

theorem reconnect_gives_up:
  assumes "ro_enabled c" and "0 < ro_maxAttempts c"
    and "rn_wasConnected r" and "rn_pending r = []" and "rn_attempts r = 0"
    and "handleDisconnected (Some c) r = (r1, calls1)" and "drain_timers c r1 = (r2, calls2)"
  shows "rn_pending r2 = [] \<and> rn_attempts r2 = ro_maxAttempts c \<and>
    rn_reconnectAttempts r2 = ro_maxAttempts c \<and> calls1 @ calls2 = [OnReconnectFailed]"
proof -
  have "r1 = set_timeout r" "calls1 = []"
    using assms(1-6) by (auto simp: handleDisconnected_def scheduleReconnect_def)
  then have "rn_pending r1 = [rn_nextTimer r]" "rn_nextTimer r < rn_nextTimer r1" "rn_attempts r1 = 0"
    using assms(4,5) by (simp_all add: set_timeout_def)
  with drain_single [OF assms(1), of r1 "rn_nextTimer r"] assms(2,7) drain_leaves_none [of c r1]
    \<open>calls1 = []\<close>
  show ?thesis by simp
qed

theorem reconnect_gives_up_witness:
  "snd (drain_timers \<lparr>ro_enabled = True, ro_maxAttempts = 3, ro_delayMs = 100\<rparr>
     (fst (handleDisconnected (Some \<lparr>ro_enabled = True, ro_maxAttempts = 3, ro_delayMs = 100\<rparr>)
       (handleConnected useWebRTCReconnect)))) = [OnReconnectFailed]"
proof -
  let ?c = "\<lparr>ro_enabled = True, ro_maxAttempts = 3, ro_delayMs = 100\<rparr>"
  let ?r = "handleConnected useWebRTCReconnect"
  obtain r1 calls1 where d: "handleDisconnected (Some ?c) ?r = (r1, calls1)" by fastforce
  obtain r2 calls2 where t: "drain_timers ?c r1 = (r2, calls2)" by fastforce
  have "calls1 = []" using d by (auto simp: reconnect_defs useWebRTCReconnect_def)
  with reconnect_gives_up [OF _ _ _ _ _ d t] d t show ?thesis
    by (simp add: reconnect_defs useWebRTCReconnect_def)
qed

text \<open>
  A second report of the lost connection starts a second timer and forgets the first one, which
  a later reconnection does not cancel: it still fires and counts an attempt of the connection that
  is up again.
\<close>

theorem second_disconnect_leaks_timer:
  assumes "ro_enabled c" and "1 < ro_maxAttempts c"
  shows "rn_pending (fst (reconnect_run c useWebRTCReconnect
      [Connected, Disconnected, Disconnected, Connected])) = [1] \<and>
    rn_reconnectAttempts (fst (reconnect_run c useWebRTCReconnect
      [Connected, Disconnected, Disconnected, Connected, TimerFires 1 False])) = 1"
  using assms by (simp add: useWebRTCReconnect_def reconnect_defs)

theorem second_disconnect_leaks_timer_witness:
  "rn_pending (fst (reconnect_run \<lparr>ro_enabled = True, ro_maxAttempts = 3, ro_delayMs = 100\<rparr>
     useWebRTCReconnect [Connected, Disconnected, Disconnected, Connected])) = [1]"
  using second_disconnect_leaks_timer
    [of "\<lparr>ro_enabled = True, ro_maxAttempts = 3, ro_delayMs = 100\<rparr>"]
  by simp

end
