(* ===== verification/WebRTC.thy ===== *)
theory WebRTC
  imports Reconnect JsValue
begin

text \<open>
  The peer connection hook of the console (\<open>hooks/useWebRTC.ts\<close>): the life of the connection, the
  offers and answers exchanged over it, its data channel, and its own copy of the reconnection logic
  with a guard against reconnecting a revoked session.

  The browser's \<open>RTCPeerConnection\<close> is not modelled: its events are inputs of \<open>webrtc_step\<close>, with
  the state they report, and what the hook calls on it is recorded, with the calls to the caller's
  handlers, in the order of the calls. Session descriptions, candidates and streams are JSON-like
  values. The handlers installed on a connection belong to the render whose effect created it: they
  see the \<open>isRevoked\<close> of that render, which is \<open>pe_isRevoked\<close>. A timer sees the \<open>isRevoked\<close> of the
  closure that started it and is kept with it. The reconnection options are those of one render.
\<close>

section \<open>State\<close>

datatype rtcState = RtcNew | RtcConnecting | RtcConnected | RtcDisconnected | RtcFailed | RtcClosed

datatype channelState = ChConnecting | ChOpen | ChClosed

record peerConnection =
  pe_connectionState :: rtcState
  pe_isRevoked :: bool

record webrtc =
  wr_enabled :: bool
  wr_isRevoked :: bool
  wr_mounted :: bool
  wr_peer :: "peerConnection option"
  wr_channel :: "string option"
  wr_timeoutRef :: "nat option"
  wr_pending :: "(nat \<times> bool) list"
  wr_nextTimer :: nat
  wr_wasConnected :: bool
  wr_attempts :: int
  wr_connectionState :: rtcState
  wr_dataChannel :: "string option"
  wr_dataChannelState :: channelState
  wr_remoteStream :: "jsval option"
  wr_reconnectAttempts :: int
  wr_iceGatheringState :: string
  wr_iceConnectionState :: string

datatype rtcCall =
    RtcReconnectFailed
  | RtcIceCandidate jsval
  | RtcIceGatheringComplete
  | RtcTrack jsval jsval
  | RtcLocalOffer jsval
  | RtcLocalAnswer jsval
  | PcCreateOffer bool
  | PcCreateAnswer
  | PcSetLocalDescription jsval
  | PcSetRemoteDescription jsval
  | PcAddIceCandidate jsval
  | PcCreateDataChannel string
  | PcRestartIce
  | PcGetStats
  | PcClose
  | ChannelClose string

definition useWebRTC :: webrtc where
  "useWebRTC =
     \<lparr>wr_enabled = False, wr_isRevoked = False, wr_mounted = False, wr_peer = None,
      wr_channel = None, wr_timeoutRef = None, wr_pending = [], wr_nextTimer = 1,
      wr_wasConnected = False, wr_attempts = 0, wr_connectionState = RtcNew,
      wr_dataChannel = None, wr_dataChannelState = ChClosed, wr_remoteStream = None,
      wr_reconnectAttempts = 0, wr_iceGatheringState = ''new'', wr_iceConnectionState = ''new''\<rparr>"

definition isConnected :: "webrtc \<Rightarrow> bool" where
  "isConnected w = (wr_connectionState w = RtcConnected)"

section \<open>Reconnecting\<close>

definition cancel_timer :: "webrtc \<Rightarrow> webrtc" where
  "cancel_timer w =
     (case wr_timeoutRef w of
        None \<Rightarrow> w
      | Some t \<Rightarrow> w\<lparr>wr_pending := filter (\<lambda>p. fst p \<noteq> t) (wr_pending w)\<rparr>)"

definition forget_timer :: "webrtc \<Rightarrow> webrtc" where
  "forget_timer w = (cancel_timer w)\<lparr>wr_timeoutRef := None\<rparr>"

text \<open>\<open>scheduleReconnect\<close> of a render with the given \<open>isRevoked\<close>.\<close>

definition rtcScheduleReconnect ::
    "reconnectOptions option \<Rightarrow> bool \<Rightarrow> webrtc \<Rightarrow> webrtc \<times> rtcCall list" where
  "rtcScheduleReconnect reconnect revoked w =
     (if revoked then (w, [])
      else
        (case reconnect of
           None \<Rightarrow> (w, [])
         | Some c \<Rightarrow>
             if \<not> ro_enabled c then (w, [])
             else if wr_attempts w \<ge> ro_maxAttempts c then (w, [RtcReconnectFailed])
             else (w\<lparr>wr_timeoutRef := Some (wr_nextTimer w),
                     wr_pending := wr_pending w @ [(wr_nextTimer w, revoked)],
                     wr_nextTimer := Suc (wr_nextTimer w)\<rparr>, [])))"

definition still_disconnected :: "webrtc \<Rightarrow> bool" where
  "still_disconnected w =
     (case wr_peer w of None \<Rightarrow> False | Some pc \<Rightarrow> pe_connectionState pc = RtcDisconnected)"

definition rtcTimerFires :: "reconnectOptions \<Rightarrow> nat \<Rightarrow> webrtc \<Rightarrow> webrtc \<times> rtcCall list" where
  "rtcTimerFires c t w =
     (case map_of (wr_pending w) t of
        None \<Rightarrow> (w, [])
      | Some revoked \<Rightarrow>
          (let w1 = w\<lparr>wr_pending := filter (\<lambda>p. fst p \<noteq> t) (wr_pending w)\<rparr>
           in if revoked then (w1, [])
              else
                (let newAttempts = wr_attempts w1 + 1;
                     w2 = w1\<lparr>wr_attempts := newAttempts, wr_reconnectAttempts := newAttempts\<rparr>
                 in if newAttempts \<ge> ro_maxAttempts c then (w2, [RtcReconnectFailed])
                    else if still_disconnected w2 then rtcScheduleReconnect (Some c) revoked w2
                    else (w2, []))))"

section \<open>The connection's effect and handlers\<close>

text \<open>The effect runs again: the cleanup of the last run, then a new connection if enabled.\<close>

definition connection_effect :: "bool \<Rightarrow> webrtc \<Rightarrow> webrtc \<times> rtcCall list" where
  "connection_effect enabled w =
     (let (w1, calls) =
        (if wr_mounted w
         then ((cancel_timer w)\<lparr>wr_mounted := False, wr_peer := map_option
                 (pe_connectionState_update (\<lambda>s. RtcClosed)) (wr_peer w)\<rparr>, [PcClose])
         else (w, []))
      in (if enabled
          then w1\<lparr>wr_enabled := True, wr_mounted := True, wr_peer := Some
                   \<lparr>pe_connectionState = RtcNew, pe_isRevoked = wr_isRevoked w1\<rparr>\<rparr>
          else w1\<lparr>wr_enabled := False\<rparr>, calls))"

definition onconnectionstatechange ::
    "reconnectOptions option \<Rightarrow> rtcState \<Rightarrow> webrtc \<Rightarrow> webrtc \<times> rtcCall list" where
  "onconnectionstatechange reconnect state w =
     (case wr_peer w of
        None \<Rightarrow> (w, [])
      | Some pc \<Rightarrow>
          (let w1 = w\<lparr>wr_peer := Some (pc\<lparr>pe_connectionState := state\<rparr>),
                      wr_connectionState := state\<rparr>;
               w2 = (if state = RtcConnected
                     then forget_timer (w1\<lparr>wr_wasConnected := True, wr_attempts := 0,
                            wr_reconnectAttempts := 0\<rparr>)
                     else w1)
           in if state = RtcDisconnected \<and> wr_wasConnected w2
                 \<and> (case reconnect of None \<Rightarrow> False | Some c \<Rightarrow> ro_enabled c)
              then rtcScheduleReconnect reconnect (pe_isRevoked pc) w2
              else (w2, [])))"

definition onicecandidate :: "jsval option \<Rightarrow> webrtc \<Rightarrow> webrtc \<times> rtcCall list" where
  "onicecandidate candidate w =
     (w, case candidate of None \<Rightarrow> [] | Some c \<Rightarrow> [RtcIceCandidate c])"

definition oniceconnectionstatechange :: "string \<Rightarrow> webrtc \<Rightarrow> webrtc \<times> rtcCall list" where
  "oniceconnectionstatechange state w = (w\<lparr>wr_iceConnectionState := state\<rparr>, [])"

definition onicegatheringstatechange :: "string \<Rightarrow> webrtc \<Rightarrow> webrtc \<times> rtcCall list" where
  "onicegatheringstatechange state w =
     (w\<lparr>wr_iceGatheringState := state\<rparr>,
      if state = ''complete'' then [RtcIceGatheringComplete] else [])"

definition ontrack :: "jsval \<Rightarrow> jsval list \<Rightarrow> webrtc \<Rightarrow> webrtc \<times> rtcCall list" where
  "ontrack track streams w =
     (let stream = (case streams of [] \<Rightarrow> JUndef | s # ss \<Rightarrow> s)
      in (w\<lparr>wr_remoteStream := Some stream\<rparr>, [RtcTrack track stream]))"

text \<open>Rendering with another \<open>isRevoked\<close>: only the second effect depends on it.\<close>

definition setIsRevoked :: "bool \<Rightarrow> webrtc \<Rightarrow> webrtc" where
  "setIsRevoked revoked w =
     (let w1 = w\<lparr>wr_isRevoked := revoked\<rparr>
      in if revoked \<and> \<not> wr_isRevoked w \<and> wr_timeoutRef w1 \<noteq> None then forget_timer w1 else w1)"

section \<open>Operations of the hook\<close>

text \<open>The result of an awaited call: rejected, or resolved with a value.\<close>

type_synonym 'a awaited = "'a option"

definition createOffer :: "jsval awaited \<Rightarrow> unit awaited \<Rightarrow> webrtc \<Rightarrow> rtcCall list" where
  "createOffer offer localSet w =
     (if wr_peer w = None then []
      else PcCreateOffer False #
        (case offer of
           None \<Rightarrow> []
         | Some o' \<Rightarrow> PcSetLocalDescription o' # (if localSet = None then [] else [RtcLocalOffer o'])))"

definition handleRemoteOffer ::
    "jsval \<Rightarrow> unit awaited \<Rightarrow> jsval awaited \<Rightarrow> unit awaited \<Rightarrow> webrtc \<Rightarrow> rtcCall list" where
  "handleRemoteOffer offer remoteSet answer localSet w =
     (if wr_peer w = None then []
      else PcSetRemoteDescription offer #
        (if remoteSet = None then []
         else PcCreateAnswer #
           (case answer of
              None \<Rightarrow> []
            | Some a \<Rightarrow> PcSetLocalDescription a # (if localSet = None then [] else [RtcLocalAnswer a]))))"

definition handleRemoteAnswer :: "jsval \<Rightarrow> webrtc \<Rightarrow> rtcCall list" where
  "handleRemoteAnswer answer w = (if wr_peer w = None then [] else [PcSetRemoteDescription answer])"

definition addIceCandidate :: "jsval \<Rightarrow> webrtc \<Rightarrow> rtcCall list" where
  "addIceCandidate candidate w = (if wr_peer w = None then [] else [PcAddIceCandidate candidate])"

definition createDataChannel :: "string \<Rightarrow> webrtc \<Rightarrow> webrtc \<times> rtcCall list" where
  "createDataChannel label w =
     (if wr_peer w = None then (w, [])
      else (w\<lparr>wr_channel := Some label, wr_dataChannel := Some label,
              wr_dataChannelState := ChConnecting\<rparr>, [PcCreateDataChannel label]))"

definition disconnect :: "webrtc \<Rightarrow> webrtc \<times> rtcCall list" where
  "disconnect w =
     ((cancel_timer w)\<lparr>wr_dataChannel := None,
        wr_peer := map_option (pe_connectionState_update (\<lambda>s. RtcClosed)) (wr_peer w)\<rparr>,
      (case wr_channel w of None \<Rightarrow> [] | Some c \<Rightarrow> [ChannelClose c]) @
      (if wr_peer w = None then [] else [PcClose]))"

definition restartIce :: "jsval awaited \<Rightarrow> unit awaited \<Rightarrow> webrtc \<Rightarrow> rtcCall list" where
  "restartIce offer localSet w =
     (if wr_peer w = None then []
      else PcRestartIce # PcCreateOffer True #
        (case offer of
           None \<Rightarrow> []
         | Some o' \<Rightarrow> PcSetLocalDescription o' # (if localSet = None then [] else [RtcLocalOffer o'])))"

definition getConnectionStats :: "webrtc \<Rightarrow> rtcCall list" where
  "getConnectionStats w = (if wr_peer w = None then [] else [PcGetStats])"

datatype rtcInput =
    Effect bool
  | ConnectionState rtcState
  | IceCandidate "jsval option"
  | IceConnectionState string
  | IceGatheringState string
  | Track jsval "jsval list"
  | Revoked bool
  | ReconnectTimer nat
  | OpenChannel string
  | ChannelOpened
  | ChannelClosed
  | Hangup

fun webrtc_step :: "reconnectOptions \<Rightarrow> webrtc \<Rightarrow> rtcInput \<Rightarrow> webrtc \<times> rtcCall list" where
  "webrtc_step c w (Effect enabled) = connection_effect enabled w"
| "webrtc_step c w (ConnectionState s) = onconnectionstatechange (Some c) s w"
| "webrtc_step c w (IceCandidate v) = onicecandidate v w"
| "webrtc_step c w (IceConnectionState s) = oniceconnectionstatechange s w"
| "webrtc_step c w (IceGatheringState s) = onicegatheringstatechange s w"
| "webrtc_step c w (Track t ss) = ontrack t ss w"
| "webrtc_step c w (Revoked b) = (setIsRevoked b w, [])"
| "webrtc_step c w (ReconnectTimer t) = rtcTimerFires c t w"
| "webrtc_step c w (OpenChannel label) = createDataChannel label w"
| "webrtc_step c w ChannelOpened = (w\<lparr>wr_dataChannelState := ChOpen\<rparr>, [])"
| "webrtc_step c w ChannelClosed = (w\<lparr>wr_dataChannelState := ChClosed\<rparr>, [])"
| "webrtc_step c w Hangup = disconnect w"

fun webrtc_run :: "reconnectOptions \<Rightarrow> webrtc \<Rightarrow> rtcInput list \<Rightarrow> webrtc \<times> rtcCall list" where
  "webrtc_run c w [] = (w, [])"
| "webrtc_run c w (x # xs) =
     (let (w', calls) = webrtc_step c w x; (w'', calls') = webrtc_run c w' xs
      in (w'', calls @ calls'))"

section \<open>The reconnection hook inside\<close>

lemmas webrtc_defs = rtcScheduleReconnect_def rtcTimerFires_def connection_effect_def
  onconnectionstatechange_def onicecandidate_def oniceconnectionstatechange_def
  onicegatheringstatechange_def ontrack_def setIsRevoked_def createDataChannel_def disconnect_def
  forget_timer_def cancel_timer_def still_disconnected_def Let_def

text \<open>The part of the state that \<open>useWebRTCReconnect\<close> has.\<close>

definition retry_state :: "webrtc \<Rightarrow> reconnect" where
  "retry_state w =
     \<lparr>rn_timeoutRef = wr_timeoutRef w, rn_pending = map fst (wr_pending w),
      rn_nextTimer = wr_nextTimer w, rn_wasConnected = wr_wasConnected w,
      rn_attempts = wr_attempts w, rn_reconnectAttempts = wr_reconnectAttempts w\<rparr>"

text \<open>The inputs while one connection lives, and what the reconnection hook gets of them.\<close>

fun in_life :: "rtcInput \<Rightarrow> bool" where
  "in_life (Effect enabled) = False"
| "in_life (Revoked b) = False"
| "in_life Hangup = False"
| "in_life x = True"

fun retry_input :: "webrtc \<Rightarrow> rtcInput \<Rightarrow> reconnectInput list" where
  "retry_input w (ConnectionState s) =
     (if s = RtcConnected then [Connected] else if s = RtcDisconnected then [Disconnected] else [])"
| "retry_input w (ReconnectTimer t) = [TimerFires t (still_disconnected w)]"
| "retry_input w x = []"

fun retry_inputs :: "reconnectOptions \<Rightarrow> webrtc \<Rightarrow> rtcInput list \<Rightarrow> reconnectInput list" where
  "retry_inputs c w [] = []"
| "retry_inputs c w (x # xs) = retry_input w x @ retry_inputs c (fst (webrtc_step c w x)) xs"

definition failures :: "rtcCall list \<Rightarrow> reconnectCall list" where
  "failures calls = map (\<lambda>x. OnReconnectFailed) (filter (\<lambda>x. x = RtcReconnectFailed) calls)"

lemma failures_simps [simp]:
  "failures [] = []" "failures (RtcReconnectFailed # calls) = OnReconnectFailed # failures calls"
  "x \<noteq> RtcReconnectFailed \<Longrightarrow> failures (x # calls) = failures calls"
  "failures (xs @ ys) = failures xs @ failures ys"
  by (simp_all add: failures_def)

definition fresh_life :: "webrtc \<Rightarrow> bool" where
  "fresh_life w \<longleftrightarrow> (\<exists>pc. wr_peer w = Some pc \<and> \<not> pe_isRevoked pc) \<and> (\<forall>p \<in> set (wr_pending w). \<not> snd p)"

lemma map_of_unrevoked:
  "\<forall>p \<in> set ps. \<not> snd p \<Longrightarrow> map_of ps t = (if t \<in> set (map fst ps) then Some False else None)"
  by (induction ps) auto

lemma map_fst_filter: "map fst (filter (\<lambda>p. fst p \<noteq> t) ps) = removeAll t (map fst ps)"
  by (induction ps) auto

lemma timer_refines:
  assumes "fresh_life w"
  shows "fresh_life (fst (rtcTimerFires c t w)) \<and>
    retry_state (fst (rtcTimerFires c t w)) =
      fst (reconnect_timer c (still_disconnected w) t (retry_state w)) \<and>
    failures (snd (rtcTimerFires c t w)) =
      snd (reconnect_timer c (still_disconnected w) t (retry_state w))"
proof -
  have "map_of (wr_pending w) t = (if t \<in> set (map fst (wr_pending w)) then Some False else None)"
    using assms by (intro map_of_unrevoked) (simp add: fresh_life_def)
  then show ?thesis
    using assms
    by (auto simp: fresh_life_def rtcTimerFires_def rtcScheduleReconnect_def still_disconnected_def
        reconnect_timer_def scheduleReconnect_def set_timeout_def retry_state_def map_fst_filter Let_def
        split: if_splits)
qed

lemma state_change_refines:
  assumes "fresh_life w"
  shows "fresh_life (fst (onconnectionstatechange (Some c) s w)) \<and>
    (retry_state (fst (onconnectionstatechange (Some c) s w)),
     failures (snd (onconnectionstatechange (Some c) s w))) =
      reconnect_run c (retry_state w) (retry_input w (ConnectionState s))"
  using assms
  by (cases s)
     (auto simp: fresh_life_def onconnectionstatechange_def rtcScheduleReconnect_def
        handleDisconnected_def handleConnected_def scheduleReconnect_def set_timeout_def
        clear_timeout_def retry_state_def forget_timer_def cancel_timer_def map_fst_filter Let_def
        split: option.splits)

lemma step_refines:
  assumes "fresh_life w" and "in_life x"
  shows "fresh_life (fst (webrtc_step c w x)) \<and>
    (retry_state (fst (webrtc_step c w x)), failures (snd (webrtc_step c w x))) =
      reconnect_run c (retry_state w) (retry_input w x)"
proof (cases x)
  case (ConnectionState s)
  then show ?thesis using state_change_refines [OF assms(1)] by simp
next
  case (ReconnectTimer t)
  then show ?thesis using timer_refines [OF assms(1)] by (simp add: Let_def case_prod_beta)
qed (use assms in \<open>auto simp: fresh_life_def webrtc_defs retry_state_def split: option.splits\<close>)

lemma reconnect_run_append:
  "reconnect_run c r (xs @ ys) = (let (r', calls) = reconnect_run c r xs;
     (r'', calls') = reconnect_run c r' ys in (r'', calls @ calls'))"
  by (induction xs arbitrary: r) (auto simp: Let_def case_prod_beta)

lemma run_refines:
  assumes "fresh_life w" and "list_all in_life xs"
  shows "fresh_life (fst (webrtc_run c w xs)) \<and>
    (retry_state (fst (webrtc_run c w xs)), failures (snd (webrtc_run c w xs))) =
      reconnect_run c (retry_state w) (retry_inputs c w xs)"
  using assms
proof (induction xs arbitrary: w)
  case Nil
  then show ?case by simp
next
  case (Cons x xs)
  have x: "in_life x" "list_all in_life xs" using Cons.prems(2) by simp_all
  note one = step_refines [OF Cons.prems(1) x(1), of c]
  from Cons.IH [OF one [THEN conjunct1] x(2)] one show ?case
    by (auto simp: reconnect_run_append Let_def case_prod_beta prod_eq_iff)
qed

section \<open>Revocation\<close>

definition shut :: "webrtc \<Rightarrow> bool" where
  "shut w \<longleftrightarrow> wr_isRevoked w \<and> wr_pending w = [] \<and> (\<forall>pc. wr_peer w = Some pc \<longrightarrow> pe_isRevoked pc)"

lemma shut_step:
  "shut w \<Longrightarrow> x \<noteq> Revoked False \<Longrightarrow>
     shut (fst (webrtc_step c w x)) \<and> RtcReconnectFailed \<notin> set (snd (webrtc_step c w x)) \<and>
     wr_attempts (fst (webrtc_step c w x)) \<in> {0, wr_attempts w}"
  by (cases x) (auto simp: shut_def webrtc_defs split: option.splits if_splits)

lemma shut_run:
  "shut w \<Longrightarrow> Revoked False \<notin> set xs \<Longrightarrow>
     shut (fst (webrtc_run c w xs)) \<and> RtcReconnectFailed \<notin> set (snd (webrtc_run c w xs)) \<and>
     wr_attempts (fst (webrtc_run c w xs)) \<in> {0, wr_attempts w}"
proof (induction xs arbitrary: w)
  case Nil
  then show ?case by simp
next
  case (Cons x xs)
  then have x: "x \<noteq> Revoked False" "Revoked False \<notin> set xs" by auto
  note one = shut_step [OF Cons.prems(1) x(1), of c]
  from Cons.IH [OF one [THEN conjunct1] x(2)] one show ?case
    by (auto simp: Let_def case_prod_beta)
qed

text \<open>What is sent to the other side was set as the local description before.\<close>

lemma announced_after_set:
  "RtcLocalOffer v \<in> set (createOffer offer ok w) \<Longrightarrow>
     createOffer offer ok w = [PcCreateOffer False, PcSetLocalDescription v, RtcLocalOffer v]"
  "RtcLocalAnswer v \<in> set (handleRemoteOffer o' rok answer ok w) \<Longrightarrow>
     handleRemoteOffer o' rok answer ok w =
       [PcSetRemoteDescription o', PcCreateAnswer, PcSetLocalDescription v, RtcLocalAnswer v]"
  "RtcLocalOffer v \<in> set (restartIce offer ok w) \<Longrightarrow>
     restartIce offer ok w =
       [PcRestartIce, PcCreateOffer True, PcSetLocalDescription v, RtcLocalOffer v]"
  by (auto simp: createOffer_def handleRemoteOffer_def restartIce_def split: option.splits if_splits)

section \<open>Properties\<close>

text \<open>
  (C36) The reconnection logic inside the peer connection hook is that of the separate hook: over the
  life of one connection of a session that is not revoked, its attempts, its timers and its reports
  of failure are those of \<open>useWebRTCReconnect\<close> on the same state changes and timers.
\<close>

theorem webrtc_retry_is_reconnect_hook:
  assumes "wr_peer w = Some pc" and "\<not> pe_isRevoked pc" and "wr_pending w = []"
    and "list_all in_life xs"
  shows "reconnect_run c (retry_state w) (retry_inputs c w xs) =
    (retry_state (fst (webrtc_run c w xs)), failures (snd (webrtc_run c w xs)))"
  using run_refines [of w xs c] assms by (simp add: fresh_life_def)

definition sample_options :: reconnectOptions where
  "sample_options = \<lparr>ro_enabled = True, ro_maxAttempts = 3, ro_delayMs = 1000\<rparr>"

definition started :: webrtc where
  "started = fst (webrtc_step sample_options useWebRTC (Effect True))"

theorem webrtc_retry_is_reconnect_hook_witness:
  "wr_reconnectAttempts (fst (webrtc_run sample_options started
      [ConnectionState RtcConnected, ConnectionState RtcDisconnected, ReconnectTimer 1])) =
   rn_reconnectAttempts (fst (reconnect_run sample_options useWebRTCReconnect
      [Connected, Disconnected, TimerFires 1 True]))"
proof -
  let ?xs = "[ConnectionState RtcConnected, ConnectionState RtcDisconnected, ReconnectTimer 1]"
  have "wr_peer started = Some \<lparr>pe_connectionState = RtcNew, pe_isRevoked = False\<rparr>"
    "wr_pending started = []" "retry_state started = useWebRTCReconnect"
    "retry_inputs sample_options started ?xs = [Connected, Disconnected, TimerFires 1 True]"
    by (simp_all add: started_def useWebRTC_def webrtc_defs retry_state_def useWebRTCReconnect_def
        sample_options_def)
  with webrtc_retry_is_reconnect_hook [of started _ ?xs sample_options] show ?thesis
    by (simp add: retry_state_def)
qed

text \<open>
  A connection made while the session is revoked is never retried: until the revocation is
  lifted no timer is started, no attempt is counted and no failure of reconnecting is reported.
\<close>

theorem revoked_connection_not_retried:
  assumes "wr_isRevoked w" and "wr_pending w = []" and "Revoked False \<notin> set xs"
    and "webrtc_run c w (Effect True # xs) = (w', calls)"
  shows "wr_pending w' = [] \<and> RtcReconnectFailed \<notin> set calls \<and> wr_attempts w' \<in> {0, wr_attempts w}"
proof -
  obtain w1 calls1 where one: "connection_effect True w = (w1, calls1)" by fastforce
  then have "shut w1" "RtcReconnectFailed \<notin> set calls1" "wr_attempts w1 = wr_attempts w"
    using assms(1,2) by (auto simp: shut_def webrtc_defs split: option.splits if_splits)
  moreover obtain w2 calls2 where two: "webrtc_run c w1 xs = (w2, calls2)" by fastforce
  moreover have "w' = w2" "calls = calls1 @ calls2" using assms(4) one two by simp_all
  ultimately show ?thesis using shut_run [of w1 xs c] assms(3) by (simp add: shut_def)
qed

theorem revoked_connection_not_retried_witness:
  "wr_pending (fst (webrtc_run sample_options (useWebRTC\<lparr>wr_isRevoked := True\<rparr>)
     [Effect True, ConnectionState RtcConnected, ConnectionState RtcDisconnected])) = []"
proof -
  let ?xs = "[ConnectionState RtcConnected, ConnectionState RtcDisconnected]"
  obtain w' calls where run: "webrtc_run sample_options (useWebRTC\<lparr>wr_isRevoked := True\<rparr>)
      (Effect True # ?xs) = (w', calls)" by fastforce
  show ?thesis
    using revoked_connection_not_retried [OF _ _ _ run] by (simp only: run fst_conv) (simp add: useWebRTC_def)
qed

text \<open>
  A connection that was up when the session was revoked is still retried: its handlers belong
  to an earlier render and do not see the revocation, so losing the connection afterwards starts a
  timer, and the timer counts an attempt.
\<close>

theorem revocation_does_not_stop_retry:
  assumes "ro_enabled c" and "1 < ro_maxAttempts c"
  shows "wr_isRevoked (fst (webrtc_run c useWebRTC [Effect True, ConnectionState RtcConnected,
      Revoked True, ConnectionState RtcDisconnected])) \<and>
    wr_pending (fst (webrtc_run c useWebRTC [Effect True, ConnectionState RtcConnected,
      Revoked True, ConnectionState RtcDisconnected])) = [(1, False)] \<and>
    wr_reconnectAttempts (fst (webrtc_run c useWebRTC [Effect True, ConnectionState RtcConnected,
      Revoked True, ConnectionState RtcDisconnected, ReconnectTimer 1])) = 1"
  using assms by (simp add: useWebRTC_def webrtc_defs)

theorem revocation_does_not_stop_retry_witness:
  "wr_pending (fst (webrtc_run sample_options useWebRTC [Effect True, ConnectionState RtcConnected,
     Revoked True, ConnectionState RtcDisconnected])) = [(1, False)]"
  using revocation_does_not_stop_retry [of sample_options] by (simp add: sample_options_def)

end
