(* ===== verification/IceConfig.thy ===== *)
theory IceConfig
  imports Prelude
begin

text \<open>
  The ICE configuration of peer connections (\<open>utils/iceConfig.ts\<close>): the STUN servers used by default
  and the TURN server of the caller's credentials. An option the caller leaves out is \<open>None\<close>.
\<close>

definition DEFAULT_STUN_SERVERS :: "string list" where
  "DEFAULT_STUN_SERVERS =
     [''stun:stun.l.google.com:19302'', ''stun:stun1.l.google.com:19302'',
      ''stun:stun2.l.google.com:19302'', ''stun:stun3.l.google.com:19302'']"

record turnCredentials =
  tc_urls :: "string list"
  tc_username :: string
  tc_credential :: string

record iceServer =
  is_urls :: "string list"
  is_username :: "string option"
  is_credential :: "string option"

datatype iceTransportPolicy = TransportAll | TransportRelay
datatype bundlePolicy = BundleBalanced | BundleMaxCompat | BundleMaxBundle

record createIceConfigOptions =
  io_stunServers :: "string list option"
  io_turnCredentials :: "turnCredentials option"
  io_iceCandidatePoolSize :: "nat option"
  io_iceTransportPolicy :: "iceTransportPolicy option"
  io_bundlePolicy :: "bundlePolicy option"

record iceConfig =
  ic_iceServers :: "iceServer list"
  ic_iceCandidatePoolSize :: nat
  ic_iceTransportPolicy :: iceTransportPolicy
  ic_bundlePolicy :: bundlePolicy

definition stun_server :: "string list \<Rightarrow> iceServer" where
  "stun_server urls = \<lparr>is_urls = urls, is_username = None, is_credential = None\<rparr>"

definition turn_server :: "turnCredentials \<Rightarrow> iceServer" where
  "turn_server tc = \<lparr>is_urls = tc_urls tc, is_username = Some (tc_username tc),
     is_credential = Some (tc_credential tc)\<rparr>"

definition or_default :: "'a \<Rightarrow> 'a option \<Rightarrow> 'a" where
  "or_default d v = (case v of None \<Rightarrow> d | Some x \<Rightarrow> x)"

definition createIceConfig :: "createIceConfigOptions \<Rightarrow> iceConfig" where
  "createIceConfig opts =
     (let stunServers = or_default DEFAULT_STUN_SERVERS (io_stunServers opts);
          servers1 = (if length stunServers > 0 then [stun_server stunServers] else []);
          servers2 = servers1 @ (case io_turnCredentials opts of None \<Rightarrow> [] | Some tc \<Rightarrow> [turn_server tc])
      in \<lparr>ic_iceServers = servers2,
          ic_iceCandidatePoolSize = or_default 0 (io_iceCandidatePoolSize opts),
          ic_iceTransportPolicy = or_default TransportAll (io_iceTransportPolicy opts),
          ic_bundlePolicy = or_default BundleBalanced (io_bundlePolicy opts)\<rparr>)"

definition getIceServers :: "turnCredentials option \<Rightarrow> iceServer list" where
  "getIceServers turnCredentials =
     [stun_server DEFAULT_STUN_SERVERS] @
     (case turnCredentials of None \<Rightarrow> [] | Some tc \<Rightarrow> [turn_server tc])"

section \<open>Properties\<close>

text \<open>
  The two ways to obtain ICE servers agree: \<open>getIceServers\<close> is the server list of the
  configuration made with the default STUN servers, and any configuration has a server with
  credentials exactly when TURN credentials were given, after the STUN servers if there are any.
\<close>

theorem ice_servers_agree:
  "getIceServers turn = ic_iceServers (createIceConfig \<lparr>io_stunServers = None,
     io_turnCredentials = turn, io_iceCandidatePoolSize = n, io_iceTransportPolicy = tp,
     io_bundlePolicy = bp\<rparr>) \<and>
   filter (\<lambda>s. is_username s \<noteq> None) (ic_iceServers (createIceConfig opts)) =
     map turn_server (case io_turnCredentials opts of None \<Rightarrow> [] | Some tc \<Rightarrow> [tc]) \<and>
   concat (map is_urls (filter (\<lambda>s. is_username s = None) (ic_iceServers (createIceConfig opts)))) =
     or_default DEFAULT_STUN_SERVERS (io_stunServers opts)"
  by (auto simp: getIceServers_def createIceConfig_def Let_def or_default_def turn_server_def
      stun_server_def DEFAULT_STUN_SERVERS_def split: option.splits)

end
