(* ===== verification/Markup.thy ===== *)
theory Markup
  imports Prelude
begin

text \<open>
  The trees that the console's components return: elements with a tag, attributes and children, and
  texts. An attribute whose value is a handler has the handler's name as its value, a boolean attribute
  the empty string; refs are not part of the document. What a reader of the document sees of it:
  the text of an element, the elements with a test id, the values of an attribute in order.
\<close>

datatype markup = Txt string | El string "(string \<times> string) list" "markup list"

text \<open>\<open>cond && element\<close>, and an element for an optional value.\<close>

definition when_shown :: "bool \<Rightarrow> markup \<Rightarrow> markup list" where
  "when_shown b m = (if b then [m] else [])"

definition for_some :: "'a option \<Rightarrow> ('a \<Rightarrow> markup) \<Rightarrow> markup list" where
  "for_some x f = (case x of None \<Rightarrow> [] | Some v \<Rightarrow> [f v])"

lemma shown_simps [simp]:
  "when_shown True m = [m]" "when_shown False m = []" "for_some None f = []" "for_some (Some v) f = [f v]"
  by (simp_all add: when_shown_def for_some_def)

lemma concat_shown [simp]:
  "concat (map g (when_shown b m)) = (if b then g m else [])"
  "concat (map g (for_some x f)) = (case x of None \<Rightarrow> [] | Some v \<Rightarrow> g (f v))"
  by (simp_all add: when_shown_def for_some_def split: option.splits)

fun text_content :: "markup \<Rightarrow> string" where
  "text_content (Txt s) = s"
| "text_content (El tag attrs cs) = concat (map text_content cs)"

fun attr_values :: "string \<Rightarrow> markup \<Rightarrow> string list" where
  "attr_values n (Txt s) = []"
| "attr_values n (El tag attrs cs) =
     map snd (filter (\<lambda>a. fst a = n) attrs) @ concat (map (attr_values n) cs)"

fun by_attr :: "string \<Rightarrow> string \<Rightarrow> markup \<Rightarrow> markup list" where
  "by_attr n v (Txt s) = []"
| "by_attr n v (El tag attrs cs) =
     (if (n, v) \<in> set attrs then [El tag attrs cs] else []) @ concat (map (by_attr n v) cs)"

abbreviation by_test_id :: "string \<Rightarrow> markup \<Rightarrow> markup list" where
  "by_test_id \<equiv> by_attr ''data-testid''"

definition document_values :: "string \<Rightarrow> markup list \<Rightarrow> string list" where
  "document_values n ms = concat (map (attr_values n) ms)"

definition reference_names :: "string list" where
  "reference_names = [''aria-labelledby'', ''aria-describedby'']"

text \<open>A document is sound when its ids and test ids are unique and every reference resolves.\<close>

definition sound_document :: "markup list \<Rightarrow> bool" where
  "sound_document ms \<longleftrightarrow> distinct (document_values ''id'' ms) \<and>
     distinct (document_values ''data-testid'' ms) \<and>
     list_all (\<lambda>n. set (document_values n ms) \<subseteq> set (document_values ''id'' ms)) reference_names"

lemma by_attr_iff: "by_attr n v m \<noteq> [] \<longleftrightarrow> v \<in> set (attr_values n m)"
proof (induction n v m rule: by_attr.induct)
  case (1 n v s)
  then show ?case by simp
next
  case (2 n v tag attrs cs)
  then show ?case by (auto simp: image_iff)
qed

end
