(* ===== verification/FrameTimestamps.thy ===== *)
theory FrameTimestamps
  imports JsJsonRoundtrip
begin

text \<open>
  The frame time stamps the console receives from the robot (\<open>hooks/useFrameTimestamps.ts\<close>): the
  check of a message's shape, the buffer of the last hundred time stamps and the count of messages
  lost.

  \<open>ft_receivedFirst\<close> is the ref \<open>receivedFirstRef\<close>. A message of the data channel is the text it
  carries. The text of a \<open>SyntaxError\<close> is the engine's and a parameter.
\<close>

section \<open>Messages\<close>

record frameTimestampMessage =
  fm_timestamp :: rat
  fm_frame_id :: rat
  fm_sequence_number :: rat

definition isFrameTimestampMessage :: "jsval \<Rightarrow> bool" where
  "isFrameTimestampMessage obj =
     (if \<not> is_object_type obj \<or> obj = JNull then False
      else strict_eq (get_prop obj ''type'') (JStr ''frame_timestamp'')
        \<and> is_number (get_prop obj ''timestamp'')
        \<and> is_number (get_prop obj ''frame_id'')
        \<and> is_number (get_prop obj ''sequence_number''))"

fun number_of :: "jsval \<Rightarrow> rat" where
  "number_of (JNum n) = n"
| "number_of v = 0"

definition frame_message :: "jsval \<Rightarrow> frameTimestampMessage" where
  "frame_message obj =
     \<lparr>fm_timestamp = number_of (get_prop obj ''timestamp''),
      fm_frame_id = number_of (get_prop obj ''frame_id''),
      fm_sequence_number = number_of (get_prop obj ''sequence_number'')\<rparr>"

section \<open>The buffer\<close>

record timestampBuffer =
  tb_timestamps :: "rat list"
  tb_lastSequence :: rat
  tb_droppedMessages :: rat
  tb_parseErrors :: nat
  tb_lastError :: "string option"

record frameTimestamps =
  ft_buffer :: timestampBuffer
  ft_receivedFirst :: bool

definition useFrameTimestamps :: frameTimestamps where
  "useFrameTimestamps =
     \<lparr>ft_buffer = \<lparr>tb_timestamps = [], tb_lastSequence = 0, tb_droppedMessages = 0,
        tb_parseErrors = 0, tb_lastError = None\<rparr>, ft_receivedFirst = False\<rparr>"

text \<open>\<open>xs.slice(-n)\<close> for a positive \<open>n\<close>: the last \<open>n\<close> elements, or all of them.\<close>

definition slice_last :: "nat \<Rightarrow> 'a list \<Rightarrow> 'a list" where
  "slice_last n xs = drop (length xs - n) xs"

definition record_error :: "string \<Rightarrow> frameTimestamps \<Rightarrow> frameTimestamps" where
  "record_error message ft =
     ft\<lparr>ft_buffer := (ft_buffer ft)\<lparr>tb_parseErrors := tb_parseErrors (ft_buffer ft) + 1,
          tb_lastError := Some message\<rparr>\<rparr>"

definition record_timestamp :: "frameTimestampMessage \<Rightarrow> frameTimestamps \<Rightarrow> frameTimestamps" where
  "record_timestamp msg ft =
     (let prev = ft_buffer ft;
          dropped = (if ft_receivedFirst ft \<and> fm_sequence_number msg > tb_lastSequence prev + 1
                     then fm_sequence_number msg - tb_lastSequence prev - 1 else 0)
      in \<lparr>ft_buffer =
            \<lparr>tb_timestamps = slice_last 99 (tb_timestamps prev) @ [fm_timestamp msg],
             tb_lastSequence = fm_sequence_number msg,
             tb_droppedMessages = tb_droppedMessages prev + dropped,
             tb_parseErrors = tb_parseErrors prev,
             tb_lastError = None\<rparr>,
          ft_receivedFirst = True\<rparr>)"

definition handleMessage :: "string \<Rightarrow> string \<Rightarrow> frameTimestamps \<Rightarrow> frameTimestamps" where
  "handleMessage syntaxMessage data ft =
     (case json_parse data of
        None \<Rightarrow> record_error (take 100 syntaxMessage) ft
      | Some msg \<Rightarrow>
          if \<not> isFrameTimestampMessage msg then
            (if is_object_type msg \<and> msg \<noteq> JNull
                \<and> \<not> strict_eq (get_prop msg ''type'') (JStr ''frame_timestamp'')
             then ft
             else record_error ''Invalid message structure'' ft)
          else record_timestamp (frame_message msg) ft)"

text \<open>The cleanup of the effect when the data channel changes: the buffer is kept.\<close>

definition channelChanged :: "frameTimestamps \<Rightarrow> frameTimestamps" where
  "channelChanged ft = ft\<lparr>ft_receivedFirst := False\<rparr>"

section \<open>Facts\<close>

text \<open>The valid messages among the texts received, in order.\<close>

definition frames :: "string list \<Rightarrow> frameTimestampMessage list" where
  "frames texts = map frame_message (filter isFrameTimestampMessage (List.map_filter json_parse texts))"

definition receive_all :: "string \<Rightarrow> string list \<Rightarrow> frameTimestamps \<Rightarrow> frameTimestamps" where
  "receive_all syntaxMessage texts ft = foldl (\<lambda>ft t. handleMessage syntaxMessage t ft) ft texts"

lemma slice_last_length [simp]: "length (slice_last n xs) = min n (length xs)"
  by (simp add: slice_last_def)

lemma slice_last_snoc: "slice_last 99 (slice_last 100 xs) @ [x] = slice_last 100 (xs @ [x])"
  by (cases "length xs \<le> 99") (auto simp: slice_last_def min_def not_le Suc_diff_le intro: arg_cong [where f = "\<lambda>n. drop n xs"])

lemma handleMessage_frame:
  "ft_buffer (handleMessage e t ft) = ft_buffer (foldl (\<lambda>ft m. record_timestamp m ft) ft (frames [t]))
     \<and> ft_receivedFirst (handleMessage e t ft) = (ft_receivedFirst ft \<or> frames [t] \<noteq> [])
   \<or> frames [t] = [] \<and> ft_receivedFirst (handleMessage e t ft) = ft_receivedFirst ft
     \<and> tb_timestamps (ft_buffer (handleMessage e t ft)) = tb_timestamps (ft_buffer ft)
     \<and> tb_lastSequence (ft_buffer (handleMessage e t ft)) = tb_lastSequence (ft_buffer ft)
     \<and> tb_droppedMessages (ft_buffer (handleMessage e t ft)) = tb_droppedMessages (ft_buffer ft)"
  by (auto simp: handleMessage_def frames_def map_filter_simps record_error_def record_timestamp_def
      Let_def split: option.splits)

lemma frames_Cons: "frames (t # ts) = frames [t] @ frames ts"
  by (auto simp: frames_def map_filter_simps split: option.splits)

text \<open>What the buffer knows after the messages \<open>ms\<close> of one channel.\<close>

definition gaps :: "rat list \<Rightarrow> rat" where
  "gaps seqs = (\<Sum>(a, b) \<leftarrow> zip seqs (tl seqs). max 0 (b - a - 1))"

lemma gaps_snoc: "seqs \<noteq> [] \<Longrightarrow> gaps (seqs @ [b]) = gaps seqs + max 0 (b - last seqs - 1)"
proof (induction seqs)
  case Nil
  then show ?case by simp
next
  case (Cons a seqs)
  then show ?case by (cases seqs) (auto simp: gaps_def)
qed

definition tracks :: "frameTimestampMessage list \<Rightarrow> frameTimestamps \<Rightarrow> bool" where
  "tracks ms ft \<longleftrightarrow>
     tb_timestamps (ft_buffer ft) = slice_last 100 (map fm_timestamp ms) \<and>
     ft_receivedFirst ft = (ms \<noteq> []) \<and>
     (ms \<noteq> [] \<longrightarrow> tb_lastSequence (ft_buffer ft) = fm_sequence_number (last ms)) \<and>
     tb_droppedMessages (ft_buffer ft) = gaps (map fm_sequence_number ms)"

lemma tracks_record: "tracks ms ft \<Longrightarrow> tracks (ms @ [m]) (record_timestamp m ft)"
  by (cases "ms = []")
     (auto simp: tracks_def record_timestamp_def Let_def slice_last_snoc gaps_snoc last_map gaps_def
        [of "[]"] gaps_def [of "[x]" for x] slice_last_def [of _ "[]"] slice_last_def [of _ "[x]" for x])

lemma tracks_message: "tracks ms ft \<Longrightarrow> tracks (ms @ frames [t]) (handleMessage e t ft)"
proof (cases "List.find isFrameTimestampMessage (List.map_filter json_parse [t])")
  case None
  assume *: "tracks ms ft"
  from None have "frames [t] = []" by (auto simp: frames_def find_None_iff filter_empty_conv)
  with handleMessage_frame [of e t ft] * show ?thesis by (auto simp: tracks_def)
next
  case (Some v)
  assume *: "tracks ms ft"
  from Some have "json_parse t = Some v" "isFrameTimestampMessage v"
    by (auto simp: map_filter_simps split: option.splits if_splits)
  then show ?thesis
    using tracks_record [OF *, of "frame_message v"]
    by (simp add: handleMessage_def frames_def map_filter_simps)
qed

lemma tracks_all: "tracks ms ft \<Longrightarrow> tracks (ms @ frames ts) (receive_all e ts ft)"
proof (induction ts arbitrary: ms ft)
  case Nil
  then show ?case by (simp add: receive_all_def frames_def map_filter_simps)
next
  case (Cons t ts)
  from Cons.IH [OF tracks_message [OF Cons.prems]] show ?case
    by (subst frames_Cons) (simp add: receive_all_def)
qed

lemma tracks_start: "tracks [] useFrameTimestamps"
  by (simp add: tracks_def useFrameTimestamps_def slice_last_def gaps_def)

text \<open>Strictly increasing whole sequence numbers: the gaps count the numbers that never came.\<close>

lemma gaps_increasing:
  assumes "sorted_wrt (<) seqs" and "seqs \<noteq> []"
  shows "gaps (map of_int seqs) = of_int (last seqs - hd seqs + 1 - int (length seqs))"
  using assms
proof (induction seqs rule: rev_induct)
  case Nil
  then show ?case by simp
next
  case (snoc b seqs)
  show ?case
  proof (cases "seqs = []")
    case True
    then show ?thesis by (simp add: gaps_def)
  next
    case False
    then have "last seqs < b" using snoc.prems(1) by (simp add: sorted_wrt_append)
    then have "max 0 (rat_of_int b - rat_of_int (last seqs) - 1) = of_int (b - last seqs - 1)"
      by (simp add: max_def)
    then show ?thesis
      using snoc False by (simp add: gaps_snoc sorted_wrt_append last_map)
  qed
qed

text \<open>A message as the robot sends it.\<close>

definition frame_json :: "int \<Rightarrow> int \<Rightarrow> jsval" where
  "frame_json timestamp sequence_number =
     JObj [(''type'', JStr ''frame_timestamp''), (''timestamp'', JNum (of_int timestamp)),
       (''frame_id'', JNum (of_int sequence_number)),
       (''sequence_number'', JNum (of_int sequence_number))]"

definition frame_text :: "int \<Rightarrow> int \<Rightarrow> string" where
  "frame_text timestamp sequence_number = json_stringify (frame_json timestamp sequence_number)"

lemma frame_text_parse: "json_parse (frame_text t n) = Some (frame_json t n)"
  unfolding frame_text_def by (rule json_roundtrip_compact) (simp add: frame_json_def)

lemma frames_frame_text [simp]:
  "frames [] = []"
  "frames (frame_text t n # ts) =
     \<lparr>fm_timestamp = of_int t, fm_frame_id = of_int n, fm_sequence_number = of_int n\<rparr> # frames ts"
  by (simp_all add: frames_def map_filter_simps frame_text_parse)
     (simp_all add: isFrameTimestampMessage_def frame_message_def frame_json_def)

section \<open>Properties\<close>

text \<open>
  (C40) After any messages on one data channel the buffer holds the last hundred time stamps of the
  valid ones, in order, whatever else was received, and the number of dropped messages is the sum of
  the gaps between consecutive sequence numbers.
\<close>

theorem frame_buffer_exact:
  "tb_timestamps (ft_buffer (receive_all e texts useFrameTimestamps)) =
     slice_last 100 (map fm_timestamp (frames texts)) \<and>
   tb_droppedMessages (ft_buffer (receive_all e texts useFrameTimestamps)) =
     gaps (map fm_sequence_number (frames texts))"
  using tracks_all [OF tracks_start, of texts e] by (simp add: tracks_def)

text \<open>
  When the sequence numbers that arrive are whole and increasing, the number of dropped
  messages is exactly how many numbers between the first and the last have not arrived.
\<close>

theorem dropped_messages_exact:
  assumes "map fm_sequence_number (frames texts) = map of_int seqs" and "seqs \<noteq> []"
    and "sorted_wrt (<) seqs"
  shows "tb_droppedMessages (ft_buffer (receive_all e texts useFrameTimestamps)) =
    of_int (int (card {hd seqs..last seqs} - card (set seqs)))"
proof -
  have le: "hd seqs \<le> last seqs"
    using assms(2,3) by (cases seqs) (auto simp: last_in_set less_imp_le)
  have "set seqs \<subseteq> {hd seqs..last seqs}"
  proof
    fix x assume "x \<in> set seqs"
    then obtain i where i: "i < length seqs" "x = seqs ! i" by (auto simp: in_set_conv_nth)
    have mono: "seqs ! a \<le> seqs ! b" if "a \<le> b" "b < length seqs" for a b
      using assms(3) that by (cases "a = b") (auto simp: sorted_wrt_nth_less less_imp_le)
    from mono [of 0 i] mono [of i "length seqs - 1"] i assms(2) show "x \<in> {hd seqs..last seqs}"
      by (simp add: hd_conv_nth last_conv_nth)
  qed
  then have "card (set seqs) \<le> card {hd seqs..last seqs}" by (intro card_mono) simp_all
  moreover have "card (set seqs) = length seqs"
    using assms(3) by (intro distinct_card) (auto simp: strict_sorted_iff)
  ultimately show ?thesis
    using tracks_all [OF tracks_start, of texts e] gaps_increasing [OF assms(3,2)] assms(1) le
    by (simp add: tracks_def)
qed

theorem dropped_messages_exact_witness:
  "tb_droppedMessages (ft_buffer (receive_all ''err''
     [frame_text 100 1, ''ping'', frame_text 200 2, frame_text 500 5] useFrameTimestamps)) = 2"
proof -
  have "json_parse ''ping'' = None" by code_simp
  then have "frames (''ping'' # ts) = frames ts" for ts by (simp add: frames_def map_filter_simps)
  then have "map fm_sequence_number (frames [frame_text 100 1, ''ping'', frame_text 200 2, frame_text 500 5])
      = map of_int [1, 2, 5]" by simp
  from dropped_messages_exact [OF this] show ?thesis by simp
qed

text \<open>
  Messages that arrive out of order are counted as lost although none is: after the sequence
  numbers 1, 3, 2, 4 two messages are reported dropped.
\<close>

theorem reordering_counts_as_loss:
  "tb_droppedMessages (ft_buffer (receive_all e
     [frame_text a 1, frame_text b 3, frame_text c 2, frame_text d 4] useFrameTimestamps)) = 2"
  using tracks_all [OF tracks_start, of "[frame_text a 1, frame_text b 3, frame_text c 2, frame_text d 4]" e]
  by (simp add: tracks_def gaps_def)

end
