(* ===== verification/VideoLatency.thy ===== *)
theory VideoLatency
  imports FrameTimestamps
begin

text \<open>
  The video latency shown by the console (\<open>hooks/useVideoLatency.ts\<close>), computed from the buffer of
  frame time stamps.

  The refs of the hook are \<open>vl_samples\<close>, \<open>vl_lastProcessed\<close> and \<open>vl_prevClockOffset\<close>, what it
  returns is \<open>vl_data\<close>; it has no result before the first samples. \<open>latency_effect\<close> is its effect,
  run with the buffer of the current render at the current time. Averages and ratios are exact.
\<close>

section \<open>State\<close>

record latencyConfig =
  lc_maxSamples :: int
  lc_detectClockOffset :: bool

definition DEFAULT_CONFIG :: latencyConfig where
  "DEFAULT_CONFIG = \<lparr>lc_maxSamples = 100, lc_detectClockOffset = True\<rparr>"

record videoLatencyData =
  vd_currentLatency :: "rat option"
  vd_averageLatency :: "rat option"
  vd_minLatency :: "rat option"
  vd_maxLatency :: "rat option"
  vd_sampleCount :: nat
  vd_clockOffset :: "rat option"

record videoLatency =
  vl_samples :: "rat list"
  vl_lastProcessed :: nat
  vl_prevClockOffset :: "rat option"
  vl_data :: videoLatencyData

definition useVideoLatency :: videoLatency where
  "useVideoLatency =
     \<lparr>vl_samples = [], vl_lastProcessed = 0, vl_prevClockOffset = None,
      vl_data = \<lparr>vd_currentLatency = None, vd_averageLatency = None, vd_minLatency = None,
        vd_maxLatency = None, vd_sampleCount = 0, vd_clockOffset = None\<rparr>\<rparr>"

section \<open>The effect\<close>

fun push_samples :: "int \<Rightarrow> rat \<Rightarrow> rat list \<Rightarrow> rat list \<Rightarrow> rat list" where
  "push_samples maxSamples currentTime [] samples = samples"
| "push_samples maxSamples currentTime (timestamp # rest) samples =
     (let pushed = samples @ [currentTime - timestamp]
      in push_samples maxSamples currentTime rest
           (if int (length pushed) > maxSamples then tl pushed else pushed))"

definition average :: "rat list \<Rightarrow> rat option" where
  "average xs = (if xs = [] then None else Some (sum_list xs / of_nat (length xs)))"

definition minimum :: "rat list \<Rightarrow> rat option" where
  "minimum xs = (case xs of [] \<Rightarrow> None | x # rest \<Rightarrow> Some (foldl min x rest))"

definition maximum :: "rat list \<Rightarrow> rat option" where
  "maximum xs = (case xs of [] \<Rightarrow> None | x # rest \<Rightarrow> Some (foldl max x rest))"

definition negativeRatio :: "rat list \<Rightarrow> rat" where
  "negativeRatio samples =
     (if samples = [] then 0
      else of_nat (length (filter (\<lambda>s. s < 0) samples)) / of_nat (length samples))"

definition clock_offset :: "latencyConfig \<Rightarrow> rat option \<Rightarrow> rat list \<Rightarrow> rat option" where
  "clock_offset cfg prev samples =
     (if \<not> lc_detectClockOffset cfg then None
      else if negativeRatio samples \<ge> 1 / 4
      then map_option abs (minimum (filter (\<lambda>s. s < 0) samples))
      else if prev \<noteq> None \<and> negativeRatio samples \<ge> 1 / 5 then prev
      else None)"

definition latency_data :: "latencyConfig \<Rightarrow> rat option \<Rightarrow> rat list \<Rightarrow> videoLatencyData" where
  "latency_data cfg clockOffset samples =
     (let validSamples = filter (\<lambda>s. s \<ge> 0 \<or> \<not> lc_detectClockOffset cfg) samples
      in \<lparr>vd_currentLatency = (if samples = [] then None else Some (last samples)),
          vd_averageLatency = average validSamples, vd_minLatency = minimum validSamples,
          vd_maxLatency = maximum validSamples, vd_sampleCount = length samples,
          vd_clockOffset = clockOffset\<rparr>)"

definition latency_effect ::
    "latencyConfig \<Rightarrow> ms \<Rightarrow> timestampBuffer \<Rightarrow> videoLatency \<Rightarrow> videoLatency" where
  "latency_effect cfg currentTime buffer vl =
     (if lc_maxSamples cfg \<le> 0 then vl
      else
        (let newTimestampCount = length (tb_timestamps buffer);
             vl1 = (if newTimestampCount < vl_lastProcessed vl
                    then vl\<lparr>vl_samples := [], vl_lastProcessed := 0\<rparr> else vl)
         in if newTimestampCount = 0 \<or> newTimestampCount = vl_lastProcessed vl1 then vl1
            else
              (let samples = push_samples (lc_maxSamples cfg) (of_int currentTime)
                     (drop (vl_lastProcessed vl1) (tb_timestamps buffer)) (vl_samples vl1);
                   clockOffset = clock_offset cfg (vl_prevClockOffset vl1) samples
               in \<lparr>vl_samples = samples, vl_lastProcessed = newTimestampCount,
                   vl_prevClockOffset = clockOffset,
                   vl_data = latency_data cfg clockOffset samples\<rparr>)))"

text \<open>
  The two hooks together: a message of the data channel arrives and the component renders, with the
  effect, at the given time.
\<close>

definition message_and_effect ::
    "latencyConfig \<Rightarrow> string \<Rightarrow> frameTimestamps \<times> videoLatency \<Rightarrow> string \<times> ms
      \<Rightarrow> frameTimestamps \<times> videoLatency" where
  "message_and_effect cfg e st x =
     (let ft = handleMessage e (fst x) (fst st)
      in (ft, latency_effect cfg (snd x) (ft_buffer ft) (snd st)))"

section \<open>Facts\<close>

definition last_samples :: "int \<Rightarrow> rat list \<Rightarrow> rat list" where
  "last_samples n xs = slice_last (nat n) xs"

lemma push_samples_last:
  assumes "0 < n" and "int (length samples) \<le> n"
  shows "push_samples n t new samples = last_samples n (samples @ map (\<lambda>x. t - x) new)"
  using assms
proof (induction new arbitrary: samples)
  case Nil
  then show ?case by (simp add: last_samples_def slice_last_def)
next
  case (Cons x new)
  show ?case
  proof (cases "int (length samples) = n")
    case True
    with Cons.prems obtain s rest where s: "samples = s # rest" by (cases samples) auto
    with True Cons.prems Cons.IH [of "rest @ [t - x]"] show ?thesis
      by (auto simp: last_samples_def slice_last_def Suc_diff_le)
  next
    case False
    with Cons.prems Cons.IH [of "samples @ [t - x]"] show ?thesis by simp
  qed
qed

lemma foldl_min: "foldl min (x :: rat) xs \<le> x \<and> (\<forall>y \<in> set xs. foldl min x xs \<le> y)
    \<and> foldl min x xs \<in> insert x (set xs)"
proof (induction xs arbitrary: x)
  case Nil
  then show ?case by simp
next
  case (Cons y ys)
  from Cons.IH [of "min x y"] show ?case by (auto simp: min_def split: if_splits)
qed

lemma foldl_max: "x \<le> foldl max (x :: rat) xs \<and> (\<forall>y \<in> set xs. y \<le> foldl max x xs)
    \<and> foldl max x xs \<in> insert x (set xs)"
proof (induction xs arbitrary: x)
  case Nil
  then show ?case by simp
next
  case (Cons y ys)
  from Cons.IH [of "max x y"] show ?case by (auto simp: max_def split: if_splits)
qed

lemma minimum_spec: "minimum xs = Some m \<Longrightarrow> m \<in> set xs \<and> (\<forall>y \<in> set xs. m \<le> y)"
  using foldl_min by (fastforce simp: minimum_def split: list.splits)

lemma maximum_spec: "maximum xs = Some m \<Longrightarrow> m \<in> set xs \<and> (\<forall>y \<in> set xs. y \<le> m)"
  using foldl_max by (fastforce simp: maximum_def split: list.splits)

lemma minimum_None [simp]: "minimum xs = None \<longleftrightarrow> xs = []"
  by (cases xs) (simp_all add: minimum_def)

lemma maximum_None [simp]: "maximum xs = None \<longleftrightarrow> xs = []"
  by (cases xs) (simp_all add: maximum_def)

lemma sum_list_between:
  "\<forall>x \<in> set xs. (a :: rat) \<le> x \<and> x \<le> b \<Longrightarrow>
     of_nat (length xs) * a \<le> sum_list xs \<and> sum_list xs \<le> of_nat (length xs) * b"
  by (induction xs) (auto simp: algebra_simps intro: add_mono)

lemma average_between:
  assumes "average xs = Some a" and "minimum xs = Some lo" and "maximum xs = Some hi"
  shows "lo \<le> a \<and> a \<le> hi"
proof -
  have "xs \<noteq> []" using assms(1) by (auto simp: average_def split: if_splits)
  moreover have "of_nat (length xs) * lo \<le> sum_list xs \<and> sum_list xs \<le> of_nat (length xs) * hi"
    using minimum_spec [OF assms(2)] maximum_spec [OF assms(3)] by (intro sum_list_between) auto
  ultimately show ?thesis
    using assms(1) by (auto simp: average_def pos_le_divide_eq pos_divide_le_eq mult.commute)
qed

text \<open>The state the hook reaches, whatever buffers it is given.\<close>

definition latency_ok :: "latencyConfig \<Rightarrow> videoLatency \<Rightarrow> bool" where
  "latency_ok cfg vl \<longleftrightarrow> int (length (vl_samples vl)) \<le> max 0 (lc_maxSamples cfg)"

lemma latency_effect_ok: "latency_ok cfg vl \<Longrightarrow> latency_ok cfg (latency_effect cfg now buffer vl)"
  by (auto simp: latency_ok_def latency_effect_def Let_def push_samples_last last_samples_def)

interpretation latency_hook: invariant_system
    "\<lambda>vl x. latency_effect cfg (fst x) (snd x) vl" "latency_ok cfg" for cfg
  by unfold_locales (rule latency_effect_ok)

text \<open>A full buffer stays full, and with it the effect stays idle.\<close>

definition saturated :: "frameTimestamps \<times> videoLatency \<Rightarrow> bool" where
  "saturated st \<longleftrightarrow> length (tb_timestamps (ft_buffer (fst st))) = 100 \<and> vl_lastProcessed (snd st) = 100"

lemma handleMessage_full:
  "length (tb_timestamps (ft_buffer ft)) = 100 \<Longrightarrow>
     length (tb_timestamps (ft_buffer (handleMessage e t ft))) = 100"
  by (auto simp: handleMessage_def record_error_def record_timestamp_def Let_def split: option.splits)

lemma saturated_step:
  assumes "saturated st"
  shows "saturated (message_and_effect cfg e st x) \<and> snd (message_and_effect cfg e st x) = snd st"
  using assms handleMessage_full [of "fst st" e "fst x"]
  by (auto simp: saturated_def message_and_effect_def latency_effect_def Let_def)

lemma saturated_run:
  "saturated st \<Longrightarrow> snd (foldl (message_and_effect cfg e) st xs) = snd st"
  by (induction xs arbitrary: st) (simp_all add: saturated_step)

section \<open>Properties\<close>

text \<open>
  When the buffer has grown, the effect keeps the last configured number of samples, a latency
  for each new time stamp, in order; the average lies between the least and the greatest of the
  samples that count, which are reported as they are.
\<close>

theorem latency_effect_exact:
  assumes "latency_ok cfg vl" and "0 < lc_maxSamples cfg"
    and "vl_lastProcessed vl < length (tb_timestamps buffer)"
  shows "\<exists>samples. vl_samples (latency_effect cfg now buffer vl) = samples \<and>
    samples = last_samples (lc_maxSamples cfg) (vl_samples vl @
      map (\<lambda>t. of_int now - t) (drop (vl_lastProcessed vl) (tb_timestamps buffer))) \<and>
    vl_lastProcessed (latency_effect cfg now buffer vl) = length (tb_timestamps buffer) \<and>
    vd_sampleCount (vl_data (latency_effect cfg now buffer vl)) = length samples \<and>
    int (length samples) \<le> lc_maxSamples cfg \<and>
    (\<forall>lo hi a. vd_minLatency (vl_data (latency_effect cfg now buffer vl)) = Some lo \<longrightarrow>
       vd_maxLatency (vl_data (latency_effect cfg now buffer vl)) = Some hi \<longrightarrow>
       vd_averageLatency (vl_data (latency_effect cfg now buffer vl)) = Some a \<longrightarrow>
       lo \<in> set samples \<and> hi \<in> set samples \<and> lo \<le> a \<and> a \<le> hi)"
proof -
  let ?vl = "latency_effect cfg now buffer vl"
  have eq: "vl_samples ?vl = last_samples (lc_maxSamples cfg) (vl_samples vl @
      map (\<lambda>t. of_int now - t) (drop (vl_lastProcessed vl) (tb_timestamps buffer)))"
    "vl_lastProcessed ?vl = length (tb_timestamps buffer)"
    "vl_data ?vl = latency_data cfg (vd_clockOffset (vl_data ?vl)) (vl_samples ?vl)"
    using assms
    by (auto simp: latency_effect_def Let_def push_samples_last latency_ok_def latency_data_def)
  have stats: "lo \<in> set xs \<and> hi \<in> set xs \<and> lo \<le> a \<and> a \<le> hi"
    if "vd_minLatency (latency_data cfg off xs) = Some lo"
      "vd_maxLatency (latency_data cfg off xs) = Some hi"
      "vd_averageLatency (latency_data cfg off xs) = Some a" for xs off lo hi a
    using that average_between minimum_spec maximum_spec
    by (fastforce simp: latency_data_def Let_def)
  have "int (length (vl_samples ?vl)) \<le> lc_maxSamples cfg"
    using latency_effect_ok [OF assms(1), of now buffer] assms(2) by (simp add: latency_ok_def)
  moreover have "vd_sampleCount (vl_data ?vl) = length (vl_samples ?vl)"
    by (subst eq(3)) (simp add: latency_data_def Let_def)
  ultimately show ?thesis using eq(1,2) stats [of "vd_clockOffset (vl_data ?vl)" "vl_samples ?vl"]
    by (metis eq(3))
qed

definition sample_buffer :: "rat list \<Rightarrow> timestampBuffer" where
  "sample_buffer ts = \<lparr>tb_timestamps = ts, tb_lastSequence = 0, tb_droppedMessages = 0,
     tb_parseErrors = 0, tb_lastError = None\<rparr>"

theorem latency_effect_exact_witness:
  "vl_samples (latency_effect DEFAULT_CONFIG 250 (sample_buffer [100, 200]) useVideoLatency) = [150, 50]"
proof -
  have "latency_ok DEFAULT_CONFIG useVideoLatency" "0 < lc_maxSamples DEFAULT_CONFIG"
    "vl_lastProcessed useVideoLatency < length (tb_timestamps (sample_buffer [100, 200]))"
    by (simp_all add: latency_ok_def useVideoLatency_def DEFAULT_CONFIG_def sample_buffer_def)
  from latency_effect_exact [OF this, of 250] show ?thesis
    by (simp add: last_samples_def slice_last_def useVideoLatency_def DEFAULT_CONFIG_def sample_buffer_def)
qed

text \<open>
  Once the buffer has reached its hundred time stamps and the effect has seen them, the latency
  shown never changes again: its length stays a hundred, so the effect takes every later message for
  one it has already processed.
\<close>

theorem latency_freezes_when_buffer_full:
  assumes "length (tb_timestamps (ft_buffer ft)) = 100" and "0 < lc_maxSamples cfg"
  shows "snd (foldl (message_and_effect cfg e)
      (ft, latency_effect cfg now (ft_buffer ft) vl) xs) = latency_effect cfg now (ft_buffer ft) vl"
proof -
  have "vl_lastProcessed (latency_effect cfg now (ft_buffer ft) vl) = 100"
    using assms by (auto simp: latency_effect_def Let_def)
  with assms(1) have "saturated (ft, latency_effect cfg now (ft_buffer ft) vl)"
    by (simp add: saturated_def)
  from saturated_run [OF this] show ?thesis by simp
qed

theorem latency_freezes_when_buffer_full_witness:
  "snd (foldl (message_and_effect DEFAULT_CONFIG ''x'')
     (\<lparr>ft_buffer = sample_buffer (replicate 100 5), ft_receivedFirst = True\<rparr>,
      latency_effect DEFAULT_CONFIG 50 (sample_buffer (replicate 100 5)) useVideoLatency)
     [(frame_text 900 200, 901)]) =
   latency_effect DEFAULT_CONFIG 50 (sample_buffer (replicate 100 5)) useVideoLatency"
  using latency_freezes_when_buffer_full
    [of "\<lparr>ft_buffer = sample_buffer (replicate 100 5), ft_receivedFirst = True\<rparr>" DEFAULT_CONFIG
     "''x''" 50 useVideoLatency "[(frame_text 900 200, 901)]"]
  by (simp add: sample_buffer_def DEFAULT_CONFIG_def)

end
