(* ===== verification/VideoRenderer.thy ===== *)
theory VideoRenderer
  imports VideoLatency
begin

text \<open>
  The video panel's renderer (\<open>components/video/VideoRenderer.tsx\<close>): attaching a stream, the end of
  its track, full screen, and which overlays and figures are shown.

  A stream is what the code asks of it: whether it is active and the settings of its video tracks,
  with \<open>None\<close> for a missing setting. The media element and the full-screen interface of the browser
  are not modelled; what is called on them is recorded.
\<close>

record trackSettings =
  vt_width :: "nat option"
  vt_height :: "nat option"
  vt_frameRate :: "rat option"

record mediaStream =
  me_active :: bool
  me_videoTracks :: "trackSettings list"

record videoStats =
  vs_width :: nat
  vs_height :: nat
  vs_frameRate :: rat

record renderer =
  vr_isFullscreen :: bool
  vr_stats :: "videoStats option"
  vr_isStreamActive :: bool
  vr_srcObject :: "mediaStream option"

datatype rendererCall = OnStreamError string | RequestFullscreen | ExitFullscreen

definition videoRenderer :: renderer where
  "videoRenderer =
     \<lparr>vr_isFullscreen = False, vr_stats = None, vr_isStreamActive = False, vr_srcObject = None\<rparr>"

definition or_0 :: "'a :: zero option \<Rightarrow> 'a" where
  "or_0 v = (case v of None \<Rightarrow> 0 | Some n \<Rightarrow> n)"

definition streamEffect :: "mediaStream option \<Rightarrow> renderer \<Rightarrow> renderer" where
  "streamEffect stream r =
     (case stream of
        None \<Rightarrow> r\<lparr>vr_srcObject := None, vr_isStreamActive := False, vr_stats := None\<rparr>
      | Some s \<Rightarrow>
          (let r1 = r\<lparr>vr_srcObject := Some s,
                      vr_isStreamActive := me_active s \<and> length (me_videoTracks s) > 0\<rparr>
           in case me_videoTracks s of
                [] \<Rightarrow> r1
              | track # rest \<Rightarrow> r1\<lparr>vr_stats := Some \<lparr>vs_width = or_0 (vt_width track),
                    vs_height = or_0 (vt_height track), vs_frameRate = or_0 (vt_frameRate track)\<rparr>\<rparr>))"

definition handleEnded :: "renderer \<Rightarrow> renderer \<times> rendererCall list" where
  "handleEnded r = (r\<lparr>vr_isStreamActive := False\<rparr>, [OnStreamError ''track_ended''])"

definition toggleFullscreen :: "bool \<Rightarrow> rendererCall list" where
  "toggleFullscreen fullscreenElement =
     (if \<not> fullscreenElement then [RequestFullscreen] else [ExitFullscreen])"

definition handleFullscreenChange :: "bool \<Rightarrow> renderer \<Rightarrow> renderer" where
  "handleFullscreenChange isOwnElement r = r\<lparr>vr_isFullscreen := isOwnElement\<rparr>"

text \<open>\<open>Math.round\<close>: to the nearest integer, halves up.\<close>

definition js_round :: "rat \<Rightarrow> int" where
  "js_round x = rat_floor (x + 1 / 2)"

record rendererView =
  rv_placeholder :: bool
  rv_reconnecting :: bool
  rv_error :: "string option"
  rv_resolution :: "string option"
  rv_fps :: "string option"
  rv_latency :: "string option"
  rv_avgLatency :: "string option"
  rv_clockOffset :: "string option"
  rv_timestampErrors :: "string option"

definition rendererShown ::
    "mediaStream option \<Rightarrow> bool \<Rightarrow> string option \<Rightarrow> renderer \<Rightarrow> videoLatencyData \<Rightarrow> timestampBuffer
      \<Rightarrow> rendererView" where
  "rendererShown stream showStats err r latency buffer =
     (let showPlaceholder = (stream = None \<or> \<not> vr_isStreamActive r);
          showReconnecting = (case stream of None \<Rightarrow> False | Some s \<Rightarrow> \<not> me_active s);
          e = (case err of None \<Rightarrow> None | Some m \<Rightarrow> if m = [] then None else Some m);
          statsShown = (showStats \<and> vr_isStreamActive r \<and> vr_stats r \<noteq> None);
          shown = (\<lambda>t. if statsShown then t else None)
      in \<lparr>rv_placeholder = (showPlaceholder \<and> \<not> showReconnecting \<and> e = None),
          rv_reconnecting = showReconnecting,
          rv_error = e,
          rv_resolution = shown (map_option (\<lambda>s. int_to_dec (int (vs_width s)) @ ''x'' @
             int_to_dec (int (vs_height s))) (vr_stats r)),
          rv_fps = shown (map_option (\<lambda>s. int_to_dec (js_round (vs_frameRate s)) @ '' FPS'') (vr_stats r)),
          rv_latency = shown (map_option (\<lambda>l. int_to_dec (js_round l) @ ''ms'')
             (vd_currentLatency latency)),
          rv_avgLatency = shown (map_option (\<lambda>l. ''avg: '' @ int_to_dec (js_round l) @ ''ms'')
             (vd_averageLatency latency)),
          rv_clockOffset = shown (Option.bind (vd_clockOffset latency)
             (\<lambda>off. if off > 100 then Some (int_to_dec (js_round off) @ ''ms'') else None)),
          rv_timestampErrors = shown (if tb_parseErrors buffer > 0
             then Some (int_to_dec (int (tb_parseErrors buffer))) else None)\<rparr>)"

datatype rendererInput =
    NewStream "mediaStream option"
  | TrackEnded
  | FullscreenChange bool

fun renderer_step :: "mediaStream option \<times> renderer \<Rightarrow> rendererInput \<Rightarrow> mediaStream option \<times> renderer" where
  "renderer_step (stream, r) (NewStream s) = (s, streamEffect s r)"
| "renderer_step (stream, r) TrackEnded = (stream, fst (handleEnded r))"
| "renderer_step (stream, r) (FullscreenChange b) = (stream, handleFullscreenChange b r)"

section \<open>Facts\<close>

text \<open>The state fits the stream: it counts as active only with a video track, whose settings it shows.\<close>

definition renderer_ok :: "mediaStream option \<times> renderer \<Rightarrow> bool" where
  "renderer_ok sr \<longleftrightarrow>
     vr_srcObject (snd sr) = fst sr \<and>
     (vr_isStreamActive (snd sr) \<longrightarrow> (\<exists>s track rest. fst sr = Some s \<and> me_active s \<and>
        me_videoTracks s = track # rest \<and> vr_stats (snd sr) =
          Some \<lparr>vs_width = or_0 (vt_width track), vs_height = or_0 (vt_height track),
                vs_frameRate = or_0 (vt_frameRate track)\<rparr>))"

lemma renderer_step_ok: "renderer_ok sr \<Longrightarrow> renderer_ok (renderer_step sr x)"
  by (cases sr; cases x)
     (auto simp: renderer_ok_def streamEffect_def handleEnded_def handleFullscreenChange_def Let_def
       split: option.splits list.splits)

interpretation renderer_hook: invariant_system renderer_step renderer_ok
  by unfold_locales (rule renderer_step_ok)

section \<open>Properties\<close>

text \<open>
  Whatever streams come and go, the video panel is never silently blank: whenever it does not
  show the figures of a running stream although they are asked for, it shows the placeholder, the
  reconnecting notice or the error; and figures are shown only of the attached, active stream.
\<close>

theorem renderer_never_blank:
  assumes "foldl renderer_step (None, videoRenderer) xs = (stream, r)"
    and "rendererShown stream True err r latency buffer = v"
  shows "(rv_resolution v = None \<longleftrightarrow> \<not> vr_isStreamActive r) \<and>
    (rv_resolution v = None \<longrightarrow> rv_placeholder v \<or> rv_reconnecting v \<or> rv_error v \<noteq> None) \<and>
    (rv_resolution v \<noteq> None \<longrightarrow> (\<exists>s. stream = Some s \<and> me_active s \<and> vr_srcObject r = Some s))"
proof -
  have "renderer_ok (None, videoRenderer)" by (simp add: renderer_ok_def videoRenderer_def)
  from renderer_hook.run_good [OF this, of xs] assms(1) have ok: "renderer_ok (stream, r)" by simp
  show ?thesis
  proof (cases "vr_isStreamActive r")
    case True
    with ok assms(2) show ?thesis by (auto simp: renderer_ok_def rendererShown_def Let_def)
  next
    case False
    with assms(2) show ?thesis by (auto simp: rendererShown_def Let_def split: option.splits)
  qed
qed

theorem renderer_never_blank_witness:
  "rv_placeholder (rendererShown (Some \<lparr>me_active = True, me_videoTracks = [\<lparr>vt_width = Some 640,
      vt_height = Some 480, vt_frameRate = None\<rparr>]\<rparr>) True None
     (snd (foldl renderer_step (None, videoRenderer) [NewStream (Some \<lparr>me_active = True,
       me_videoTracks = [\<lparr>vt_width = Some 640, vt_height = Some 480, vt_frameRate = None\<rparr>]\<rparr>), TrackEnded]))
     (vl_data useVideoLatency) (ft_buffer useFrameTimestamps))"
proof -
  let ?s = "\<lparr>me_active = True, me_videoTracks = [\<lparr>vt_width = Some 640, vt_height = Some 480,
      vt_frameRate = None\<rparr>]\<rparr>"
  obtain r where run: "foldl renderer_step (None, videoRenderer) [NewStream (Some ?s), TrackEnded] = (Some ?s, r)"
    by simp
  have "\<not> vr_isStreamActive r" using run by (auto simp: handleEnded_def)
  with renderer_never_blank [OF run refl, of None] run show ?thesis
    by (auto simp: rendererShown_def Let_def)
qed

end
