(* ===== verification/ConnectionStats.thy ===== *)
theory ConnectionStats
  imports Prelude
begin

text \<open>
  The connection statistics of the console (\<open>hooks/useConnectionStats.ts\<close>): reading the browser's
  report, packet loss, bitrate and the health derived from the round-trip time.

  A report is the list of its entries in iteration order; of an entry only the fields the code reads
  are kept, as \<open>rtcStat\<close>, with \<open>None\<close> for a missing number. Numbers are exact rationals. \<open>collectStats\<close>
  awaits the report: \<open>collect_finish\<close> is what happens with the answer; the polling is in
  \<open>StatsPolling\<close>.
\<close>

section \<open>Reading a report\<close>

record rtcStat =
  rs_type :: string
  rs_state :: string
  rs_kind :: string
  rs_currentRoundTripTime :: "rat option"
  rs_packetsReceived :: "rat option"
  rs_packetsLost :: "rat option"
  rs_bytesReceived :: "rat option"
  rs_timestamp :: "rat option"
  rs_framesPerSecond :: "rat option"

record rawStats =
  rw_rttMs :: rat
  rw_packetsReceived :: rat
  rw_packetsLost :: rat
  rw_bytesReceived :: rat
  rw_timestamp :: rat
  rw_frameRate :: rat

definition or_zero :: "rat option \<Rightarrow> rat" where
  "or_zero v = (case v of None \<Rightarrow> 0 | Some n \<Rightarrow> n)"

definition read_stat :: "rawStats \<Rightarrow> rtcStat \<Rightarrow> rawStats" where
  "read_stat raw stat =
     (let raw1 =
        (if rs_type stat = ''candidate-pair'' \<and> rs_state stat = ''succeeded''
         then (case rs_currentRoundTripTime stat of None \<Rightarrow> raw | Some t \<Rightarrow> raw\<lparr>rw_rttMs := t * 1000\<rparr>)
         else raw)
      in if rs_type stat = ''inbound-rtp'' \<and> rs_kind stat = ''video''
         then raw1\<lparr>rw_packetsReceived := or_zero (rs_packetsReceived stat),
                   rw_packetsLost := or_zero (rs_packetsLost stat),
                   rw_bytesReceived := or_zero (rs_bytesReceived stat),
                   rw_timestamp := or_zero (rs_timestamp stat),
                   rw_frameRate := or_zero (rs_framesPerSecond stat)\<rparr>
         else raw1)"

definition parseStatsReport :: "rtcStat list \<Rightarrow> rawStats" where
  "parseStatsReport report =
     foldl read_stat \<lparr>rw_rttMs = 0, rw_packetsReceived = 0, rw_packetsLost = 0,
       rw_bytesReceived = 0, rw_timestamp = 0, rw_frameRate = 0\<rparr> report"

section \<open>Derived figures\<close>

definition calculatePacketLoss :: "rat \<Rightarrow> rat \<Rightarrow> rat" where
  "calculatePacketLoss received lost =
     (let total = received + lost in if total > 0 then lost / total * 100 else 0)"

definition calculateBitrate :: "rat \<Rightarrow> rat \<Rightarrow> rat \<Rightarrow> rat \<Rightarrow> rat" where
  "calculateBitrate bytes timestamp prevBytes prevTimestamp =
     (if prevTimestamp \<le> 0 \<or> timestamp \<le> prevTimestamp then 0
      else
        (let bytesDiff = bytes - prevBytes;
             timeDiffSec = (timestamp - prevTimestamp) / 1000
         in bytesDiff * 8 / timeDiffSec / 1000000))"

datatype healthStatus = Good | Warning | Critical | Unknown

definition RTT_GOOD_THRESHOLD :: rat where "RTT_GOOD_THRESHOLD = 50"
definition RTT_WARNING_THRESHOLD :: rat where "RTT_WARNING_THRESHOLD = 150"

definition calculateHealthStatus :: "rat \<Rightarrow> healthStatus" where
  "calculateHealthStatus rttMs =
     (if rttMs \<le> RTT_GOOD_THRESHOLD then Good
      else if rttMs \<le> RTT_WARNING_THRESHOLD then Warning
      else Critical)"

text \<open>Health ordered by how bad it is, with the unknown last.\<close>

fun severity :: "healthStatus \<Rightarrow> nat" where
  "severity Good = 0"
| "severity Warning = 1"
| "severity Critical = 2"
| "severity Unknown = 3"

lemma severity_inject [simp]: "severity a = severity b \<longleftrightarrow> a = b"
  by (cases a; cases b) auto

instantiation healthStatus :: linorder
begin

definition less_eq_healthStatus :: "healthStatus \<Rightarrow> healthStatus \<Rightarrow> bool" where
  "less_eq_healthStatus a b \<longleftrightarrow> severity a \<le> severity b"

definition less_healthStatus :: "healthStatus \<Rightarrow> healthStatus \<Rightarrow> bool" where
  "less_healthStatus a b \<longleftrightarrow> severity a < severity b"

instance
  by intro_classes
     (auto simp: less_eq_healthStatus_def less_healthStatus_def not_le simp flip: severity_inject)

end

section \<open>The hook\<close>

record connectionStats =
  cs_rttMs :: rat
  cs_packetLossPercent :: rat
  cs_videoBitrateMbps :: rat
  cs_frameRate :: rat

record statsHook =
  sh_stats :: "connectionStats option"
  sh_healthStatus :: healthStatus
  sh_error :: "string option"
  sh_prevBytes :: rat
  sh_prevTimestamp :: rat

definition useConnectionStats :: statsHook where
  "useConnectionStats =
     \<lparr>sh_stats = None, sh_healthStatus = Unknown, sh_error = None, sh_prevBytes = 0,
      sh_prevTimestamp = 0\<rparr>"

text \<open>What \<open>getStats\<close> answers: an exception with its message, nothing, or a report.\<close>

datatype statsAnswer = StatsThrows string | StatsNull | StatsReport "rtcStat list"

definition collect_finish :: "statsAnswer \<Rightarrow> statsHook \<Rightarrow> statsHook" where
  "collect_finish answer h =
     (case answer of
        StatsThrows errorMessage \<Rightarrow> h\<lparr>sh_error := Some errorMessage\<rparr>
      | StatsNull \<Rightarrow> h
      | StatsReport report \<Rightarrow>
          (let raw = parseStatsReport report
           in \<lparr>sh_stats = Some
                 \<lparr>cs_rttMs = rw_rttMs raw,
                  cs_packetLossPercent =
                    calculatePacketLoss (rw_packetsReceived raw) (rw_packetsLost raw),
                  cs_videoBitrateMbps =
                    calculateBitrate (rw_bytesReceived raw) (rw_timestamp raw) (sh_prevBytes h)
                      (sh_prevTimestamp h),
                  cs_frameRate = rw_frameRate raw\<rparr>,
               sh_healthStatus = (if rw_rttMs raw > 0 then calculateHealthStatus (rw_rttMs raw)
                                  else Unknown),
               sh_error = None,
               sh_prevBytes = rw_bytesReceived raw,
               sh_prevTimestamp = rw_timestamp raw\<rparr>))"

section \<open>Facts\<close>

text \<open>A report whose counters are not negative.\<close>

definition nonneg :: "rat option \<Rightarrow> bool" where
  "nonneg v \<longleftrightarrow> 0 \<le> or_zero v"

definition stat_nonneg :: "rtcStat \<Rightarrow> bool" where
  "stat_nonneg s \<longleftrightarrow> nonneg (rs_currentRoundTripTime s) \<and> nonneg (rs_packetsReceived s) \<and>
     nonneg (rs_packetsLost s) \<and> nonneg (rs_bytesReceived s)"

definition raw_nonneg :: "rawStats \<Rightarrow> bool" where
  "raw_nonneg raw \<longleftrightarrow> 0 \<le> rw_rttMs raw \<and> 0 \<le> rw_packetsReceived raw \<and> 0 \<le> rw_packetsLost raw
     \<and> 0 \<le> rw_bytesReceived raw"

lemma read_stat_nonneg: "raw_nonneg raw \<Longrightarrow> stat_nonneg s \<Longrightarrow> raw_nonneg (read_stat raw s)"
  by (auto simp: raw_nonneg_def stat_nonneg_def nonneg_def or_zero_def read_stat_def Let_def
      split: option.splits)

lemma parse_nonneg: "list_all stat_nonneg report \<Longrightarrow> raw_nonneg (parseStatsReport report)"
proof -
  have "list_all stat_nonneg report \<Longrightarrow> raw_nonneg raw \<Longrightarrow> raw_nonneg (foldl read_stat raw report)" for raw
    by (induction report arbitrary: raw) (auto simp: read_stat_nonneg)
  then show "list_all stat_nonneg report \<Longrightarrow> raw_nonneg (parseStatsReport report)"
    by (simp add: parseStatsReport_def raw_nonneg_def)
qed

lemma packet_loss_bounds:
  "0 \<le> received \<Longrightarrow> 0 \<le> lost \<Longrightarrow>
     0 \<le> calculatePacketLoss received lost \<and> calculatePacketLoss received lost \<le> 100"
  by (auto simp: calculatePacketLoss_def Let_def divide_le_eq)

lemma bitrate_sign:
  "prevBytes \<le> bytes \<Longrightarrow> 0 \<le> calculateBitrate bytes timestamp prevBytes prevTimestamp"
  by (simp add: calculateBitrate_def Let_def)

lemma health_mono: "r \<le> r' \<Longrightarrow> calculateHealthStatus r \<le> calculateHealthStatus r'"
  by (auto simp: calculateHealthStatus_def less_eq_healthStatus_def RTT_GOOD_THRESHOLD_def
      RTT_WARNING_THRESHOLD_def)

lemma health_known [simp]: "calculateHealthStatus r \<noteq> Unknown"
  by (simp add: calculateHealthStatus_def)

section \<open>Properties\<close>

text \<open>
  From a report with non-negative counters the hook shows a packet loss between 0 and 100
  percent, a bitrate that is not negative unless the byte counter went back, and no error; its health
  is the unknown exactly when no round-trip time was reported, and otherwise never better for a
  longer round-trip time.
\<close>

theorem connection_stats_bounds:
  assumes "list_all stat_nonneg report" and "collect_finish (StatsReport report) h = h'"
    and "sh_prevBytes h \<le> rw_bytesReceived (parseStatsReport report)"
  shows "\<exists>s. sh_stats h' = Some s \<and> sh_error h' = None \<and>
    0 \<le> cs_packetLossPercent s \<and> cs_packetLossPercent s \<le> 100 \<and> 0 \<le> cs_videoBitrateMbps s \<and>
    (sh_healthStatus h' = Unknown \<longleftrightarrow> cs_rttMs s = 0) \<and>
    (\<forall>r. 0 < cs_rttMs s \<and> cs_rttMs s \<le> r \<longrightarrow> sh_healthStatus h' \<le> calculateHealthStatus r)"
proof -
  have "raw_nonneg (parseStatsReport report)" by (rule parse_nonneg [OF assms(1)])
  then show ?thesis
    using assms(2,3) health_mono
    by (auto simp: collect_finish_def Let_def raw_nonneg_def packet_loss_bounds bitrate_sign)
qed

definition video_stat :: "rat \<Rightarrow> rat \<Rightarrow> rtcStat" where
  "video_stat bytes timestamp =
     \<lparr>rs_type = ''inbound-rtp'', rs_state = [], rs_kind = ''video'', rs_currentRoundTripTime = None,
      rs_packetsReceived = Some 90, rs_packetsLost = Some 10, rs_bytesReceived = Some bytes,
      rs_timestamp = Some timestamp, rs_framesPerSecond = None\<rparr>"

theorem connection_stats_bounds_witness:
  "\<exists>s. sh_stats (collect_finish (StatsReport [video_stat 2000000 3000])
       (useConnectionStats\<lparr>sh_prevBytes := 1000000, sh_prevTimestamp := 2000\<rparr>)) = Some s \<and>
     cs_packetLossPercent s \<le> 100"
proof -
  have "list_all stat_nonneg [video_stat 2000000 3000]"
    by (simp add: stat_nonneg_def nonneg_def or_zero_def video_stat_def)
  moreover have "sh_prevBytes (useConnectionStats\<lparr>sh_prevBytes := 1000000, sh_prevTimestamp := 2000\<rparr>)
      \<le> rw_bytesReceived (parseStatsReport [video_stat 2000000 3000])"
    by (simp add: parseStatsReport_def read_stat_def video_stat_def or_zero_def Let_def)
  ultimately show ?thesis using connection_stats_bounds [OF _ refl] by blast
qed

text \<open>
  The bitrate is not protected against a byte counter that starts again, as after a change of
  the stream: it is then shown negative.
\<close>

theorem bitrate_negative_after_reset:
  assumes "0 < prevTimestamp" and "prevTimestamp < timestamp" and "bytes < prevBytes"
  shows "calculateBitrate bytes timestamp prevBytes prevTimestamp < 0"
  using assms by (simp add: calculateBitrate_def Let_def divide_neg_pos)

theorem bitrate_negative_after_reset_witness: "calculateBitrate 0 2000 1000000 1000 < 0"
  by (rule bitrate_negative_after_reset) simp_all

end
