(* ===== verification/SessionDisplay.thy ===== *)
theory SessionDisplay
  imports JsJsonRoundtrip ConnectionStats
begin

text \<open>
  What the console shows: the session status bar (\<open>components/session/SessionStatus.tsx\<close>), the
  connection health overlay (\<open>components/health/ConnectionHealth.tsx\<close>), the revocation notice
  (\<open>components/session/RevocationNotification.tsx\<close>) and the application that shows it
  (\<open>App.tsx\<close>).

  Of a component its state, the effects that change it and a record of the texts it shows; the
  markup around them is in \<open>ConsoleMarkup\<close>. The elapsed and the remaining time are whole
  milliseconds, as \<open>Date\<close> arithmetic gives them.
\<close>

section \<open>Durations\<close>

text \<open>\<open>%\<close> of the language: the sign is that of the dividend.\<close>

definition js_rem :: "int \<Rightarrow> int \<Rightarrow> int" where
  "js_rem a b = (if a < 0 then - ((- a) mod b) else a mod b)"

text \<open>\<open>toString().padStart(2, '0')\<close>.\<close>

definition pad2 :: "int \<Rightarrow> string" where
  "pad2 n = (let s = int_to_dec n in replicate (2 - length s) (CHR ''0'') @ s)"

definition formatDuration :: "int \<Rightarrow> string" where
  "formatDuration ms =
     (let totalSeconds = ms div 1000;
          hours = totalSeconds div 3600;
          minutes = (js_rem totalSeconds 3600) div 60;
          seconds = js_rem totalSeconds 60
      in if hours > 0 then pad2 hours @ '':'' @ pad2 minutes @ '':'' @ pad2 seconds
         else pad2 minutes @ '':'' @ pad2 seconds)"

section \<open>Session status\<close>

datatype connectionState =
    CsDisconnected | CsConnecting | CsConnected | CsReconnecting | CsFailed | CsRevoked

datatype permissionLevel = ViewOnly | Control | Admin

fun getConnectionStateLabel :: "connectionState \<Rightarrow> string" where
  "getConnectionStateLabel CsDisconnected = ''Disconnected''"
| "getConnectionStateLabel CsConnecting = ''Connecting...''"
| "getConnectionStateLabel CsConnected = ''Connected''"
| "getConnectionStateLabel CsReconnecting = ''Reconnecting...''"
| "getConnectionStateLabel CsFailed = ''Connection Failed''"
| "getConnectionStateLabel CsRevoked = ''Session Revoked''"

fun getPermissionLabel :: "permissionLevel \<Rightarrow> string" where
  "getPermissionLabel ViewOnly = ''View Only''"
| "getPermissionLabel Control = ''Control''"
| "getPermissionLabel Admin = ''Admin''"

definition TOKEN_EXPIRY_WARNING_THRESHOLD :: ms where
  "TOKEN_EXPIRY_WARNING_THRESHOLD = 120000"

record statusProps =
  sp_connectionState :: connectionState
  sp_sessionStartTime :: "ms option"
  sp_permissionLevel :: "permissionLevel option"
  sp_errorMessage :: "string option"
  sp_tokenExpiresAt :: "ms option"
  sp_onRetry :: bool

record statusState =
  st_elapsedTime :: ms
  st_timeToExpiry :: "ms option"
  st_isTransitioning :: bool
  st_prevState :: connectionState

fun connectionUp :: "connectionState \<Rightarrow> bool" where
  "connectionUp CsConnected = True"
| "connectionUp CsReconnecting = True"
| "connectionUp s = False"

text \<open>The timers' callbacks, and the effects when the props changed: both set the times afresh.\<close>

definition updateTimer :: "statusProps \<Rightarrow> ms \<Rightarrow> statusState \<Rightarrow> statusState" where
  "updateTimer p now st =
     (case sp_sessionStartTime p of
        Some start \<Rightarrow>
          if connectionUp (sp_connectionState p) then st\<lparr>st_elapsedTime := now - start\<rparr>
          else st\<lparr>st_elapsedTime := 0\<rparr>
      | None \<Rightarrow> st\<lparr>st_elapsedTime := 0\<rparr>)"

definition updateExpiry :: "statusProps \<Rightarrow> ms \<Rightarrow> statusState \<Rightarrow> statusState" where
  "updateExpiry p now st =
     (case sp_tokenExpiresAt p of
        Some expiresAt \<Rightarrow>
          if connectionUp (sp_connectionState p)
          then (let remaining = expiresAt - now
                in st\<lparr>st_timeToExpiry := Some (if remaining > 0 then remaining else 0)\<rparr>)
          else st\<lparr>st_timeToExpiry := None\<rparr>
      | None \<Rightarrow> st\<lparr>st_timeToExpiry := None\<rparr>)"

definition transitionEffect :: "statusProps \<Rightarrow> statusState \<Rightarrow> statusState" where
  "transitionEffect p st =
     (if st_prevState st \<noteq> sp_connectionState p
      then st\<lparr>st_isTransitioning := True, st_prevState := sp_connectionState p\<rparr> else st)"

definition transitionEnds :: "statusState \<Rightarrow> statusState" where
  "transitionEnds st = st\<lparr>st_isTransitioning := False\<rparr>"

record statusView =
  sv_label :: string
  sv_indicator :: string
  sv_timer :: "string option"
  sv_permission :: "string option"
  sv_expiryWarning :: "string option"
  sv_error :: "string option"
  sv_retryButton :: bool

definition state_class :: "connectionState \<Rightarrow> string" where
  "state_class s =
     (case s of CsDisconnected \<Rightarrow> ''disconnected'' | CsConnecting \<Rightarrow> ''connecting''
      | CsConnected \<Rightarrow> ''connected'' | CsReconnecting \<Rightarrow> ''reconnecting''
      | CsFailed \<Rightarrow> ''failed'' | CsRevoked \<Rightarrow> ''revoked'')"

definition indicatorClasses :: "statusProps \<Rightarrow> statusState \<Rightarrow> string" where
  "indicatorClasses p st =
     str_join '' '' (filter (\<lambda>c. c \<noteq> [])
       [''connection-indicator'', ''connection-indicator--'' @ state_class (sp_connectionState p),
        if st_isTransitioning st then ''connection-indicator--transitioning'' else []])"

definition sessionStatus :: "statusProps \<Rightarrow> statusState \<Rightarrow> statusView" where
  "sessionStatus p st =
     (let isConnected = connectionUp (sp_connectionState p);
          isRevoked = (sp_connectionState p = CsRevoked);
          showError = (\<exists>m \<in> set_option (sp_errorMessage p). m \<noteq> [] \<and> sp_connectionState p = CsFailed);
          canRetry = (\<not> isRevoked);
          showExpiryWarning = (case st_timeToExpiry st of None \<Rightarrow> False
             | Some t \<Rightarrow> t < TOKEN_EXPIRY_WARNING_THRESHOLD)
      in \<lparr>sv_label = getConnectionStateLabel (sp_connectionState p),
          sv_indicator = indicatorClasses p st,
          sv_timer = (if isConnected \<and> sp_sessionStartTime p \<noteq> None
                      then Some (formatDuration (st_elapsedTime st)) else None),
          sv_permission = (if isConnected then map_option getPermissionLabel (sp_permissionLevel p)
                           else None),
          sv_expiryWarning = (if showExpiryWarning
             then map_option (\<lambda>t. ''Expires in '' @ formatDuration t) (st_timeToExpiry st) else None),
          sv_error = (if showError then sp_errorMessage p else None),
          sv_retryButton = (showError \<and> sp_onRetry p \<and> canRetry)\<rparr>)"

section \<open>Connection health\<close>

text \<open>\<open>toFixed(1)\<close> for the values shown: rounded to the nearest tenth, halves up.\<close>

definition toFixed1 :: "rat \<Rightarrow> string" where
  "toFixed1 x =
     (let n = rat_floor (\<bar>x\<bar> * 10 + 1 / 2)
      in (if x < 0 then ''-'' else []) @ int_to_dec (n div 10) @ ''.'' @ int_to_dec (n mod 10))"

definition formatMetric :: "rat option \<Rightarrow> string \<Rightarrow> string" where
  "formatMetric value suffix =
     (case value of None \<Rightarrow> ''--'' | Some v \<Rightarrow> num_to_string v @ '' '' @ suffix)"

definition formatDecimal :: "rat option \<Rightarrow> string \<Rightarrow> string" where
  "formatDecimal value suffix = (case value of None \<Rightarrow> ''--'' | Some v \<Rightarrow> toFixed1 v @ '' '' @ suffix)"

definition formatPercent :: "rat option \<Rightarrow> string" where
  "formatPercent value = (case value of None \<Rightarrow> ''--'' | Some v \<Rightarrow> toFixed1 v @ ''%'')"

record healthView =
  hv_rtt :: string
  hv_packetLoss :: string
  hv_bitrate :: string
  hv_frameRate :: string
  hv_toggle :: bool

datatype healthShown = HealthHidden | HealthCompact healthStatus | HealthFull healthStatus healthView

definition connectionHealth ::
    "connectionStats option \<Rightarrow> healthStatus \<Rightarrow> bool \<Rightarrow> bool \<Rightarrow> bool \<Rightarrow> healthShown" where
  "connectionHealth stats healthStatus visible isCompact onToggle =
     (if \<not> visible then HealthHidden
      else if isCompact then HealthCompact healthStatus
      else HealthFull healthStatus
        \<lparr>hv_rtt = (case stats of None \<Rightarrow> ''--'' | Some s \<Rightarrow> formatMetric (Some (cs_rttMs s)) ''ms''),
         hv_packetLoss = (case stats of None \<Rightarrow> ''--''
            | Some s \<Rightarrow> formatPercent (Some (cs_packetLossPercent s))),
         hv_bitrate = (case stats of None \<Rightarrow> ''--''
            | Some s \<Rightarrow> formatDecimal (Some (cs_videoBitrateMbps s)) ''Mbps''),
         hv_frameRate = (case stats of None \<Rightarrow> ''--''
            | Some s \<Rightarrow> formatMetric (Some (cs_frameRate s)) ''fps''),
         hv_toggle = onToggle\<rparr>)"

section \<open>The revocation notice\<close>

record revocationState =
  rv_isRevoked :: bool
  rv_reason :: string

definition initialRevocation :: revocationState where
  "initialRevocation = \<lparr>rv_isRevoked = False, rv_reason = []\<rparr>"

definition handleRevoked :: "string \<Rightarrow> string \<Rightarrow> revocationState \<Rightarrow> revocationState" where
  "handleRevoked sessionId reason r = \<lparr>rv_isRevoked = True, rv_reason = reason\<rparr>"

definition handleDismiss :: "revocationState \<Rightarrow> revocationState" where
  "handleDismiss r = \<lparr>rv_isRevoked = False, rv_reason = []\<rparr>"

text \<open>
  What the application shows of it: nothing, or the notice, with the reason if there is one. While it
  is shown, the Escape key and its button dismiss it.
\<close>

definition revocationNotification :: "revocationState \<Rightarrow> string option option" where
  "revocationNotification r =
     (if rv_isRevoked r then Some (if rv_reason r = [] then None else Some (rv_reason r)) else None)"

definition revocation_keydown :: "string \<Rightarrow> revocationState \<Rightarrow> revocationState" where
  "revocation_keydown key r = (if rv_isRevoked r \<and> key = ''Escape'' then handleDismiss r else r)"

section \<open>Facts\<close>

lemma int_to_dec_nat: "0 \<le> n \<Longrightarrow> int_to_dec n = nat_to_dec (nat n)"
  by (simp add: int_to_dec_def)

lemma dec_value_zeros: "dec_value (replicate k (CHR ''0'') @ s) = dec_value s"
proof (induction k)
  case (Suc k)
  have "digit_val (CHR ''0'') = 0" by code_simp
  with Suc show ?case by (simp add: dec_value_def)
qed simp

lemma nat_to_dec_length: "n < 100 \<Longrightarrow> length (nat_to_dec n) \<le> 2"
proof -
  assume "n < 100"
  then have "nat_to_dec (n div 10) = [digit_char (n div 10)]"
    by (subst nat_to_dec.simps) (simp add: less_mult_imp_div_less)
  then show ?thesis by (subst nat_to_dec.simps) simp
qed

lemma pad2_facts:
  assumes "0 \<le> n"
  shows "dec_value (pad2 n) = nat n" and "CHR '':'' \<notin> set (pad2 n)" and "2 \<le> length (pad2 n)"
    and "n < 100 \<Longrightarrow> length (pad2 n) = 2"
proof -
  have p: "pad2 n = replicate (2 - length (nat_to_dec (nat n))) (CHR ''0'') @ nat_to_dec (nat n)"
    by (simp add: pad2_def int_to_dec_nat assms Let_def)
  show "dec_value (pad2 n) = nat n" by (simp add: p dec_value_zeros dec_value_nat_to_dec)
  have "\<not> is_digit (CHR '':'')" by code_simp
  then show "CHR '':'' \<notin> set (pad2 n)"
    using nat_to_dec_digits [of "nat n"] by (auto simp: p list_all_iff)
  show "2 \<le> length (pad2 n)" by (simp add: p)
  show "length (pad2 n) = 2" if "n < 100"
    using nat_to_dec_length [of "nat n"] that assms by (simp add: p)
qed

lemma split_duration:
  assumes "0 \<le> h" and "0 \<le> m" and "0 \<le> s"
  shows "str_split (CHR '':'') (pad2 m @ '':'' @ pad2 s) = [pad2 m, pad2 s]"
    and "str_split (CHR '':'') (pad2 h @ '':'' @ pad2 m @ '':'' @ pad2 s) = [pad2 h, pad2 m, pad2 s]"
  using pad2_facts(2) [OF assms(1)] pad2_facts(2) [OF assms(2)] pad2_facts(2) [OF assms(3)]
  by (simp_all add: str_split_append str_split_Nil_iff)

text \<open>The value of a list of fields to the base sixty.\<close>

definition sexagesimal :: "string list \<Rightarrow> nat" where
  "sexagesimal parts = foldl (\<lambda>n f. 60 * n + dec_value f) 0 parts"

section \<open>Properties\<close>

text \<open>
  A duration is shown so that it can be read back: the text has two or three fields, the last
  two have two digits and stand for less than sixty, and the fields to the base sixty give the whole
  seconds.
\<close>

theorem duration_reads_back:
  assumes "0 \<le> ms"
  shows "\<exists>parts. str_split (CHR '':'') (formatDuration ms) = parts \<and> length parts \<in> {2, 3} \<and>
    int (sexagesimal parts) = ms div 1000 \<and>
    (\<forall>f \<in> set (drop (length parts - 2) parts). length f = 2 \<and> dec_value f < 60)"
proof -
  let ?t = "ms div 1000"
  define h where "h = ?t div 3600"
  define m where "m = ?t mod 3600 div 60"
  define s where "s = ?t mod 60"
  have bounds: "0 \<le> ?t" "0 \<le> h" "0 \<le> m" "m < 60" "0 \<le> s" "s < 60"
    using assms by (auto simp: h_def m_def s_def pos_imp_zdiv_nonneg_iff)
  define r where "r = ?t mod 3600"
  have "?t = h * 3600 + r" unfolding h_def r_def by (rule div_mult_mod_eq [symmetric])
  moreover have "r = m * 60 + s"
  proof -
    have "s = r mod 60" unfolding s_def r_def by (simp add: mod_mod_cancel)
    then show ?thesis unfolding m_def r_def [symmetric] by (simp only: div_mult_mod_eq)
  qed
  ultimately have sum: "60 * (60 * h + m) + s = ?t" by (simp only: distrib_left mult.commute add.assoc)
  have rem: "js_rem ?t b = ?t mod b" for b using bounds(1) by (simp only: js_rem_def not_less if_not_P)
  have fmt: "formatDuration ms = (if h > 0 then pad2 h @ '':'' @ pad2 m @ '':'' @ pad2 s
      else pad2 m @ '':'' @ pad2 s)"
    unfolding formatDuration_def Let_def h_def m_def s_def rem ..
  note f = pad2_facts [OF bounds(2)] pad2_facts [OF bounds(3)] pad2_facts [OF bounds(5)]
  show ?thesis
  proof (cases "h > 0")
    case True
    then show ?thesis
      using fmt split_duration(2) [OF bounds(2,3,5)] f bounds sum
      by (auto simp: sexagesimal_def)
  next
    case False
    then have "h = 0" using bounds(2) by simp
    then show ?thesis
      using fmt split_duration(1) [OF bounds(2,3,5)] f bounds sum
      by (auto simp: sexagesimal_def)
  qed
qed

theorem duration_reads_back_witness:
  "\<exists>parts. str_split (CHR '':'') (formatDuration 3725000) = parts \<and> int (sexagesimal parts) = 3725"
  using duration_reads_back [of 3725000] by auto

text \<open>
  After its effect the status bar warns of the token's expiry exactly while the connection is up
  and less than two minutes remain, and the time it shows is what remains, never less than zero; a
  retry is offered only after a failure, hence never for a revoked session.
\<close>

theorem expiry_warning_exact:
  "(sv_expiryWarning (sessionStatus p (updateExpiry p now st)) = Some w \<longleftrightarrow>
     (\<exists>e. sp_tokenExpiresAt p = Some e \<and> connectionUp (sp_connectionState p) \<and> e - now < 120000 \<and>
        w = ''Expires in '' @ formatDuration (max 0 (e - now)))) \<and>
   (sv_retryButton (sessionStatus p (updateExpiry p now st)) \<longleftrightarrow>
     sp_connectionState p = CsFailed \<and> sp_onRetry p \<and> sp_errorMessage p \<noteq> None
       \<and> sp_errorMessage p \<noteq> Some [])"
  by (cases "sp_connectionState p"; cases "sp_tokenExpiresAt p"; cases "sp_errorMessage p")
     (auto simp: sessionStatus_def updateExpiry_def TOKEN_EXPIRY_WARNING_THRESHOLD_def Let_def max_def)

end
