(* ===== verification/ConsoleMarkup.thy ===== *)
theory ConsoleMarkup
  imports Markup VideoRenderer SessionDisplay
begin

text \<open>
  The markup that the console's components return, as functions of their props and state: the static
  layout (\<open>components/layout/*.tsx\<close>), the video renderer, the status bar of a session, the connection
  health overlay, the revocation notice and the application (\<open>App.tsx\<close>). The views of
  \<open>VideoRenderer\<close> and \<open>SessionDisplay\<close> say what is shown; here it is where in the document it is
  shown, and the two agree. \<open>useVideoLatency\<close> always returns the error \<open>null\<close>, so the element for
  it is never rendered and has no counterpart.
\<close>

section \<open>Layout\<close>

definition headerMarkup :: markup where
  "headerMarkup =
     El ''header'' [(''className'', ''header''), (''role'', ''banner'')]
       [El ''div'' [(''className'', ''header__logo'')]
          [El ''h1'' [(''className'', ''header__title'')] [Txt ''ChainKVM Console'']],
        El ''div'' [(''className'', ''header__status''), (''data-testid'', ''session-status'')]
          [El ''span'' [(''className'', ''status-indicator status-indicator--disconnected'')] [],
           El ''span'' [(''className'', ''status-text'')] [Txt ''Disconnected'']]]"

definition statusBarMarkup :: markup where
  "statusBarMarkup =
     El ''footer'' [(''className'', ''status-bar''), (''data-testid'', ''status-bar''),
                    (''role'', ''contentinfo'')]
       [El ''div'' [(''className'', ''status-bar__item''), (''data-testid'', ''latency-indicator'')]
          [El ''span'' [(''className'', ''status-bar__label'')] [Txt ''Latency''],
           El ''span'' [(''className'', ''status-bar__value'')] [Txt ''-- ms'']],
        El ''div'' [(''className'', ''status-bar__item''), (''data-testid'', ''connection-quality'')]
          [El ''span'' [(''className'', ''status-bar__label'')] [Txt ''Quality''],
           El ''span'' [(''className'', ''status-bar__value status-bar__value--unknown'')] [Txt ''--'']],
        El ''div'' [(''className'', ''status-bar__item'')]
          [El ''span'' [(''className'', ''status-bar__label'')] [Txt ''Control Rate''],
           El ''span'' [(''className'', ''status-bar__value'')] [Txt ''-- Hz'']]]"

definition controlPanelMarkup :: markup where
  "controlPanelMarkup =
     El ''div'' [(''className'', ''control-panel''), (''data-testid'', ''control-panel'')]
       [El ''div'' [(''className'', ''control-panel__header'')]
          [El ''span'' [(''className'', ''control-panel__title'')] [Txt ''Control Input''],
           El ''span'' [(''className'', ''control-panel__state''), (''data-testid'', ''control-state'')]
             [Txt ''Inactive'']],
        El ''div'' [(''className'', ''control-panel__instructions'')]
          [El ''p'' [] [Txt ''Click video to enable controls''],
           El ''ul'' []
             [El ''li'' [] [Txt ''WASD / Arrow keys: Drive''],
              El ''li'' [] [Txt ''Mouse: Look around''],
              El ''li'' [] [Txt ''Space: Emergency stop'']]]]"

section \<open>The video panel\<close>

definition WARNING_SIGN :: string where
  "WARNING_SIGN = [CHR 0xE2, CHR 0x9A, CHR 0xA0]"

definition figure_span :: "string \<Rightarrow> string list \<Rightarrow> markup" where
  "figure_span testid ts = El ''span'' [(''data-testid'', testid)] (map Txt ts)"

definition warning_span :: "string \<Rightarrow> string list \<Rightarrow> markup" where
  "warning_span testid ts =
     El ''span'' [(''data-testid'', testid), (''className'', ''video-renderer__stats--warning'')]
       (map Txt ts)"

definition statsMarkup :: "videoStats \<Rightarrow> videoLatencyData \<Rightarrow> timestampBuffer \<Rightarrow> markup" where
  "statsMarkup s latency buffer =
     El ''div'' [(''className'', ''video-renderer__stats''), (''data-testid'', ''video-stats'')]
       ([figure_span ''resolution-indicator''
           [int_to_dec (int (vs_width s)), ''x'', int_to_dec (int (vs_height s))],
         figure_span ''fps-indicator'' [int_to_dec (js_round (vs_frameRate s)), '' FPS'']]
        @ for_some (vd_currentLatency latency)
            (\<lambda>l. figure_span ''latency-indicator'' [int_to_dec (js_round l), ''ms''])
        @ for_some (vd_averageLatency latency)
            (\<lambda>l. figure_span ''avg-latency-indicator'' [''avg: '', int_to_dec (js_round l), ''ms''])
        @ for_some (Option.bind (vd_clockOffset latency) (\<lambda>off. if off > 100 then Some off else None))
            (\<lambda>off. warning_span ''clock-offset-warning''
               [WARNING_SIGN @ '' Clock offset: '', int_to_dec (js_round off), ''ms''])
        @ when_shown (tb_parseErrors buffer > 0)
            (warning_span ''timestamp-errors''
               [WARNING_SIGN @ '' Timestamp errors: '', int_to_dec (int (tb_parseErrors buffer))]))"

definition videoRendererMarkup ::
    "mediaStream option \<Rightarrow> bool \<Rightarrow> string option \<Rightarrow> renderer \<Rightarrow> videoLatencyData \<Rightarrow> timestampBuffer
      \<Rightarrow> markup" where
  "videoRendererMarkup stream showStats err r latency buffer =
     (let showPlaceholder = (stream = None \<or> \<not> vr_isStreamActive r);
          showReconnecting = (case stream of None \<Rightarrow> False | Some s \<Rightarrow> \<not> me_active s);
          e = (case err of None \<Rightarrow> None | Some m \<Rightarrow> if m = [] then None else Some m);
          full = vr_isFullscreen r
      in El ''div'' [(''className'', ''video-renderer '' @ (if full then ''video-renderer--fullscreen'' else [])),
                     (''data-testid'', ''video-renderer'')]
           ([El ''video'' [(''className'', ''video-renderer__video''), (''data-testid'', ''video-element''),
               (''autoPlay'', []), (''playsInline'', []), (''muted'', []),
               (''aria-label'', ''Robot camera feed'')] []]
            @ when_shown (showPlaceholder \<and> \<not> showReconnecting \<and> e = None)
                (El ''div'' [(''className'', ''video-renderer__placeholder'')]
                   [El ''span'' [] [Txt ''No Video Stream''], El ''p'' [] [Txt ''Waiting for connection...'']])
            @ when_shown showReconnecting
                (El ''div'' [(''className'', ''video-renderer__overlay video-renderer__overlay--reconnecting'')]
                   [El ''span'' [] [Txt ''Reconnecting...''],
                    El ''p'' [] [Txt ''Attempting to restore video stream'']])
            @ for_some e (\<lambda>m.
                El ''div'' [(''className'', ''video-renderer__overlay video-renderer__overlay--error'')]
                   [El ''span'' [] [Txt ''Error''], El ''p'' [] [Txt m]])
            @ (if showStats \<and> vr_isStreamActive r
               then for_some (vr_stats r) (\<lambda>s. statsMarkup s latency buffer) else [])
            @ [El ''div'' [(''className'', ''video-renderer__controls'')]
                 [El ''button'' [(''className'', ''video-renderer__fullscreen-btn''),
                      (''data-testid'', ''fullscreen-button''), (''onClick'', ''toggleFullscreen''),
                      (''aria-pressed'', if full then ''true'' else ''false''),
                      (''aria-label'', if full then ''Exit fullscreen'' else ''Enter fullscreen'')]
                    [Txt (if full then [CHR 0xE2, CHR 0xA4, CHR 0x93] else [CHR 0xE2, CHR 0xA4, CHR 0xA2])]]]))"

definition videoPanelMarkup ::
    "mediaStream option \<Rightarrow> string option \<Rightarrow> renderer \<Rightarrow> videoLatencyData \<Rightarrow> timestampBuffer \<Rightarrow> markup" where
  "videoPanelMarkup stream err r latency buffer =
     El ''div'' [(''className'', ''video-panel''), (''data-testid'', ''video-panel'')]
       [videoRendererMarkup stream True err r latency buffer]"

definition layoutMarkup :: "renderer \<Rightarrow> videoLatencyData \<Rightarrow> timestampBuffer \<Rightarrow> markup" where
  "layoutMarkup r latency buffer =
     El ''div'' [(''className'', ''layout'')]
       [headerMarkup,
        El ''main'' [(''className'', ''layout__main'')]
          [videoPanelMarkup None None r latency buffer, controlPanelMarkup],
        statusBarMarkup]"

section \<open>The status of a session\<close>

definition permission_value :: "permissionLevel \<Rightarrow> string" where
  "permission_value l = (case l of ViewOnly \<Rightarrow> ''view-only'' | Control \<Rightarrow> ''control'' | Admin \<Rightarrow> ''admin'')"

definition sessionStatusMarkup :: "statusProps \<Rightarrow> statusState \<Rightarrow> markup" where
  "sessionStatusMarkup p st =
     (let isConnected = connectionUp (sp_connectionState p);
          isRevoked = (sp_connectionState p = CsRevoked);
          message = (case sp_errorMessage p of None \<Rightarrow> None
             | Some m \<Rightarrow> if m \<noteq> [] \<and> sp_connectionState p = CsFailed then Some m else None);
          label = getConnectionStateLabel (sp_connectionState p);
          expiry = (case st_timeToExpiry st of None \<Rightarrow> None
             | Some t \<Rightarrow> if t < TOKEN_EXPIRY_WARNING_THRESHOLD then Some t else None)
      in El ''div'' [(''className'', ''session-status'')]
           ([El ''div'' [(''role'', ''status''), (''aria-live'', ''polite''),
                (''aria-label'', ''Connection status: '' @ label),
                (''className'', ''session-status__connection'')]
               [El ''span'' [(''data-testid'', ''connection-indicator''),
                    (''className'', indicatorClasses p st), (''aria-hidden'', ''true'')] [],
                El ''span'' [(''className'', ''connection-label'')] [Txt label]]]
            @ when_shown (isConnected \<and> sp_sessionStartTime p \<noteq> None)
                (El ''div'' [(''className'', ''session-status__timer'')]
                   [El ''span'' [(''data-testid'', ''session-timer''), (''className'', ''session-timer'')]
                      [Txt (formatDuration (st_elapsedTime st))]])
            @ for_some (if isConnected then sp_permissionLevel p else None) (\<lambda>l.
                El ''div'' [(''data-testid'', ''permission-badge''),
                    (''className'', ''permission-badge permission-badge--'' @ permission_value l)]
                   [Txt (getPermissionLabel l)])
            @ for_some expiry (\<lambda>t.
                El ''div'' [(''data-testid'', ''token-expiry-warning''),
                    (''className'', ''session-status__expiry-warning'')]
                   [El ''span'' [(''className'', ''expiry-icon''), (''aria-hidden'', ''true'')] [Txt WARNING_SIGN],
                    El ''span'' [] [Txt ''Expires in '', Txt (formatDuration t)]])
            @ for_some message (\<lambda>m.
                El ''div'' [(''role'', ''alert''), (''aria-label'', ''Error: '' @ m),
                    (''className'', ''session-status__error'')]
                   (El ''span'' [(''className'', ''error-message'')] [Txt m]
                    # when_shown (sp_onRetry p \<and> \<not> isRevoked)
                        (El ''button'' [(''type'', ''button''), (''className'', ''retry-button''),
                           (''onClick'', ''onRetry''), (''aria-label'', ''Retry connection'')] [Txt ''Retry''])))))"

section \<open>Connection health\<close>

definition health_value :: "healthStatus \<Rightarrow> string" where
  "health_value h = (case h of Good \<Rightarrow> ''good'' | Warning \<Rightarrow> ''warning'' | Critical \<Rightarrow> ''critical''
     | Unknown \<Rightarrow> ''unknown'')"

definition healthIndicator :: "healthStatus \<Rightarrow> markup" where
  "healthIndicator h =
     El ''span'' [(''data-testid'', ''health-indicator''),
         (''className'', str_join '' '' [''health-indicator'', ''health-indicator--'' @ health_value h]),
         (''aria-label'', ''Connection health: '' @ health_value h)] []"

definition metricMarkup :: "string \<Rightarrow> string \<Rightarrow> string \<Rightarrow> markup" where
  "metricMarkup label testid value =
     El ''div'' [(''className'', ''metric'')]
       [El ''span'' [(''className'', ''metric__label'')] [Txt label],
        El ''span'' [(''data-testid'', testid), (''className'', ''metric__value'')] [Txt value]]"

definition connectionHealthMarkup ::
    "connectionStats option \<Rightarrow> healthStatus \<Rightarrow> bool \<Rightarrow> bool \<Rightarrow> bool \<Rightarrow> markup list" where
  "connectionHealthMarkup stats healthStatus visible isCompact onToggle =
     (let metric = (\<lambda>f. case stats of None \<Rightarrow> ''--'' | Some s \<Rightarrow> f s) in
      if \<not> visible then []
      else if isCompact then
        [El ''div'' [(''className'', ''connection-health connection-health--compact'')]
           [healthIndicator healthStatus]]
      else
        [El ''div'' [(''data-testid'', ''connection-health-overlay''), (''className'', ''connection-health'')]
           [El ''div'' [(''className'', ''connection-health__header'')]
              ([healthIndicator healthStatus,
                El ''span'' [(''className'', ''connection-health__title'')] [Txt ''Connection'']]
               @ when_shown onToggle
                   (El ''button'' [(''type'', ''button''), (''className'', ''connection-health__toggle''),
                      (''onClick'', ''onToggle''), (''aria-label'', ''Hide connection stats'')] [Txt ''Hide''])),
            El ''div'' [(''className'', ''connection-health__metrics'')]
              [metricMarkup ''Round-trip time'' ''rtt-value''
                 (metric (\<lambda>s. formatMetric (Some (cs_rttMs s)) ''ms'')),
               metricMarkup ''Packet loss'' ''packet-loss-value''
                 (metric (\<lambda>s. formatPercent (Some (cs_packetLossPercent s)))),
               metricMarkup ''Video bitrate'' ''bitrate-value''
                 (metric (\<lambda>s. formatDecimal (Some (cs_videoBitrateMbps s)) ''Mbps'')),
               metricMarkup ''Frame rate'' ''framerate-value''
                 (metric (\<lambda>s. formatMetric (Some (cs_frameRate s)) ''fps''))]]])"

section \<open>The application\<close>

definition revocationNotificationMarkup :: "string \<Rightarrow> markup" where
  "revocationNotificationMarkup reason =
     El ''div'' [(''className'', ''revocation-overlay''), (''role'', ''alertdialog''), (''aria-modal'', ''true''),
                 (''aria-labelledby'', ''revocation-title''), (''aria-describedby'', ''revocation-description'')]
       [El ''div'' [(''className'', ''revocation-modal'')]
          [El ''div'' [(''className'', ''revocation-modal__header'')]
             [El ''span'' [(''className'', ''revocation-modal__icon''), (''aria-hidden'', ''true'')] [Txt WARNING_SIGN],
              El ''h2'' [(''id'', ''revocation-title''), (''className'', ''revocation-modal__title'')]
                [Txt ''Session Revoked'']],
           El ''div'' [(''className'', ''revocation-modal__body'')]
             (El ''p'' [(''id'', ''revocation-description''), (''className'', ''revocation-modal__message'')]
                [Txt ''Your session has been terminated by an administrator.'']
              # when_shown (reason \<noteq> [])
                  (El ''div'' [(''className'', ''revocation-modal__reason'')]
                     [El ''span'' [(''className'', ''revocation-modal__reason-label'')] [Txt ''Reason:''],
                      El ''span'' [(''data-testid'', ''revocation-reason''),
                          (''className'', ''revocation-modal__reason-text'')] [Txt reason]])),
           El ''div'' [(''className'', ''revocation-modal__footer'')]
             [El ''button'' [(''type'', ''button''), (''className'', ''revocation-modal__button''),
                (''onClick'', ''onDismiss''), (''autoFocus'', [])] [Txt ''Return to Login'']]]]"

definition appMarkup ::
    "revocationState \<Rightarrow> renderer \<Rightarrow> videoLatencyData \<Rightarrow> timestampBuffer \<Rightarrow> markup list" where
  "appMarkup rvs r latency buffer =
     layoutMarkup r latency buffer
       # when_shown (rv_isRevoked rvs) (revocationNotificationMarkup (rv_reason rvs))"

section \<open>The entry point\<close>

text \<open>
  \<open>main.tsx\<close> renders the application into the element of the page whose id is \<open>root\<close>; without such
  an element \<open>createRoot\<close> throws, which is \<open>None\<close>. \<open>getElementById\<close> finds the first one in document
  order. What \<open>StrictMode\<close> adds while developing is not modelled.
\<close>

fun replace_first :: "('a \<Rightarrow> 'a option) \<Rightarrow> 'a list \<Rightarrow> 'a list option" where
  "replace_first f [] = None"
| "replace_first f (c # cs) =
     (case f c of Some c' \<Rightarrow> Some (c' # cs) | None \<Rightarrow> map_option ((#) c) (replace_first f cs))"

lemma replace_first_cong [fundef_cong]:
  "xs = ys \<Longrightarrow> (\<And>x. x \<in> set ys \<Longrightarrow> f x = g x) \<Longrightarrow> replace_first f xs = replace_first g ys"
  by (induction ys arbitrary: xs) (auto split: option.split)

fun render_into :: "string \<Rightarrow> markup list \<Rightarrow> markup \<Rightarrow> markup option" where
  "render_into i content (Txt s) = None"
| "render_into i content (El tag attrs cs) =
     (if (''id'', i) \<in> set attrs then Some (El tag attrs content)
      else map_option (El tag attrs) (replace_first (render_into i content) cs))"

definition main_tsx :: "markup \<Rightarrow> markup list \<Rightarrow> markup option" where
  "main_tsx page app = render_into ''root'' app page"

text \<open>The page, \<open>index.html\<close>, without its head.\<close>

definition index_html :: markup where
  "index_html =
     El ''body'' []
       [El ''div'' [(''id'', ''root'')] [],
        El ''script'' [(''type'', ''module''), (''src'', ''/src/main.tsx'')] []]"

section \<open>The markup shows the view\<close>

definition shown_texts :: "string option \<Rightarrow> string list" where
  "shown_texts x = (case x of None \<Rightarrow> [] | Some t \<Rightarrow> [t])"

lemma shown_texts_simps [simp]: "shown_texts None = []" "shown_texts (Some t) = [t]"
  by (simp_all add: shown_texts_def)

lemmas markup_simps = headerMarkup_def statusBarMarkup_def controlPanelMarkup_def videoPanelMarkup_def
  figure_span_def warning_span_def statsMarkup_def healthIndicator_def metricMarkup_def

lemma stats_figures:
  "map text_content (by_test_id ''resolution-indicator'' (statsMarkup s latency buffer)) =
     [int_to_dec (int (vs_width s)) @ ''x'' @ int_to_dec (int (vs_height s))]"
  "map text_content (by_test_id ''fps-indicator'' (statsMarkup s latency buffer)) =
     [int_to_dec (js_round (vs_frameRate s)) @ '' FPS'']"
  "map text_content (by_test_id ''latency-indicator'' (statsMarkup s latency buffer)) =
     shown_texts (map_option (\<lambda>l. int_to_dec (js_round l) @ ''ms'') (vd_currentLatency latency))"
  "map text_content (by_test_id ''avg-latency-indicator'' (statsMarkup s latency buffer)) =
     shown_texts (map_option (\<lambda>l. ''avg: '' @ int_to_dec (js_round l) @ ''ms'') (vd_averageLatency latency))"
  "map text_content (by_test_id ''clock-offset-warning'' (statsMarkup s latency buffer)) =
     map (\<lambda>t. WARNING_SIGN @ '' Clock offset: '' @ t) (shown_texts (Option.bind (vd_clockOffset latency)
       (\<lambda>off. if off > 100 then Some (int_to_dec (js_round off) @ ''ms'') else None)))"
  "map text_content (by_test_id ''timestamp-errors'' (statsMarkup s latency buffer)) =
     map (\<lambda>t. WARNING_SIGN @ '' Timestamp errors: '' @ t) (shown_texts (if tb_parseErrors buffer > 0
       then Some (int_to_dec (int (tb_parseErrors buffer))) else None))"
  by (simp_all add: markup_simps split: option.split bind_split)

lemma figures_in_stats:
  assumes "testid \<notin> {''video-renderer'', ''video-element'', ''fullscreen-button''}"
  shows "by_test_id testid (videoRendererMarkup stream showStats err r latency buffer) =
    (if showStats \<and> vr_isStreamActive r then
       (case vr_stats r of None \<Rightarrow> [] | Some s \<Rightarrow> by_test_id testid (statsMarkup s latency buffer)) else [])"
  using assms
  by (simp add: videoRendererMarkup_def Let_def split: option.split del: by_attr.simps(2))
     (simp split: option.split)

text \<open>
  Every figure of the video panel is in the document exactly when the view shows it, under its test
  id and with the view's text.
\<close>

theorem video_markup_shows_view:
  assumes "m = videoRendererMarkup stream showStats err r latency buffer"
    and "v = rendererShown stream showStats err r latency buffer"
  shows "map text_content (by_test_id ''resolution-indicator'' m) = shown_texts (rv_resolution v) \<and>
    map text_content (by_test_id ''fps-indicator'' m) = shown_texts (rv_fps v) \<and>
    map text_content (by_test_id ''latency-indicator'' m) = shown_texts (rv_latency v) \<and>
    map text_content (by_test_id ''avg-latency-indicator'' m) = shown_texts (rv_avgLatency v) \<and>
    map text_content (by_test_id ''clock-offset-warning'' m) =
      map (\<lambda>t. WARNING_SIGN @ '' Clock offset: '' @ t) (shown_texts (rv_clockOffset v)) \<and>
    map text_content (by_test_id ''timestamp-errors'' m) =
      map (\<lambda>t. WARNING_SIGN @ '' Timestamp errors: '' @ t) (shown_texts (rv_timestampErrors v))"
proof (cases "showStats \<and> vr_isStreamActive r")
  case True
  then show ?thesis
    by (cases "vr_stats r") (simp_all add: assms figures_in_stats stats_figures rendererShown_def Let_def)
next
  case False
  then have "\<not> showStats \<or> \<not> vr_isStreamActive r" by simp
  then show ?thesis
    by (elim disjE) (simp_all add: assms figures_in_stats stats_figures rendererShown_def Let_def)
qed

theorem video_markup_shows_view_witness:
  "map text_content (by_test_id ''fps-indicator'' (videoRendererMarkup None True None
     (videoRenderer\<lparr>vr_isStreamActive := True, vr_stats := Some \<lparr>vs_width = 640, vs_height = 480,
       vs_frameRate = 30\<rparr>\<rparr>) (vl_data useVideoLatency) (ft_buffer useFrameTimestamps)))
   = [int_to_dec (js_round 30) @ '' FPS'']"
  using video_markup_shows_view [OF refl refl, of None True None
    "videoRenderer\<lparr>vr_isStreamActive := True, vr_stats := Some \<lparr>vs_width = 640, vs_height = 480,
       vs_frameRate = 30\<rparr>\<rparr>" "vl_data useVideoLatency" "ft_buffer useFrameTimestamps"]
  by (simp add: rendererShown_def Let_def)

text \<open>The same for the status bar of a session.\<close>

theorem status_markup_shows_view:
  assumes "m = sessionStatusMarkup p st" and "v = sessionStatus p st"
  shows "map text_content (by_test_id ''session-timer'' m) = shown_texts (sv_timer v)"
    and "map text_content (by_test_id ''permission-badge'' m) = shown_texts (sv_permission v)"
    and "map text_content (by_test_id ''token-expiry-warning'' m) =
      map (\<lambda>t. WARNING_SIGN @ t) (shown_texts (sv_expiryWarning v))"
    and "by_attr ''aria-label'' ''Retry connection'' m \<noteq> [] \<longleftrightarrow> sv_retryButton v"
  unfolding assms
  by (simp_all add: sessionStatusMarkup_def sessionStatus_def Let_def split: option.split)

lemma inactive_without_stream:
  assumes "foldl renderer_step (None, videoRenderer) xs = (None, r)"
  shows "\<not> vr_isStreamActive r"
proof -
  have "renderer_ok (None, videoRenderer)" by (simp add: renderer_ok_def videoRenderer_def)
  from renderer_hook.run_good [OF this, of xs] assms show ?thesis by (simp add: renderer_ok_def)
qed

text \<open>The values of an attribute, part by part.\<close>

lemma layout_values:
  assumes "\<not> vr_isStreamActive r" and "n \<in> {''id'', ''role'', ''data-testid'', ''aria-labelledby'', ''aria-describedby''}"
  shows "attr_values n (layoutMarkup r latency buffer) =
    (if n = ''role'' then [''banner'', ''contentinfo'']
     else if n = ''data-testid'' then [''session-status'', ''video-panel'', ''video-renderer'', ''video-element'',
       ''fullscreen-button'', ''control-panel'', ''control-state'', ''status-bar'', ''latency-indicator'',
       ''connection-quality''] else [])"
  using assms by (elim insertE emptyE)
    (simp_all add: layoutMarkup_def videoRendererMarkup_def markup_simps Let_def)

lemma notice_values:
  assumes "n \<in> {''id'', ''role'', ''data-testid'', ''aria-labelledby'', ''aria-describedby''}"
  shows "attr_values n (revocationNotificationMarkup reason) =
    (if n = ''role'' then [''alertdialog'']
     else if n = ''data-testid'' then (if reason = [] then [] else [''revocation-reason''])
     else if n = ''id'' then [''revocation-title'', ''revocation-description'']
     else if n = ''aria-labelledby'' then [''revocation-title''] else [''revocation-description''])"
  using assms by (elim insertE emptyE) (simp_all add: revocationNotificationMarkup_def)

lemma app_values:
  "document_values n (appMarkup rvs r latency buffer) =
    attr_values n (layoutMarkup r latency buffer) @
      (if rv_isRevoked rvs then attr_values n (revocationNotificationMarkup (rv_reason rvs)) else [])"
  by (simp add: document_values_def appMarkup_def when_shown_def)

text \<open>
  The document of the application is sound in every state it can be in: ids and test ids are unique,
  the references of the revocation notice resolve, and its landmarks are one banner and one content
  info, with the alert dialog exactly while the session is revoked.
\<close>

theorem app_document_sound:
  assumes "foldl renderer_step (None, videoRenderer) xs = (None, r)"
  shows "sound_document (appMarkup rvs r latency buffer)"
    and "document_values ''role'' (appMarkup rvs r latency buffer) =
      [''banner'', ''contentinfo''] @ (if rv_isRevoked rvs then [''alertdialog''] else [])"
  using inactive_without_stream [OF assms]
  by (simp_all add: sound_document_def reference_names_def app_values layout_values notice_values)

theorem app_document_sound_witness:
  "sound_document (appMarkup (handleRevoked ''s1'' ''policy'' initialRevocation) videoRenderer
     (vl_data useVideoLatency) (ft_buffer useFrameTimestamps))"
  by (rule app_document_sound(1) [of "[]"]) simp

text \<open>
  The page that the program serves has the element that the entry point looks for, and with the
  application rendered into it the whole document is sound.
\<close>

theorem mounted_document_sound:
  assumes "foldl renderer_step (None, videoRenderer) xs = (None, r)"
  shows "\<exists>doc. main_tsx index_html (appMarkup rvs r latency buffer) = Some doc \<and> sound_document [doc] \<and>
    by_attr ''id'' ''root'' doc = [El ''div'' [(''id'', ''root'')] (appMarkup rvs r latency buffer)]"
proof -
  have "''root'' \<notin> set (attr_values ''id'' m)" if "m \<in> set (appMarkup rvs r latency buffer)" for m
    using that inactive_without_stream [OF assms]
    by (auto simp: appMarkup_def when_shown_def layout_values notice_values split: if_splits)
  then have "by_attr ''id'' ''root'' m = []" if "m \<in> set (appMarkup rvs r latency buffer)" for m
    using that by_attr_iff by blast
  then have root: "concat (map (by_attr ''id'' ''root'') (appMarkup rvs r latency buffer)) = []" by simp
  show ?thesis
    using root inactive_without_stream [OF assms]
    by (simp add: main_tsx_def index_html_def sound_document_def reference_names_def document_values_def
        app_values [unfolded document_values_def] layout_values notice_values)
qed

theorem mounted_document_sound_witness:
  "\<exists>doc. main_tsx index_html (appMarkup initialRevocation videoRenderer
     (vl_data useVideoLatency) (ft_buffer useFrameTimestamps)) = Some doc \<and> sound_document [doc]"
  using mounted_document_sound [of "[]"] by fastforce

end
