(* ===== verification/StatusLifecycle.thy ===== *)
theory StatusLifecycle
  imports SessionDisplay
begin

text \<open>
  The session status bar over its life (\<open>components/session/SessionStatus.tsx\<close>): mounting, renders with
  new props, and its three timers. An effect runs again when a dependency changed; a date is compared as
  an object, so that a render may pass an equal date and have the effect run again, which is an
  input. The callback of an interval keeps the date of the render that set it up.
\<close>

section \<open>State and steps\<close>

record statusBar =
  sb_props :: statusProps
  sb_state :: statusState
  sb_timerInterval :: "ms option"
  sb_expiryInterval :: "ms option"
  sb_transitionTimer :: bool

datatype statusInput =
    Render statusProps bool bool ms
  | TimerTick ms
  | ExpiryTick ms
  | TransitionTimeout

text \<open>The dates an effect sets its interval up for: none when the effect returns early.\<close>

definition timer_start :: "statusProps \<Rightarrow> ms option" where
  "timer_start p = (if connectionUp (sp_connectionState p) then sp_sessionStartTime p else None)"

definition expiry_date :: "statusProps \<Rightarrow> ms option" where
  "expiry_date p = (if connectionUp (sp_connectionState p) then sp_tokenExpiresAt p else None)"

definition timer_effect :: "ms \<Rightarrow> statusBar \<Rightarrow> statusBar" where
  "timer_effect now b =
     b\<lparr>sb_state := updateTimer (sb_props b) now (sb_state b), sb_timerInterval := timer_start (sb_props b)\<rparr>"

definition expiry_effect :: "ms \<Rightarrow> statusBar \<Rightarrow> statusBar" where
  "expiry_effect now b =
     b\<lparr>sb_state := updateExpiry (sb_props b) now (sb_state b), sb_expiryInterval := expiry_date (sb_props b)\<rparr>"

text \<open>The clean-up of the previous run clears its timer before the effect starts one.\<close>

definition transition_effect :: "statusBar \<Rightarrow> statusBar" where
  "transition_effect b =
     (if st_prevState (sb_state b) \<noteq> sp_connectionState (sb_props b)
      then b\<lparr>sb_state := transitionEffect (sb_props b) (sb_state b), sb_transitionTimer := True\<rparr>
      else b\<lparr>sb_transitionTimer := False\<rparr>)"

definition status_mount :: "statusProps \<Rightarrow> ms \<Rightarrow> statusBar" where
  "status_mount p now =
     expiry_effect now (timer_effect now (transition_effect
       \<lparr>sb_props = p,
        sb_state = \<lparr>st_elapsedTime = 0, st_timeToExpiry = None, st_isTransitioning = False,
          st_prevState = sp_connectionState p\<rparr>,
        sb_timerInterval = None, sb_expiryInterval = None, sb_transitionTimer = False\<rparr>))"

definition status_render :: "statusProps \<Rightarrow> bool \<Rightarrow> bool \<Rightarrow> ms \<Rightarrow> statusBar \<Rightarrow> statusBar" where
  "status_render p newStart newExpiry now b =
     (let q = sb_props b;
          upChanged = (connectionUp (sp_connectionState p) \<noteq> connectionUp (sp_connectionState q));
          b1 = b\<lparr>sb_props := p\<rparr>;
          b2 = (if sp_connectionState p \<noteq> sp_connectionState q then transition_effect b1 else b1);
          b3 = (if newStart \<or> sp_sessionStartTime p \<noteq> sp_sessionStartTime q \<or> upChanged
                then timer_effect now b2 else b2)
      in if newExpiry \<or> sp_tokenExpiresAt p \<noteq> sp_tokenExpiresAt q \<or> upChanged
         then expiry_effect now b3 else b3)"

fun status_step :: "statusBar \<Rightarrow> statusInput \<Rightarrow> statusBar" where
  "status_step b (Render p newStart newExpiry now) = status_render p newStart newExpiry now b"
| "status_step b (TimerTick now) =
     (case sb_timerInterval b of
        None \<Rightarrow> b
      | Some start \<Rightarrow> b\<lparr>sb_state := (sb_state b)\<lparr>st_elapsedTime := now - start\<rparr>\<rparr>)"
| "status_step b (ExpiryTick now) =
     (case sb_expiryInterval b of
        None \<Rightarrow> b
      | Some expiresAt \<Rightarrow>
          (let remaining = expiresAt - now
           in b\<lparr>sb_state := (sb_state b)\<lparr>st_timeToExpiry := Some (if remaining > 0 then remaining else 0)\<rparr>\<rparr>))"
| "status_step b TransitionTimeout =
     (if sb_transitionTimer b
      then b\<lparr>sb_state := transitionEnds (sb_state b), sb_transitionTimer := False\<rparr> else b)"

fun input_time :: "statusInput \<Rightarrow> ms set" where
  "input_time (Render p newStart newExpiry now) = {now}"
| "input_time (TimerTick now) = {now}"
| "input_time (ExpiryTick now) = {now}"
| "input_time TransitionTimeout = {}"

section \<open>The invariant\<close>

text \<open>
  The intervals are those of the props now in force, and the times shown were taken at one of the
  times \<open>T\<close>.
\<close>

definition status_good :: "ms set \<Rightarrow> statusBar \<Rightarrow> bool" where
  "status_good T b \<longleftrightarrow>
     sb_timerInterval b = timer_start (sb_props b) \<and> sb_expiryInterval b = expiry_date (sb_props b) \<and>
     st_prevState (sb_state b) = sp_connectionState (sb_props b) \<and>
     sb_transitionTimer b = st_isTransitioning (sb_state b) \<and>
     (case timer_start (sb_props b) of
        None \<Rightarrow> st_elapsedTime (sb_state b) = 0
      | Some start \<Rightarrow> \<exists>t \<in> T. st_elapsedTime (sb_state b) = t - start) \<and>
     (case expiry_date (sb_props b) of
        None \<Rightarrow> st_timeToExpiry (sb_state b) = None
      | Some e \<Rightarrow> \<exists>t \<in> T. st_timeToExpiry (sb_state b) = Some (max 0 (e - t)))"

lemma timer_effect_simps [simp]:
  "sb_props (timer_effect now b) = sb_props b" "sb_expiryInterval (timer_effect now b) = sb_expiryInterval b"
  "sb_timerInterval (timer_effect now b) = timer_start (sb_props b)"
  "sb_transitionTimer (timer_effect now b) = sb_transitionTimer b"
  "st_prevState (sb_state (timer_effect now b)) = st_prevState (sb_state b)"
  "st_isTransitioning (sb_state (timer_effect now b)) = st_isTransitioning (sb_state b)"
  "st_timeToExpiry (sb_state (timer_effect now b)) = st_timeToExpiry (sb_state b)"
  "st_elapsedTime (sb_state (timer_effect now b)) =
     (case timer_start (sb_props b) of None \<Rightarrow> 0 | Some start \<Rightarrow> now - start)"
  by (simp_all add: timer_effect_def updateTimer_def timer_start_def split: option.split)

lemma expiry_effect_simps [simp]:
  "sb_props (expiry_effect now b) = sb_props b" "sb_timerInterval (expiry_effect now b) = sb_timerInterval b"
  "sb_expiryInterval (expiry_effect now b) = expiry_date (sb_props b)"
  "sb_transitionTimer (expiry_effect now b) = sb_transitionTimer b"
  "st_prevState (sb_state (expiry_effect now b)) = st_prevState (sb_state b)"
  "st_isTransitioning (sb_state (expiry_effect now b)) = st_isTransitioning (sb_state b)"
  "st_elapsedTime (sb_state (expiry_effect now b)) = st_elapsedTime (sb_state b)"
  "st_timeToExpiry (sb_state (expiry_effect now b)) = map_option (\<lambda>e. max 0 (e - now)) (expiry_date (sb_props b))"
  by (simp_all add: expiry_effect_def updateExpiry_def expiry_date_def Let_def max_def split: option.split)

lemma transition_effect_simps [simp]:
  "sb_props (transition_effect b) = sb_props b"
  "sb_timerInterval (transition_effect b) = sb_timerInterval b"
  "sb_expiryInterval (transition_effect b) = sb_expiryInterval b"
  "st_prevState (sb_state (transition_effect b)) = sp_connectionState (sb_props b)"
  "st_elapsedTime (sb_state (transition_effect b)) = st_elapsedTime (sb_state b)"
  "st_timeToExpiry (sb_state (transition_effect b)) = st_timeToExpiry (sb_state b)"
  by (auto simp: transition_effect_def transitionEffect_def)

lemma transition_effect_timer:
  "sb_transitionTimer (transition_effect b) = (st_prevState (sb_state b) \<noteq> sp_connectionState (sb_props b))"
  "st_isTransitioning (sb_state (transition_effect b)) =
     (st_prevState (sb_state b) \<noteq> sp_connectionState (sb_props b) \<or> st_isTransitioning (sb_state b))"
  by (auto simp: transition_effect_def transitionEffect_def)

lemma mount_good: "status_good {now} (status_mount p now)"
  by (auto simp: status_good_def status_mount_def transition_effect_timer split: option.split)

lemma same_dates:
  "connectionUp (sp_connectionState p) = connectionUp (sp_connectionState q) \<Longrightarrow>
     sp_sessionStartTime p = sp_sessionStartTime q \<Longrightarrow> timer_start p = timer_start q"
  "connectionUp (sp_connectionState p) = connectionUp (sp_connectionState q) \<Longrightarrow>
     sp_tokenExpiresAt p = sp_tokenExpiresAt q \<Longrightarrow> expiry_date p = expiry_date q"
  by (simp_all add: timer_start_def expiry_date_def)

lemma render_good:
  assumes "status_good T b"
  shows "status_good (insert now T) (status_render p newStart newExpiry now b)"
  using assms same_dates [of p "sb_props b"]
  by (auto simp: status_good_def status_render_def Let_def transition_effect_timer split: option.splits)

lemma status_step_good:
  assumes "status_good T b"
  shows "status_good (T \<union> input_time x) (status_step b x)"
proof (cases x)
  case (Render p newStart newExpiry now)
  with render_good [OF assms] show ?thesis by simp
qed (use assms in \<open>auto simp: status_good_def Let_def transitionEnds_def split: option.splits\<close>)

lemma status_run_good: "status_good (insert now (\<Union> (input_time ` set xs))) (foldl status_step (status_mount p now) xs)"
proof (induction xs rule: rev_induct)
  case Nil
  then show ?case by (simp add: mount_good)
next
  case (snoc x xs)
  from status_step_good [OF this, of x] show ?case by (simp add: Un_commute)
qed

section \<open>Properties\<close>

text \<open>
  Whatever renders and timers came before, the bar shows a session time exactly while the connection
  is up and has a start, and it is the time since the start now in the props, as of a moment at which a
  timer fired or a render came; the expiry warning likewise is about the expiry now in the props and is
  shown exactly when less than two minutes were left at that moment. No interval of earlier props
  survives, and the transition mark is on exactly while its timer is pending.
\<close>

theorem status_bar_current:
  assumes "foldl status_step (status_mount p0 t0) xs = b"
    and "sessionStatus (sb_props b) (sb_state b) = v" and "T = insert t0 (\<Union> (input_time ` set xs))"
  shows "(case timer_start (sb_props b) of
        None \<Rightarrow> sv_timer v = None
      | Some start \<Rightarrow> \<exists>t \<in> T. sv_timer v = Some (formatDuration (t - start))) \<and>
    (case expiry_date (sb_props b) of
        None \<Rightarrow> sv_expiryWarning v = None
      | Some e \<Rightarrow> \<exists>t \<in> T. sv_expiryWarning v =
          (if e - t < 120000 then Some (''Expires in '' @ formatDuration (max 0 (e - t))) else None)) \<and>
    sb_timerInterval b = timer_start (sb_props b) \<and> sb_expiryInterval b = expiry_date (sb_props b) \<and>
    (sb_transitionTimer b \<longleftrightarrow> st_isTransitioning (sb_state b))"
proof -
  have good: "status_good T b" using status_run_good [of t0 xs p0] assms(1,3) by simp
  then have "case expiry_date (sb_props b) of
        None \<Rightarrow> sv_expiryWarning v = None
      | Some e \<Rightarrow> \<exists>t \<in> T. sv_expiryWarning v =
          (if e - t < 120000 then Some (''Expires in '' @ formatDuration (max 0 (e - t))) else None)"
    using assms(2) unfolding status_good_def
    by (fastforce simp: sessionStatus_def Let_def TOKEN_EXPIRY_WARNING_THRESHOLD_def split: option.splits)
  moreover have "case timer_start (sb_props b) of
        None \<Rightarrow> sv_timer v = None
      | Some start \<Rightarrow> \<exists>t \<in> T. sv_timer v = Some (formatDuration (t - start))"
    using good assms(2) unfolding status_good_def
    by (fastforce simp: sessionStatus_def Let_def timer_start_def split: option.splits if_splits)
  ultimately show ?thesis using good by (simp add: status_good_def)
qed

definition sample_status :: statusProps where
  "sample_status = \<lparr>sp_connectionState = CsConnected, sp_sessionStartTime = Some 1000,
     sp_permissionLevel = None, sp_errorMessage = None, sp_tokenExpiresAt = Some 100000, sp_onRetry = False\<rparr>"

theorem status_bar_current_witness:
  "\<exists>t \<in> {1000, 61000}. sv_timer (sessionStatus sample_status (sb_state (foldl status_step
     (status_mount sample_status 1000) [TimerTick 61000]))) = Some (formatDuration (t - 1000))"
proof -
  define b where "b = foldl status_step (status_mount sample_status 1000) [TimerTick 61000]"
  have p: "sb_props b = sample_status" by (simp add: b_def status_mount_def split: option.split)
  have "timer_start sample_status = Some 1000" by (simp add: timer_start_def sample_status_def)
  then show ?thesis
    using status_bar_current [OF b_def [symmetric] refl refl] unfolding b_def [symmetric] by (simp add: p)
qed

end
