(* ===== verification/StatsPolling.thy ===== *)
theory StatsPolling
  imports ConnectionStats
begin

text \<open>
  The polling of \<open>hooks/useConnectionStats.ts\<close>: the effect that asks for a report at once and then at
  an interval, while enabled and given a \<open>getStats\<close>. A \<open>getStats\<close> is its identity; calls in flight are
  kept in the order they were made, and are answered in any order, or after polling stopped.
\<close>

section \<open>State and steps\<close>

record statsPoller =
  po_enabled :: bool
  po_getStats :: "nat option"
  po_intervalMs :: int
  po_interval :: "nat option"
  po_awaiting :: "nat list"
  po_hook :: statsHook

datatype pollInput =
    PollRender bool "nat option" int
  | PollTick
  | PollAnswer nat statsAnswer
  | PollUnmount

definition poll_source :: "statsPoller \<Rightarrow> nat option" where
  "poll_source p = (if po_enabled p then po_getStats p else None)"

text \<open>\<open>collectStats\<close> up to its \<open>await\<close>.\<close>

definition collect_begin :: "nat option \<Rightarrow> statsPoller \<Rightarrow> statsPoller" where
  "collect_begin getStats p =
     (case getStats of None \<Rightarrow> p | Some f \<Rightarrow> p\<lparr>po_awaiting := po_awaiting p @ [f]\<rparr>)"

definition poll_effect :: "statsPoller \<Rightarrow> statsPoller" where
  "poll_effect p = (collect_begin (poll_source p) p)\<lparr>po_interval := poll_source p\<rparr>"

definition poll_mount :: "bool \<Rightarrow> nat option \<Rightarrow> int \<Rightarrow> statsPoller" where
  "poll_mount enabled getStats intervalMs =
     poll_effect \<lparr>po_enabled = enabled, po_getStats = getStats, po_intervalMs = intervalMs,
       po_interval = None, po_awaiting = [], po_hook = useConnectionStats\<rparr>"

fun poll_step :: "statsPoller \<Rightarrow> pollInput \<Rightarrow> statsPoller" where
  "poll_step p (PollRender enabled getStats intervalMs) =
     (let p1 = p\<lparr>po_enabled := enabled, po_getStats := getStats, po_intervalMs := intervalMs\<rparr>
      in if enabled \<noteq> po_enabled p \<or> getStats \<noteq> po_getStats p \<or> intervalMs \<noteq> po_intervalMs p
         then poll_effect p1 else p1)"
| "poll_step p PollTick = collect_begin (po_interval p) p"
| "poll_step p (PollAnswer i answer) =
     (if i < length (po_awaiting p)
      then p\<lparr>po_awaiting := take i (po_awaiting p) @ drop (Suc i) (po_awaiting p),
             po_hook := collect_finish answer (po_hook p)\<rparr>
      else p)"
| "poll_step p PollUnmount = p\<lparr>po_enabled := False, po_interval := None\<rparr>"

section \<open>Facts\<close>

lemma collect_begin_simps [simp]:
  "po_enabled (collect_begin f p) = po_enabled p" "po_getStats (collect_begin f p) = po_getStats p"
  "po_interval (collect_begin f p) = po_interval p" "po_hook (collect_begin f p) = po_hook p"
  by (simp_all add: collect_begin_def split: option.split)

lemma poll_effect_simps [simp]:
  "po_interval (poll_effect p) = poll_source p" "poll_source (poll_effect p) = poll_source p"
  "po_hook (poll_effect p) = po_hook p"
  by (simp_all add: poll_effect_def poll_source_def)

definition polling_ok :: "statsPoller \<Rightarrow> bool" where
  "polling_ok p \<longleftrightarrow> po_interval p = poll_source p"

lemma poll_step_ok: "polling_ok p \<Longrightarrow> polling_ok (poll_step p x)"
  by (cases x) (auto simp: polling_ok_def Let_def poll_source_def poll_effect_def)

interpretation polling: invariant_system poll_step polling_ok
  by unfold_locales (rule poll_step_ok)

lemma mount_ok: "polling_ok (poll_mount enabled getStats intervalMs)"
  by (simp add: polling_ok_def poll_mount_def)

text \<open>The reports answered in a run, in the order of their answers.\<close>

fun answered :: "pollInput list \<Rightarrow> rtcStat list list" where
  "answered [] = []"
| "answered (PollAnswer i (StatsReport report) # xs) = report # answered xs"
| "answered (x # xs) = answered xs"

definition shown_ok :: "statsHook \<Rightarrow> bool" where
  "shown_ok h \<longleftrightarrow> (case sh_stats h of
     None \<Rightarrow> True
   | Some s \<Rightarrow> 0 \<le> cs_packetLossPercent s \<and> cs_packetLossPercent s \<le> 100 \<and> 0 \<le> cs_videoBitrateMbps s)"

abbreviation bytes_of :: "rtcStat list \<Rightarrow> rat" where
  "bytes_of report \<equiv> rw_bytesReceived (parseStatsReport report)"

lemma finish_shown:
  assumes "list_all stat_nonneg report" and "sh_prevBytes h \<le> bytes_of report"
  shows "shown_ok (collect_finish (StatsReport report) h) \<and>
    sh_prevBytes (collect_finish (StatsReport report) h) = bytes_of report"
  using parse_nonneg [OF assms(1)] assms(2)
  by (simp add: shown_ok_def collect_finish_def Let_def raw_nonneg_def packet_loss_bounds bitrate_sign)

lemma no_report_shown:
  "(\<forall>report. answer \<noteq> StatsReport report) \<Longrightarrow>
     shown_ok (collect_finish answer h) = shown_ok h \<and> sh_prevBytes (collect_finish answer h) = sh_prevBytes h"
  by (cases answer) (simp_all add: collect_finish_def shown_ok_def)

lemma quiet_step:
  assumes "\<forall>i report. x \<noteq> PollAnswer i (StatsReport report)"
  shows "shown_ok (po_hook (poll_step p x)) = shown_ok (po_hook p) \<and>
    sh_prevBytes (po_hook (poll_step p x)) = sh_prevBytes (po_hook p)"
  using assms by (cases x) (auto simp: Let_def no_report_shown)

lemma run_shown:
  assumes "shown_ok (po_hook p)" and "list_all (list_all stat_nonneg) (answered xs)"
    and "sorted (sh_prevBytes (po_hook p) # map bytes_of (answered xs))"
  shows "shown_ok (po_hook (foldl poll_step p xs))"
  using assms
proof (induction xs arbitrary: p)
  case (Cons x xs)
  show ?case
  proof (cases "\<exists>i report. x = PollAnswer i (StatsReport report)")
    case True
    then obtain i report where x: "x = PollAnswer i (StatsReport report)" by blast
    with Cons.prems finish_shown [of report "po_hook p"] show ?thesis
      by (cases "i < length (po_awaiting p)") (auto intro!: Cons.IH)
  next
    case False
    then have "answered (x # xs) = answered xs" by (cases "x # xs" rule: answered.cases) auto
    with False Cons.prems quiet_step [of x p] show ?thesis by (auto intro!: Cons.IH)
  qed
qed simp

section \<open>Properties\<close>

text \<open>
  The hook asks for reports only while it is enabled and has a \<open>getStats\<close>, and then of that one; as
  long as the byte counters answered do not go back, every loss and bitrate it shows is in bounds,
  however calls, answers and renders interleave.
\<close>

theorem polled_stats_bounds:
  assumes "list_all (list_all stat_nonneg) (answered xs)" and "sorted (0 # map bytes_of (answered xs))"
    and "foldl poll_step (poll_mount enabled getStats intervalMs) xs = p"
  shows "shown_ok (po_hook p) \<and> po_interval p = (if po_enabled p then po_getStats p else None)"
proof
  have "po_hook (poll_mount enabled getStats intervalMs) = useConnectionStats" by (simp add: poll_mount_def)
  then show "shown_ok (po_hook p)"
    using run_shown [of "poll_mount enabled getStats intervalMs" xs] assms
    by (simp add: shown_ok_def useConnectionStats_def)
  show "po_interval p = (if po_enabled p then po_getStats p else None)"
    using polling.run_good [OF mount_ok, of enabled getStats intervalMs xs] assms(3)
    by (simp add: polling_ok_def poll_source_def)
qed

theorem polled_stats_bounds_witness:
  "shown_ok (po_hook (foldl poll_step (poll_mount True (Some 1) 1000)
     [PollAnswer 0 (StatsReport [video_stat 1000 1]), PollTick, PollAnswer 0 (StatsReport [video_stat 2000 2])]))"
proof -
  have "bytes_of [video_stat b t] = b" for b t
    by (simp add: parseStatsReport_def read_stat_def video_stat_def or_zero_def Let_def)
  then show ?thesis
    using polled_stats_bounds [OF _ _ refl, of "[PollAnswer 0 (StatsReport [video_stat 1000 1]), PollTick,
        PollAnswer 0 (StatsReport [video_stat 2000 2])]" True "Some 1" 1000]
    by (simp add: stat_nonneg_def nonneg_def video_stat_def or_zero_def)
qed

text \<open>
  Calls are not serialised: when the answer of an earlier call arrives last it replaces the later
  figures, and its bitrate is shown as zero.
\<close>

theorem late_answer_overwrites:
  assumes "rw_timestamp (parseStatsReport early) < rw_timestamp (parseStatsReport late)"
    and "foldl poll_step (poll_mount True (Some f) intervalMs)
      [PollTick, PollAnswer 1 (StatsReport late), PollAnswer 0 (StatsReport early)] = p"
  shows "\<exists>s. sh_stats (po_hook p) = Some s \<and> cs_videoBitrateMbps s = 0 \<and>
    cs_rttMs s = rw_rttMs (parseStatsReport early) \<and> cs_frameRate s = rw_frameRate (parseStatsReport early)"
  using assms
  by (auto simp: poll_mount_def poll_effect_def poll_source_def collect_begin_def collect_finish_def
      calculateBitrate_def Let_def)

theorem late_answer_overwrites_witness:
  "\<exists>s. sh_stats (po_hook (foldl poll_step (poll_mount True (Some 1) 1000)
     [PollTick, PollAnswer 1 (StatsReport [video_stat 2000 2]), PollAnswer 0 (StatsReport [video_stat 1000 1])]))
     = Some s \<and> cs_videoBitrateMbps s = 0"
proof -
  have "rw_timestamp (parseStatsReport [video_stat b t]) = t" for b t
    by (simp add: parseStatsReport_def read_stat_def video_stat_def or_zero_def Let_def)
  then show ?thesis
    using late_answer_overwrites [OF _ refl, of "[video_stat 1000 1]" "[video_stat 2000 2]" 1 1000]
    by (simp only:) force
qed

end
