(* ===== verification/RobotSafety.thy ===== *)
theory RobotSafety
  imports Prelude
begin

text \<open>
  The safety subsystem of the robot agent (\<open>robot-agent/internal/safety/*.go\<close>, in Go): the monitor that
  triggers a safe stop, the priorities of its triggers, and the state machine of the package. Each
  method of the monitor runs under its lock, so it is one step. The safe-stop callback is called
  synchronously; a method returns the triggers it called it with. Times are in milliseconds, and the
  zero time is \<open>None\<close>.
\<close>

section \<open>Triggers (types.go)\<close>

datatype trigger =
    TriggerEStop
  | TriggerControlLoss
  | TriggerInvalidCmds
  | TriggerTokenExpired
  | TriggerRevoked

definition trigger_priority :: "trigger \<Rightarrow> nat" where
  "trigger_priority t =
     (case t of TriggerEStop \<Rightarrow> 1 | TriggerRevoked \<Rightarrow> 2 | TriggerTokenExpired \<Rightarrow> 2 | _ \<Rightarrow> 3)"

definition isRecoverable :: "trigger \<Rightarrow> bool" where
  "isRecoverable t \<longleftrightarrow> t = TriggerControlLoss"

record transitionResult =
  tt_trigger :: trigger
  tt_timestamp :: ms
  tt_duration :: ms
  tt_error :: "string option"

section \<open>The monitor (monitor.go)\<close>

record safetyMonitor =
  so_controlLossTimeout :: ms
  so_invalidCmdThreshold :: int
  so_invalidCmdTimeWindow :: ms
  so_lastControlTime :: ms
  so_invalidCmdCount :: int
  so_firstInvalidCmdTime :: "ms option"
  so_safeStopFn :: "(trigger \<Rightarrow> transitionResult) option"
  so_stopped :: bool
  so_inControlLoss :: bool
  so_lastTransition :: "transitionResult option"

definition NewMonitor ::
    "ms \<Rightarrow> int \<Rightarrow> ms \<Rightarrow> (trigger \<Rightarrow> transitionResult) option \<Rightarrow> ms \<Rightarrow> safetyMonitor" where
  "NewMonitor controlLossTimeout invalidCmdThreshold invalidCmdTimeWindow safeStopFn now =
     \<lparr>so_controlLossTimeout = controlLossTimeout, so_invalidCmdThreshold = invalidCmdThreshold,
      so_invalidCmdTimeWindow = invalidCmdTimeWindow, so_lastControlTime = now, so_invalidCmdCount = 0,
      so_firstInvalidCmdTime = None, so_safeStopFn = safeStopFn, so_stopped = False,
      so_inControlLoss = False, so_lastTransition = None\<rparr>"

definition triggerSafeStop :: "trigger \<Rightarrow> safetyMonitor \<Rightarrow> safetyMonitor \<times> trigger list" where
  "triggerSafeStop t m =
     (if so_stopped m then (m, [])
      else
        (case so_safeStopFn m of
           None \<Rightarrow> (m\<lparr>so_stopped := True\<rparr>, [])
         | Some f \<Rightarrow> (m\<lparr>so_stopped := True, so_lastTransition := Some (f t)\<rparr>, [t])))"

definition OnValidControl :: "ms \<Rightarrow> safetyMonitor \<Rightarrow> safetyMonitor" where
  "OnValidControl now m =
     (let m = m\<lparr>so_lastControlTime := now, so_invalidCmdCount := 0, so_firstInvalidCmdTime := None\<rparr>
      in if so_inControlLoss m then m\<lparr>so_inControlLoss := False, so_stopped := False\<rparr> else m)"

definition OnInvalidCommand :: "ms \<Rightarrow> safetyMonitor \<Rightarrow> safetyMonitor \<times> trigger list" where
  "OnInvalidCommand now m =
     (let windowExpired = so_invalidCmdTimeWindow m > 0 \<and> so_invalidCmdCount m > 0 \<and>
            (case so_firstInvalidCmdTime m of None \<Rightarrow> True | Some t \<Rightarrow> now - t > so_invalidCmdTimeWindow m);
          m1 = (if windowExpired then m\<lparr>so_invalidCmdCount := 0\<rparr> else m);
          m2 = (if so_invalidCmdCount m1 = 0 then m1\<lparr>so_firstInvalidCmdTime := Some now\<rparr> else m1);
          m3 = m2\<lparr>so_invalidCmdCount := so_invalidCmdCount m2 + 1\<rparr>
      in if so_invalidCmdCount m3 \<ge> so_invalidCmdThreshold m3 then triggerSafeStop TriggerInvalidCmds m3
         else (m3, []))"

definition monitor_OnEStop :: "safetyMonitor \<Rightarrow> safetyMonitor \<times> trigger list" where
  "monitor_OnEStop m = triggerSafeStop TriggerEStop (m\<lparr>so_inControlLoss := False\<rparr>)"

definition OnTokenExpired :: "safetyMonitor \<Rightarrow> safetyMonitor \<times> trigger list" where
  "OnTokenExpired m = triggerSafeStop TriggerTokenExpired (m\<lparr>so_inControlLoss := False\<rparr>)"

definition monitor_OnRevoked :: "safetyMonitor \<Rightarrow> safetyMonitor \<times> trigger list" where
  "monitor_OnRevoked m = triggerSafeStop TriggerRevoked (m\<lparr>so_inControlLoss := False\<rparr>)"

definition CheckControlLoss :: "ms \<Rightarrow> safetyMonitor \<Rightarrow> safetyMonitor \<times> trigger list" where
  "CheckControlLoss now m =
     (if so_stopped m then (m, [])
      else if now - so_lastControlTime m > so_controlLossTimeout m
      then triggerSafeStop TriggerControlLoss (m\<lparr>so_inControlLoss := True\<rparr>)
      else (m, []))"

definition monitor_Reset :: "ms \<Rightarrow> safetyMonitor \<Rightarrow> safetyMonitor" where
  "monitor_Reset now m =
     m\<lparr>so_invalidCmdCount := 0, so_firstInvalidCmdTime := None, so_lastControlTime := now,
       so_stopped := False, so_inControlLoss := False\<rparr>"

section \<open>Runs\<close>

datatype monitorOp =
    ValidControl ms
  | InvalidCommand ms
  | EmergencyStop
  | TokenExpired
  | SessionRevoked
  | LossCheck ms
  | ResetMonitor ms

fun monitor_op :: "monitorOp \<Rightarrow> safetyMonitor \<Rightarrow> safetyMonitor \<times> trigger list" where
  "monitor_op (ValidControl now) m = (OnValidControl now m, [])"
| "monitor_op (InvalidCommand now) m = OnInvalidCommand now m"
| "monitor_op EmergencyStop m = monitor_OnEStop m"
| "monitor_op TokenExpired m = OnTokenExpired m"
| "monitor_op SessionRevoked m = monitor_OnRevoked m"
| "monitor_op (LossCheck now) m = CheckControlLoss now m"
| "monitor_op (ResetMonitor now) m = (monitor_Reset now m, [])"

text \<open>The state of a run, with the calls of the callback so far.\<close>

definition watch :: "safetyMonitor \<times> trigger list \<Rightarrow> monitorOp \<Rightarrow> safetyMonitor \<times> trigger list" where
  "watch mt x = (let (m', new) = monitor_op x (fst mt) in (m', snd mt @ new))"

lemma watch_simps [simp]:
  "fst (watch mt x) = fst (monitor_op x (fst mt))"
  "snd (watch mt x) = snd mt @ snd (monitor_op x (fst mt))"
  by (simp_all add: watch_def case_prod_unfold Let_def)

definition latched :: "safetyMonitor \<Rightarrow> bool" where
  "latched m \<longleftrightarrow> so_stopped m \<and> \<not> so_inControlLoss m"

fun resets :: "monitorOp \<Rightarrow> bool" where
  "resets (ResetMonitor now) = True"
| "resets x = False"

lemmas monitor_defs = OnValidControl_def OnInvalidCommand_def monitor_OnEStop_def OnTokenExpired_def
  monitor_OnRevoked_def CheckControlLoss_def monitor_Reset_def triggerSafeStop_def

lemma trigger_effect [simp]:
  "so_stopped (fst (triggerSafeStop t m))"
  "so_inControlLoss (fst (triggerSafeStop t m)) = so_inControlLoss m"
  "so_invalidCmdCount (fst (triggerSafeStop t m)) = so_invalidCmdCount m"
  "so_invalidCmdThreshold (fst (triggerSafeStop t m)) = so_invalidCmdThreshold m"
  "so_firstInvalidCmdTime (fst (triggerSafeStop t m)) = so_firstInvalidCmdTime m"
  "so_safeStopFn (fst (triggerSafeStop t m)) = so_safeStopFn m"
  "so_invalidCmdTimeWindow (fst (triggerSafeStop t m)) = so_invalidCmdTimeWindow m"
  "snd (triggerSafeStop t m) = (if so_stopped m \<or> so_safeStopFn m = None then [] else [t])"
  by (simp_all add: triggerSafeStop_def split: option.split)

lemma latched_op: "latched m \<Longrightarrow> \<not> resets x \<Longrightarrow> latched (fst (monitor_op x m)) \<and> snd (monitor_op x m) = []"
  by (cases x) (auto simp: latched_def monitor_defs Let_def)

lemma latched_watch:
  "latched (fst mt) \<Longrightarrow> \<not> resets x \<Longrightarrow> latched (fst (watch mt x)) \<and> snd (watch mt x) = snd mt"
  using latched_op by simp

interpretation latch: stable_property watch "\<lambda>mt. latched (fst mt) \<and> snd mt = calls" "\<lambda>x. \<not> resets x"
  for calls
  by unfold_locales (auto simp: latched_op)

lemma final_trigger_latches:
  "x \<in> {EmergencyStop, TokenExpired, SessionRevoked} \<Longrightarrow> latched (fst (watch mt x))"
  by (auto simp: latched_def monitor_OnEStop_def OnTokenExpired_def monitor_OnRevoked_def)

text \<open>What is true of a monitor at any time: it is stopped while control is lost, and once it has
  counted as many invalid commands as the threshold.\<close>

definition monitor_ok :: "safetyMonitor \<Rightarrow> bool" where
  "monitor_ok m \<longleftrightarrow> (so_inControlLoss m \<longrightarrow> so_stopped m) \<and> so_invalidCmdCount m \<ge> 0 \<and>
     (so_invalidCmdCount m > 0 \<longrightarrow> so_firstInvalidCmdTime m \<noteq> None) \<and>
     (so_invalidCmdThreshold m > 0 \<longrightarrow> so_invalidCmdCount m \<ge> so_invalidCmdThreshold m \<longrightarrow> so_stopped m)"

lemma monitor_op_ok: "monitor_ok m \<Longrightarrow> monitor_ok (fst (monitor_op x m))"
  by (cases x) (auto simp: monitor_ok_def OnValidControl_def OnInvalidCommand_def monitor_OnEStop_def OnTokenExpired_def
      monitor_OnRevoked_def CheckControlLoss_def monitor_Reset_def Let_def)

interpretation monitor_inv: invariant_system watch "\<lambda>mt. monitor_ok (fst mt)"
  by unfold_locales (simp add: monitor_op_ok)

lemma new_monitor_ok: "monitor_ok (NewMonitor timeout threshold window f now)"
  by (simp add: NewMonitor_def monitor_ok_def)

section \<open>The state machine (state.go)\<close>

datatype robotState = RobotIdle | RobotActive | RobotSafeStop

datatype robotEvent =
    EventAuthorized
  | EventEStop
  | EventControlLoss
  | EventInvalidThreshold
  | EventTokenExpired
  | EventRevoked
  | EventReset

definition isValidTransition :: "robotState \<Rightarrow> robotEvent \<Rightarrow> bool" where
  "isValidTransition state event =
     (case state of
        RobotIdle \<Rightarrow> event = EventAuthorized
      | RobotActive \<Rightarrow> event \<in> {EventEStop, EventControlLoss, EventInvalidThreshold, EventTokenExpired, EventRevoked}
      | RobotSafeStop \<Rightarrow> event = EventReset)"

definition getNextState :: "robotState \<Rightarrow> robotEvent \<Rightarrow> robotState" where
  "getNextState state event =
     (case state of
        RobotIdle \<Rightarrow> if event = EventAuthorized then RobotActive else state
      | RobotActive \<Rightarrow>
          if event \<in> {EventEStop, EventControlLoss, EventInvalidThreshold, EventTokenExpired, EventRevoked}
          then RobotSafeStop else state
      | RobotSafeStop \<Rightarrow> if event = EventReset then RobotIdle else state)"

text \<open>The new state and the change reported to the callback, or nothing for an invalid transition.\<close>

definition Transition :: "robotEvent \<Rightarrow> robotState \<Rightarrow> (robotState \<times> (robotState \<times> robotState \<times> robotEvent)) option" where
  "Transition event state =
     (if \<not> isValidTransition state event then None
      else let new = getNextState state event in Some (new, (state, new, event)))"

text \<open>What the monitor does, as events of the state machine.\<close>

fun trigger_event :: "trigger \<Rightarrow> robotEvent" where
  "trigger_event TriggerEStop = EventEStop"
| "trigger_event TriggerControlLoss = EventControlLoss"
| "trigger_event TriggerInvalidCmds = EventInvalidThreshold"
| "trigger_event TriggerTokenExpired = EventTokenExpired"
| "trigger_event TriggerRevoked = EventRevoked"

definition monitor_state :: "safetyMonitor \<Rightarrow> robotState" where
  "monitor_state m = (if so_stopped m then RobotSafeStop else RobotActive)"

section \<open>Properties\<close>

text \<open>
  An emergency stop, an expired token and a revocation are final: whatever happens afterwards short of
  a reset, the monitor stays stopped and does not call the callback again, so each stop is reported
  at most once, and only as the first cause.
\<close>

theorem final_stop_latches:
  assumes "x \<in> {EmergencyStop, TokenExpired, SessionRevoked}" and "list_all (\<lambda>y. \<not> resets y) ys"
  shows "latched (fst (foldl watch (watch mt x) ys)) \<and>
    snd (foldl watch (watch mt x) ys) = snd (watch mt x)"
  using latch.run_stable [of "watch mt x" "snd (watch mt x)" ys] final_trigger_latches [OF assms(1)] assms(2)
  by blast

theorem final_stop_latches_witness:
  "latched (fst (foldl watch (NewMonitor 500 10 30000 None 0, []) [EmergencyStop, ValidControl 5, LossCheck 900]))"
  using final_stop_latches [of EmergencyStop "[ValidControl 5, LossCheck 900]" "(NewMonitor 500 10 30000 None 0, [])"]
  by simp

lemma invalid_step:
  assumes "so_invalidCmdCount m = 0 \<or> so_firstInvalidCmdTime m = Some h \<and>
    (so_invalidCmdTimeWindow m \<le> 0 \<or> t - h \<le> so_invalidCmdTimeWindow m)"
  shows "so_invalidCmdCount (fst (OnInvalidCommand t m)) = so_invalidCmdCount m + 1"
    and "so_firstInvalidCmdTime (fst (OnInvalidCommand t m)) =
      Some (if so_invalidCmdCount m = 0 then t else h)"
    and "so_safeStopFn (fst (OnInvalidCommand t m)) = so_safeStopFn m"
    and "so_invalidCmdThreshold (fst (OnInvalidCommand t m)) = so_invalidCmdThreshold m"
    and "so_invalidCmdTimeWindow (fst (OnInvalidCommand t m)) = so_invalidCmdTimeWindow m"
    and "so_stopped (fst (OnInvalidCommand t m)) \<longleftrightarrow>
      so_stopped m \<or> so_invalidCmdThreshold m \<le> so_invalidCmdCount m + 1"
    and "snd (OnInvalidCommand t m) = (if so_invalidCmdThreshold m \<le> so_invalidCmdCount m + 1 \<and>
      \<not> so_stopped m \<and> so_safeStopFn m \<noteq> None then [TriggerInvalidCmds] else [])"
  using assms by (auto simp: OnInvalidCommand_def Let_def)

definition counted :: "safetyMonitor \<Rightarrow> ms list \<Rightarrow> safetyMonitor \<Rightarrow> bool" where
  "counted m ts m' \<longleftrightarrow> so_invalidCmdCount m' = int (length ts) \<and> so_safeStopFn m' = so_safeStopFn m \<and>
     so_invalidCmdThreshold m' = so_invalidCmdThreshold m \<and>
     so_invalidCmdTimeWindow m' = so_invalidCmdTimeWindow m \<and>
     (ts \<noteq> [] \<longrightarrow> so_firstInvalidCmdTime m' = Some (hd ts)) \<and>
     (so_stopped m' \<longleftrightarrow> so_invalidCmdThreshold m \<le> int (length ts))"

lemma invalid_run:
  assumes "so_invalidCmdCount m = 0" and "\<not> so_stopped m" and "so_safeStopFn m \<noteq> None"
    and "0 < so_invalidCmdThreshold m"
    and "so_invalidCmdTimeWindow m \<le> 0 \<or> (\<forall>t \<in> set ts. t - hd ts \<le> so_invalidCmdTimeWindow m)"
  shows "counted m ts (fst (foldl watch (m, calls) (map InvalidCommand ts))) \<and>
    snd (foldl watch (m, calls) (map InvalidCommand ts)) =
      calls @ (if so_invalidCmdThreshold m \<le> int (length ts) then [TriggerInvalidCmds] else [])"
  using assms(5)
proof (induction ts rule: rev_induct)
  case Nil
  then show ?case using assms by (simp add: counted_def)
next
  case (snoc t ts)
  let ?mt = "foldl watch (m, calls) (map InvalidCommand ts)"
  have "so_invalidCmdTimeWindow m \<le> 0 \<or> (\<forall>t \<in> set ts. t - hd ts \<le> so_invalidCmdTimeWindow m)"
    and near: "so_invalidCmdTimeWindow m \<le> 0 \<or> ts = [] \<or> t - hd ts \<le> so_invalidCmdTimeWindow m"
    using snoc.prems by (cases ts; auto)+
  with snoc.IH have c: "counted m ts (fst ?mt)"
    and calls: "snd ?mt = calls @ (if so_invalidCmdThreshold m \<le> int (length ts) then [TriggerInvalidCmds] else [])"
    by blast+
  have "so_invalidCmdCount (fst ?mt) = 0 \<or> so_firstInvalidCmdTime (fst ?mt) = Some (hd ts) \<and>
      (so_invalidCmdTimeWindow (fst ?mt) \<le> 0 \<or> t - hd ts \<le> so_invalidCmdTimeWindow (fst ?mt))"
    using c near by (auto simp: counted_def)
  note step = invalid_step [OF this]
  have "hd (ts @ [t]) = (if ts = [] then t else hd ts)" by (cases ts) simp_all
  with c calls show ?case using assms(3) by (auto simp: counted_def step)
qed

text \<open>
  (C29) Invalid commands in a row, each within the window of the first, stop the robot exactly when their
  number reaches the threshold, and report it once.
\<close>

theorem invalid_commands_stop:
  assumes "so_invalidCmdCount m = 0" and "\<not> so_stopped m" and "so_safeStopFn m \<noteq> None"
    and "0 < so_invalidCmdThreshold m"
    and "so_invalidCmdTimeWindow m \<le> 0 \<or> (\<forall>t \<in> set ts. t - hd ts \<le> so_invalidCmdTimeWindow m)"
  shows "(so_stopped (fst (foldl watch (m, calls) (map InvalidCommand ts))) \<longleftrightarrow>
      so_invalidCmdThreshold m \<le> int (length ts)) \<and>
    snd (foldl watch (m, calls) (map InvalidCommand ts)) =
      calls @ (if so_invalidCmdThreshold m \<le> int (length ts) then [TriggerInvalidCmds] else [])"
  using invalid_run [OF assms, of calls] unfolding counted_def by blast

abbreviation sample_monitor :: safetyMonitor where
  "sample_monitor \<equiv> NewMonitor 500 3 30000
     (Some (\<lambda>t. \<lparr>tt_trigger = t, tt_timestamp = 0, tt_duration = 0, tt_error = None\<rparr>)) 0"

theorem invalid_commands_stop_witness:
  "snd (foldl watch (sample_monitor, []) (map InvalidCommand [10, 20, 30])) = [TriggerInvalidCmds]"
  using invalid_commands_stop [of sample_monitor "[10, 20, 30]" "[]"] by (simp add: NewMonitor_def)

lemma checks_stopped: "so_stopped m \<Longrightarrow> foldl watch (m, calls) (map LossCheck ts) = (m, calls)"
  by (induction ts) (simp_all add: watch_def CheckControlLoss_def)

text \<open>
  Periodic checks report a loss of control once, at the first check more than the timeout after the
  last valid control message, and not at all before; the next valid message lifts this stop.
\<close>

theorem control_loss_stops:
  assumes "\<not> so_stopped m" and "so_safeStopFn m \<noteq> None"
  shows "snd (foldl watch (m, calls) (map LossCheck ts)) =
      calls @ (if \<exists>t \<in> set ts. t - so_lastControlTime m > so_controlLossTimeout m
        then [TriggerControlLoss] else []) \<and>
    \<not> so_stopped (OnValidControl now (fst (foldl watch (m, calls) (map LossCheck ts))))"
proof (induction ts)
  case Nil
  then show ?case using assms(1) by (simp add: OnValidControl_def Let_def)
next
  case (Cons t ts)
  show ?case
  proof (cases "t - so_lastControlTime m > so_controlLossTimeout m")
    case True
    obtain m1 where m1: "watch (m, calls) (LossCheck t) = (m1, calls @ [TriggerControlLoss])"
      "so_stopped m1" "so_inControlLoss m1"
      using assms True by (auto simp: watch_def CheckControlLoss_def triggerSafeStop_def)
    then show ?thesis using True by (simp add: checks_stopped OnValidControl_def Let_def)
  next
    case False
    then have "watch (m, calls) (LossCheck t) = (m, calls)"
      using assms by (simp add: watch_def CheckControlLoss_def)
    then show ?thesis using Cons False by simp
  qed
qed

theorem control_loss_stops_witness:
  "snd (foldl watch (sample_monitor, []) (map LossCheck [100, 500, 600, 700])) = [TriggerControlLoss]"
  using control_loss_stops [of sample_monitor "[]" "[100, 500, 600, 700]"] by (simp add: NewMonitor_def)

text \<open>
  A trigger that comes while control is lost makes the stop final but is not reported: the callback,
  which stops the hardware and notifies the console, is not called for it.
\<close>

theorem stop_during_control_loss_silent:
  assumes "monitor_ok m" and "so_inControlLoss m" and "x \<in> {EmergencyStop, TokenExpired, SessionRevoked}"
  shows "snd (monitor_op x m) = [] \<and> latched (fst (monitor_op x m))"
  using assms by (auto simp: monitor_ok_def latched_def monitor_OnEStop_def OnTokenExpired_def monitor_OnRevoked_def)

theorem stop_during_control_loss_silent_witness:
  "snd (monitor_op EmergencyStop (fst (CheckControlLoss 600 sample_monitor))) = []"
  using stop_during_control_loss_silent [of "fst (CheckControlLoss 600 sample_monitor)" EmergencyStop]
  by (simp add: NewMonitor_def CheckControlLoss_def triggerSafeStop_def monitor_ok_def)

text \<open>
  The monitor against the state machine of the same package: a call of the callback is a transition the
  state machine allows, from active to safe stop; only the recovery from a loss of control is one it
  does not have.
\<close>

theorem monitor_follows_state_machine:
  shows "t \<in> set (snd (monitor_op x m)) \<Longrightarrow>
      Transition (trigger_event t) (monitor_state m) =
        Some (monitor_state (fst (monitor_op x m)), (RobotActive, RobotSafeStop, trigger_event t))"
    and "monitor_state m = RobotSafeStop \<Longrightarrow> monitor_state (fst (monitor_op x m)) = RobotActive \<Longrightarrow>
      resets x \<or> (\<exists>now. x = ValidControl now \<and> so_inControlLoss m)"
proof -
  assume "t \<in> set (snd (monitor_op x m))"
  then have "\<not> so_stopped m" "so_stopped (fst (monitor_op x m))"
    by (cases x; auto simp: OnInvalidCommand_def monitor_OnEStop_def OnTokenExpired_def monitor_OnRevoked_def
        CheckControlLoss_def Let_def split: if_splits)+
  then show "Transition (trigger_event t) (monitor_state m) =
      Some (monitor_state (fst (monitor_op x m)), (RobotActive, RobotSafeStop, trigger_event t))"
    by (cases t) (simp_all add: Transition_def isValidTransition_def getNextState_def monitor_state_def Let_def)
next
  assume "monitor_state m = RobotSafeStop" "monitor_state (fst (monitor_op x m)) = RobotActive"
  then have "so_stopped m" "\<not> so_stopped (fst (monitor_op x m))"
    by (auto simp: monitor_state_def split: if_splits)
  then show "resets x \<or> (\<exists>now. x = ValidControl now \<and> so_inControlLoss m)"
    by (cases x) (auto simp: OnValidControl_def OnInvalidCommand_def monitor_OnEStop_def OnTokenExpired_def
        monitor_OnRevoked_def CheckControlLoss_def triggerSafeStop_def Let_def split: if_splits)
qed

theorem monitor_follows_state_machine_witness:
  "Transition EventEStop (monitor_state sample_monitor) =
     Some (RobotSafeStop, (RobotActive, RobotSafeStop, EventEStop))"
  using monitor_follows_state_machine(1) [of TriggerEStop EmergencyStop sample_monitor]
  by (simp add: NewMonitor_def monitor_OnEStop_def monitor_state_def)

end
