(* ===== verification/GoJson.thy ===== *)
theory GoJson
  imports JsJsonRoundtrip
begin

text \<open>
  How the robot agent reads JSON: \<open>json.Unmarshal\<close> of Go's standard library into a struct. A member
  belongs to the field whose name it has up to the case of ASCII letters; the last one counts, \<open>null\<close>
  leaves the field as it is, and a member of the wrong type is an error. Unknown members are ignored, a
  missing field has its zero value. The text is read as by \<open>json_parse\<close>; a number counts as an integer by
  its value, however it is written, and floating-point numbers are exact. A decoder, which would ignore
  what follows the first value of a text, is taken to read a whole text too.
\<close>

definition ascii_lower :: "char \<Rightarrow> char" where
  "ascii_lower c = (let n = of_char c :: nat in if 65 \<le> n \<and> n \<le> 90 then char_of (n + 32) else c)"

text \<open>The members of the object in a text; \<open>None\<close> is an error.\<close>

definition go_object :: "jsval \<Rightarrow> (string \<times> jsval) list option" where
  "go_object v = (case v of JObj ms \<Rightarrow> Some ms | JNull \<Rightarrow> Some [] | _ \<Rightarrow> None)"

definition go_unmarshal :: "string \<Rightarrow> (string \<times> jsval) list option" where
  "go_unmarshal data = Option.bind (json_parse data) go_object"

definition go_values :: "(string \<times> jsval) list \<Rightarrow> string \<Rightarrow> jsval list" where
  "go_values ms k = map snd (filter (\<lambda>(n, v). map ascii_lower n = k \<and> v \<noteq> JNull) ms)"

definition go_field :: "(jsval \<Rightarrow> 'a option) \<Rightarrow> 'a \<Rightarrow> (string \<times> jsval) list \<Rightarrow> string \<Rightarrow> 'a option" where
  "go_field decode zero ms k =
     (let vs = map decode (go_values ms k) in
      if None \<in> set vs then None else if vs = [] then Some zero else last vs)"

fun dec_string :: "jsval \<Rightarrow> string option" where
  "dec_string (JStr s) = Some s"
| "dec_string v = None"

fun dec_float :: "jsval \<Rightarrow> rat option" where
  "dec_float (JNum n) = Some n"
| "dec_float v = None"

definition int64_range :: "int \<Rightarrow> bool" where
  "int64_range i \<longleftrightarrow> - (2 ^ 63) \<le> i \<and> i < 2 ^ 63"

fun dec_int64 :: "jsval \<Rightarrow> int option" where
  "dec_int64 (JNum n) =
     (if rat_is_int n \<and> int64_range (rat_floor n) then Some (rat_floor n) else None)"
| "dec_int64 v = None"

fun dec_element :: "jsval \<Rightarrow> string option" where
  "dec_element JNull = Some []"
| "dec_element v = dec_string v"

fun dec_strings :: "jsval \<Rightarrow> string list option" where
  "dec_strings (JArr vs) =
     (if None \<in> set (map dec_element vs) then None else Some (map (the \<circ> dec_element) vs))"
| "dec_strings v = None"

lemma rat_floor_int [simp]: "rat_floor (of_int i) = i"
  by (simp add: rat_floor_def quotient_of_int)

lemmas go_defs = go_field_def go_values_def go_object_def

lemma go_unmarshal_plain:
  "plain v \<Longrightarrow> go_unmarshal (json_stringify v) = go_object v"
  by (simp add: go_unmarshal_def json_roundtrip_compact)

text \<open>A field that one member has, and one that none has.\<close>

lemma go_field_single:
  "go_values ms k = [v] \<Longrightarrow> go_field decode zero ms k = decode v"
  by (cases "decode v") (simp_all add: go_field_def)

lemma go_field_none: "go_values ms k = [] \<Longrightarrow> go_field decode zero ms k = Some zero"
  by (simp add: go_field_def)

end
