(* ===== verification/RobotToken.thy ===== *)
theory RobotToken
  imports GoJson TokenKeys
begin

text \<open>
  Tokens at the robot agent (\<open>robot-agent/internal/session\<close>, in Go): the keys fetched from the gateway
  (\<open>jwks.go\<close>), the validation of a capability token (\<open>token.go\<close>), the cache of validated ones
  (\<open>token_cache.go\<close>) and the session manager (\<open>manager.go\<close>); and whether a token of the gateway passes.

  \<open>jwt.Parse\<close> of the package golang-jwt is the parameter \<open>parse\<close>: it gets the time, the token, the
  key function and the leeway, and gives the kinds of error that \<open>errors.Is\<close> finds, or the claims and the
  token's validity. A fetch is the HTTP status and body, or nothing when the request failed. Times are in
  milliseconds, the zero time is \<open>None\<close>; the callback of state changes only logs and is left out.
\<close>

section \<open>Errors\<close>

datatype robotTokenError =
    RtTokenExpired
  | RtInvalidSignature
  | RtInvalidAudience
  | RtSessionMismatch
  | RtMalformedToken
  | RtTokenNotYetValid
  | RtInvalidToken
  | RtSessionTerminated
  | RtSessionExists

datatype jwtError = JwtErrExpired | JwtErrSignatureInvalid | JwtErrMalformed | JwtErrNotValidYet

type_synonym 'key jwtParse =
  "ms \<Rightarrow> string \<Rightarrow> (string \<Rightarrow> 'key option) \<Rightarrow> ms \<Rightarrow> jwtError list + (string \<times> jsval) list \<times> bool"

section \<open>Key sets (jwks.go)\<close>

record jwkKey =
  jk_kty :: string
  jk_crv :: string
  jk_kid :: string
  jk_x :: string
  jk_use :: string

definition decode_jwk :: "jsval \<Rightarrow> jwkKey option" where
  "decode_jwk v =
     (case go_object v of
        None \<Rightarrow> None
      | Some ms \<Rightarrow>
          (case (go_field dec_string [] ms ''kty'', go_field dec_string [] ms ''crv'',
                 go_field dec_string [] ms ''kid'', go_field dec_string [] ms ''x'',
                 go_field dec_string [] ms ''use'') of
             (Some kty, Some crv, Some kid, Some x, Some use) \<Rightarrow>
               Some \<lparr>jk_kty = kty, jk_crv = crv, jk_kid = kid, jk_x = x, jk_use = use\<rparr>
           | _ \<Rightarrow> None))"

fun decode_keys :: "jsval \<Rightarrow> jwkKey list option" where
  "decode_keys (JArr vs) =
     (if None \<in> set (map decode_jwk vs) then None else Some (map (the \<circ> decode_jwk) vs))"
| "decode_keys v = None"

definition decode_jwks :: "string \<Rightarrow> jwkKey list option" where
  "decode_jwks body = Option.bind (go_unmarshal body) (\<lambda>ms. go_field decode_keys [] ms ''keys'')"

text \<open>\<open>base64.RawURLEncoding\<close>: no padding, line breaks are skipped.\<close>

definition raw_url_decode :: "string \<Rightarrow> nat list option" where
  "raw_url_decode s =
     (let t = filter (\<lambda>c. c \<noteq> CHR 0x0A \<and> c \<noteq> CHR 0x0D) s in
      if list_all (\<lambda>c. b64_val c \<noteq> None \<and> c \<noteq> CHR ''+'' \<and> c \<noteq> CHR ''/'') t \<and> length t mod 4 \<noteq> 1
      then Some (b64_bytes (List.map_filter b64_val t)) else None)"

type_synonym keyCache = "string \<Rightarrow> nat list option"

definition updateCache :: "jwkKey list \<Rightarrow> keyCache" where
  "updateCache ks =
     foldl (\<lambda>cache k.
       if jk_kty k \<noteq> ''OKP'' \<or> jk_crv k \<noteq> ''Ed25519'' then cache
       else
         (case raw_url_decode (jk_x k) of
            None \<Rightarrow> cache
          | Some pub \<Rightarrow> if length pub \<noteq> 32 then cache else cache(jk_kid k \<mapsto> pub)))
       Map.empty ks"

text \<open>The new cache, or nothing when the fetch or the decoding failed.\<close>

definition jwks_Refresh :: "(nat \<times> string) option \<Rightarrow> keyCache option" where
  "jwks_Refresh fetched =
     (case fetched of
        None \<Rightarrow> None
      | Some (status, body) \<Rightarrow> if status \<noteq> 200 then None else map_option updateCache (decode_jwks body))"

definition GetPublicKey :: "keyCache \<Rightarrow> (nat \<times> string) option \<Rightarrow> string \<Rightarrow> nat list option" where
  "GetPublicKey cache fetched kid =
     (case cache kid of
        Some key \<Rightarrow> Some key
      | None \<Rightarrow> (case jwks_Refresh fetched of None \<Rightarrow> None | Some cache' \<Rightarrow> cache' kid))"

section \<open>Validation (token.go)\<close>

record robotClaims =
  rk_jti :: string
  rk_sessionID :: string
  rk_subject :: string
  rk_scope :: "string list"
  rk_nonce :: string
  rk_expiresAt :: "ms option"

record 'key tokenValidator =
  tv_publicKey :: 'key
  tv_robotID :: string
  tv_clockSkew :: ms

definition keyFunc :: "'key tokenValidator \<Rightarrow> string \<Rightarrow> 'key option" where
  "keyFunc v alg = (if alg = ''EdDSA'' then Some (tv_publicKey v) else None)"

definition mapError :: "jwtError list \<Rightarrow> robotTokenError" where
  "mapError errs =
     (if JwtErrExpired \<in> set errs then RtTokenExpired
      else if JwtErrSignatureInvalid \<in> set errs then RtInvalidSignature
      else if JwtErrMalformed \<in> set errs then RtMalformedToken
      else if JwtErrNotValidYet \<in> set errs then RtTokenNotYetValid
      else RtInvalidToken)"

definition claim_string :: "(string \<times> jsval) list \<Rightarrow> string \<Rightarrow> string" where
  "claim_string claims k = (case jm_get claims k of Some (JStr s) \<Rightarrow> s | _ \<Rightarrow> [])"

definition extractScope :: "(string \<times> jsval) list \<Rightarrow> string list" where
  "extractScope claims =
     (case jm_get claims ''scope'' of
        Some (JArr vs) \<Rightarrow> List.map_filter dec_string vs
      | _ \<Rightarrow> [])"

definition unix_time :: "rat \<Rightarrow> ms" where
  "unix_time r = 1000 * (if r < 0 then - rat_floor (- r) else rat_floor r)"

definition extractClaims ::
    "'key tokenValidator \<Rightarrow> (string \<times> jsval) list \<Rightarrow> string \<Rightarrow> robotTokenError + robotClaims" where
  "extractClaims v claims expectedSessionID =
     (if jm_get claims ''aud'' \<noteq> Some (JStr (tv_robotID v)) then Inl RtInvalidAudience
      else if jm_get claims ''sid'' \<noteq> Some (JStr expectedSessionID) then Inl RtSessionMismatch
      else Inr \<lparr>rk_jti = claim_string claims ''jti'', rk_sessionID = expectedSessionID,
        rk_subject = claim_string claims ''sub'', rk_scope = extractScope claims,
        rk_nonce = claim_string claims ''nonce'',
        rk_expiresAt = (case jm_get claims ''exp'' of Some (JNum e) \<Rightarrow> Some (unix_time e) | _ \<Rightarrow> None)\<rparr>)"

definition robot_Validate ::
    "'key jwtParse \<Rightarrow> 'key tokenValidator \<Rightarrow> ms \<Rightarrow> string \<Rightarrow> string \<Rightarrow> robotTokenError + robotClaims" where
  "robot_Validate parse v now token expectedSessionID =
     (if token = [] then Inl RtInvalidToken
      else
        (case parse now token (keyFunc v) (tv_clockSkew v) of
           Inl errs \<Rightarrow> Inl (mapError errs)
         | Inr (claims, valid) \<Rightarrow>
             if \<not> valid then Inl RtInvalidSignature else extractClaims v claims expectedSessionID))"

section \<open>The cache (token_cache.go)\<close>

record cachedToken =
  ct_claims :: robotClaims
  ct_validFor :: string
  ct_cachedAt :: ms

record tokenCache =
  tc_cache :: "(string, cachedToken) jsmap"
  tc_ttl :: ms

definition NewTokenCache :: "ms \<Rightarrow> tokenCache" where
  "NewTokenCache ttl = \<lparr>tc_cache = [], tc_ttl = (if ttl \<le> 0 then 30000 else ttl)\<rparr>"

definition tokenCache_Set :: "tokenCache \<Rightarrow> string \<Rightarrow> string \<Rightarrow> robotClaims \<Rightarrow> ms \<Rightarrow> tokenCache" where
  "tokenCache_Set c jti sessionID claims now =
     c\<lparr>tc_cache := jm_set (tc_cache c) jti
         \<lparr>ct_claims = claims, ct_validFor = sessionID, ct_cachedAt = now\<rparr>\<rparr>"

definition tokenCache_Get :: "tokenCache \<Rightarrow> string \<Rightarrow> string \<Rightarrow> ms \<Rightarrow> robotClaims option" where
  "tokenCache_Get c jti sessionID now =
     (case jm_get (tc_cache c) jti of
        None \<Rightarrow> None
      | Some entry \<Rightarrow>
          if ct_validFor entry \<noteq> sessionID then None
          else if now - ct_cachedAt entry > tc_ttl c then None
          else
            (case rk_expiresAt (ct_claims entry) of
               None \<Rightarrow> None
             | Some t \<Rightarrow> if now > t then None else Some (ct_claims entry)))"

definition tokenCache_Invalidate :: "tokenCache \<Rightarrow> string \<Rightarrow> tokenCache" where
  "tokenCache_Invalidate c jti = c\<lparr>tc_cache := jm_delete (tc_cache c) jti\<rparr>"

definition tokenCache_InvalidateSession :: "tokenCache \<Rightarrow> string \<Rightarrow> tokenCache" where
  "tokenCache_InvalidateSession c sessionID =
     c\<lparr>tc_cache := filter (\<lambda>(jti, entry). ct_validFor entry \<noteq> sessionID) (tc_cache c)\<rparr>"

section \<open>The session manager (manager.go)\<close>

datatype robotSessionState = SessPending | SessActive | SessTerminated

record sessionInfo =
  si_sessionID :: string
  si_operatorDID :: string
  si_robotID :: string
  si_scope :: "string list"
  si_expiresAt :: "ms option"

record 'key sessionManager =
  mg_robotID :: string
  mg_validator :: "'key tokenValidator option"
  mg_tokenCache :: tokenCache
  mg_state :: robotSessionState
  mg_info :: "sessionInfo option"

definition NewManager :: "string \<Rightarrow> 'key tokenValidator option \<Rightarrow> 'key sessionManager" where
  "NewManager robotID validator =
     \<lparr>mg_robotID = robotID, mg_validator = validator, mg_tokenCache = NewTokenCache 30000,
      mg_state = SessPending, mg_info = None\<rparr>"

definition claimsToInfo :: "'key sessionManager \<Rightarrow> robotClaims \<Rightarrow> sessionInfo" where
  "claimsToInfo m claims =
     \<lparr>si_sessionID = rk_sessionID claims, si_operatorDID = rk_subject claims, si_robotID = mg_robotID m,
      si_scope = rk_scope claims, si_expiresAt = rk_expiresAt claims\<rparr>"

definition ValidateToken ::
    "'key jwtParse \<Rightarrow> 'key sessionManager \<Rightarrow> string \<Rightarrow> string \<Rightarrow> ms
      \<Rightarrow> (robotTokenError + sessionInfo) \<times> 'key sessionManager" where
  "ValidateToken parse m sessionID token now =
     (if mg_state m = SessTerminated then (Inl RtSessionTerminated, m)
      else
        (case mg_validator m of
           None \<Rightarrow> (Inl RtInvalidToken, m)
         | Some v \<Rightarrow>
             (case tokenCache_Get (mg_tokenCache m) token sessionID now of
                Some cached \<Rightarrow> (Inr (claimsToInfo m cached), m)
              | None \<Rightarrow>
                  (case robot_Validate parse v now token sessionID of
                     Inl err \<Rightarrow> (Inl err, m)
                   | Inr claims \<Rightarrow>
                       (Inr (claimsToInfo m claims),
                        m\<lparr>mg_tokenCache := tokenCache_Set (mg_tokenCache m) token sessionID claims now\<rparr>)))))"

definition manager_Activate :: "'key sessionManager \<Rightarrow> sessionInfo \<Rightarrow> robotTokenError + 'key sessionManager" where
  "manager_Activate m info =
     (if mg_state m = SessActive then Inl RtSessionExists
      else if mg_state m = SessTerminated then Inl RtSessionTerminated
      else Inr (m\<lparr>mg_info := Some info, mg_state := SessActive\<rparr>))"

definition manager_Terminate :: "'key sessionManager \<Rightarrow> 'key sessionManager" where
  "manager_Terminate m =
     (if mg_state m = SessTerminated then m
      else m\<lparr>mg_tokenCache := (case mg_info m of
                 None \<Rightarrow> mg_tokenCache m
               | Some info \<Rightarrow> tokenCache_InvalidateSession (mg_tokenCache m) (si_sessionID info)),
             mg_state := SessTerminated, mg_info := None\<rparr>)"

definition manager_Reset :: "'key sessionManager \<Rightarrow> 'key sessionManager" where
  "manager_Reset m = m\<lparr>mg_state := SessPending, mg_info := None\<rparr>"

definition HasScope :: "'key sessionManager \<Rightarrow> string \<Rightarrow> bool" where
  "HasScope m scope = (case mg_info m of None \<Rightarrow> False | Some info \<Rightarrow> scope \<in> set (si_scope info))"

text \<open>The validator of the agent (\<open>cmd/agent/main.go\<close>): two fetches at most, and one fixed key id.\<close>

definition initTokenValidator ::
    "(nat \<times> string) option \<Rightarrow> (nat \<times> string) option \<Rightarrow> string \<Rightarrow> nat list tokenValidator option" where
  "initTokenValidator fetch1 fetch2 robotID =
     (let cache = (case jwks_Refresh fetch1 of None \<Rightarrow> Map.empty | Some c \<Rightarrow> c) in
      case GetPublicKey cache fetch2 ''gateway-signing-key'' of
        None \<Rightarrow> None
      | Some pub \<Rightarrow> Some \<lparr>tv_publicKey = pub, tv_robotID = robotID, tv_clockSkew = 30000\<rparr>)"

section \<open>Facts\<close>

lemma unix_time_int [simp]: "unix_time (of_int e) = 1000 * e"
proof -
  have "rat_floor (- of_int e) = - e" using rat_floor_int [of "- e"] by (simp del: rat_floor_int)
  then show ?thesis by (simp add: unix_time_def)
qed

lemma strings_decoded [simp]: "List.map_filter dec_string (map JStr ss) = ss"
  by (induction ss) (simp_all add: map_filter_simps)

text \<open>
  What is relied on of \<open>jwt.Parse\<close>: a token signed by the key whose public part the key function gives is
  parsed to its payload, as long as it has not expired, up to the leeway, and has no \<open>nbf\<close>.
\<close>

definition parses_signed ::
    "'pub jwtParse \<Rightarrow> ('priv \<Rightarrow> jsval \<Rightarrow> jsval \<Rightarrow> string) \<Rightarrow> ('priv \<Rightarrow> 'pub) \<Rightarrow> bool" where
  "parses_signed parse sign pub \<longleftrightarrow>
     (\<forall>now k kid ms keyf leeway e. keyf ''EdDSA'' = Some (pub k) \<longrightarrow>
        jm_get ms ''exp'' = Some (JNum (of_int e)) \<longrightarrow> jm_get ms ''nbf'' = None \<longrightarrow>
        now < 1000 * e + leeway \<longrightarrow> plain (JObj ms) \<longrightarrow>
        parse now (sign k (token_header kid) (JObj ms)) keyf leeway = Inr (ms, True))"

text \<open>An example: the payload is read, the signature is not looked at.\<close>

definition stub_parse :: "'pub jwtParse" where
  "stub_parse now token keyf leeway =
     (case json_parse (jwt_part token 1) of Some (JObj ms) \<Rightarrow> Inr (ms, True) | _ \<Rightarrow> Inl [])"

lemma stub_parses_signed: "parses_signed stub_parse stub_sign pub"
  unfolding parses_signed_def stub_parse_def signed_parts [OF stub_signs_compact]
  by (simp add: json_roundtrip_compact del: plain.simps)

lemma signed_not_empty: "signs_compact sign \<Longrightarrow> sign k h p \<noteq> []"
  using signed_parts(1) [of sign k h p] by auto

text \<open>The cache holds what a validation gave, at the time it is marked with.\<close>

definition cache_valid :: "'key jwtParse \<Rightarrow> 'key sessionManager \<Rightarrow> bool" where
  "cache_valid parse m \<longleftrightarrow> tc_ttl (mg_tokenCache m) = 30000 \<and>
     (\<forall>(token, e) \<in> set (tc_cache (mg_tokenCache m)).
        \<exists>v. mg_validator m = Some v \<and>
          robot_Validate parse v (ct_cachedAt e) token (ct_validFor e) = Inr (ct_claims e))"

lemma new_manager_cache: "cache_valid parse (NewManager robotID validator)"
  by (simp add: cache_valid_def NewManager_def NewTokenCache_def)

lemma set_jm_set: "x \<in> set (jm_set m k v) \<Longrightarrow> x = (k, v) \<or> x \<in> set m"
  by (induction m) (auto split: if_splits)

lemma validate_cases:
  assumes "ValidateToken parse m sid token now = (Inr info, m')" and "cache_valid parse m"
  shows "mg_state m \<noteq> SessTerminated \<and> (\<exists>v t claims. mg_validator m = Some v \<and> now - t \<le> 30000 \<and>
    robot_Validate parse v t token sid = Inr claims \<and> info = claimsToInfo m claims)"
proof -
  obtain v where v: "mg_state m \<noteq> SessTerminated" "mg_validator m = Some v"
    using assms(1) by (auto simp: ValidateToken_def split: if_splits option.splits)
  show ?thesis
  proof (cases "tokenCache_Get (mg_tokenCache m) token sid now")
    case None
    then obtain claims where "robot_Validate parse v now token sid = Inr claims" "info = claimsToInfo m claims"
      using assms(1) v by (auto simp: ValidateToken_def split: sum.splits)
    with v show ?thesis by (intro conjI exI [of _ v] exI [of _ now] exI [of _ claims]) auto
  next
    case (Some claims)
    then obtain e where e: "(token, e) \<in> set (tc_cache (mg_tokenCache m))" "ct_validFor e = sid"
      "now - ct_cachedAt e \<le> 30000" "ct_claims e = claims"
      using assms(2)
      by (auto simp: tokenCache_Get_def cache_valid_def dest: map_of_SomeD split: option.splits if_splits)
    then have "robot_Validate parse v (ct_cachedAt e) token sid = Inr claims"
      using assms(2) v(2) unfolding cache_valid_def by fastforce
    moreover have "info = claimsToInfo m claims" using assms(1) v Some by (auto simp: ValidateToken_def)
    ultimately show ?thesis using e v by blast
  qed
qed

lemma validate_keeps:
  assumes "ValidateToken parse m sid token now = (result, m')"
  shows "mg_state m' = mg_state m" and "mg_info m' = mg_info m" and "mg_validator m' = mg_validator m"
    and "mg_robotID m' = mg_robotID m" and "cache_valid parse m \<Longrightarrow> cache_valid parse m'"
  using assms
  by (auto simp: ValidateToken_def cache_valid_def tokenCache_Set_def dest!: set_jm_set
      split: if_splits option.splits sum.splits)

lemma activate_keeps:
  assumes "manager_Activate m info = Inr m'"
  shows "mg_state m = SessPending" and "mg_state m' = SessActive" and "mg_info m' = Some info"
    and "mg_validator m' = mg_validator m" and "mg_robotID m' = mg_robotID m"
    and "cache_valid parse m \<Longrightarrow> cache_valid parse m'"
  using assms by (cases "mg_state m"; auto simp: manager_Activate_def cache_valid_def split: if_splits)+

lemma terminate_keeps:
  shows "mg_state (manager_Terminate m) = SessTerminated"
    and "cache_valid parse m \<Longrightarrow> cache_valid parse (manager_Terminate m)"
  by (auto simp: manager_Terminate_def cache_valid_def tokenCache_InvalidateSession_def split: option.splits)

section \<open>Properties\<close>

text \<open>
  What the robot makes of a token of the gateway: if its key is the gateway's and the token has not
  expired, up to the clock skew, it accepts it exactly for the robot and the session the token was
  generated for, and reads back the operator, the scope, the identifiers and the expiry.
\<close>

theorem robot_reads_gateway_token:
  assumes "parses_signed parse sign pub" and "signs_compact sign"
    and "r = generate sign g input nowMs u n" and "tv_publicKey v = pub (tg_privateKey g)"
    and "now < gr_expiresAt r + tv_clockSkew v"
  shows "robot_Validate parse v now (gr_token r) sid =
    (if tv_robotID v \<noteq> gi_robotId input then Inl RtInvalidAudience
     else if sid \<noteq> gi_sessionId input then Inl RtSessionMismatch
     else Inr \<lparr>rk_jti = gr_tokenId r, rk_sessionID = sid, rk_subject = gi_operatorDid input,
       rk_scope = gi_allowedActions input, rk_nonce = n, rk_expiresAt = Some (gr_expiresAt r)\<rparr>)"
proof -
  let ?exp = "nowMs div 1000 + gi_ttlSeconds input"
  obtain ms where ms: "token_payload input n (nowMs div 1000) ?exp (''tok_'' @ u) = JObj ms"
    "jm_get ms ''exp'' = Some (JNum (of_int ?exp))" "jm_get ms ''nbf'' = None"
    by (simp add: token_payload_def)
  have token: "gr_token r = sign (tg_privateKey g) (token_header (tg_keyId g)) (JObj ms)"
    and exp: "gr_expiresAt r = 1000 * ?exp" and jti: "gr_tokenId r = ''tok_'' @ u"
    unfolding assms(3) generate_def Let_def by (simp_all only: tokenGenerationResult.simps ms(1))
  have "plain (JObj ms)" unfolding ms(1) [symmetric] by (rule token_payload_plain)
  moreover have "keyFunc v ''EdDSA'' = Some (pub (tg_privateKey g))" by (simp add: keyFunc_def assms(4))
  ultimately have "parse now (gr_token r) (keyFunc v) (tv_clockSkew v) = Inr (ms, True)"
    using assms(1,5) ms(2,3) unfolding token exp parses_signed_def by blast
  moreover have "gr_token r \<noteq> []" unfolding token by (rule signed_not_empty [OF assms(2)])
  ultimately show ?thesis
    using ms(1) by (auto simp: robot_Validate_def extractClaims_def claim_string_def extractScope_def
        exp jti token_payload_def simp del: of_int_add)
qed

theorem robot_reads_gateway_token_witness:
  "robot_Validate stub_parse \<lparr>tv_publicKey = (), tv_robotID = ''r1'', tv_clockSkew = 30000\<rparr> 6000
     (gr_token (generate stub_sign (createTokenGenerator () ''k'')
       \<lparr>gi_operatorDid = ''d'', gi_robotId = ''r1'', gi_sessionId = ''s1'',
        gi_allowedActions = [''teleop:control''], gi_ttlSeconds = 60\<rparr> 5999 ''u'' ''n'')) ''s1'' =
   Inr \<lparr>rk_jti = ''tok_u'', rk_sessionID = ''s1'', rk_subject = ''d'', rk_scope = [''teleop:control''],
     rk_nonce = ''n'', rk_expiresAt = Some 65000\<rparr>"
  using robot_reads_gateway_token [OF stub_parses_signed stub_signs_compact refl,
    of "\<lparr>tv_publicKey = (), tv_robotID = ''r1'', tv_clockSkew = 30000\<rparr>" "\<lambda>k. ()" "createTokenGenerator () ''k''"
      6000 "\<lparr>gi_operatorDid = ''d'', gi_robotId = ''r1'', gi_sessionId = ''s1'',
        gi_allowedActions = [''teleop:control''], gi_ttlSeconds = 60\<rparr>" 5999 "''u''" "''n''" "''s1''"]
  by (simp add: generate_def createTokenGenerator_def Let_def)

text \<open>Key sets of the gateway: their names are in lower case, so a field is the member of its name.\<close>

definition lower_name :: "string \<Rightarrow> bool" where
  "lower_name n \<longleftrightarrow> map ascii_lower n = n"

lemma go_values_lower:
  assumes "jm_wf ms" and "\<forall>n \<in> set (jm_keys ms). lower_name n" and "jm_get ms k = Some v" and "v \<noteq> JNull"
  shows "go_values ms k = [v]"
  using assms
proof (induction ms)
  case Nil
  then show ?case by simp
next
  case (Cons m ms)
  obtain n w where m: "m = (n, w)" by (cases m)
  show ?case
  proof (cases "n = k")
    case True
    then have "go_values ms k = []"
      using Cons.prems(1,2) m by (force simp: go_values_def filter_empty_conv lower_name_def)
    with True Cons.prems(2,3,4) m show ?thesis by (simp add: go_values_def lower_name_def)
  next
    case False
    with Cons m show ?thesis by (simp add: go_values_def lower_name_def)
  qed
qed

lemma jwk_kid:
  assumes "jm_wf ms" and "\<forall>n \<in> set (jm_keys ms). lower_name n" and "jm_get ms ''kid'' = Some (JStr kid)"
    and "decode_jwk (JObj ms) = Some k"
  shows "jk_kid k = kid"
  using assms(4) go_field_single [OF go_values_lower [OF assms(1,2,3)], of dec_string]
  by (auto simp: decode_jwk_def go_object_def split: option.splits)

lemma update_cache_kids: "updateCache ks kid \<noteq> None \<Longrightarrow> kid \<in> jk_kid ` set ks"
  unfolding updateCache_def
  by (induction ks rule: rev_induct) (auto split: if_splits option.splits)

lemma gateway_jwks_kids:
  assumes "plain (JObj jwk)" and "\<forall>n \<in> set (jm_keys jwk). lower_name n"
    and "jwks_Refresh (Some (200, json_stringify (buildJWKS (setKeyManager (createDevKeyManager priv jwk))))) =
      Some cache" and "cache kid \<noteq> None"
  shows "kid = ''dev-key-1''"
proof -
  define ms where "ms = jm_set (jm_set (jm_set jwk ''kid'' (JStr ''dev-key-1'')) ''use'' (JStr ''sig''))
    ''alg'' (JStr ''EdDSA'')"
  have set: "buildJWKS (setKeyManager (createDevKeyManager priv jwk)) = JObj [(''keys'', JArr [JObj ms])]"
    by (simp add: buildJWKS_def setKeyManager_def createDevKeyManager_def getPublicJwk_def ms_def)
  have wf: "jm_wf ms" using assms(1) by (simp add: ms_def distinct_update)
  have low: "\<forall>n \<in> set (jm_keys ms). lower_name n"
    using assms(2) by (auto simp: ms_def lower_name_def ascii_lower_def dest!: set_jm_set)
  have "plain (JObj [(''keys'', JArr [JObj ms])])"
    using assms(1) wf by (auto simp: ms_def list_all_iff dest!: set_jm_set)
  then obtain ks where ks: "go_field decode_keys [] [(''keys'', JArr [JObj ms])] ''keys'' = Some ks"
    "cache = updateCache ks"
    using assms(3) unfolding set
    by (auto simp: jwks_Refresh_def decode_jwks_def go_unmarshal_plain go_object_def simp del: plain.simps)
  have "go_values [(''keys'', JArr [JObj ms])] ''keys'' = [JArr [JObj ms]]"
    by (simp add: go_values_def ascii_lower_def)
  with ks(1) have "decode_keys (JArr [JObj ms]) = Some ks" by (simp only: go_field_single)
  then obtain k where k: "decode_jwk (JObj ms) = Some k" "ks = [k]"
    by (cases "decode_jwk (JObj ms)") (auto split: if_splits)
  have "jk_kid k = ''dev-key-1''"
    by (rule jwk_kid [OF wf low _ k(1)]) (simp add: ms_def jm.get_put)
  then show ?thesis using assms(4) update_cache_kids [of ks kid] k(2) ks(2) by auto
qed

text \<open>
  (C18) The robot never has a validator for the gateway's tokens: it looks for the key id
  \<open>gateway-signing-key\<close>, and the gateway publishes its key as \<open>dev-key-1\<close>. So whatever the two fetches
  of the key set give, every token is refused.
\<close>

theorem robot_finds_no_gateway_key:
  assumes "plain (JObj jwk)" and "\<forall>n \<in> set (jm_keys jwk). lower_name n"
    and "\<forall>fetched \<in> {fetch1, fetch2}. fetched = None \<or>
      fetched = Some (200, json_stringify (buildJWKS (setKeyManager (createDevKeyManager priv jwk))))"
  shows "ValidateToken parse (NewManager robotID (initTokenValidator fetch1 fetch2 robotID)) sid token now =
    (Inl RtInvalidToken, NewManager robotID (initTokenValidator fetch1 fetch2 robotID))"
proof -
  have no_key: "cache ''gateway-signing-key'' = None"
    if "jwks_Refresh fetched = Some cache" "fetched \<in> {fetch1, fetch2}" for fetched cache
  proof (cases fetched)
    case None
    then show ?thesis using that(1) by (simp add: jwks_Refresh_def)
  next
    case (Some answer)
    then have "fetched = Some (200, json_stringify (buildJWKS (setKeyManager (createDevKeyManager priv jwk))))"
      using assms(3) that(2) by blast
    then show ?thesis using gateway_jwks_kids [OF assms(1,2)] that(1) by fastforce
  qed
  have "initTokenValidator fetch1 fetch2 robotID = None"
    using no_key by (auto simp: initTokenValidator_def GetPublicKey_def Let_def split: option.splits)
  then show ?thesis by (simp add: ValidateToken_def NewManager_def)
qed

theorem robot_finds_no_gateway_key_witness:
  "fst (ValidateToken stub_parse (NewManager ''r1'' (initTokenValidator
       (Some (200, json_stringify (buildJWKS (setKeyManager (createDevKeyManager ()
         [(''kty'', JStr ''OKP''), (''crv'', JStr ''Ed25519''), (''x'', JStr ''AAAA'')]))))) None ''r1''))
     ''s1'' ''t'' 0) = Inl RtInvalidToken"
  using robot_finds_no_gateway_key [of "[(''kty'', JStr ''OKP''), (''crv'', JStr ''Ed25519''), (''x'', JStr ''AAAA'')]"
      "Some (200, json_stringify (buildJWKS (setKeyManager (createDevKeyManager ()
         [(''kty'', JStr ''OKP''), (''crv'', JStr ''Ed25519''), (''x'', JStr ''AAAA'')]))))" None "()"
      stub_parse "''r1''" "''s1''" "''t''" 0]
  by (simp add: lower_name_def ascii_lower_def)

end
