(* ===== verification/RobotControl.thy ===== *)
theory RobotControl
  imports GoJson
begin

text \<open>
  Control messages at the robot agent (in Go): the messages of the data channel
  (\<open>pkg/protocol/messages.go\<close>), their validation (\<open>internal/control/validator.go\<close>), the handler that
  dispatches them (\<open>handler.go\<close>) and the rate limiter (\<open>ratelimit.go\<close>).

  The robot's interface, the scope check and the session check of a handler are functions in its
  record, as in the code; a missing one is \<open>None\<close>. A method returns its result and the calls it makes, in
  order. Times are in milliseconds.
\<close>

section \<open>Messages (messages.go)\<close>

record driveMessage =
  dm_v :: rat
  dm_w :: rat
  dm_t :: int

record kvmKeyMessage =
  km_key :: string
  km_action :: string
  km_modifiers :: "string list"
  km_t :: int

record kvmMouseMessage =
  mm_dx :: int
  mm_dy :: int
  mm_buttons :: int
  mm_scroll :: int
  mm_t :: int

record eStopMessage =
  em_t :: int

record ackMessage =
  ak_refType :: string
  ak_refT :: int

text \<open>\<open>json.Unmarshal\<close> into each of them. The field \<open>type\<close> is a string in all.\<close>

definition decode_type :: "(string \<times> jsval) list \<Rightarrow> string option" where
  "decode_type ms = go_field dec_string [] ms ''type''"

definition decode_drive :: "(string \<times> jsval) list \<Rightarrow> driveMessage option" where
  "decode_drive ms =
     (case (go_field dec_float 0 ms ''v'', go_field dec_float 0 ms ''w'', go_field dec_int64 0 ms ''t'') of
        (Some v, Some w, Some t) \<Rightarrow> Some \<lparr>dm_v = v, dm_w = w, dm_t = t\<rparr>
      | _ \<Rightarrow> None)"

definition decode_key :: "(string \<times> jsval) list \<Rightarrow> kvmKeyMessage option" where
  "decode_key ms =
     (case (go_field dec_string [] ms ''key'', go_field dec_string [] ms ''action'',
            go_field dec_strings [] ms ''modifiers'', go_field dec_int64 0 ms ''t'') of
        (Some key, Some action, Some modifiers, Some t) \<Rightarrow>
          Some \<lparr>km_key = key, km_action = action, km_modifiers = modifiers, km_t = t\<rparr>
      | _ \<Rightarrow> None)"

definition decode_mouse :: "(string \<times> jsval) list \<Rightarrow> kvmMouseMessage option" where
  "decode_mouse ms =
     (case (go_field dec_int64 0 ms ''dx'', go_field dec_int64 0 ms ''dy'',
            go_field dec_int64 0 ms ''buttons'', go_field dec_int64 0 ms ''scroll'',
            go_field dec_int64 0 ms ''t'') of
        (Some dx, Some dy, Some buttons, Some scroll, Some t) \<Rightarrow>
          Some \<lparr>mm_dx = dx, mm_dy = dy, mm_buttons = buttons, mm_scroll = scroll, mm_t = t\<rparr>
      | _ \<Rightarrow> None)"

definition decode_estop :: "(string \<times> jsval) list \<Rightarrow> eStopMessage option" where
  "decode_estop ms = map_option (\<lambda>t. \<lparr>em_t = t\<rparr>) (go_field dec_int64 0 ms ''t'')"

definition ScopeControl :: string where
  "ScopeControl = ''teleop:control''"

definition ScopeEStop :: string where
  "ScopeEStop = ''teleop:estop''"

section \<open>Validation (validator.go)\<close>

record validationError =
  ve_code :: string
  ve_field :: string

definition checkStale :: "ms \<Rightarrow> ms \<Rightarrow> int \<Rightarrow> validationError option" where
  "checkStale staleThreshold now t =
     (if t = 0 then Some \<lparr>ve_code = ''INVALID_TIMESTAMP'', ve_field = ''t''\<rparr>
      else if now - t > staleThreshold then Some \<lparr>ve_code = ''STALE_COMMAND'', ve_field = ''t''\<rparr>
      else None)"

definition ValidateDrive :: "ms \<Rightarrow> ms \<Rightarrow> driveMessage \<Rightarrow> validationError option" where
  "ValidateDrive staleThreshold now msg =
     (case checkStale staleThreshold now (dm_t msg) of
        Some err \<Rightarrow> Some err
      | None \<Rightarrow>
          if dm_v msg < -1 \<or> dm_v msg > 1 then Some \<lparr>ve_code = ''OUT_OF_RANGE'', ve_field = ''v''\<rparr>
          else if dm_w msg < -1 \<or> dm_w msg > 1 then Some \<lparr>ve_code = ''OUT_OF_RANGE'', ve_field = ''w''\<rparr>
          else None)"

definition ValidateKVMKey :: "ms \<Rightarrow> ms \<Rightarrow> kvmKeyMessage \<Rightarrow> validationError option" where
  "ValidateKVMKey staleThreshold now msg =
     (case checkStale staleThreshold now (km_t msg) of
        Some err \<Rightarrow> Some err
      | None \<Rightarrow>
          if km_key msg = [] then Some \<lparr>ve_code = ''MISSING_FIELD'', ve_field = ''key''\<rparr>
          else if km_action msg \<noteq> ''down'' \<and> km_action msg \<noteq> ''up''
          then Some \<lparr>ve_code = ''INVALID_VALUE'', ve_field = ''action''\<rparr>
          else None)"

definition ValidateKVMMouse :: "ms \<Rightarrow> ms \<Rightarrow> kvmMouseMessage \<Rightarrow> validationError option" where
  "ValidateKVMMouse staleThreshold now msg = checkStale staleThreshold now (mm_t msg)"

definition ValidateEStop :: "eStopMessage \<Rightarrow> validationError option" where
  "ValidateEStop msg = None"

section \<open>The handler (handler.go)\<close>

datatype robotCall =
    Drive rat rat
  | SendKey string string "string list"
  | SendMouse int int int int
  | RobotEStop

datatype handlerCall =
    CallRobot robotCall
  | NotifyValid
  | NotifyInvalid
  | NotifyEStop

datatype handlerError =
    HandlerInvalidJSON
  | HandlerUnknownType
  | HandlerScopeNotAllowed
  | HandlerSessionRevoked
  | HandlerValidation validationError
  | HandlerRobot string

record handler =
  hd_robot :: "robotCall \<Rightarrow> string option"
  hd_safety :: bool
  hd_scopes :: "(string \<Rightarrow> bool) option"
  hd_session :: "bool option"
  hd_staleThreshold :: ms

definition notifyValid :: "handler \<Rightarrow> handlerCall list" where
  "notifyValid h = (if hd_safety h then [NotifyValid] else [])"

definition notifyInvalid :: "handler \<Rightarrow> handlerCall list" where
  "notifyInvalid h = (if hd_safety h then [NotifyInvalid] else [])"

definition hasScope :: "handler \<Rightarrow> string \<Rightarrow> bool" where
  "hasScope h scope = (case hd_scopes h of None \<Rightarrow> True | Some f \<Rightarrow> f scope)"

definition isSessionActive :: "handler \<Rightarrow> bool" where
  "isSessionActive h = (case hd_session h of None \<Rightarrow> True | Some active \<Rightarrow> active)"

text \<open>The common end of the three control commands: the call of the robot, and the notification.\<close>

definition perform_command :: "handler \<Rightarrow> robotCall \<Rightarrow> handlerError option \<times> handlerCall list" where
  "perform_command h c =
     (case hd_robot h c of
        Some err \<Rightarrow> (Some (HandlerRobot err), [CallRobot c])
      | None \<Rightarrow> (None, CallRobot c # notifyValid h))"

definition HandleDrive :: "handler \<Rightarrow> ms \<Rightarrow> driveMessage \<Rightarrow> handlerError option \<times> handlerCall list" where
  "HandleDrive h now msg =
     (if \<not> hasScope h ScopeControl then (Some HandlerScopeNotAllowed, [])
      else
        (case ValidateDrive (hd_staleThreshold h) now msg of
           Some err \<Rightarrow> (Some (HandlerValidation err), notifyInvalid h)
         | None \<Rightarrow> perform_command h (Drive (dm_v msg) (dm_w msg))))"

definition HandleKVMKey :: "handler \<Rightarrow> ms \<Rightarrow> kvmKeyMessage \<Rightarrow> handlerError option \<times> handlerCall list" where
  "HandleKVMKey h now msg =
     (if \<not> hasScope h ScopeControl then (Some HandlerScopeNotAllowed, [])
      else
        (case ValidateKVMKey (hd_staleThreshold h) now msg of
           Some err \<Rightarrow> (Some (HandlerValidation err), notifyInvalid h)
         | None \<Rightarrow> perform_command h (SendKey (km_key msg) (km_action msg) (km_modifiers msg))))"

definition HandleKVMMouse :: "handler \<Rightarrow> ms \<Rightarrow> kvmMouseMessage \<Rightarrow> handlerError option \<times> handlerCall list" where
  "HandleKVMMouse h now msg =
     (if \<not> hasScope h ScopeControl then (Some HandlerScopeNotAllowed, [])
      else
        (case ValidateKVMMouse (hd_staleThreshold h) now msg of
           Some err \<Rightarrow> (Some (HandlerValidation err), notifyInvalid h)
         | None \<Rightarrow> perform_command h (SendMouse (mm_dx msg) (mm_dy msg) (mm_buttons msg) (mm_scroll msg))))"

definition HandleEStop :: "handler \<Rightarrow> eStopMessage \<Rightarrow> handlerError option \<times> handlerCall list" where
  "HandleEStop h msg =
     (case ValidateEStop msg of
        Some err \<Rightarrow> (Some (HandlerValidation err), [])
      | None \<Rightarrow>
          (map_option HandlerRobot (hd_robot h RobotEStop),
           (if hd_safety h then [NotifyEStop] else []) @ [CallRobot RobotEStop]))"

text \<open>The rest of a case of \<open>HandleMessage\<close>: the message is decoded and handled, and acknowledged.\<close>

definition handle_case ::
    "handler \<Rightarrow> string \<Rightarrow> 'm option \<Rightarrow> ('m \<Rightarrow> int) \<Rightarrow> ('m \<Rightarrow> handlerError option \<times> handlerCall list)
      \<Rightarrow> (handlerError + ackMessage option) \<times> handlerCall list" where
  "handle_case h type decoded time handle =
     (case decoded of
        None \<Rightarrow> (Inl HandlerInvalidJSON, notifyInvalid h)
      | Some msg \<Rightarrow>
          (case handle msg of
             (Some err, calls) \<Rightarrow> (Inl err, calls)
           | (None, calls) \<Rightarrow> (Inr (Some \<lparr>ak_refType = type, ak_refT = time msg\<rparr>), calls)))"

definition HandleMessage ::
    "handler \<Rightarrow> ms \<Rightarrow> string \<Rightarrow> (handlerError + ackMessage option) \<times> handlerCall list" where
  "HandleMessage h now data =
     (case go_unmarshal data of
        None \<Rightarrow> (Inl HandlerInvalidJSON, notifyInvalid h)
      | Some ms \<Rightarrow>
          (case decode_type ms of
             None \<Rightarrow> (Inl HandlerInvalidJSON, notifyInvalid h)
           | Some t \<Rightarrow>
               if \<not> isSessionActive h then (Inl HandlerSessionRevoked, [])
               else if t = ''drive'' then handle_case h t (decode_drive ms) dm_t (HandleDrive h now)
               else if t = ''kvm_key'' then handle_case h t (decode_key ms) km_t (HandleKVMKey h now)
               else if t = ''kvm_mouse'' then handle_case h t (decode_mouse ms) mm_t (HandleKVMMouse h now)
               else if t = ''e_stop'' then handle_case h t (decode_estop ms) em_t (HandleEStop h)
               else if t = ''ping'' then (Inr None, notifyValid h)
               else (Inl HandlerUnknownType, notifyInvalid h)))"

text \<open>The robot of the agent as it is (\<open>stub.go\<close>): every call succeeds.\<close>

definition stubRobot :: "robotCall \<Rightarrow> string option" where
  "stubRobot c = None"

text \<open>The agent's handler (\<open>initComponents\<close>), with the checks as they are at the time of a message.\<close>

definition agent_handler :: "(robotCall \<Rightarrow> string option) \<Rightarrow> bool \<Rightarrow> (string \<Rightarrow> bool) \<Rightarrow> handler" where
  "agent_handler api active scopes =
     \<lparr>hd_robot = api, hd_safety = True, hd_scopes = Some scopes, hd_session = Some active,
      hd_staleThreshold = 200\<rparr>"

section \<open>The rate limiter (ratelimit.go)\<close>

text \<open>A bucket in exact numbers; the code has binary floating-point ones. Times are in seconds.\<close>

record tokenBucket =
  bk_tokens :: rat
  bk_maxTokens :: rat
  bk_refillRate :: rat
  bk_lastRefill :: rat

definition newTokenBucket :: "int \<Rightarrow> int \<Rightarrow> rat \<Rightarrow> tokenBucket" where
  "newTokenBucket hz burstSize now =
     (let maxTokens = (if (of_int burstSize :: rat) < 1 then 1 else of_int burstSize)
      in \<lparr>bk_tokens = maxTokens, bk_maxTokens = maxTokens, bk_refillRate = of_int hz, bk_lastRefill = now\<rparr>)"

definition bucket_allow :: "rat \<Rightarrow> tokenBucket \<Rightarrow> bool \<times> tokenBucket" where
  "bucket_allow now b =
     (let elapsed = now - bk_lastRefill b;
          refilled = bk_tokens b + elapsed * bk_refillRate b;
          tokens = (if refilled > bk_maxTokens b then bk_maxTokens b else refilled);
          b' = b\<lparr>bk_lastRefill := now\<rparr>
      in if tokens \<ge> 1 then (True, b'\<lparr>bk_tokens := tokens - 1\<rparr>) else (False, b'\<lparr>bk_tokens := tokens\<rparr>))"

record rateLimiterConfig =
  rc_DriveHz :: int
  rc_KVMHz :: int
  rc_EStopHz :: int
  rc_BurstSize :: int

type_synonym rateLimiter = "(string, tokenBucket) jsmap"

definition NewRateLimiterWithConfig :: "rateLimiterConfig \<Rightarrow> rat \<Rightarrow> rateLimiter" where
  "NewRateLimiterWithConfig cfg now =
     (let burstSize = (if rc_BurstSize cfg < 1 then 1 else rc_BurstSize cfg)
      in [(''drive'', newTokenBucket (rc_DriveHz cfg) burstSize now),
          (''kvm_key'', newTokenBucket (rc_KVMHz cfg) burstSize now),
          (''kvm_mouse'', newTokenBucket (rc_KVMHz cfg) burstSize now),
          (''e_stop'', newTokenBucket (rc_EStopHz cfg) burstSize now)])"

definition NewRateLimiter :: "int \<Rightarrow> rat \<Rightarrow> rateLimiter" where
  "NewRateLimiter defaultHz now =
     NewRateLimiterWithConfig
       \<lparr>rc_DriveHz = defaultHz, rc_KVMHz = defaultHz, rc_EStopHz = defaultHz, rc_BurstSize = 1\<rparr> now"

definition Allow :: "rateLimiter \<Rightarrow> string \<Rightarrow> rat \<Rightarrow> bool \<times> rateLimiter" where
  "Allow rl msgType now =
     (if msgType = ''e_stop'' then (True, rl)
      else
        (case jm_get rl msgType of
           None \<Rightarrow> (True, rl)
         | Some bucket \<Rightarrow>
             (let (allowed, bucket') = bucket_allow now bucket in (allowed, jm_set rl msgType bucket'))))"

definition limiter_Reset :: "rat \<Rightarrow> rateLimiter \<Rightarrow> rateLimiter" where
  "limiter_Reset now rl =
     map (\<lambda>(t, b). (t, b\<lparr>bk_tokens := bk_maxTokens b, bk_lastRefill := now\<rparr>)) rl"

section \<open>Facts\<close>

lemmas handler_defs = HandleDrive_def HandleKVMKey_def HandleKVMMouse_def HandleEStop_def perform_command_def
  handle_case_def ValidateEStop_def notifyValid_def notifyInvalid_def

lemma validate_drive_ok: "ValidateDrive threshold now msg = None \<longleftrightarrow>
    dm_t msg \<noteq> 0 \<and> now - dm_t msg \<le> threshold \<and> -1 \<le> dm_v msg \<and> dm_v msg \<le> 1 \<and>
    -1 \<le> dm_w msg \<and> dm_w msg \<le> 1"
  by (auto simp: ValidateDrive_def checkStale_def)

lemma validate_key_ok: "ValidateKVMKey threshold now msg = None \<longleftrightarrow>
    km_t msg \<noteq> 0 \<and> now - km_t msg \<le> threshold \<and> km_key msg \<noteq> [] \<and> km_action msg \<in> {''down'', ''up''}"
  by (auto simp: ValidateKVMKey_def checkStale_def)

lemma validate_mouse_ok: "ValidateKVMMouse threshold now msg = None \<longleftrightarrow>
    mm_t msg \<noteq> 0 \<and> now - mm_t msg \<le> threshold"
  by (auto simp: ValidateKVMMouse_def checkStale_def)

text \<open>The command a message asks for, if it was sent at most the threshold ago with values in range.\<close>

definition legal_call :: "ms \<Rightarrow> ms \<Rightarrow> (string \<times> jsval) list \<Rightarrow> robotCall \<Rightarrow> bool" where
  "legal_call threshold now ms c \<longleftrightarrow>
     (case c of
        Drive v w \<Rightarrow> decode_type ms = Some ''drive'' \<and> -1 \<le> v \<and> v \<le> 1 \<and> -1 \<le> w \<and> w \<le> 1 \<and>
          (\<exists>t. decode_drive ms = Some \<lparr>dm_v = v, dm_w = w, dm_t = t\<rparr> \<and> t \<noteq> 0 \<and> now - t \<le> threshold)
      | SendKey key action modifiers \<Rightarrow>
          decode_type ms = Some ''kvm_key'' \<and> key \<noteq> [] \<and> action \<in> {''down'', ''up''} \<and>
          (\<exists>t. decode_key ms = Some \<lparr>km_key = key, km_action = action, km_modifiers = modifiers, km_t = t\<rparr> \<and>
             t \<noteq> 0 \<and> now - t \<le> threshold)
      | SendMouse dx dy buttons scroll \<Rightarrow>
          decode_type ms = Some ''kvm_mouse'' \<and>
          (\<exists>t. decode_mouse ms = Some \<lparr>mm_dx = dx, mm_dy = dy, mm_buttons = buttons, mm_scroll = scroll, mm_t = t\<rparr> \<and>
             t \<noteq> 0 \<and> now - t \<le> threshold)
      | RobotEStop \<Rightarrow> False)"

lemma handle_caseE:
  assumes "x \<in> set (snd (handle_case h t decoded time handle))"
  shows "x = NotifyInvalid \<or> (\<exists>msg. decoded = Some msg \<and> x \<in> set (snd (handle msg)))"
  using assms by (auto simp: handle_case_def notifyInvalid_def split: option.splits prod.splits if_splits)

lemma drive_call:
  assumes "CallRobot c \<in> set (snd (handle_case h t (decode_drive ms) dm_t (HandleDrive h now)))"
    and "decode_type ms = Some ''drive''"
  shows "hasScope h ScopeControl \<and> legal_call (hd_staleThreshold h) now ms c"
proof -
  from handle_caseE [OF assms(1)] obtain msg where msg: "decode_drive ms = Some msg"
    "CallRobot c \<in> set (snd (HandleDrive h now msg))" by blast
  then have "c = Drive (dm_v msg) (dm_w msg)" "ValidateDrive (hd_staleThreshold h) now msg = None"
    "hasScope h ScopeControl"
    by (auto simp: handler_defs split: if_splits option.splits)
  then show ?thesis using assms(2) msg(1)
    by (cases msg) (simp add: legal_call_def validate_drive_ok)
qed

lemma key_call:
  assumes "CallRobot c \<in> set (snd (handle_case h t (decode_key ms) km_t (HandleKVMKey h now)))"
    and "decode_type ms = Some ''kvm_key''"
  shows "hasScope h ScopeControl \<and> legal_call (hd_staleThreshold h) now ms c"
proof -
  from handle_caseE [OF assms(1)] obtain msg where msg: "decode_key ms = Some msg"
    "CallRobot c \<in> set (snd (HandleKVMKey h now msg))" by blast
  then have "c = SendKey (km_key msg) (km_action msg) (km_modifiers msg)"
    "ValidateKVMKey (hd_staleThreshold h) now msg = None" "hasScope h ScopeControl"
    by (auto simp: handler_defs split: if_splits option.splits)
  then show ?thesis using assms(2) msg(1)
    by (cases msg) (simp add: legal_call_def validate_key_ok)
qed

lemma mouse_call:
  assumes "CallRobot c \<in> set (snd (handle_case h t (decode_mouse ms) mm_t (HandleKVMMouse h now)))"
    and "decode_type ms = Some ''kvm_mouse''"
  shows "hasScope h ScopeControl \<and> legal_call (hd_staleThreshold h) now ms c"
proof -
  from handle_caseE [OF assms(1)] obtain msg where msg: "decode_mouse ms = Some msg"
    "CallRobot c \<in> set (snd (HandleKVMMouse h now msg))" by blast
  then have "c = SendMouse (mm_dx msg) (mm_dy msg) (mm_buttons msg) (mm_scroll msg)"
    "ValidateKVMMouse (hd_staleThreshold h) now msg = None" "hasScope h ScopeControl"
    by (auto simp: handler_defs split: if_splits option.splits)
  then show ?thesis using assms(2) msg(1)
    by (cases msg) (simp add: legal_call_def validate_mouse_ok)
qed

lemma estop_call:
  "CallRobot c \<in> set (snd (handle_case h t (decode_estop ms) em_t (HandleEStop h))) \<Longrightarrow> c = RobotEStop"
  by (auto simp: handler_defs split: option.splits if_splits)

lemmas command_calls = drive_call key_call mouse_call

section \<open>Properties\<close>

text \<open>
  The robot is only ever called while the session is active; and except for the emergency stop only
  with the scope \<open>teleop:control\<close>, with exactly the values of the message received, which is of the
  right type, at most the threshold old, and in range.
\<close>

theorem handler_guards_robot:
  assumes "CallRobot c \<in> set (snd (HandleMessage h now data))"
  shows "isSessionActive h \<and> (\<exists>ms. go_unmarshal data = Some ms \<and>
    (if c = RobotEStop then decode_type ms = Some ''e_stop''
     else hasScope h ScopeControl \<and> legal_call (hd_staleThreshold h) now ms c))"
proof -
  obtain ms t where ms: "go_unmarshal data = Some ms" and t: "decode_type ms = Some t"
    and active: "isSessionActive h"
    using assms by (auto simp: HandleMessage_def notifyInvalid_def split: option.splits if_splits)
  have "if c = RobotEStop then t = ''e_stop''
     else hasScope h ScopeControl \<and> legal_call (hd_staleThreshold h) now ms c"
  proof (cases "t = ''e_stop''")
    case True
    then have "c = RobotEStop"
      using assms ms t active by (auto simp: HandleMessage_def dest: estop_call)
    with True show ?thesis by simp
  next
    case False
    have "hasScope h ScopeControl \<and> legal_call (hd_staleThreshold h) now ms c"
    proof -
      consider "t = ''drive''" | "t = ''kvm_key''" | "t = ''kvm_mouse''"
        using assms ms t active False
        by (auto simp: HandleMessage_def notifyInvalid_def notifyValid_def split: if_splits)
      then show ?thesis
        by cases (use assms ms t active in \<open>simp_all add: HandleMessage_def command_calls\<close>)
    qed
    then show ?thesis by (auto simp: legal_call_def)
  qed
  with ms t active show ?thesis by auto
qed

text \<open>The messages as \<open>json.Marshal\<close> prints them, for whole velocities.\<close>

definition drive_json :: "int \<Rightarrow> int \<Rightarrow> int \<Rightarrow> jsval" where
  "drive_json v w t =
     JObj [(''type'', JStr ''drive''), (''v'', JNum (of_int v)), (''w'', JNum (of_int w)), (''t'', JNum (of_int t))]"

definition key_json :: "kvmKeyMessage \<Rightarrow> jsval" where
  "key_json m =
     JObj ([(''type'', JStr ''kvm_key''), (''key'', JStr (km_key m)), (''action'', JStr (km_action m))] @
       (if km_modifiers m = [] then [] else [(''modifiers'', JArr (map JStr (km_modifiers m)))]) @
       [(''t'', JNum (of_int (km_t m)))])"

definition mouse_json :: "kvmMouseMessage \<Rightarrow> jsval" where
  "mouse_json m =
     JObj ([(''type'', JStr ''kvm_mouse''), (''dx'', JNum (of_int (mm_dx m))), (''dy'', JNum (of_int (mm_dy m))),
        (''buttons'', JNum (of_int (mm_buttons m)))] @
       (if mm_scroll m = 0 then [] else [(''scroll'', JNum (of_int (mm_scroll m)))]) @
       [(''t'', JNum (of_int (mm_t m)))])"

definition estop_json :: "int \<Rightarrow> jsval" where
  "estop_json t = JObj [(''type'', JStr ''e_stop''), (''t'', JNum (of_int t))]"

lemma dec_elements [simp]: "dec_strings (JArr (map JStr ss)) = Some ss"
  by (induction ss) (auto split: if_splits)

lemma map_dec_element [simp]: "map (the \<circ> dec_element \<circ> JStr) ss = ss"
  by (induction ss) simp_all

lemma plain_messages:
  "plain (drive_json v w t)" "plain (key_json k)" "plain (mouse_json m)" "plain (estop_json t)"
  by (simp_all add: drive_json_def key_json_def mouse_json_def estop_json_def list_all_iff)

text \<open>
  The messages of the protocol survive printing and parsing: what \<open>json.Unmarshal\<close> reads from a printed
  message is that message, if its numbers fit 64 bits.
\<close>

theorem control_messages_roundtrip:
  assumes "int64_range t" and "int64_range (km_t k)"
    and "list_all int64_range [mm_dx m, mm_dy m, mm_buttons m, mm_scroll m, mm_t m]"
  shows "Option.bind (go_unmarshal (json_stringify (drive_json v w t))) decode_drive =
      Some \<lparr>dm_v = of_int v, dm_w = of_int w, dm_t = t\<rparr> \<and>
    Option.bind (go_unmarshal (json_stringify (key_json k))) decode_key = Some k \<and>
    Option.bind (go_unmarshal (json_stringify (mouse_json m))) decode_mouse = Some m \<and>
    Option.bind (go_unmarshal (json_stringify (estop_json t))) decode_estop = Some \<lparr>em_t = t\<rparr>"
  unfolding go_unmarshal_plain [OF plain_messages(1)] go_unmarshal_plain [OF plain_messages(2)]
    go_unmarshal_plain [OF plain_messages(3)] go_unmarshal_plain [OF plain_messages(4)]
  using assms
  by (simp add: drive_json_def key_json_def mouse_json_def estop_json_def go_defs
      decode_drive_def decode_key_def decode_mouse_def decode_estop_def ascii_lower_def)

theorem control_messages_roundtrip_witness:
  "Option.bind (go_unmarshal (json_stringify (estop_json 5))) decode_estop = Some \<lparr>em_t = 5\<rparr>"
  using control_messages_roundtrip [of 5
      "\<lparr>km_key = ''a'', km_action = ''up'', km_modifiers = [''Shift''], km_t = 5\<rparr>"
      "\<lparr>mm_dx = 1, mm_dy = 2, mm_buttons = 0, mm_scroll = 0, mm_t = 5\<rparr>" 1 0]
  by (simp add: int64_range_def)

theorem handler_guards_robot_witness:
  "isSessionActive (agent_handler stubRobot True (\<lambda>s. True))"
proof -
  have "go_unmarshal (json_stringify (drive_json 1 0 950)) =
      Some [(''type'', JStr ''drive''), (''v'', JNum 1), (''w'', JNum 0), (''t'', JNum 950)]"
    unfolding go_unmarshal_plain [OF plain_messages(1)] by (simp add: drive_json_def go_object_def)
  moreover have "rat_is_int 950" "rat_floor 950 = 950"
    using rat_is_int_of_int [of 950] rat_floor_int [of 950] by simp_all
  ultimately have "CallRobot (Drive 1 0) \<in> set (snd (HandleMessage (agent_handler stubRobot True (\<lambda>s. True)) 1000
      (json_stringify (drive_json 1 0 950))))"
    by (simp add: HandleMessage_def decode_type_def go_defs ascii_lower_def isSessionActive_def agent_handler_def stubRobot_def
        handler_defs decode_drive_def int64_range_def hasScope_def ValidateDrive_def checkStale_def)
  then show ?thesis using handler_guards_robot by blast
qed

text \<open>
  What each refusal costs: a message that is not understood or fails validation counts as an invalid
  command, one refused for its scope or for the session does not; no refused message counts as a
  sign of life, and only a failing robot is called.
\<close>

theorem refusals_counted:
  assumes "HandleMessage h now data = (Inl err, calls)"
  shows "NotifyValid \<notin> set calls \<and>
    (NotifyInvalid \<in> set calls \<longleftrightarrow> hd_safety h \<and>
      (err \<in> {HandlerInvalidJSON, HandlerUnknownType} \<or> (\<exists>e. err = HandlerValidation e))) \<and>
    ((\<exists>c. CallRobot c \<in> set calls) \<longleftrightarrow> (\<exists>e. err = HandlerRobot e))"
  using assms
  by (auto simp: HandleMessage_def handler_defs split: option.splits if_splits prod.splits)

theorem refusals_counted_witness:
  "snd (HandleMessage (agent_handler stubRobot False (\<lambda>s. True)) 0 ''{}'') = []"
proof -
  have "HandleMessage (agent_handler stubRobot False (\<lambda>s. True)) 0 ''{}'' = (Inl HandlerSessionRevoked, [])"
    by code_simp
  from refusals_counted [OF this] show ?thesis
    using \<open>HandleMessage _ 0 _ = _\<close> by simp
qed

section \<open>The rate limiter\<close>

text \<open>How many of the requests at given times a bucket lets pass, and how many messages of a type.\<close>

fun admitted :: "rat list \<Rightarrow> tokenBucket \<Rightarrow> nat" where
  "admitted [] b = 0"
| "admitted (now # ts) b =
     (let (ok, b') = bucket_allow now b in (if ok then 1 else 0) + admitted ts b')"

fun passed :: "string \<Rightarrow> (string \<times> rat) list \<Rightarrow> rateLimiter \<Rightarrow> nat" where
  "passed t [] rl = 0"
| "passed t ((m, now) # ms) rl =
     (let (ok, rl') = Allow rl m now in (if ok \<and> m = t then 1 else 0) + passed t ms rl')"

lemma passed_bucket:
  assumes "t \<noteq> ''e_stop''" and "jm_get rl t = Some b"
  shows "passed t ms rl = admitted (map snd (filter (\<lambda>(m, now). m = t) ms)) b"
  using assms(2)
proof (induction ms arbitrary: rl b)
  case Nil
  then show ?case by simp
next
  case (Cons x ms)
  obtain m now where x: "x = (m, now)" by (cases x)
  show ?case
  proof (cases "m = t")
    case True
    with Cons.prems assms(1) Cons.IH [of "jm_set rl t (snd (bucket_allow now b))" "snd (bucket_allow now b)"]
    show ?thesis by (simp add: x Allow_def case_prod_unfold Let_def jm.get_put)
  next
    case False
    then have "jm_get (snd (Allow rl m now)) t = Some b"
      using Cons.prems by (auto simp: Allow_def case_prod_unfold Let_def jm.get_put split: option.splits)
    from Cons.IH [OF this] False show ?thesis by (simp add: x case_prod_unfold Let_def)
  qed
qed

definition bucket_ok :: "tokenBucket \<Rightarrow> bool" where
  "bucket_ok b \<longleftrightarrow> 0 \<le> bk_tokens b \<and> bk_tokens b \<le> bk_maxTokens b \<and> 1 \<le> bk_maxTokens b \<and> 0 \<le> bk_refillRate b"

lemma bucket_step:
  assumes "bucket_ok b" and "bk_lastRefill b \<le> now"
  shows "bucket_ok (snd (bucket_allow now b))"
    and "bk_lastRefill (snd (bucket_allow now b)) = now"
    and "bk_maxTokens (snd (bucket_allow now b)) = bk_maxTokens b"
    and "bk_refillRate (snd (bucket_allow now b)) = bk_refillRate b"
    and "(if fst (bucket_allow now b) then 1 else 0) + bk_tokens (snd (bucket_allow now b)) \<le>
      bk_tokens b + bk_refillRate b * (now - bk_lastRefill b)"
    and "(if fst (bucket_allow now b) then 1 else 0) + bk_tokens (snd (bucket_allow now b)) \<le> bk_maxTokens b"
proof -
  have "0 \<le> (now - bk_lastRefill b) * bk_refillRate b" using assms by (simp add: bucket_ok_def)
  then show "bucket_ok (snd (bucket_allow now b))"
    and "(if fst (bucket_allow now b) then 1 else 0) + bk_tokens (snd (bucket_allow now b)) \<le>
      bk_tokens b + bk_refillRate b * (now - bk_lastRefill b)"
    using assms(1) by (auto simp: bucket_allow_def bucket_ok_def Let_def mult.commute)
qed (simp_all add: bucket_allow_def Let_def)

lemma admitted_bound:
  assumes "bucket_ok b" and "sorted (bk_lastRefill b # ts)"
  shows "of_nat (admitted ts b) \<le> bk_tokens b + bk_refillRate b * (last (bk_lastRefill b # ts) - bk_lastRefill b)"
  using assms
proof (induction ts arbitrary: b)
  case Nil
  then show ?case by (simp add: bucket_ok_def)
next
  case (Cons now ts)
  let ?b = "snd (bucket_allow now b)"
  from Cons.prems have le: "bk_lastRefill b \<le> now" by simp
  note step = bucket_step [OF Cons.prems(1) le]
  have "of_nat (admitted ts ?b) \<le> bk_tokens ?b + bk_refillRate b * (last (now # ts) - now)"
    using Cons.IH [OF step(1)] Cons.prems(2) by (simp add: step)
  moreover have "bk_refillRate b * (last (now # ts) - bk_lastRefill b) =
      bk_refillRate b * (last (now # ts) - now) + bk_refillRate b * (now - bk_lastRefill b)"
    by (simp add: algebra_simps)
  ultimately show ?case using step(5) by (simp add: case_prod_unfold Let_def split: if_splits)
qed

lemma admitted_window:
  assumes "bucket_ok b" and "sorted (bk_lastRefill b # ts)" and "ts \<noteq> []"
  shows "of_nat (admitted ts b) \<le> bk_maxTokens b + bk_refillRate b * (last ts - hd ts)"
proof -
  obtain now ts' where ts: "ts = now # ts'" using assms(3) by (cases ts) auto
  with assms(2) have le: "bk_lastRefill b \<le> now" by simp
  note step = bucket_step [OF assms(1) le]
  have "of_nat (admitted ts' (snd (bucket_allow now b))) \<le>
      bk_tokens (snd (bucket_allow now b)) + bk_refillRate b * (last ts - hd ts)"
    using admitted_bound [OF step(1), of ts'] assms(2) by (simp add: step ts)
  then show ?thesis using step(6) by (simp add: ts case_prod_unfold Let_def split: if_splits)
qed

text \<open>
  The limiter lets at most the burst size and the rate times the length of the period of drive commands
  pass, whatever comes between them; an emergency stop always passes.
\<close>

theorem drive_rate_limited:
  assumes "rl = NewRateLimiterWithConfig cfg start" and "0 \<le> rc_DriveHz cfg"
    and "sorted (start # map snd ms)" and "ts = map snd (filter (\<lambda>(m, now). m = ''drive'') ms)" and "ts \<noteq> []"
  shows "of_nat (passed ''drive'' ms rl) \<le> of_int (max 1 (rc_BurstSize cfg)) +
      of_int (rc_DriveHz cfg) * (last ts - hd ts) \<and>
    fst (Allow rl ''e_stop'' now)"
proof -
  let ?b = "newTokenBucket (rc_DriveHz cfg) (max 1 (rc_BurstSize cfg)) start"
  have burst: "(if rc_BurstSize cfg < 1 then 1 else rc_BurstSize cfg) = max 1 (rc_BurstSize cfg)" by auto
  have get: "jm_get rl ''drive'' = Some ?b"
    unfolding assms(1) NewRateLimiterWithConfig_def burst Let_def by simp
  have ok: "bucket_ok ?b" "bk_lastRefill ?b = start" "bk_maxTokens ?b = of_int (max 1 (rc_BurstSize cfg))"
    "bk_refillRate ?b = of_int (rc_DriveHz cfg)"
    using assms(2) by (auto simp: newTokenBucket_def bucket_ok_def Let_def max_def)
  have "sorted (start # ts)"
    using assms(3) unfolding assms(4) by (auto simp: sorted_filter)
  from admitted_window [of ?b ts] this ok assms(5)
  have "of_nat (admitted ts ?b) \<le> of_int (max 1 (rc_BurstSize cfg)) + of_int (rc_DriveHz cfg) * (last ts - hd ts)"
    by simp
  then show ?thesis using passed_bucket [OF _ get] by (simp add: assms(4) Allow_def)
qed

theorem drive_rate_limited_witness:
  "passed ''drive'' [(''drive'', 0), (''drive'', 1), (''drive'', 2)] (NewRateLimiter 1 0) \<le> 3"
proof -
  let ?ms = "[(''drive'', 0), (''drive'', 1), (''drive'', 2)]" and ?ts = "[0, 1, 2] :: rat list"
  let ?cfg = "\<lparr>rc_DriveHz = 1, rc_KVMHz = 1, rc_EStopHz = 1, rc_BurstSize = 1\<rparr>"
  have "of_nat (passed ''drive'' ?ms (NewRateLimiter 1 0)) \<le>
      of_int (max 1 (rc_BurstSize ?cfg)) + of_int (rc_DriveHz ?cfg) * (last ?ts - hd ?ts)"
    by (rule drive_rate_limited [THEN conjunct1, OF NewRateLimiter_def [of 1 0]]) simp_all
  then have "rat_of_nat (passed ''drive'' ?ms (NewRateLimiter 1 0)) \<le> of_nat 3"
    by (simp del: passed.simps)
  then show ?thesis by (simp only: of_nat_le_iff)
qed

end
