(* ===== verification/RobotAgent.thy ===== *)
theory RobotAgent
  imports RobotSafety RobotToken RobotControl SignalingTypes KeyboardInput
begin

text \<open>
  The robot agent as a whole (\<open>robot-agent/cmd/agent\<close> and \<open>internal/session/signaling.go\<close>, in Go): how
  the signaling messages, the connection, the data channel, the safety timer and the shutdown act on the
  session manager, the safety monitor and the robot.

  The code runs these in several goroutines. An input starts one (\<open>agent_step\<close>); the calls it then makes one
  after the other, each under a lock of its own, are steps of their own (\<open>Resume\<close>), so that anything may
  come between a check and what was checked, or between two calls of one handler. The goroutines are the
  list \<open>ag_pending\<close>; one that has finished keeps its place. A call of a method of the monitor is one step
  with the safe stop it may cause, since the monitor's lock is held all along. A data message is
  checked in one step: of the two checks, for an active session and for the scope, the second holds only
  if the first still does. An offer is one step too: its pieces change nothing that another goroutine
  reads in between. The model allows more schedules than the code, whose signaling handlers run one at a
  time. What a step does to the outside is appended to \<open>ag_log\<close>. The WebRTC library is a parameter of the
  step (whether a connection is made, what is answered); metrics, logging and pings are left out.
\<close>

section \<open>State\<close>

datatype agentEvent =
    RobotDid robotCall
  | SentState string string
  | SentAck ackMessage
  | SentAnswer string string
  | Published string string string

text \<open>A call that a goroutine has yet to make.\<close>

datatype agentCall =
    HandlerCall handlerCall
  | ResetSafety
  | CheckLoss
  | CloseTransport
  | TerminateSession
  | StopRevoked
  | PublishRevoked string string

record 'key agent =
  ag_manager :: "'key sessionManager"
  ag_monitor :: safetyMonitor
  ag_peer :: bool
  ag_channel :: bool
  ag_callback :: "sessionInfo option"
  ag_pending :: "(agentCall list \<times> ackMessage option) list"
  ag_log :: "agentEvent list"

type_synonym robotAPI = "robotCall \<Rightarrow> string option"

definition newAgent ::
    "string \<Rightarrow> 'key tokenValidator option \<Rightarrow> ms \<Rightarrow> int \<Rightarrow> ms \<Rightarrow> (trigger \<Rightarrow> transitionResult) \<Rightarrow> ms \<Rightarrow> 'key agent"
    where
  "newAgent robotID validator controlLossTimeout threshold timeWindow onStop now =
     \<lparr>ag_manager = NewManager robotID validator,
      ag_monitor = NewMonitor controlLossTimeout threshold timeWindow (Some onStop) now,
      ag_peer = False, ag_channel = False, ag_callback = None, ag_pending = [], ag_log = []\<rparr>"

definition ag_emit :: "agentEvent \<Rightarrow> 'key agent \<Rightarrow> 'key agent" where
  "ag_emit e ag = ag\<lparr>ag_log := ag_log ag @ [e]\<rparr>"

text \<open>A goroutine that makes the calls and then sends the acknowledgement, if there is one.\<close>

definition ag_go :: "agentCall list \<Rightarrow> ackMessage option \<Rightarrow> 'key agent \<Rightarrow> 'key agent" where
  "ag_go calls ack ag = ag\<lparr>ag_pending := ag_pending ag @ [(calls, ack)]\<rparr>"

section \<open>The safe stop (handlers.go, handlers\_helpers.go)\<close>

definition currentSessionID :: "'key agent \<Rightarrow> string" where
  "currentSessionID ag = (case mg_info (ag_manager ag) of None \<Rightarrow> [] | Some info \<Rightarrow> si_sessionID info)"

definition publishAuditEvent :: "trigger \<Rightarrow> 'key agent \<Rightarrow> 'key agent" where
  "publishAuditEvent t ag =
     (if t \<noteq> TriggerInvalidCmds then ag
      else ag_emit (Published ''INVALID_COMMAND_THRESHOLD'' (currentSessionID ag) ''invalid_commands'') ag)"

definition sendStateNotification :: "string option \<Rightarrow> 'key agent \<Rightarrow> 'key agent" where
  "sendStateNotification haltErr ag =
     (if \<not> ag_channel ag then ag
      else ag_emit (case haltErr of None \<Rightarrow> SentState ''safe_stop'' ''safe_stop''
                    | Some err \<Rightarrow> SentState ''safe_stop_failed'' ''safe_stop_failed'') ag)"

definition onSafeStop :: "robotAPI \<Rightarrow> trigger \<Rightarrow> 'key agent \<Rightarrow> 'key agent" where
  "onSafeStop api t ag =
     sendStateNotification (api RobotEStop) (publishAuditEvent t (ag_emit (RobotDid RobotEStop) ag))"

text \<open>A call of a method of the monitor, with the callbacks it makes.\<close>

definition call_monitor ::
    "robotAPI \<Rightarrow> (safetyMonitor \<Rightarrow> safetyMonitor \<times> trigger list) \<Rightarrow> 'key agent \<Rightarrow> 'key agent" where
  "call_monitor api f ag =
     (let (m, ts) = f (ag_monitor ag) in foldl (\<lambda>ag t. onSafeStop api t ag) (ag\<lparr>ag_monitor := m\<rparr>) ts)"

section \<open>Signaling and the connection (handlers.go)\<close>

definition OnOffer ::
    "'key jwtParse \<Rightarrow> ms \<Rightarrow> string \<Rightarrow> string \<Rightarrow> bool \<Rightarrow> string option \<Rightarrow> 'key agent \<Rightarrow> 'key agent" where
  "OnOffer parse now sessionID token created answer ag =
     (case ValidateToken parse (ag_manager ag) sessionID token now of
        (Inl err, m) \<Rightarrow> ag\<lparr>ag_manager := m\<rparr>
      | (Inr info, m) \<Rightarrow>
          (let ag1 = ag\<lparr>ag_manager := m\<rparr> in
           if \<not> created then ag1
           else
             (let ag2 = ag1\<lparr>ag_peer := True, ag_callback := Some info\<rparr> in
              case answer of None \<Rightarrow> ag2 | Some sdp \<Rightarrow> ag_emit (SentAnswer sessionID sdp) ag2)))"

definition peerConnected :: "'key agent \<Rightarrow> 'key agent" where
  "peerConnected ag =
     (case ag_callback ag of
        None \<Rightarrow> ag
      | Some info \<Rightarrow>
          (case manager_Activate (ag_manager ag) info of
             Inl err \<Rightarrow> ag
           | Inr m \<Rightarrow> ag_go [ResetSafety] None (ag\<lparr>ag_manager := m\<rparr>)))"

definition peerEnded :: "'key agent \<Rightarrow> 'key agent" where
  "peerEnded ag =
     (case ag_callback ag of
        None \<Rightarrow> ag
      | Some info \<Rightarrow> ag\<lparr>ag_manager := manager_Terminate (ag_manager ag)\<rparr>)"

definition transport_Close :: "'key agent \<Rightarrow> 'key agent" where
  "transport_Close ag = (if ag_peer ag then ag\<lparr>ag_peer := False, ag_channel := False\<rparr> else ag)"

definition OnBye :: "robotAPI \<Rightarrow> 'key agent \<Rightarrow> 'key agent" where
  "OnBye api ag = call_monitor api monitor_OnRevoked ag"

definition agent_OnRevoked :: "string \<Rightarrow> string \<Rightarrow> 'key agent \<Rightarrow> 'key agent" where
  "agent_OnRevoked sessionID reason ag =
     ag_go [CloseTransport, TerminateSession, StopRevoked, PublishRevoked sessionID reason] None ag"

definition agent_shutdown :: "'key agent \<Rightarrow> 'key agent" where
  "agent_shutdown ag = ag_go [StopRevoked, CloseTransport] None ag"

definition safetyTick :: "'key agent \<Rightarrow> 'key agent" where
  "safetyTick ag = (if mg_state (ag_manager ag) = SessActive then ag_go [CheckLoss] None ag else ag)"

section \<open>Data messages\<close>

definition current_handler :: "robotAPI \<Rightarrow> 'key agent \<Rightarrow> handler" where
  "current_handler api ag =
     agent_handler api (mg_state (ag_manager ag) = SessActive) (HasScope (ag_manager ag))"

definition onDataMessage :: "robotAPI \<Rightarrow> ms \<Rightarrow> string \<Rightarrow> 'key agent \<Rightarrow> 'key agent" where
  "onDataMessage api now data ag =
     (if Option.bind (go_unmarshal data) decode_type = Some ''pong'' then ag
      else
        (let (result, calls) = HandleMessage (current_handler api ag) now data
         in ag_go (map HandlerCall calls) (case result of Inl err \<Rightarrow> None | Inr ack \<Rightarrow> ack) ag))"

fun handler_call :: "robotAPI \<Rightarrow> ms \<Rightarrow> handlerCall \<Rightarrow> 'key agent \<Rightarrow> 'key agent" where
  "handler_call api now (CallRobot c) ag = ag_emit (RobotDid c) ag"
| "handler_call api now NotifyValid ag = call_monitor api (\<lambda>m. (OnValidControl now m, [])) ag"
| "handler_call api now NotifyInvalid ag = call_monitor api (OnInvalidCommand now) ag"
| "handler_call api now NotifyEStop ag = call_monitor api monitor_OnEStop ag"

fun agent_call :: "robotAPI \<Rightarrow> ms \<Rightarrow> agentCall \<Rightarrow> 'key agent \<Rightarrow> 'key agent" where
  "agent_call api now (HandlerCall c) ag = handler_call api now c ag"
| "agent_call api now ResetSafety ag = ag\<lparr>ag_monitor := monitor_Reset now (ag_monitor ag)\<rparr>"
| "agent_call api now CheckLoss ag = call_monitor api (CheckControlLoss now) ag"
| "agent_call api now CloseTransport ag = transport_Close ag"
| "agent_call api now TerminateSession ag = ag\<lparr>ag_manager := manager_Terminate (ag_manager ag)\<rparr>"
| "agent_call api now StopRevoked ag = call_monitor api monitor_OnRevoked ag"
| "agent_call api now (PublishRevoked sessionID reason) ag =
     ag_emit (Published ''SESSION_REVOKED'' sessionID reason) ag"

text \<open>The next effect of the goroutine at a position: a call, or the acknowledgement at its end.\<close>

definition resume :: "robotAPI \<Rightarrow> nat \<Rightarrow> ms \<Rightarrow> 'key agent \<Rightarrow> 'key agent" where
  "resume api i now ag =
     (if i \<ge> length (ag_pending ag) then ag
      else
        (case ag_pending ag ! i of
           (c # cs, ack) \<Rightarrow>
             agent_call api now c (ag\<lparr>ag_pending := (ag_pending ag)[i := (cs, ack)]\<rparr>)
         | ([], ack) \<Rightarrow>
             (let ag1 = ag\<lparr>ag_pending := (ag_pending ag)[i := ([], None)]\<rparr> in
              case ack of None \<Rightarrow> ag1 | Some a \<Rightarrow> if ag_channel ag then ag_emit (SentAck a) ag1 else ag1)))"

section \<open>Steps\<close>

datatype agentInput =
    Offer ms string string bool "string option"
  | Bye string
  | Revocation string string
  | PeerConnected
  | PeerEnded
  | ChannelOpened
  | DataMessage ms string
  | Resume nat ms
  | Tick
  | Shutdown

fun agent_step :: "'key jwtParse \<Rightarrow> robotAPI \<Rightarrow> 'key agent \<Rightarrow> agentInput \<Rightarrow> 'key agent" where
  "agent_step parse api ag (Offer now sid token created answer) = OnOffer parse now sid token created answer ag"
| "agent_step parse api ag (Bye sid) = OnBye api ag"
| "agent_step parse api ag (Revocation sid reason) = agent_OnRevoked sid reason ag"
| "agent_step parse api ag PeerConnected = peerConnected ag"
| "agent_step parse api ag PeerEnded = peerEnded ag"
| "agent_step parse api ag ChannelOpened = ag\<lparr>ag_channel := True\<rparr>"
| "agent_step parse api ag (DataMessage now data) = onDataMessage api now data ag"
| "agent_step parse api ag (Resume i now) = resume api i now ag"
| "agent_step parse api ag Tick = safetyTick ag"
| "agent_step parse api ag Shutdown = agent_shutdown ag"

text \<open>Signaling messages (\<open>signaling.go\<close>): what is read, and what the handler makes of it.\<close>

record signalMessage =
  sm_type :: string
  sm_sessionID :: string
  sm_token :: string
  sm_error :: string
  sm_reason :: string

definition decode_signal :: "string \<Rightarrow> signalMessage option" where
  "decode_signal data =
     (case go_unmarshal data of
        None \<Rightarrow> None
      | Some ms \<Rightarrow>
          (case (go_field dec_string [] ms ''type'', go_field dec_string [] ms ''robot_id'',
                 go_field dec_string [] ms ''session_id'', go_field dec_string [] ms ''token'',
                 go_field dec_string [] ms ''error'', go_field dec_string [] ms ''reason'') of
             (Some type, Some robotID, Some sid, Some token, Some err, Some reason) \<Rightarrow>
               Some \<lparr>sm_type = type, sm_sessionID = sid, sm_token = token, sm_error = err, sm_reason = reason\<rparr>
           | _ \<Rightarrow> None))"

definition signal_input :: "ms \<Rightarrow> bool \<Rightarrow> string option \<Rightarrow> string \<Rightarrow> agentInput option" where
  "signal_input now created answer data =
     (case decode_signal data of
        None \<Rightarrow> None
      | Some msg \<Rightarrow>
          if sm_type msg = ''offer'' then Some (Offer now (sm_sessionID msg) (sm_token msg) created answer)
          else if sm_type msg = ''bye'' then Some (Bye (sm_sessionID msg))
          else if sm_type msg = ''revoked'' then Some (Revocation (sm_sessionID msg) (sm_reason msg))
          else None)"

definition robot_join :: "string \<Rightarrow> jsval" where
  "robot_join robotID =
     JObj ([(''type'', JStr ''join'')] @ (if robotID = [] then [] else [(''robot_id'', JStr robotID)]))"

section \<open>Facts\<close>

text \<open>What a safe stop does, in a session and with or without a data channel.\<close>

definition stop_events :: "robotAPI \<Rightarrow> string \<Rightarrow> bool \<Rightarrow> trigger \<Rightarrow> agentEvent list" where
  "stop_events api sid channel t =
     [RobotDid RobotEStop] @
     (if t = TriggerInvalidCmds then [Published ''INVALID_COMMAND_THRESHOLD'' sid ''invalid_commands''] else []) @
     (if channel then [case api RobotEStop of None \<Rightarrow> SentState ''safe_stop'' ''safe_stop''
        | Some err \<Rightarrow> SentState ''safe_stop_failed'' ''safe_stop_failed''] else [])"

lemma onSafeStop_eq: "onSafeStop api t ag =
    ag\<lparr>ag_log := ag_log ag @ stop_events api (currentSessionID ag) (ag_channel ag) t\<rparr>"
  by (simp add: onSafeStop_def sendStateNotification_def publishAuditEvent_def ag_emit_def stop_events_def
      currentSessionID_def)

lemma currentSessionID_log [simp]: "currentSessionID (ag\<lparr>ag_log := l\<rparr>) = currentSessionID ag"
  "currentSessionID (ag\<lparr>ag_monitor := m\<rparr>) = currentSessionID ag"
  "currentSessionID (ag\<lparr>ag_pending := p\<rparr>) = currentSessionID ag"
  by (simp_all add: currentSessionID_def)

lemma safe_stops: "foldl (\<lambda>ag t. onSafeStop api t ag) ag ts =
    ag\<lparr>ag_log := ag_log ag @ concat (map (stop_events api (currentSessionID ag) (ag_channel ag)) ts)\<rparr>"
  by (induction ts arbitrary: ag) (simp_all add: onSafeStop_eq)

lemma call_monitor_eq: "call_monitor api f ag =
    ag\<lparr>ag_monitor := fst (f (ag_monitor ag)),
       ag_log := ag_log ag @ concat (map (stop_events api (currentSessionID ag) (ag_channel ag)) (snd (f (ag_monitor ag))))\<rparr>"
  by (simp add: call_monitor_def case_prod_unfold Let_def safe_stops)

lemma stop_events_robot: "RobotDid c \<in> set (stop_events api sid channel t) \<Longrightarrow> c = RobotEStop"
  by (auto simp: stop_events_def split: if_splits option.splits)

lemma stops_only: "RobotDid c \<in> set (concat (map (stop_events api sid channel) ts)) \<Longrightarrow> c = RobotEStop"
  by (auto dest: stop_events_robot)

lemma transport_Close_frame [simp]:
  "ag_manager (transport_Close ag) = ag_manager ag" "ag_monitor (transport_Close ag) = ag_monitor ag"
  "ag_callback (transport_Close ag) = ag_callback ag" "ag_pending (transport_Close ag) = ag_pending ag"
  "ag_log (transport_Close ag) = ag_log ag"
  by (simp_all add: transport_Close_def)

lemma ag_go_frame [simp]:
  "ag_manager (ag_go calls ack ag) = ag_manager ag" "ag_monitor (ag_go calls ack ag) = ag_monitor ag"
  "ag_callback (ag_go calls ack ag) = ag_callback ag" "ag_log (ag_go calls ack ag) = ag_log ag"
  "ag_pending (ag_go calls ack ag) = ag_pending ag @ [(calls, ack)]"
  by (simp_all add: ag_go_def)

lemma latched_ops:
  assumes "latched m"
  shows "latched (OnValidControl now m)" "latched (fst (OnInvalidCommand now m))" "snd (OnInvalidCommand now m) = []"
    "latched (fst (monitor_OnEStop m))" "snd (monitor_OnEStop m) = []"
    "latched (fst (monitor_OnRevoked m))" "snd (monitor_OnRevoked m) = []"
    "latched (fst (CheckControlLoss now m))" "snd (CheckControlLoss now m) = []"
  using latched_op [OF assms, of "ValidControl now"] latched_op [OF assms, of "InvalidCommand now"]
    latched_op [OF assms, of EmergencyStop] latched_op [OF assms, of SessionRevoked]
    latched_op [OF assms, of "LossCheck now"]
  by simp_all

text \<open>The calls still to be made, and the commands for the robot among them.\<close>

definition calls_of :: "(agentCall list \<times> ackMessage option) list \<Rightarrow> agentCall set" where
  "calls_of p = (\<Union>(calls, ack) \<in> set p. set calls)"

definition in_flight :: "'key agent \<Rightarrow> robotCall set" where
  "in_flight ag = {c. HandlerCall (CallRobot c) \<in> calls_of (ag_pending ag)}"

lemma calls_of_simps [simp]:
  "calls_of [] = {}" "calls_of (p @ q) = calls_of p \<union> calls_of q" "calls_of ((calls, ack) # p) = set calls \<union> calls_of p"
  by (auto simp: calls_of_def)

lemma calls_of_nth: "i < length p \<Longrightarrow> p ! i = (calls, ack) \<Longrightarrow> set calls \<subseteq> calls_of p"
  using nth_mem [of i p] by (force simp: calls_of_def)

lemma calls_of_update: "calls_of (p[i := (calls, ack)]) \<subseteq> set calls \<union> calls_of p"
  using set_update_subset_insert [of p i "(calls, ack)"] by (force simp: calls_of_def)

lemma agent_call_pending [simp]: "ag_pending (agent_call api now c ag) = ag_pending ag"
proof (cases c)
  case (HandlerCall h)
  then show ?thesis by (cases h) (simp_all add: ag_emit_def call_monitor_eq)
qed (simp_all add: ag_emit_def call_monitor_eq)

text \<open>A goroutine goes on with its next call, or ends.\<close>

lemma resume_cases:
  obtains (call) c cs ack where "i < length (ag_pending ag)" "ag_pending ag ! i = (c # cs, ack)"
      "c \<in> calls_of (ag_pending ag)"
      "resume api i now ag = agent_call api now c (ag\<lparr>ag_pending := (ag_pending ag)[i := (cs, ack)]\<rparr>)"
      "calls_of ((ag_pending ag)[i := (cs, ack)]) \<subseteq> calls_of (ag_pending ag)"
  | (finished) p l where "resume api i now ag = ag\<lparr>ag_pending := p, ag_log := ag_log ag @ l\<rparr>" "map fst p = map fst (ag_pending ag)"
      "\<forall>c. RobotDid c \<notin> set l" "i < length (ag_pending ag) \<Longrightarrow> fst (ag_pending ag ! i) = []"
proof (cases "i < length (ag_pending ag)")
  case False
  then show ?thesis using finished [where p = "ag_pending ag" and l = "[]"] by (simp add: resume_def)
next
  case True
  obtain calls ack where p: "ag_pending ag ! i = (calls, ack)" by (cases "ag_pending ag ! i")
  show ?thesis
  proof (cases calls)
    case Nil
    have "map fst ((ag_pending ag)[i := ([], None)]) = map fst (ag_pending ag)"
      using True p Nil by (metis fst_conv list_update_id map_update nth_map)
    then show ?thesis using True p Nil finished [where p = "(ag_pending ag)[i := ([], None)]" and
          l = "case ack of None \<Rightarrow> [] | Some a \<Rightarrow> if ag_channel ag then [SentAck a] else []"]
      by (auto simp: resume_def ag_emit_def split: option.splits)
  next
    case (Cons c cs)
    have "set calls \<subseteq> calls_of (ag_pending ag)" using calls_of_nth [OF True p] .
    then have "c \<in> calls_of (ag_pending ag)" "calls_of ((ag_pending ag)[i := (cs, ack)]) \<subseteq> calls_of (ag_pending ag)"
      using Cons calls_of_update [of "ag_pending ag" i cs ack] by auto
    then show ?thesis using call [of c cs ack] True p Cons by (simp add: resume_def)
  qed
qed

lemma calls_of_fst: "map fst p = map fst q \<Longrightarrow> calls_of p = calls_of q"
proof -
  have "calls_of r = (\<Union>calls \<in> set (map fst r). set calls)" for r :: "(agentCall list \<times> ackMessage option) list"
    by (force simp: calls_of_def)
  then show "map fst p = map fst q \<Longrightarrow> calls_of p = calls_of q" by metis
qed

section \<open>What a step changes\<close>

text \<open>The session ends for good, and becomes active from pending only.\<close>

lemma agent_call_state: "mg_state (ag_manager (agent_call api now c ag)) \<in> {mg_state (ag_manager ag), SessTerminated}"
proof (cases c)
  case (HandlerCall h)
  then show ?thesis by (cases h) (simp_all add: ag_emit_def call_monitor_eq)
qed (simp_all add: ag_emit_def call_monitor_eq terminate_keeps)

lemma resume_state: "mg_state (ag_manager (resume api i now ag)) \<in> {mg_state (ag_manager ag), SessTerminated}"
  by (cases rule: resume_cases [of i ag api now]) (use agent_call_state in force)+

lemma OnOffer_cases:
  obtains m err where "ValidateToken parse (ag_manager ag) sid token now = (Inl err, m)"
      "OnOffer parse now sid token created answer ag = ag\<lparr>ag_manager := m\<rparr>"
  | m info where "ValidateToken parse (ag_manager ag) sid token now = (Inr info, m)"
      "OnOffer parse now sid token created answer ag = ag\<lparr>ag_manager := m\<rparr>"
  | m info l where "ValidateToken parse (ag_manager ag) sid token now = (Inr info, m)"
      "OnOffer parse now sid token created answer ag =
        ag\<lparr>ag_manager := m, ag_peer := True, ag_callback := Some info, ag_log := ag_log ag @ l\<rparr>"
      "\<forall>c. RobotDid c \<notin> set l"
proof -
  obtain result m where v: "ValidateToken parse (ag_manager ag) sid token now = (result, m)"
    by (cases "ValidateToken parse (ag_manager ag) sid token now")
  show ?thesis
  proof (cases result)
    case (Inl err)
    then show ?thesis using v that(1) by (simp add: OnOffer_def)
  next
    case (Inr info)
    show ?thesis
    proof (cases created)
      case False
      then show ?thesis using v Inr that(2) by (simp add: OnOffer_def)
    next
      case True
      then show ?thesis using v Inr
        by (cases answer; intro that(3) [where m = m and info = info and
              l = "case answer of None \<Rightarrow> [] | Some sdp \<Rightarrow> [SentAnswer sid sdp]"])
          (simp_all add: OnOffer_def ag_emit_def)
    qed
  qed
qed

lemma OnOffer_frame [simp]:
  "mg_state (ag_manager (OnOffer parse now sid token created answer ag)) = mg_state (ag_manager ag)"
  "mg_info (ag_manager (OnOffer parse now sid token created answer ag)) = mg_info (ag_manager ag)"
  "ag_monitor (OnOffer parse now sid token created answer ag) = ag_monitor ag"
  "ag_pending (OnOffer parse now sid token created answer ag) = ag_pending ag"
  by (cases rule: OnOffer_cases [of parse ag sid token now created answer]; simp add: validate_keeps)+

lemma peerConnected_cases:
  obtains "peerConnected ag = ag"
  | info m where "ag_callback ag = Some info" "manager_Activate (ag_manager ag) info = Inr m"
      "peerConnected ag = ag_go [ResetSafety] None (ag\<lparr>ag_manager := m\<rparr>)"
proof (cases "ag_callback ag")
  case None
  then show ?thesis using that(1) by (simp add: peerConnected_def)
next
  case (Some info)
  then show ?thesis using that
    by (cases "manager_Activate (ag_manager ag) info") (simp_all add: peerConnected_def)
qed

lemma onDataMessage_cases:
  obtains "onDataMessage api now data ag = ag"
  | ack where "onDataMessage api now data ag =
      ag_go (map HandlerCall (snd (HandleMessage (current_handler api ag) now data))) ack ag"
  by (cases "Option.bind (go_unmarshal data) decode_type = Some ''pong''")
    (auto simp: onDataMessage_def case_prod_unfold Let_def)

lemma step_state: "mg_state (ag_manager (agent_step parse api ag x)) \<in> {mg_state (ag_manager ag), SessTerminated} \<or>
    x = PeerConnected \<and> mg_state (ag_manager ag) = SessPending"
proof (cases x)
  case PeerConnected
  show ?thesis
    by (cases rule: peerConnected_cases [of ag]) (use PeerConnected activate_keeps(1) in auto)
next
  case (DataMessage now data)
  then show ?thesis by (cases rule: onDataMessage_cases [of api now data ag]) auto
next
  case (Resume i now)
  then show ?thesis using resume_state [of api i now ag] by simp
qed (simp_all add: OnBye_def call_monitor_eq agent_OnRevoked_def peerEnded_def terminate_keeps safetyTick_def
    agent_shutdown_def split: option.split)

lemma step_terminated:
  "mg_state (ag_manager ag) = SessTerminated \<Longrightarrow> mg_state (ag_manager (agent_step parse api ag x)) = SessTerminated"
  using step_state [of parse api ag x] by simp

text \<open>What is left to be called: only the connection, a message and the handlers add to it.\<close>

fun new_calls :: "robotAPI \<Rightarrow> 'key agent \<Rightarrow> agentInput \<Rightarrow> agentCall set" where
  "new_calls api ag PeerConnected = (if mg_state (ag_manager ag) = SessPending then {ResetSafety} else {})"
| "new_calls api ag (DataMessage now data) =
     HandlerCall ` set (snd (HandleMessage (current_handler api ag) now data))"
| "new_calls api ag (Revocation sid reason) =
     {CloseTransport, TerminateSession, StopRevoked, PublishRevoked sid reason}"
| "new_calls api ag Shutdown = {StopRevoked, CloseTransport}"
| "new_calls api ag Tick = {CheckLoss}"
| "new_calls api ag x = {}"

lemma step_calls: "calls_of (ag_pending (agent_step parse api ag x)) \<subseteq> calls_of (ag_pending ag) \<union> new_calls api ag x"
proof (cases x)
  case PeerConnected
  show ?thesis
    by (cases rule: peerConnected_cases [of ag]) (use PeerConnected activate_keeps(1) in auto)
next
  case (DataMessage now data)
  then show ?thesis by (cases rule: onDataMessage_cases [of api now data ag]) auto
next
  case (Resume i now)
  then show ?thesis
    by (cases rule: resume_cases [of i ag api now]) (auto dest: calls_of_fst)
qed (auto simp: OnBye_def call_monitor_eq agent_OnRevoked_def peerEnded_def safetyTick_def
    agent_shutdown_def split: option.splits)

lemma step_in_flight: "in_flight (agent_step parse api ag x) \<subseteq> in_flight ag \<union>
    {c. HandlerCall (CallRobot c) \<in> new_calls api ag x}"
  using step_calls [of parse api ag x] by (auto simp: in_flight_def)

text \<open>What is done to the robot: what was in flight, and a stop unless the monitor has latched.\<close>

lemma agent_call_log: "\<exists>new. ag_log (agent_call api now c ag) = ag_log ag @ new \<and>
    (\<forall>r. RobotDid r \<in> set new \<longrightarrow> c = HandlerCall (CallRobot r) \<or> r = RobotEStop \<and> \<not> latched (ag_monitor ag))"
proof (cases c)
  case (HandlerCall h)
  then show ?thesis
    by (cases h) (auto simp: ag_emit_def call_monitor_eq latched_ops dest: stop_events_robot)
qed (auto simp: ag_emit_def call_monitor_eq latched_ops dest: stop_events_robot)

lemma step_log: "\<exists>new. ag_log (agent_step parse api ag x) = ag_log ag @ new \<and>
    (\<forall>r. RobotDid r \<in> set new \<longrightarrow> r \<in> in_flight ag \<or> r = RobotEStop \<and> \<not> latched (ag_monitor ag))"
proof (cases x)
  case (Offer now sid token created answer)
  then show ?thesis
    by (cases rule: OnOffer_cases [of parse ag sid token now created answer]) auto
next
  case (Bye sid)
  then show ?thesis
    by (auto simp: OnBye_def call_monitor_eq latched_ops dest: stop_events_robot)
next
  case PeerConnected
  then show ?thesis by (cases rule: peerConnected_cases [of ag]) auto
next
  case (DataMessage now data)
  then show ?thesis by (cases rule: onDataMessage_cases [of api now data ag]) auto
next
  case (Resume i now)
  show ?thesis
  proof (cases rule: resume_cases [of i ag api now])
    case (call c cs ack)
    then show ?thesis
      using agent_call_log [of api now c "ag\<lparr>ag_pending := (ag_pending ag)[i := (cs, ack)]\<rparr>"] Resume
      by (fastforce simp: in_flight_def)
  next
    case (finished p l)
    then show ?thesis using Resume by auto
  qed
qed (auto simp: agent_OnRevoked_def peerEnded_def safetyTick_def agent_shutdown_def split: option.splits)

text \<open>
  A session that is past its beginning, with no reset of the monitor to come: it stays so, and then the
  monitor stays latched.
\<close>

definition begun :: "'key agent \<Rightarrow> bool" where
  "begun ag \<longleftrightarrow> mg_state (ag_manager ag) \<noteq> SessPending \<and> ResetSafety \<notin> calls_of (ag_pending ag)"

lemma step_begun: "begun ag \<Longrightarrow> begun (agent_step parse api ag x)"
proof -
  assume "begun ag"
  then have s: "mg_state (ag_manager ag) \<noteq> SessPending" and r: "ResetSafety \<notin> calls_of (ag_pending ag)"
    by (simp_all add: begun_def)
  have "ResetSafety \<notin> new_calls api ag x" using s by (cases x) auto
  then have "ResetSafety \<notin> calls_of (ag_pending (agent_step parse api ag x))"
    using r step_calls [of parse api ag x] by blast
  moreover have "mg_state (ag_manager (agent_step parse api ag x)) \<noteq> SessPending"
    using s step_state [of parse api ag x] by auto
  ultimately show ?thesis by (simp add: begun_def)
qed

lemma agent_call_latched:
  "latched (ag_monitor ag) \<Longrightarrow> c \<noteq> ResetSafety \<Longrightarrow> latched (ag_monitor (agent_call api now c ag))"
proof (cases c)
  case (HandlerCall h)
  then show "latched (ag_monitor ag) \<Longrightarrow> latched (ag_monitor (agent_call api now c ag))"
    by (cases h) (simp_all add: ag_emit_def call_monitor_eq latched_ops)
qed (simp_all add: ag_emit_def call_monitor_eq latched_ops)

lemma step_latched:
  assumes "latched (ag_monitor ag)" and "begun ag"
  shows "latched (ag_monitor (agent_step parse api ag x))"
proof (cases x)
  case PeerConnected
  then show ?thesis
    by (cases rule: peerConnected_cases [of ag]) (use assms activate_keeps(1) in \<open>auto simp: begun_def\<close>)
next
  case (DataMessage now data)
  then show ?thesis by (cases rule: onDataMessage_cases [of api now data ag]) (use assms in auto)
next
  case (Resume i now)
  show ?thesis
  proof (cases rule: resume_cases [of i ag api now])
    case (call c cs ack)
    then have "c \<noteq> ResetSafety" using assms(2) by (auto simp: begun_def)
    then show ?thesis using call Resume assms(1) by (simp add: agent_call_latched)
  next
    case (finished p l)
    then show ?thesis using Resume assms(1) by simp
  qed
qed (use assms in \<open>simp_all add: OnBye_def call_monitor_eq latched_ops agent_OnRevoked_def peerEnded_def safetyTick_def
    agent_shutdown_def split: option.split\<close>)

lemma current_handler_simps [simp]:
  "isSessionActive (current_handler api ag) \<longleftrightarrow> mg_state (ag_manager ag) = SessActive"
  "hasScope (current_handler api ag) scope \<longleftrightarrow> HasScope (ag_manager ag) scope"
  "hd_staleThreshold (current_handler api ag) = 200" "hd_safety (current_handler api ag)"
  "hd_robot (current_handler api ag) = api"
  by (simp_all add: current_handler_def agent_handler_def isSessionActive_def hasScope_def)

text \<open>No message is let through to the robot unless the session is active.\<close>

lemma inactive_quiet:
  assumes "mg_state (ag_manager ag) \<noteq> SessActive"
  shows "HandlerCall (CallRobot c) \<notin> new_calls api ag x"
proof (cases x)
  case (DataMessage now data)
  have "CallRobot c \<notin> set (snd (HandleMessage (current_handler api ag) now data))"
    using handler_guards_robot [of c "current_handler api ag" now data] assms by auto
  then show ?thesis using DataMessage by auto
qed simp_all

section \<open>After a revocation\<close>

text \<open>
  Over for good: the session has ended, and only what was in flight follows, or a stop; and if no reset of
  the monitor was to come, the monitor is latched and not even a stop follows.
\<close>

definition over :: "bool \<Rightarrow> robotCall set \<Rightarrow> agentEvent list \<Rightarrow> 'key agent \<Rightarrow> bool" where
  "over b left before ag \<longleftrightarrow>
     mg_state (ag_manager ag) = SessTerminated \<and> (b \<longrightarrow> begun ag \<and> latched (ag_monitor ag)) \<and> in_flight ag \<subseteq> left \<and>
     (\<exists>new. ag_log ag = before @ new \<and> (\<forall>c. RobotDid c \<in> set new \<longrightarrow> c \<in> left \<or> \<not> b \<and> c = RobotEStop))"

lemma over_step:
  assumes "over b left before ag"
  shows "over b left before (agent_step parse api ag x)"
proof -
  have t: "mg_state (ag_manager ag) = SessTerminated" and l: "in_flight ag \<subseteq> left"
    and b: "b \<longrightarrow> begun ag \<and> latched (ag_monitor ag)"
    using assms by (simp_all add: over_def)
  obtain new where new: "ag_log ag = before @ new"
    "\<forall>c. RobotDid c \<in> set new \<longrightarrow> c \<in> left \<or> \<not> b \<and> c = RobotEStop"
    using assms by (auto simp: over_def)
  obtain more where more: "ag_log (agent_step parse api ag x) = ag_log ag @ more"
    "\<forall>r. RobotDid r \<in> set more \<longrightarrow> r \<in> in_flight ag \<or> r = RobotEStop \<and> \<not> latched (ag_monitor ag)"
    using step_log by blast
  have "in_flight (agent_step parse api ag x) \<subseteq> left"
    using l step_in_flight [of parse api ag x] inactive_quiet [of ag _ api x] t by auto
  moreover have "b \<longrightarrow> begun (agent_step parse api ag x) \<and> latched (ag_monitor (agent_step parse api ag x))"
    using b step_begun step_latched by blast
  moreover have "ag_log (agent_step parse api ag x) = before @ (new @ more)" using new(1) more(1) by simp
  moreover have "\<forall>c. RobotDid c \<in> set (new @ more) \<longrightarrow> c \<in> left \<or> \<not> b \<and> c = RobotEStop"
    using new(2) more(2) l b by auto
  ultimately show ?thesis using step_terminated [OF t] unfolding over_def by blast
qed

interpretation over_agent: invariant_system "agent_step parse api" "over b left before" for parse api b left before
  by unfold_locales (rule over_step)

text \<open>The handler of a revocation on its way, at the position of its goroutine.\<close>

abbreviation revocation_calls :: "string \<Rightarrow> string \<Rightarrow> agentCall list" where
  "revocation_calls sid reason \<equiv> [CloseTransport, TerminateSession, StopRevoked, PublishRevoked sid reason]"

definition revoking :: "bool \<Rightarrow> nat \<Rightarrow> string \<Rightarrow> string \<Rightarrow> 'key agent \<Rightarrow> bool" where
  "revoking b n sid reason ag \<longleftrightarrow> n < length (ag_pending ag) \<and> (b \<longrightarrow> begun ag) \<and>
     (\<exists>k \<le> 4. fst (ag_pending ag ! n) = drop k (revocation_calls sid reason) \<and>
        (2 \<le> k \<longrightarrow> mg_state (ag_manager ag) = SessTerminated) \<and> (b \<and> 3 \<le> k \<longrightarrow> latched (ag_monitor ag)))"

text \<open>A step leaves the other goroutines alone.\<close>

lemma step_pending:
  assumes "n < length (ag_pending ag)" and "\<forall>now. x \<noteq> Resume n now"
  shows "n < length (ag_pending (agent_step parse api ag x)) \<and>
    fst (ag_pending (agent_step parse api ag x) ! n) = fst (ag_pending ag ! n)"
proof (cases x)
  case PeerConnected
  show ?thesis
    by (cases rule: peerConnected_cases [of ag]) (use PeerConnected assms in \<open>auto simp: nth_append\<close>)
next
  case (DataMessage now data)
  show ?thesis
    by (cases rule: onDataMessage_cases [of api now data ag]) (use DataMessage assms in \<open>auto simp: nth_append\<close>)
next
  case (Resume i now)
  show ?thesis
  proof (cases rule: resume_cases [of i ag api now])
    case (call c cs ack)
    then show ?thesis using assms Resume by auto
  next
    case (finished p l)
    have "length p = length (ag_pending ag)" using finished(2) by (metis length_map)
    then show ?thesis using finished(1,2) assms Resume by (metis agent.select_convs(6) agent.surjective
      agent.update_convs(6,7) agent_step.simps(8) nth_map)
  qed
qed (use assms in \<open>auto simp: OnBye_def call_monitor_eq agent_OnRevoked_def peerEnded_def safetyTick_def
    agent_shutdown_def nth_append split: option.splits\<close>)

text \<open>A goroutine gets on with each of its own steps.\<close>

fun is_resume :: "nat \<Rightarrow> agentInput \<Rightarrow> bool" where
  "is_resume n (Resume i now) \<longleftrightarrow> i = n"
| "is_resume n x \<longleftrightarrow> False"

lemma resume_progress:
  assumes "n < length (ag_pending ag)"
  shows "n < length (ag_pending (resume api n now ag)) \<and>
    length (fst (ag_pending (resume api n now ag) ! n)) = length (fst (ag_pending ag ! n)) - 1"
proof (cases rule: resume_cases [of n ag api now])
  case (finished p l)
  have "length p = length (ag_pending ag)" using finished(2) by (metis length_map)
  moreover have "fst (p ! n) = fst (ag_pending ag ! n)" using finished(2) assms calculation by (metis nth_map)
  ultimately show ?thesis using finished(1,4) assms by simp
qed (use assms in simp)

lemma run_progress:
  assumes "n < length (ag_pending ag)"
  shows "length (fst (ag_pending (foldl (agent_step parse api) ag xs) ! n)) =
    length (fst (ag_pending ag ! n)) - length (filter (is_resume n) xs)"
  using assms
proof (induction xs arbitrary: ag)
  case Nil
  then show ?case by simp
next
  case (Cons x xs)
  show ?case
  proof (cases "is_resume n x")
    case True
    then obtain now where x: "x = Resume n now" by (cases x) auto
    from resume_progress [OF Cons.prems, of api now] show ?thesis using Cons.IH x by simp
  next
    case False
    then have "\<forall>now. x \<noteq> Resume n now" by auto
    from step_pending [OF Cons.prems this] show ?thesis using Cons.IH False by (simp del: agent_step.simps)
  qed
qed

lemma revoking_step:
  assumes "revoking b n sid reason ag"
  shows "revoking b n sid reason (agent_step parse api ag x)"
proof -
  obtain k where n: "n < length (ag_pending ag)" and b: "b \<longrightarrow> begun ag" and k: "k \<le> 4"
    "fst (ag_pending ag ! n) = drop k (revocation_calls sid reason)"
    "2 \<le> k \<longrightarrow> mg_state (ag_manager ag) = SessTerminated" "b \<and> 3 \<le> k \<longrightarrow> latched (ag_monitor ag)"
    using assms by (auto simp: revoking_def)
  let ?ag = "agent_step parse api ag x"
  have t: "2 \<le> k \<longrightarrow> mg_state (ag_manager ?ag) = SessTerminated" using k(3) step_terminated by blast
  have l: "b \<and> 3 \<le> k \<longrightarrow> latched (ag_monitor ?ag)" using k(4) b step_latched by blast
  have b': "b \<longrightarrow> begun ?ag" using b step_begun by blast
  show ?thesis
  proof (cases "\<exists>now. x = Resume n now")
    case False
    then have "n < length (ag_pending ?ag)" "fst (ag_pending ?ag ! n) = fst (ag_pending ag ! n)"
      using step_pending [OF n, of x parse api] by auto
    then show ?thesis using k t l b' unfolding revoking_def by auto
  next
    case True
    then obtain now where x: "x = Resume n now" by blast
    show ?thesis
    proof (cases rule: resume_cases [of n ag api now])
      case (call c cs ack)
      then have dr: "drop k (revocation_calls sid reason) = c # cs" using k(2) by simp
      then have k4: "k < 4" using k(1) by (cases "k = 4") auto
      have cs: "cs = drop (Suc k) (revocation_calls sid reason)" using dr by (metis drop_Suc list.sel(3) tl_drop)
      have c: "c = revocation_calls sid reason ! k" using dr k4 by (metis nth_via_drop)
      have ag: "?ag = agent_call api now c (ag\<lparr>ag_pending := (ag_pending ag)[n := (cs, ack)]\<rparr>)" using x call by simp
      have "k = 1 \<Longrightarrow> mg_state (ag_manager ?ag) = SessTerminated" using c ag by (simp add: terminate_keeps)
      moreover have "k = 2 \<Longrightarrow> latched (ag_monitor ?ag)"
        using c ag by (simp add: call_monitor_eq latched_def monitor_OnRevoked_def)
      ultimately have "Suc k \<le> 4 \<and> (2 \<le> Suc k \<longrightarrow> mg_state (ag_manager ?ag) = SessTerminated) \<and>
          (b \<and> 3 \<le> Suc k \<longrightarrow> latched (ag_monitor ?ag))"
        using t l k4 by (cases "k = 1"; cases "k = 2") auto
      moreover have "n < length (ag_pending ?ag)" "fst (ag_pending ?ag ! n) = drop (Suc k) (revocation_calls sid reason)"
        using ag cs call(1) by simp_all
      ultimately show ?thesis using b' unfolding revoking_def by blast
    next
      case (finished p l)
      have "length p = length (ag_pending ag)" using finished(2) by (metis length_map)
      moreover have "fst (p ! n) = fst (ag_pending ag ! n)" using finished(2) n calculation by (metis nth_map)
      ultimately show ?thesis using finished(1) x n k t l b' unfolding revoking_def by auto
    qed
  qed
qed

interpretation revoking_agent: invariant_system "agent_step parse api" "revoking b n sid reason"
  for parse api b n sid reason
  by unfold_locales (rule revoking_step)

lemma revocation_revoking:
  "(b \<longrightarrow> begun ag) \<Longrightarrow> revoking b (length (ag_pending ag)) sid reason (agent_step parse api ag (Revocation sid reason))"
  by (auto simp: revoking_def agent_OnRevoked_def begun_def)

lemma revoked_over:
  assumes "revoking b n sid reason ag" and "fst (ag_pending ag ! n) = []"
  shows "over b (in_flight ag) (ag_log ag) ag"
proof -
  obtain k where "k \<le> 4" "drop k (revocation_calls sid reason) = []"
    "2 \<le> k \<longrightarrow> mg_state (ag_manager ag) = SessTerminated" "b \<and> 3 \<le> k \<longrightarrow> latched (ag_monitor ag)" "b \<longrightarrow> begun ag"
    using assms by (auto simp: revoking_def)
  moreover from this have "k = 4" by simp
  ultimately show ?thesis by (simp add: over_def)
qed

section \<open>Where commands come from\<close>

text \<open>A session the agent was offered with a token that was valid, at most 30 seconds before the offer.\<close>

definition authorized ::
    "'key jwtParse \<Rightarrow> 'key tokenValidator option \<Rightarrow> agentInput set \<Rightarrow> sessionInfo \<Rightarrow> bool" where
  "authorized parse validator H info \<longleftrightarrow>
     (\<exists>v now t token created answer claims. validator = Some v \<and>
        Offer now (si_sessionID info) token created answer \<in> H \<and> now - t \<le> 30000 \<and>
        robot_Validate parse v t token (si_sessionID info) = Inr claims \<and>
        rk_scope claims = si_scope info \<and> rk_subject claims = si_operatorDID info)"

definition justified ::
    "'key jwtParse \<Rightarrow> 'key tokenValidator option \<Rightarrow> agentInput set \<Rightarrow> 'key agent \<Rightarrow> bool" where
  "justified parse validator H ag \<longleftrightarrow>
     mg_validator (ag_manager ag) = validator \<and> cache_valid parse (ag_manager ag) \<and>
     (\<forall>info. ag_callback ag = Some info \<longrightarrow> authorized parse validator H info) \<and>
     (\<forall>info. mg_info (ag_manager ag) = Some info \<longrightarrow> authorized parse validator H info)"

lemma terminate_frame [simp]:
  "mg_validator (manager_Terminate m) = mg_validator m"
  "mg_info (manager_Terminate m) = (if mg_state m = SessTerminated then mg_info m else None)"
  by (simp_all add: manager_Terminate_def)

lemma justified_cong: "ag_manager ag' = ag_manager ag \<Longrightarrow> ag_callback ag' = ag_callback ag \<Longrightarrow>
    justified parse validator H ag' = justified parse validator H ag"
  by (simp add: justified_def)

lemma justified_terminate: "justified parse validator H ag \<Longrightarrow>
    justified parse validator H (ag\<lparr>ag_manager := manager_Terminate (ag_manager ag)\<rparr>)"
  by (auto simp: justified_def terminate_keeps)

lemma validated_info:
  assumes "ValidateToken parse m sid token now = (Inr info, m')" and "cache_valid parse m"
    and "Offer now sid token created answer \<in> H"
  shows "authorized parse (mg_validator m) H info"
proof -
  obtain v t claims where v: "mg_validator m = Some v" "now - t \<le> 30000"
    "robot_Validate parse v t token sid = Inr claims" "info = claimsToInfo m claims"
    using validate_cases [OF assms(1,2)] by blast
  moreover have "rk_sessionID claims = sid"
    using v(3) by (auto simp: robot_Validate_def extractClaims_def split: if_splits sum.splits prod.splits)
  ultimately show ?thesis using assms(3) unfolding authorized_def
    by (intro exI [of _ v] exI [of _ now] exI [of _ t] exI [of _ token] exI [of _ created] exI [of _ answer]
        exI [of _ claims]) (simp add: claimsToInfo_def)
qed

lemma justified_offer:
  assumes "justified parse validator H ag" and "Offer now sid token created answer \<in> H"
  shows "justified parse validator H (OnOffer parse now sid token created answer ag)"
proof (cases rule: OnOffer_cases [of parse ag sid token now created answer])
  case (3 m info l)
  have "authorized parse validator H info"
    using validated_info [OF 3(1) _ assms(2)] assms(1) unfolding justified_def by simp
  then show ?thesis using 3(2) assms(1) validate_keeps [OF 3(1)] unfolding justified_def by simp
next
  case (1 m err)
  then show ?thesis using assms(1) validate_keeps [OF 1(1)] unfolding justified_def by simp
next
  case (2 m info)
  then show ?thesis using assms(1) validate_keeps [OF 2(1)] unfolding justified_def by simp
qed

lemma justified_call: "justified parse validator H ag \<Longrightarrow> justified parse validator H (agent_call api now c ag)"
proof (cases c)
  case (HandlerCall h)
  then show "justified parse validator H ag \<Longrightarrow> justified parse validator H (agent_call api now c ag)"
    by (cases h) (simp_all add: ag_emit_def call_monitor_eq justified_def)
qed (simp_all add: ag_emit_def call_monitor_eq justified_terminate, simp_all add: justified_def)

lemma justified_step:
  assumes "justified parse validator H ag" and "x \<in> H"
  shows "justified parse validator H (agent_step parse api ag x)"
proof (cases x)
  case (Offer now sid token created answer)
  then show ?thesis using justified_offer assms by (metis agent_step.simps(1))
next
  case PeerConnected
  show ?thesis
  proof (cases rule: peerConnected_cases [of ag])
    case 1
    then show ?thesis using PeerConnected assms(1) by simp
  next
    case (2 info m)
    then show ?thesis using PeerConnected assms(1) activate_keeps [OF 2(2)] by (simp add: justified_def)
  qed
next
  case (DataMessage now data)
  then show ?thesis
    by (cases rule: onDataMessage_cases [of api now data ag]) (use assms(1) in \<open>auto simp: justified_def\<close>)
next
  case (Resume i now)
  show ?thesis
  proof (cases rule: resume_cases [of i ag api now])
    case (call c cs ack)
    have "justified parse validator H (ag\<lparr>ag_pending := (ag_pending ag)[i := (cs, ack)]\<rparr>)"
      using assms(1) by (simp add: justified_def)
    then show ?thesis using call Resume by (simp add: justified_call)
  next
    case (finished p l)
    then show ?thesis using Resume assms(1) by (simp add: justified_def)
  qed
next
  case PeerEnded
  then show ?thesis using assms(1) justified_terminate by (auto simp: peerEnded_def split: option.split)
next
  case (Bye sid)
  then show ?thesis using assms(1) by (simp add: OnBye_def call_monitor_eq justified_def)
next
  case (Revocation sid reason)
  then show ?thesis using assms(1) by (simp add: agent_OnRevoked_def justified_def)
next
  case ChannelOpened
  then show ?thesis using assms(1) by (simp add: justified_def)
next
  case Tick
  then show ?thesis using assms(1) by (simp add: safetyTick_def justified_def)
next
  case Shutdown
  then show ?thesis using assms(1) by (simp add: agent_shutdown_def justified_def)
qed

text \<open>An invariant of any run whose inputs are in a given set.\<close>

interpretation justified_agent: stable_property "agent_step parse api" "justified parse validator H" "\<lambda>x. x \<in> H"
  for parse api validator H
  by unfold_locales (rule justified_step)

lemma new_agent_justified: "justified parse validator H (newAgent robotID validator timeout threshold window onStop now)"
  using new_manager_cache [of parse robotID validator]
  by (simp add: justified_def newAgent_def NewManager_def)

lemma run_justified:
  "justified parse validator (set xs) (foldl (agent_step parse api)
     (newAgent robotID validator timeout threshold window onStop start) xs)"
  by (rule justified_agent.run_stable [OF new_agent_justified]) (simp add: list_all_iff)

text \<open>The commands of a run, carried out or in flight, and the messages they came in.\<close>

definition commands :: "'key agent \<Rightarrow> robotCall set" where
  "commands ag = in_flight ag \<union> {c. RobotDid c \<in> set (ag_log ag)}"

lemma step_commands: "commands (agent_step parse api ag x) \<subseteq> insert RobotEStop (commands ag) \<union>
    {c. HandlerCall (CallRobot c) \<in> new_calls api ag x}"
proof -
  obtain new where "ag_log (agent_step parse api ag x) = ag_log ag @ new"
    "\<forall>r. RobotDid r \<in> set new \<longrightarrow> r \<in> in_flight ag \<or> r = RobotEStop \<and> \<not> latched (ag_monitor ag)"
    using step_log by blast
  then show ?thesis using step_in_flight [of parse api ag x] unfolding commands_def by auto
qed

lemma commands_origin:
  assumes "c \<in> commands (foldl (agent_step parse api) ag inputs)"
  shows "c = RobotEStop \<or> c \<in> commands ag \<or> (\<exists>xs now data ys. inputs = xs @ DataMessage now data # ys \<and>
    CallRobot c \<in> set (snd (HandleMessage (current_handler api (foldl (agent_step parse api) ag xs)) now data)))"
  using assms
proof (induction inputs rule: rev_induct)
  case Nil
  then show ?case by simp
next
  case (snoc x inputs)
  let ?ag = "foldl (agent_step parse api) ag inputs"
  have "c \<in> commands (agent_step parse api ?ag x)" using snoc.prems by simp
  then consider "c = RobotEStop" | "c \<in> commands ?ag" | "HandlerCall (CallRobot c) \<in> new_calls api ?ag x"
    using step_commands [of parse api ?ag x] by auto
  then show ?case
  proof cases
    case 2
    then show ?thesis using snoc.IH by (metis append.assoc append_Cons)
  next
    case 3
    then obtain now data where "x = DataMessage now data"
      "CallRobot c \<in> set (snd (HandleMessage (current_handler api ?ag) now data))"
      by (cases x) (auto split: if_splits)
    then show ?thesis by blast
  qed simp
qed

end
