(* ===== verification/RobotRuns.thy ===== *)
theory RobotRuns
  imports RobotAgent
begin

text \<open>
  Runs of the robot agent: what a revocation ends, where the robot's commands come from, what a stop does
  and does not do, and how the agent works with the gateway and the console.
\<close>

section \<open>Revocation and the origin of commands\<close>

text \<open>
  (C13) A revocation is final, however the goroutines of the agent are scheduled. Once the handler of a revocation
  has made its four calls, whatever is received and whatever runs, the session stays terminated, and the
  robot gets no command except a stop and what a message already checked has left to give. If the
  session was past its beginning when the revocation came (activated, with the reset of the monitor done),
  the monitor also stays stopped, and not even a stop follows.
\<close>

theorem revocation_is_final:
  assumes "n = length (ag_pending ag)"
    and "ag1 = foldl (agent_step parse api) ag (Revocation sid reason # meanwhile)"
    and "4 \<le> length (filter (is_resume n) meanwhile)"
    and "ag2 = foldl (agent_step parse api) ag1 inputs"
  shows "\<exists>new. ag_log ag2 = ag_log ag1 @ new \<and> mg_state (ag_manager ag2) = SessTerminated \<and>
    (\<forall>c. RobotDid c \<in> set new \<longrightarrow> c \<in> in_flight ag1 \<or> c = RobotEStop) \<and>
    (begun ag \<longrightarrow> latched (ag_monitor ag2) \<and> (\<forall>c. RobotDid c \<in> set new \<longrightarrow> c \<in> in_flight ag1))"
proof -
  let ?ag = "agent_step parse api ag (Revocation sid reason)"
  have r: "revoking (begun ag) n sid reason ?ag"
    unfolding assms(1) by (rule revocation_revoking) simp
  then have "revoking (begun ag) n sid reason ag1" unfolding assms(2) foldl_Cons by (rule revoking_agent.run_good)
  moreover have "n < length (ag_pending ?ag)" "length (fst (ag_pending ?ag ! n)) = 4"
    using r unfolding assms(1) by (simp_all add: agent_OnRevoked_def)
  then have "fst (ag_pending ag1 ! n) = []"
    using run_progress [of n ?ag parse api meanwhile] assms(3) unfolding assms(2) by simp
  ultimately have "over (begun ag) (in_flight ag1) (ag_log ag1) ag1" by (rule revoked_over)
  then have "over (begun ag) (in_flight ag1) (ag_log ag1) ag2" unfolding assms(4) by (rule over_agent.run_good)
  then show ?thesis unfolding over_def by auto
qed

text \<open>
  The condition is needed. The connection activates the session and resets the monitor in two calls
  (\<open>handlers.go\<close>), so a revocation that comes between them ends the session and stops the robot, and then
  the reset takes the stop back: the monitor of the terminated session is no longer stopped.
\<close>

theorem late_reset_unlatches:
  assumes "ag_callback ag = Some info" and "mg_state (ag_manager ag) = SessPending" and "n = length (ag_pending ag)"
    and "ag' = foldl (agent_step parse api) ag
      ([PeerConnected, Revocation sid reason] @ replicate 4 (Resume (Suc n) now) @ [Resume n now'])"
  shows "mg_state (ag_manager ag') = SessTerminated \<and> \<not> so_stopped (ag_monitor ag')"
proof -
  have "manager_Activate (ag_manager ag) info = Inr (ag_manager ag\<lparr>mg_info := Some info, mg_state := SessActive\<rparr>)"
    using assms(2) by (simp add: manager_Activate_def)
  then show ?thesis unfolding assms(4) using assms(1,3)
    by (simp add: peerConnected_def agent_OnRevoked_def ag_go_def resume_def nth_append list_update_append
        numeral_eq_Suc transport_Close_def call_monitor_eq ag_emit_def terminate_keeps monitor_Reset_def)
qed

text \<open>
  (C14) Every command the robot carries out, except the emergency stop, is exactly the one that a data message
  asked for: the message has the right type and these values, in range, and was at most 200 milliseconds
  old when it was checked. At that time the session was active with the scope \<open>teleop:control\<close>, which was
  granted to it by a token that had been offered for this session before and was valid at most
  30 seconds before the offer.
\<close>

theorem commands_justified:
  assumes "ag0 = newAgent robotID validator timeout threshold window onStop start"
    and "RobotDid c \<in> set (ag_log (foldl (agent_step parse api) ag0 inputs))"
  shows "c = RobotEStop \<or> (\<exists>earlier now data later ag info ms.
    inputs = earlier @ DataMessage now data # later \<and> ag = foldl (agent_step parse api) ag0 earlier \<and>
    mg_state (ag_manager ag) = SessActive \<and> mg_info (ag_manager ag) = Some info \<and>
    ScopeControl \<in> set (si_scope info) \<and> authorized parse validator (set earlier) info \<and>
    go_unmarshal data = Some ms \<and> legal_call 200 now ms c)"
proof (cases "c = RobotEStop")
  case False
  have "c \<notin> commands ag0" unfolding assms(1) by (simp add: commands_def in_flight_def newAgent_def)
  moreover have "c \<in> commands (foldl (agent_step parse api) ag0 inputs)" using assms(2) by (simp add: commands_def)
  ultimately obtain xs now data ys where m: "inputs = xs @ DataMessage now data # ys"
    "CallRobot c \<in> set (snd (HandleMessage (current_handler api (foldl (agent_step parse api) ag0 xs)) now data))"
    using commands_origin False by blast
  let ?ag = "foldl (agent_step parse api) ag0 xs"
  obtain ms where guards: "mg_state (ag_manager ?ag) = SessActive" "HasScope (ag_manager ?ag) ScopeControl"
    "go_unmarshal data = Some ms" "legal_call 200 now ms c"
    using handler_guards_robot [OF m(2)] False by auto
  then obtain info where info: "mg_info (ag_manager ?ag) = Some info" "ScopeControl \<in> set (si_scope info)"
    by (auto simp: HasScope_def split: option.splits)
  moreover have "justified parse validator (set xs) ?ag" unfolding assms(1) by (rule run_justified)
  ultimately have "authorized parse validator (set xs) info" unfolding justified_def by blast
  then show ?thesis using m(1) guards info by blast
qed simp

section \<open>Driving\<close>

lemma handle_drive:
  assumes "isSessionActive h" and "hasScope h ScopeControl" and "hd_safety h"
    and "hd_robot h (Drive (of_int v) (of_int w)) = None" and "int64_range t" and "t \<noteq> 0"
    and "now - t \<le> hd_staleThreshold h" and "v \<in> {-1..1}" and "w \<in> {-1..1}"
  shows "HandleMessage h now (json_stringify (drive_json v w t)) =
    (Inr (Some \<lparr>ak_refType = ''drive'', ak_refT = t\<rparr>), [CallRobot (Drive (of_int v) (of_int w)), NotifyValid])"
proof -
  have "go_unmarshal (json_stringify (drive_json v w t)) = Some [(''type'', JStr ''drive''),
      (''v'', JNum (of_int v)), (''w'', JNum (of_int w)), (''t'', JNum (of_int t))]"
    unfolding go_unmarshal_plain [OF plain_messages(1)] by (simp add: drive_json_def go_object_def)
  moreover have "ValidateDrive (hd_staleThreshold h) now \<lparr>dm_v = of_int v, dm_w = of_int w, dm_t = t\<rparr> = None"
    using assms by (simp add: validate_drive_ok)
  ultimately show ?thesis using assms
    by (simp add: HandleMessage_def decode_type_def go_defs ascii_lower_def handler_defs decode_drive_def)
qed

lemma no_pong: "Option.bind (go_unmarshal (json_stringify (drive_json v w t))) decode_type \<noteq> Some ''pong''"
  unfolding go_unmarshal_plain [OF plain_messages(1)]
  by (simp add: drive_json_def go_defs decode_type_def ascii_lower_def)

text \<open>A session in which a drive command is accepted now.\<close>

definition drivable :: "robotAPI \<Rightarrow> ms \<Rightarrow> int \<Rightarrow> int \<Rightarrow> int \<Rightarrow> 'key agent \<Rightarrow> bool" where
  "drivable api now v w t ag \<longleftrightarrow>
     mg_state (ag_manager ag) = SessActive \<and> HasScope (ag_manager ag) ScopeControl \<and> api (Drive (of_int v) (of_int w)) = None \<and>
     int64_range t \<and> t \<noteq> 0 \<and> now - t \<le> 200 \<and> v \<in> {-1..1} \<and> w \<in> {-1..1}"

lemma drive_runs:
  assumes "drivable api now v w t ag"
  shows "foldl (agent_step parse api) ag
      [DataMessage now (json_stringify (drive_json v w t)), Resume (length (ag_pending ag)) now'] =
    ag\<lparr>ag_pending := ag_pending ag @ [([HandlerCall NotifyValid], Some \<lparr>ak_refType = ''drive'', ak_refT = t\<rparr>)],
       ag_log := ag_log ag @ [RobotDid (Drive (of_int v) (of_int w))]\<rparr>"
proof -
  have "HandleMessage (current_handler api ag) now (json_stringify (drive_json v w t)) =
      (Inr (Some \<lparr>ak_refType = ''drive'', ak_refT = t\<rparr>), [CallRobot (Drive (of_int v) (of_int w)), NotifyValid])"
    using assms unfolding drivable_def by (intro handle_drive) simp_all
  then show ?thesis using no_pong by (simp add: onDataMessage_def ag_go_def resume_def ag_emit_def)
qed

definition robot_calls :: "agentEvent list \<Rightarrow> robotCall list" where
  "robot_calls l = List.map_filter (\<lambda>e. case e of RobotDid c \<Rightarrow> Some c | _ \<Rightarrow> None) l"

lemma robot_calls_simps [simp]:
  "robot_calls [] = []" "robot_calls (l @ l') = robot_calls l @ robot_calls l'"
  "robot_calls (e # l) = (case e of RobotDid c \<Rightarrow> [c] | _ \<Rightarrow> []) @ robot_calls l"
  by (simp_all add: robot_calls_def map_filter_def split: agentEvent.split)







text \<open>An agent in a session whose token has expired, after an emergency stop.\<close>

definition stopped_agent :: "unit agent" where
  "stopped_agent =
     \<lparr>ag_manager = \<lparr>mg_robotID = ''r1'', mg_validator = None, mg_tokenCache = NewTokenCache 30000,
        mg_state = SessActive, mg_info = Some \<lparr>si_sessionID = ''s1'', si_operatorDID = ''d'',
          si_robotID = ''r1'', si_scope = [''teleop:control''], si_expiresAt = Some 0\<rparr>\<rparr>,
      ag_monitor = fst (monitor_OnEStop sample_monitor), ag_peer = True, ag_channel = True, ag_callback = None,
      ag_pending = [([], None)], ag_log = [RobotDid RobotEStop]\<rparr>"


section \<open>With the gateway and the console\<close>

lemma offer_connects:
  assumes "robot_Validate parse v now token sid = Inr claims"
    and "ag = foldl (agent_step parse api) (newAgent robotID (Some v) timeout threshold window onStop start)
      [Offer now sid token True answer, PeerConnected, Resume 0 now']"
  shows "mg_state (ag_manager ag) = SessActive \<and> ag_pending ag = [([], None)] \<and>
    mg_info (ag_manager ag) = Some \<lparr>si_sessionID = rk_sessionID claims, si_operatorDID = rk_subject claims,
      si_robotID = robotID, si_scope = rk_scope claims, si_expiresAt = rk_expiresAt claims\<rparr>"
  unfolding assms(2) using assms(1)
  by (cases answer) (simp_all add: newAgent_def NewManager_def NewTokenCache_def OnOffer_def ValidateToken_def
      tokenCache_Get_def claimsToInfo_def peerConnected_def manager_Activate_def ag_emit_def ag_go_def resume_def Let_def)

text \<open>
  (C15) A token of the gateway opens a session at the robot it was generated for, if the robot has the gateway's
  key: after the offer and the connection the session is active, for the operator and with exactly the
  actions that the gateway allowed.
\<close>

theorem gateway_token_opens_session:
  assumes "parses_signed parse sign pub" and "signs_compact sign"
    and "r = generate sign g input nowMs u n" and "tv_publicKey v = pub (tg_privateKey g)"
    and "tv_robotID v = gi_robotId input" and "now < gr_expiresAt r + tv_clockSkew v"
    and "ag = foldl (agent_step parse api)
      (newAgent (gi_robotId input) (Some v) timeout threshold window onStop start)
      [Offer now (gi_sessionId input) (gr_token r) True answer, PeerConnected, Resume 0 now']"
  shows "mg_state (ag_manager ag) = SessActive \<and>
    mg_info (ag_manager ag) = Some \<lparr>si_sessionID = gi_sessionId input, si_operatorDID = gi_operatorDid input,
      si_robotID = gi_robotId input, si_scope = gi_allowedActions input, si_expiresAt = Some (gr_expiresAt r)\<rparr> \<and>
    (\<forall>scope. HasScope (ag_manager ag) scope \<longleftrightarrow> scope \<in> set (gi_allowedActions input))"
proof -
  have "robot_Validate parse v now (gr_token r) (gi_sessionId input) =
      Inr \<lparr>rk_jti = gr_tokenId r, rk_sessionID = gi_sessionId input, rk_subject = gi_operatorDid input,
        rk_scope = gi_allowedActions input, rk_nonce = n, rk_expiresAt = Some (gr_expiresAt r)\<rparr>"
    using robot_reads_gateway_token [OF assms(1-4,6)] assms(5) by simp
  from offer_connects [OF this assms(7)] show ?thesis by (simp add: HasScope_def)
qed

abbreviation sample_generated :: tokenGenerationResult where
  "sample_generated \<equiv> generate stub_sign (createTokenGenerator () ''k'')
     \<lparr>gi_operatorDid = ''d'', gi_robotId = ''r1'', gi_sessionId = ''s1'',
      gi_allowedActions = [''teleop:control''], gi_ttlSeconds = 60\<rparr> 5999 ''u'' ''n''"

abbreviation sample_validator :: "unit tokenValidator" where
  "sample_validator \<equiv> \<lparr>tv_publicKey = (), tv_robotID = ''r1'', tv_clockSkew = 30000\<rparr>"

abbreviation sample_session :: "unit agent" where
  "sample_session \<equiv> foldl (agent_step stub_parse stubRobot)
     (newAgent ''r1'' (Some sample_validator) 500 10 30000
       (\<lambda>t. \<lparr>tt_trigger = t, tt_timestamp = 0, tt_duration = 0, tt_error = None\<rparr>) 0)
     [Offer 6000 ''s1'' (gr_token sample_generated) True None, PeerConnected, Resume 0 6000]"

lemma sample_expires: "gr_expiresAt sample_generated = 65000"
  by (simp add: generate_def Let_def)

theorem gateway_token_opens_session_witness:
  "HasScope (ag_manager sample_session) ''teleop:control''"
  using gateway_token_opens_session [OF stub_parses_signed stub_signs_compact refl,
      of sample_validator "\<lambda>k. ()" "createTokenGenerator () ''k''"
        "\<lparr>gi_operatorDid = ''d'', gi_robotId = ''r1'', gi_sessionId = ''s1'',
          gi_allowedActions = [''teleop:control''], gi_ttlSeconds = 60\<rparr>" 6000 5999 "''u''" "''n''" sample_session
        stubRobot 500 10 30000 "\<lambda>t. \<lparr>tt_trigger = t, tt_timestamp = 0, tt_duration = 0, tt_error = None\<rparr>" 0 None 6000]
    sample_expires
  by simp

text \<open>
  Every drive command that the console's keyboard computes is carried out as it is, when it arrives in
  the protocol's message at most 200 milliseconds old in a session that may control the robot.
\<close>

theorem keyboard_commands_driven:
  assumes "mg_state (ag_manager ag) = SessActive" and "HasScope (ag_manager ag) ScopeControl"
    and "int64_range t" and "t \<noteq> 0" and "now - t \<le> 200"
    and "c = calculateDriveCommand keys"
  shows "ag_log (foldl (agent_step parse stubRobot) ag
      [DataMessage now (json_stringify (drive_json (dc_v c) (dc_w c) t)), Resume (length (ag_pending ag)) now']) =
    ag_log ag @ [RobotDid (Drive (of_int (dc_v c)) (of_int (dc_w c)))]"
proof -
  have "dc_v c \<in> {-1..1}" "dc_w c \<in> {-1..1}"
    unfolding assms(6) by (simp_all add: calculateDriveCommand_def case_prod_unfold clamp_def Let_def)
  then have "drivable stubRobot now (dc_v c) (dc_w c) t ag"
    using assms by (simp add: drivable_def stubRobot_def)
  from drive_runs [OF this] show ?thesis by simp
qed

lemma sample_session_state:
  "mg_state (ag_manager sample_session) = SessActive" "HasScope (ag_manager sample_session) ScopeControl"
  "ag_pending sample_session = [([], None)]"
proof -
  have "robot_Validate stub_parse sample_validator 6000 (gr_token sample_generated) ''s1'' =
      Inr \<lparr>rk_jti = gr_tokenId sample_generated, rk_sessionID = ''s1'', rk_subject = ''d'',
        rk_scope = [''teleop:control''], rk_nonce = ''n'', rk_expiresAt = Some 65000\<rparr>"
    using robot_reads_gateway_token [OF stub_parses_signed stub_signs_compact refl, of sample_validator "\<lambda>k. ()"
        "createTokenGenerator () ''k''" 6000] sample_expires
    by simp
  from offer_connects [OF this refl, of stubRobot] show "mg_state (ag_manager sample_session) = SessActive"
    "HasScope (ag_manager sample_session) ScopeControl" "ag_pending sample_session = [([], None)]"
    by (simp_all add: HasScope_def ScopeControl_def del: agent_step.simps foldl_Cons)
qed

theorem keyboard_commands_driven_witness:
  "RobotDid (Drive 1 0) \<in> set (ag_log (foldl (agent_step stub_parse stubRobot) sample_session
     [DataMessage 6100 (json_stringify (drive_json 1 0 6050)), Resume 1 6100]))"
proof -
  have "calculateDriveCommand {''KeyW''} = \<lparr>dc_v = 1, dc_w = 0\<rparr>"
    by (simp add: calculateDriveCommand_def DRIVE_KEYS_def clamp_def)
  then show ?thesis
    using keyboard_commands_driven [OF sample_session_state(1,2), of 6050 6100 _ "{''KeyW''}" stub_parse 6100]
    unfolding sample_session_state(3) by (simp add: int64_range_def del: agent_step.simps foldl_Cons)
qed

lemma sample_drive:
  "RobotDid (Drive 1 0) \<in> set (ag_log (foldl (agent_step stub_parse stubRobot) sample_session
     [DataMessage 6100 (json_stringify (drive_json 1 0 6050)), Resume 1 6100]))"
proof -
  have "drivable stubRobot 6100 1 0 6050 sample_session"
    using sample_session_state by (simp add: drivable_def stubRobot_def int64_range_def del: foldl_Cons)
  from drive_runs [OF this] show ?thesis unfolding sample_session_state(3)
    by (simp del: agent_step.simps foldl_Cons)
qed

lemma sample_run:
  "foldl (agent_step stub_parse stubRobot) sample_session inputs =
     foldl (agent_step stub_parse stubRobot) (newAgent ''r1'' (Some sample_validator) 500 10 30000
       (\<lambda>t. \<lparr>tt_trigger = t, tt_timestamp = 0, tt_duration = 0, tt_error = None\<rparr>) 0)
     ([Offer 6000 ''s1'' (gr_token sample_generated) True None, PeerConnected, Resume 0 6000] @ inputs)"
  by (simp only: foldl_append)

theorem commands_justified_witness:
  "\<exists>earlier now data later info. [Offer 6000 ''s1'' (gr_token sample_generated) True None,
     PeerConnected, Resume 0 6000] @ [DataMessage 6100 (json_stringify (drive_json 1 0 6050)), Resume 1 6100] =
       earlier @ DataMessage now data # later \<and> authorized stub_parse (Some sample_validator) (set earlier) info"
  using commands_justified [OF refl sample_drive [unfolded sample_run]] by blast

theorem revocation_is_final_witness:
  "latched (ag_monitor (foldl (agent_step stub_parse stubRobot) (foldl (agent_step stub_parse stubRobot) sample_session
      (Revocation ''s1'' ''stop'' # [Resume 1 7000, Resume 1 7000, PeerEnded, Resume 1 7000, Resume 1 7000]))
      [PeerConnected, Tick]))"
proof -
  let ?meanwhile = "[Resume 1 7000, Resume 1 7000, PeerEnded, Resume 1 7000, Resume 1 7000]"
  have "1 = length (ag_pending sample_session)" unfolding sample_session_state(3) by simp
  moreover have "4 \<le> length (filter (is_resume 1) ?meanwhile)" by simp
  moreover have "begun sample_session" using sample_session_state
    by (simp add: begun_def del: agent_step.simps foldl_Cons)
  ultimately show ?thesis using revocation_is_final [OF _ refl _ refl] by blast
qed

theorem late_reset_unlatches_witness:
  "\<exists>ag. mg_state (ag_manager ag) = SessTerminated \<and> \<not> so_stopped (ag_monitor (ag :: unit agent))"
proof -
  let ?ag = "newAgent ''r1'' (Some sample_validator) 500 10 30000
      (\<lambda>t. \<lparr>tt_trigger = t, tt_timestamp = 0, tt_duration = 0, tt_error = None\<rparr>) 0
      \<lparr>ag_callback := Some \<lparr>si_sessionID = ''s1'', si_operatorDID = ''d'', si_robotID = ''r1'', si_scope = [],
        si_expiresAt = None\<rparr>\<rparr>"
  have "mg_state (ag_manager ?ag) = SessPending" "ag_callback ?ag \<noteq> None"
    by (simp_all add: newAgent_def NewManager_def)
  then show ?thesis using late_reset_unlatches [OF _ _ refl refl, of ?ag] by blast
qed

text \<open>
  The gateway never lets the robot into a session: its join message names neither a token nor a session,
  and is answered with the error for a missing token.
\<close>

lemma robot_join_plain: "plain (robot_join robotID)"
  by (simp add: robot_join_def)

theorem robot_join_refused:
  "onMessage s registry ws c (json_stringify (robot_join robotID)) now =
     Inr (sendError s ws (se_code MISSING_TOKEN) (se_message MISSING_TOKEN), registry)"
  unfolding onMessage_def json_roundtrip_compact [OF robot_join_plain]
  by (simp add: robot_join_def handleJoin_def validateJoinToken_def)

lemma signal_of_declared:
  "signal_input now created answer (json_stringify (message_json m)) =
    (case m of OfferMessage sid sdp \<Rightarrow> Some (Offer now sid [] created answer)
     | RevokedMessage sid reason \<Rightarrow> Some (Revocation sid reason) | _ \<Rightarrow> None)"
proof -
  have "plain (message_json m)" by (cases m) simp_all
  from go_unmarshal_plain [OF this] show ?thesis
    by (cases m) (simp_all add: signal_input_def decode_signal_def go_defs ascii_lower_def)
qed

lemma empty_token_refused:
  assumes "cache_valid parse m"
  shows "\<exists>err. ValidateToken parse m sid [] now = (Inl err, m)"
proof (cases "ValidateToken parse m sid [] now")
  case (Pair result m')
  have "robot_Validate parse v t [] sid = Inl RtInvalidToken" for v t by (simp add: robot_Validate_def)
  then have "\<nexists>info. result = Inr info" using validate_cases [OF _ assms, of sid "[]" now] Pair by fastforce
  then show ?thesis using Pair
    by (cases result) (auto simp: ValidateToken_def split: if_splits option.splits sum.splits)
qed

lemma agent_cache:
  "cache_valid parse (ag_manager (foldl (agent_step parse api)
     (newAgent robotID validator timeout threshold window onStop start) inputs))"
  using run_justified [of parse validator inputs api robotID timeout threshold window onStop start]
  by (simp add: justified_def)

text \<open>
  Of the signaling messages as the gateway declares them the robot acts on a revocation only: an offer
  carries no token for it, so it is refused, and the others mean nothing to it.
\<close>

theorem robot_ignores_declared_messages:
  assumes "ag = foldl (agent_step parse api) (newAgent robotID validator timeout threshold window onStop start) inputs"
    and "signal_input now created answer (json_stringify (message_json m)) = Some x"
  shows "agent_step parse api ag x = ag \<or>
    (\<exists>sid reason. m = RevokedMessage sid reason \<and> x = Revocation sid reason)"
proof -
  have "agent_step parse api ag (Offer now sid [] created answer) = ag" for sid
  proof -
    obtain err where "ValidateToken parse (ag_manager ag) sid [] now = (Inl err, ag_manager ag)"
      unfolding assms(1) using empty_token_refused [OF agent_cache] by blast
    then show ?thesis by (simp add: OnOffer_def)
  qed
  then show ?thesis using assms(2) by (auto simp: signal_of_declared split: signalingMessage.splits)
qed

theorem robot_ignores_declared_messages_witness:
  "agent_step stub_parse stubRobot sample_session (Offer 9000 ''s2'' [] True None) = sample_session"
proof -
  have "signal_input 9000 True None (json_stringify (message_json (OfferMessage ''s2'' ''v=0''))) =
      Some (Offer 9000 ''s2'' [] True None)"
    unfolding signal_of_declared by simp
  from robot_ignores_declared_messages [OF refl this] show ?thesis by blast
qed

text \<open>
  The two ends read a message differently: member names are exact for the gateway and without case for the
  robot. So a peer in the room can send an offer, which the gateway relays as such, that the
  robot takes for the gateway's revocation of the session.
\<close>

theorem peer_can_forge_revocation:
  "\<exists>msg. get_prop msg ''type'' = JStr ''offer'' \<and>
     (\<forall>s registry ws c now room. joined_session c = Some room \<longrightarrow>
        onMessage s registry ws c (json_stringify msg) now =
          Inr (broadcast s room msg (Some (cn_peerId c)), registry)) \<and>
     (\<forall>now created answer.
        signal_input now created answer (json_stringify msg) = Some (Revocation ''s1'' ''forged''))"
proof -
  let ?msg = "JObj [(''type'', JStr ''offer''), (''TYPE'', JStr ''revoked''), (''session_id'', JStr ''s1''),
    (''reason'', JStr ''forged'')]"
  have plain: "plain ?msg" by simp
  have lower: "map ascii_lower ''TYPE'' = ''type''" by code_simp
  have type: "get_prop ?msg ''type'' = JStr ''offer''" by simp
  moreover have "onMessage s registry ws c (json_stringify ?msg) now =
      Inr (broadcast s room ?msg (Some (cn_peerId c)), registry)"
    if "joined_session c = Some room" for s registry ws c now room
    unfolding onMessage_def json_roundtrip_compact [OF plain] using that by simp
  moreover have "signal_input now created answer (json_stringify ?msg) = Some (Revocation ''s1'' ''forged'')"
    for now created answer
    unfolding signal_input_def decode_signal_def go_unmarshal_plain [OF plain] using lower
    by (simp add: go_defs ascii_lower_def)
  ultimately show ?thesis by blast
qed

text \<open>
  (C17) An emergency stop sent in an active session takes effect whatever its age, the scope of the session
  and the state of the monitor: its two calls stop the robot and latch the monitor.
\<close>

theorem estop_stops_robot:
  assumes "mg_state (ag_manager ag) = SessActive" and "int64_range t" and "n = length (ag_pending ag)"
    and "ag' = foldl (agent_step parse api) ag
      [DataMessage now (json_stringify (estop_json t)), Resume n now1, Resume n now2]"
  shows "latched (ag_monitor ag') \<and>
    (\<exists>calls. robot_calls (ag_log ag') = robot_calls (ag_log ag) @ calls @ [RobotEStop])"
proof -
  have data: "go_unmarshal (json_stringify (estop_json t)) = Some [(''type'', JStr ''e_stop''), (''t'', JNum (of_int t))]"
    unfolding go_unmarshal_plain [OF plain_messages(4)] by (simp add: estop_json_def go_object_def)
  have "snd (HandleMessage (current_handler api ag) now (json_stringify (estop_json t))) =
      [NotifyEStop, CallRobot RobotEStop]"
    using assms(1,2) data
    by (cases "api RobotEStop")
      (simp_all add: HandleMessage_def decode_type_def go_defs ascii_lower_def handler_defs decode_estop_def)
  moreover have "Option.bind (go_unmarshal (json_stringify (estop_json t))) decode_type \<noteq> Some ''pong''"
    using data by (simp add: decode_type_def go_defs ascii_lower_def)
  ultimately obtain ack where "onDataMessage api now (json_stringify (estop_json t)) ag =
      ag\<lparr>ag_pending := ag_pending ag @ [([HandlerCall NotifyEStop, HandlerCall (CallRobot RobotEStop)], ack)]\<rparr>"
    by (simp add: onDataMessage_def ag_go_def case_prod_unfold Let_def)
  then have "ag' = ag_emit (RobotDid RobotEStop) (call_monitor api monitor_OnEStop
      (ag\<lparr>ag_pending := ag_pending ag @ [([], ack)]\<rparr>))"
    unfolding assms(3,4) by (simp add: resume_def call_monitor_eq ag_emit_def)
  then show ?thesis
    by (simp add: ag_emit_def call_monitor_eq latched_def monitor_OnEStop_def)
qed

theorem estop_stops_robot_witness:
  "latched (ag_monitor (foldl (agent_step stub_parse stubRobot) sample_session
     [DataMessage 9000 (json_stringify (estop_json 5)), Resume 1 9001, Resume 1 9002]))"
  using estop_stops_robot [OF sample_session_state(1) _ _ refl, of 5 1 stub_parse stubRobot 9000 9001 9002]
  unfolding sample_session_state(3) by (simp add: int64_range_def del: agent_step.simps foldl_Cons)

text \<open>
  The emergency stop is not accepted whatever its time stamp: with a fraction of a millisecond, which is
  no 64-bit integer, it is an invalid message, and the robot is not stopped.
\<close>

theorem fractional_estop_refused:
  assumes "isSessionActive h"
  shows "HandleMessage h now ''{\"type\":\"e_stop\",\"t\":1.5}'' = (Inl HandlerInvalidJSON, notifyInvalid h)"
proof -
  have "go_unmarshal ''{\"type\":\"e_stop\",\"t\":1.5}'' = Some [(''type'', JStr ''e_stop''), (''t'', JNum (3/2))]"
    by code_simp
  moreover have "decode_estop [(''type'', JStr ''e_stop''), (''t'', JNum (3/2))] = None" by code_simp
  moreover have "decode_type [(''type'', JStr ''e_stop''), (''t'', JNum (3/2))] = Some ''e_stop''" by code_simp
  ultimately show ?thesis using assms by (simp add: HandleMessage_def handle_case_def)
qed

theorem fractional_estop_refused_witness:
  "HandleMessage (agent_handler stubRobot True (\<lambda>s. True)) 2 ''{\"type\":\"e_stop\",\"t\":1.5}'' =
     (Inl HandlerInvalidJSON, [NotifyInvalid])"
  using fractional_estop_refused [of "agent_handler stubRobot True (\<lambda>s. True)" 2]
  by (simp add: isSessionActive_def agent_handler_def notifyInvalid_def)

text \<open>
  The console is not told of the stop of a revoked session: the agent closes the transport before the
  monitor stops the robot, so the message about the stop has no channel to go through. All that follows
  is one stop of the robot, if it was not stopped, and the audit event.
\<close>

theorem revocation_effects:
  assumes "ag_peer ag" and "so_safeStopFn (ag_monitor ag) \<noteq> None" and "n = length (ag_pending ag)"
  shows "ag_log (foldl (agent_step parse api) ag (Revocation sid reason # replicate 4 (Resume n now))) = ag_log ag @
    (if so_stopped (ag_monitor ag) then [] else [RobotDid RobotEStop]) @ [Published ''SESSION_REVOKED'' sid reason]"
  using assms
  by (auto simp: agent_OnRevoked_def ag_go_def resume_def nth_append list_update_append numeral_eq_Suc
      transport_Close_def Let_def ag_emit_def call_monitor_eq monitor_OnRevoked_def stop_events_def)

theorem revocation_effects_witness:
  "ag_log (foldl (agent_step stub_parse stubRobot) stopped_agent
      (Revocation ''s1'' ''x'' # replicate 4 (Resume 1 5000))) =
     [RobotDid RobotEStop, Published ''SESSION_REVOKED'' ''s1'' ''x'']"
  using revocation_effects [of stopped_agent 1 stub_parse stubRobot "''s1''" "''x''" 5000]
  by (simp add: stopped_agent_def monitor_OnEStop_def NewMonitor_def del: agent_step.simps)

end
