(* ===== verification/Spec2Isabelle.thy ===== *)
theory Spec2Isabelle
  imports Provenance PolicyValidator PolicyLog CredentialTypes ClientTypes
    KeyboardInput MouseInput WebRTC IceConfig ConsoleMarkup
    StatusLifecycle StatsPolling RobotRuns
begin

text \<open>
  A verification development of ChainKVM, a system for operating robots remotely: an operator's
  console in the browser, a gateway that admits sessions, issues and revokes capability tokens and
  relays the signaling of peer connections, and an agent on the robot. The development models the
  TypeScript of the gateway (\<open>services/gateway/src\<close>) and of the console (\<open>apps/console/src\<close>), and the
  control path of the agent, which is in Go (\<open>robot-agent\<close>).

  \<^bold>\<open>How the program works.\<close> An operator asks the gateway for a session (\<open>POST /v1/sessions\<close>) with a
  verifiable credential. The gateway decodes it, evaluates the stored policy, and issues a token,
  which it registers. Both peers join the session's signaling room over a WebSocket with their
  token and exchange offers, answers and candidates through it; then they talk directly. A token
  is refreshed before it expires. An administrator revokes a session or an operator: the sessions
  change state, their tokens go into a revocation cache, which is kept in a file, and their rooms
  are torn down after the members were told. The agent validates the token of an offer, takes commands from
  the data channel while the session is active, and stops the robot when its safety monitor says so.

  \<^bold>\<open>Theories, in the order of the code.\<close>

  \<^item> \<open>Prelude\<close>, \<open>JsMap\<close>, \<open>JsValue\<close>, \<open>IsoTime\<close>, \<open>JsJson\<close>, \<open>JsJsonRoundtrip\<close>, \<open>Base64\<close>: what the
    language gives the program: time values, strings, the insertion-ordered \<open>Map\<close>, untyped values
    with their comparisons and coercions, ISO dates, \<open>JSON.parse\<close> and \<open>JSON.stringify\<close> and
    base64url. The contracts \<open>invariant_system\<close>, \<open>stable_property\<close> and \<open>step_invariant\<close> and the
    contract of a map are locales, each interpreted on the model's definitions.
  \<^item> \<open>CacheMetrics\<close>, \<open>RevocationCache\<close>, \<open>RevocationStore\<close>, \<open>TokenRegistry\<close>, \<open>ExpiryMonitor\<close>,
    \<open>TokenKeys\<close>: \<open>tokens/*.ts\<close> and \<open>routes/jwks.ts\<close>. The revocation file is its text; in
    \<open>store_step\<close> several appends read, truncate and write it piece by piece, in any order.
  \<^item> \<open>PolicyEval\<close>, \<open>PolicyStore\<close>, \<open>PolicyValidator\<close>: \<open>policy/*.ts\<close>. \<open>PolicyLog\<close> is what the store promises, a
    log of drafts for each id, and the proof that the store with its two maps refines it.
  \<^item> \<open>TtlCache\<close>, \<open>DidKey\<close>, \<open>Credentials\<close>: \<open>identity/*.ts\<close> and \<open>credentials/*.ts\<close>.
  \<^item> \<open>Config\<close>, \<open>SessionPolicy\<close>, \<open>Sessions\<close>, \<open>Revocations\<close>, \<open>Signaling\<close>, \<open>AuditRoutes\<close>: \<open>config.ts\<close> and
    \<open>routes/*.ts\<close>. A handler is a function from the module's state and the request to a reply and a
    new state; the two that await the token generator are split there, into a part that begins and a
    part that finishes. The body of a revocation is any JSON value, since nothing checks it.
  \<^item> \<open>ApiTypes\<close>: the declared types of the interface (\<open>types.ts\<close>) as data, what it is for a reply to
    have one, and where replies do not. \<open>CredentialTypes\<close>: the same for credentials, verification results and the context of
    a policy evaluation.
  \<^item> \<open>Gateway\<close>, \<open>GatewayLifecycle\<close>: \<open>index.ts\<close>. \<open>boot\<close> builds and wires the modules; \<open>gw_step\<close> is the
    running process, one rule for each synchronous stretch of a handler, timer or socket event, with
    the requests in flight in its state. \<open>Provenance\<close>: which requests of a run its sessions, its tokens and
    the states of its sessions go back to.
  \<^item> \<open>Refinement\<close>, \<open>Authority\<close>, \<open>GatewayRefinement\<close>: the abstract specification of the gateway, an
    authority that opens, renews, settles and withdraws grants, and the proof that \<open>gw_step\<close>
    implements it under a functional view of its state. \<open>refinement\<close> is the locale of such a
    simulation; what the authority keeps is transferred through its interpretation.
  \<^item> \<open>KeyboardInput\<close>, \<open>MouseInput\<close>, \<open>Reconnect\<close>, \<open>WebRTC\<close>, \<open>FrameTimestamps\<close>, \<open>VideoLatency\<close>,
    \<open>ConnectionStats\<close>, \<open>StatsPolling\<close>, \<open>SignalingClient\<close>, \<open>IceConfig\<close>: the hooks and utilities of the console. A
    hook is a record of its refs and its state; its handlers, timers and effects are steps on it, and
    the calls it makes to the handlers of the caller are returned in order.
  \<^item> \<open>SignalingTypes\<close>, \<open>ClientTypes\<close>: the declared types of signaling messages, the gateway's (\<open>types.ts\<close>) and
    the console's (\<open>hooks/useSignaling.ts\<close>), against what both ends send and hand on.
  \<^item> \<open>SessionDisplay\<close>, \<open>StatusLifecycle\<close>, \<open>VideoRenderer\<close>: the components with state: effects, timers,
    and a view of what they show. \<open>Markup\<close>, \<open>ConsoleMarkup\<close>: the trees that the components return, the static layout
    included, as functions of props and state, and their mounting into the page (\<open>main.tsx\<close>).

  \<^item> \<open>GoJson\<close>, \<open>RobotSafety\<close>, \<open>RobotToken\<close>, \<open>RobotControl\<close>, \<open>RobotAgent\<close>, \<open>RobotRuns\<close>: the agent
    (\<open>internal/safety\<close>, \<open>internal/session\<close>, \<open>internal/control\<close>, \<open>cmd/agent\<close>): what Go's \<open>json.Unmarshal\<close>
    reads, the safety monitor, key sets, tokens and the session manager, the handler of control
    messages, and the agent that joins them. \<open>agent_step\<close> takes a signaling message, a connection event, a
    data message, a tick, or the next call of a goroutine that one of these started, in any order.

  \<^bold>\<open>What the lemmas show.\<close> Each component has the invariant of its state and the proof that every
  operation keeps it, and the effect of every operation on every branch. Across components:

  \<^item> every run of the gateway is a run of the authority, each event being what \<open>serves\<close> allows for it,
    and it accepts a token only where the authority admits the session; in particular no session ever
    has two tokens, and a refresh in flight leaves it none;
  \<^item> the gateway as a whole keeps \<open>gw_ok\<close> (every registered token belongs to an existing session of the
    same operator and robot) and, once a session is revoked or terminated with no refresh in flight,
    never accepts a token for it again; a refresh in flight is the exception, and is proved to be one;
  \<^item> every session and every token goes back to a session creation that the default policy admitted, and
    every terminated or revoked session to a request that ended it; no session is ever active;
  \<^item> a revocation written to the file is effective after a restart; appends that do not overlap keep the
    file loadable and lose nothing, and overlapping ones are proved to lose an entry or to spoil the file;
  \<^item> the policy store answers as a log of drafts does, which determines its versions, dates and hashes;
  \<^item> the messages that the gateway makes have the declared message type, but for a revocation without a
    textual reason; a session reply has its type exactly if the limits are configured as numbers, and an audit
    reply exactly if no page is asked for; verification results and evaluation contexts have theirs exactly as far as the signer's
    payload does;
  \<^item> the texts the console's signaling client writes are those the gateway's handlers read, an offer
    crosses the gateway unchanged, and a revocation arrives in the client's state;
  \<^item> the document of a component shows a figure, under its test id, exactly when its view does, and the
    document of the application keeps its ids unique and its references resolved;
  \<^item> a command that the robot carries out is what an earlier data message asked for, when the session was
    active by a validated token that allows it; a revocation ends the session of the agent for good, but
    a reset of the monitor still to come releases its stop; a token of the gateway opens exactly
    the session it was generated for, if the robot has the gateway's key, which as wired it never has; and
    a stop other than a loss of control does not keep the robot from being driven;
  \<^item> the console's last drive command and its button masks are those of the keys and buttons that the
    events leave down;
  \<^item> the reconnection logic inside \<open>useWebRTC\<close> refines that of \<open>useWebRTCReconnect\<close>.

  \<^bold>\<open>Bounds and fuel.\<close> The JSON parser runs on fuel twice the length of the text plus two, which is
  proved to be enough for every text. The reconnection timers are drained by a total function, whose
  termination argument counts the attempts left and then the timers. \<open>settle\<close> in \<open>MouseInput\<close> is a
  partial function, since rendering there need not end, and the property says when it does. The
  bounds of the program are those of the code: a hundred time stamps, the maxima of the caches, 32
  bits of a button mask. Numbers are exact: integers for counters and times, rationals for the
  values of JSON and of measurements; rounding of floating-point numbers is not modelled.

  \<^bold>\<open>Parameters.\<close> Code outside the repository is an argument of the definitions that use it: the
  signing and verification of \<open>jose\<close> and of golang-jwt, SHA-256, the base58 and varint decoders, random identifiers, the
  clock, \<open>Date.parse\<close>, the environment, and the text of the engine's error messages. What is relied
  on is named as a hypothesis (for instance \<open>signs_compact\<close>: a signer produces the compact form),
  with a witness that it can hold.

  \<^bold>\<open>Not modelled.\<close> Bodies of session requests that are not of their declared type: nothing in the gateway
  checks them, and what becomes of one is decided by \<open>jose\<close>, which puts the fields into the token. The agent's video pipeline, measurements, audit publisher and configuration, its
  message router and safe-stop executor, which it does not use, and the retry of its signaling
  connection; Fastify's routing and schema checks, the browser's WebRTC,
  media and DOM implementations (their events are inputs), React's scheduling beyond the order of
  effects and its strict mode, style sheets, process signals and console output. Index modules and pure type declarations that no modelled code reads have no counterpart either.
\<close>

end
